(* ===== verification/Prelude.thy ===== *)
theory Prelude
  imports
    Main
    "HOL-Library.Word"
    "HOL-Library.Multiset"
    "HOL-Library.List_Lexorder"
    "HOL-Library.AList"
    "HOL-Library.Sublist"
    "HOL-Library.Char_ord"
begin

text \<open>
  The base of the development: the machine types the Rust sources use and the
  generic facts on lists, association lists, options and words that the
  component theories share.

  \<^item> A \<^verbatim>\<open>Vec<u8>\<close> is a list of 8-bit words.  Rust compares byte vectors
    lexicographically, which is the order \<^verbatim>\<open>List_Lexorder\<close> puts on lists.
  \<^item> \<^verbatim>\<open>u64\<close>, \<^verbatim>\<open>u32\<close> and \<^verbatim>\<open>i64\<close> are words of their width: \<open>+\<close> wraps, and the
    saturating and checked operations of the standard library are defined below.
    An \<^verbatim>\<open>i64\<close> is compared with the signed order of \<^verbatim>\<open>Word\<close>.
  \<^item> A \<^verbatim>\<open>usize\<close> that counts objects held in memory is a natural number.
  \<^item> A \<^verbatim>\<open>HashMap\<close> or \<^verbatim>\<open>DashMap\<close> is an association list with distinct keys; the
    position of an entry is its place in the map's iteration order, on which no
    result may depend.
  \<^item> A \<^verbatim>\<open>Result<T, E>\<close> is a sum whose left summand is the error.
\<close>

section \<open>Collections of rules\<close>

named_theorems unat_ops \<open>the value of a saturating or checked word operation\<close>
named_theorems alist_ops \<open>lookup after an update of an association list\<close>
named_theorems invs \<open>preservation of a component's invariant by its operations\<close>

section \<open>Machine types\<close>

type_synonym u8 = "8 word"
type_synonym u32 = "32 word"
type_synonym u64 = "64 word"
type_synonym i64 = "64 word"
type_synonym bytes = "8 word list"
type_synonym 'v amap = "(bytes \<times> 'v) list"
type_synonym io_error = string

definition u64_max :: u64 where
  "u64_max = - 1"

definition saturating_add :: "'a::len word \<Rightarrow> 'a word \<Rightarrow> 'a word" where
  "saturating_add a b = (if a \<le> a + b then a + b else - 1)"

definition saturating_sub :: "'a::len word \<Rightarrow> 'a word \<Rightarrow> 'a word" where
  "saturating_sub a b = (if b \<le> a then a - b else 0)"

definition saturating_mul :: "'a::len word \<Rightarrow> 'a word \<Rightarrow> 'a word" where
  "saturating_mul a b =
     (if unat a * unat b < 2 ^ LENGTH('a) then a * b else - 1)"

definition checked_add :: "'a::len word \<Rightarrow> 'a word \<Rightarrow> 'a word option" where
  "checked_add a b = (if a \<le> a + b then Some (a + b) else None)"

definition checked_sub :: "'a::len word \<Rightarrow> 'a word \<Rightarrow> 'a word option" where
  "checked_sub a b = (if b \<le> a then Some (a - b) else None)"

text \<open>\<^verbatim>\<open>u64::to_be_bytes\<close>: the eight bytes of a word, most significant first.\<close>

definition to_be_bytes :: "u64 \<Rightarrow> bytes" where
  "to_be_bytes x = map (\<lambda>i. ucast (drop_bit (8 * i) x)) [7, 6, 5, 4, 3, 2, 1, 0]"

section \<open>Values of the word operations\<close>

lemma le_add_iff_no_overflow:
  fixes a b :: "'a::len word"
  shows "a \<le> a + b \<longleftrightarrow> unat a + unat b < 2 ^ LENGTH('a)"
  by (rule no_olen_add_nat)

lemma unat_minus_one_max: "unat (- 1 :: 'a::len word) = 2 ^ LENGTH('a) - 1"
  by transfer (simp add: mask_eq_exp_minus_1 nat_diff_distrib nat_power_eq take_bit_minus_one_eq_mask)

lemma unat_saturating_add [unat_ops]:
  fixes a b :: "'a::len word"
  shows "unat (saturating_add a b) = min (unat a + unat b) (2 ^ LENGTH('a) - 1)"
proof (cases "unat a + unat b < 2 ^ LENGTH('a)")
  case True
  then have "unat (a + b) = unat a + unat b" by (rule unat_add_lem [THEN iffD1])
  with True show ?thesis by (simp add: saturating_add_def le_add_iff_no_overflow)
next
  case False
  then show ?thesis by (simp add: saturating_add_def le_add_iff_no_overflow unat_minus_one_max)
qed

lemma unat_saturating_sub [unat_ops]:
  "unat (saturating_sub a b) = unat a - unat b"
  by (simp add: saturating_sub_def unat_sub word_le_nat_alt)

lemma unat_saturating_mul [unat_ops]:
  fixes a b :: "'a::len word"
  shows "unat (saturating_mul a b) = min (unat a * unat b) (2 ^ LENGTH('a) - 1)"
proof (cases "unat a * unat b < 2 ^ LENGTH('a)")
  case True
  then have "unat (a * b) = unat a * unat b" by (rule unat_mult_lem [THEN iffD1])
  with True show ?thesis by (simp add: saturating_mul_def)
next
  case False
  then show ?thesis by (simp add: saturating_mul_def unat_minus_one_max)
qed

section \<open>Splitting a list at an element\<close>

lemma ex_split_Cons:
  "(\<exists>pre post. a # ks = pre @ k # post \<and> P pre) \<longleftrightarrow>
   (k = a \<and> P []) \<or> (\<exists>pre post. ks = pre @ k # post \<and> P (a # pre))"
  by (auto simp: Cons_eq_append_conv)

lemma length_takeWhile_less:
  "x \<in> set xs \<Longrightarrow> \<not> P x \<Longrightarrow> length (takeWhile P xs) < length xs"
  by (induction xs) auto

section \<open>Sums over lists\<close>

lemma sum_list_mset_eq:
  fixes f :: "'a \<Rightarrow> nat"
  assumes "mset xs = mset ys"
  shows "sum_list (map f xs) = sum_list (map f ys)"
  unfolding sum_mset_sum_list [symmetric] mset_map assms ..

lemma sum_list_le_concat:
  fixes f :: "'a \<Rightarrow> nat"
  shows "xs \<in> set xss \<Longrightarrow> sum_list (map f xs) \<le> sum_list (map f (concat xss))"
  by (induction xss) auto

section \<open>Hash maps and their iteration orders\<close>

text \<open>
  Two association lists are the same hash map seen in two iteration orders when
  their keys are distinct and one is a permutation of the other.
\<close>

definition same_map :: "('k \<times> 'v) list \<Rightarrow> ('k \<times> 'v) list \<Rightarrow> bool" where
  "same_map m n \<longleftrightarrow> distinct (map fst m) \<and> mset m = mset n"

text \<open>Collecting a hash map into a \<^verbatim>\<open>BTreeMap\<close>: its entries in key order.\<close>

definition btree_of :: "('k::linorder \<times> 'v) list \<Rightarrow> ('k \<times> 'v) list" where
  "btree_of m = sort_key fst m"

text \<open>\<^verbatim>\<open>Result::unwrap_or_default\<close> at a vector type.\<close>

definition unwrap_or_nil :: "'e + 'a list \<Rightarrow> 'a list" where
  "unwrap_or_nil r = (case r of Inl _ \<Rightarrow> [] | Inr b \<Rightarrow> b)"

text \<open>\<^verbatim>\<open>str::as_bytes\<close>; a Rust string is the sequence of its UTF-8 code units.\<close>

definition as_bytes :: "string \<Rightarrow> bytes" where
  "as_bytes s = map of_char s"

lemma same_map_distinct: "same_map m n \<Longrightarrow> distinct (map fst m) \<and> distinct (map fst n)"
  unfolding same_map_def by (metis mset_eq_imp_distinct_iff mset_map)

lemma same_map_set: "same_map m n \<Longrightarrow> set m = set n"
  unfolding same_map_def by (metis set_mset_mset)

lemma same_map_map_of: "same_map m n \<Longrightarrow> map_of m = map_of n"
  using same_map_distinct same_map_set map_of_inject_set by blast

lemma same_map_btree_of:
  fixes m n :: "('k::linorder \<times> 'v) list"
  assumes "same_map m n"
  shows "btree_of m = btree_of n"
proof -
  have "inj_on fst (set m)"
    using same_map_distinct [OF assms] by (simp add: distinct_map)
  moreover have "mset m = mset (btree_of n)"
    using assms by (simp add: same_map_def btree_of_def)
  ultimately show ?thesis
    unfolding btree_of_def by (intro sort_key_inj_key_eq) simp_all
qed

lemma same_map_filter_keys:
  fixes m n :: "('k::linorder \<times> 'v) list"
  assumes "same_map m n"
  shows "sort (map fst (filter P m)) = sort (map fst (filter P n))"
proof (rule properties_for_sort)
  show "mset (sort (map fst (filter P n))) = mset (map fst (filter P m))"
    using assms by (simp add: same_map_def)
qed simp

lemma map_of_filter_key:
  "distinct (map fst m) \<Longrightarrow>
   k \<in> set (map fst (filter (\<lambda>kv. P (snd kv)) m)) \<longleftrightarrow> (\<exists>v. map_of m k = Some v \<and> P v)"
  by (auto intro: rev_image_eqI map_of_SomeD)

lemma fold_saturating_add [unat_ops]:
  fixes a :: "'a::len word"
  shows "unat (fold (\<lambda>v acc. saturating_add acc v) vs a) =
         min (unat a + sum_list (map unat vs)) (2 ^ LENGTH('a) - 1)"
proof (induction vs arbitrary: a)
  case Nil
  have "unat a < 2 ^ LENGTH('a)" by (rule unsigned_less)
  then have "unat a \<le> 2 ^ LENGTH('a) - 1" by linarith
  then show ?case by simp
next
  case (Cons v vs)
  have "unat (fold (\<lambda>v acc. saturating_add acc v) (v # vs) a) =
        min (min (unat a + unat v) (2 ^ LENGTH('a) - 1) + sum_list (map unat vs)) (2 ^ LENGTH('a) - 1)"
    using Cons.IH [of "saturating_add a v"] by (simp only: fold_simps comp_apply unat_saturating_add)
  then show ?case by (simp only: list.map sum_list.Cons) linarith
qed

end
