(* ===== verification/Stake_Sets.thy ===== *)
theory Stake_Sets
  imports Prelude
begin

text \<open>
  The weighted key sets of \<^verbatim>\<open>src/epoch/stake_sets.rs\<close>: \<^verbatim>\<open>StakeSet\<close> and
  \<^verbatim>\<open>ExecutorSet\<close>, their saturating totals, their conversions and their canonical
  fingerprints.  The MessagePack encoder of a sorted map and the SHA-256 function
  are parameters.
\<close>

section \<open>Stake sets\<close>

record stake_set =
  stakers :: "u64 amap"

record executor_set =
  executors :: "u64 amap"

definition total_stake :: "stake_set \<Rightarrow> u64" where
  "total_stake ss = fold (\<lambda>v acc. saturating_add acc v) (map snd (stakers ss)) 0"

definition get_stake :: "stake_set \<Rightarrow> bytes \<Rightarrow> u64" where
  "get_stake ss key = (case map_of (stakers ss) key of Some v \<Rightarrow> v | None \<Rightarrow> 0)"

definition to_executor_set :: "stake_set \<Rightarrow> executor_set" where
  "to_executor_set ss = \<lparr>executors = stakers ss\<rparr>"

definition canonical_bytes ::
    "((bytes \<times> u64) list \<Rightarrow> io_error + bytes) \<Rightarrow> stake_set \<Rightarrow> io_error + bytes" where
  "canonical_bytes rmp ss = rmp (btree_of (stakers ss))"

text \<open>\<^verbatim>\<open>try_into().unwrap_or([0u8; 32])\<close>: a digest of any other length becomes zeros.\<close>

definition array32_or_zero :: "bytes \<Rightarrow> bytes" where
  "array32_or_zero b = (if length b = 32 then b else replicate 32 0)"

definition fingerprint ::
    "(bytes \<Rightarrow> bytes) \<Rightarrow> ((bytes \<times> u64) list \<Rightarrow> io_error + bytes) \<Rightarrow> stake_set \<Rightarrow> bytes" where
  "fingerprint sha rmp ss = array32_or_zero (sha (unwrap_or_nil (canonical_bytes rmp ss)))"

section \<open>Executor sets\<close>

definition ex_total_stake :: "executor_set \<Rightarrow> u64" where
  "ex_total_stake es = fold (\<lambda>v acc. saturating_add acc v) (map snd (executors es)) 0"

definition ex_len :: "executor_set \<Rightarrow> nat" where
  "ex_len es = length (executors es)"

definition ex_is_empty :: "executor_set \<Rightarrow> bool" where
  "ex_is_empty es \<longleftrightarrow> executors es = []"

definition ex_get_stake :: "executor_set \<Rightarrow> bytes \<Rightarrow> u64" where
  "ex_get_stake es key = (case map_of (executors es) key of Some v \<Rightarrow> v | None \<Rightarrow> 0)"

definition to_stake_set :: "executor_set \<Rightarrow> stake_set" where
  "to_stake_set es = \<lparr>stakers = executors es\<rparr>"

definition ex_canonical_bytes ::
    "((bytes \<times> u64) list \<Rightarrow> io_error + bytes) \<Rightarrow> executor_set \<Rightarrow> io_error + bytes" where
  "ex_canonical_bytes rmp es = rmp (btree_of (executors es))"

definition ex_fingerprint ::
    "(bytes \<Rightarrow> bytes) \<Rightarrow> ((bytes \<times> u64) list \<Rightarrow> io_error + bytes) \<Rightarrow> executor_set \<Rightarrow> bytes" where
  "ex_fingerprint sha rmp es =
     array32_or_zero (sha (unwrap_or_nil (ex_canonical_bytes rmp es)))"

section \<open>The positive-stake keys\<close>

text \<open>
  The sorted keys with a positive stake: the filter, map and sort that leader
  selection, unsharded selection and the committer's selector all start with.
\<close>

definition positive_keys :: "u64 amap \<Rightarrow> bytes list" where
  "positive_keys m = sort (map fst (filter (\<lambda>kv. snd kv > 0) m))"

definition same_stakes :: "stake_set \<Rightarrow> stake_set \<Rightarrow> bool" where
  "same_stakes ss ts \<longleftrightarrow> same_map (stakers ss) (stakers ts)"

definition same_executors :: "executor_set \<Rightarrow> executor_set \<Rightarrow> bool" where
  "same_executors es fs \<longleftrightarrow> same_map (executors es) (executors fs)"

lemma unat_total_stake:
  "unat (total_stake ss) = min (sum_list (map (unat \<circ> snd) (stakers ss))) (2 ^ 64 - 1)"
  by (simp add: total_stake_def fold_saturating_add)

lemma total_stake_same: "same_stakes ss ts \<Longrightarrow> total_stake ss = total_stake ts"
proof -
  assume "same_stakes ss ts"
  then have "mset (map (unat \<circ> snd) (stakers ss)) = mset (map (unat \<circ> snd) (stakers ts))"
    by (simp add: same_stakes_def same_map_def)
  then have "sum_list (map (unat \<circ> snd) (stakers ss)) = sum_list (map (unat \<circ> snd) (stakers ts))"
    by (simp flip: sum_mset_sum_list del: mset_map)
  then show ?thesis
    by (intro word_unat_eq_iff [THEN iffD2]) (simp only: unat_total_stake)
qed

lemma get_stake_same: "same_stakes ss ts \<Longrightarrow> get_stake ss = get_stake ts"
  by (rule ext) (simp add: get_stake_def same_stakes_def same_map_map_of)

lemma ex_get_stake_same: "same_executors es fs \<Longrightarrow> ex_get_stake es = ex_get_stake fs"
  by (rule ext) (simp add: ex_get_stake_def same_executors_def same_map_map_of)

lemma positive_keys_same: "same_map m n \<Longrightarrow> positive_keys m = positive_keys n"
  unfolding positive_keys_def by (rule same_map_filter_keys)

lemma positive_keys_iff:
  assumes "distinct (map fst (stakers ss))"
  shows "k \<in> set (positive_keys (stakers ss)) \<longleftrightarrow> 0 < get_stake ss k"
proof -
  have "k \<in> set (positive_keys (stakers ss)) \<longleftrightarrow> (\<exists>v. map_of (stakers ss) k = Some v \<and> 0 < v)"
    unfolding positive_keys_def set_sort by (rule map_of_filter_key [OF assms])
  then show ?thesis by (simp add: get_stake_def split: option.splits)
qed

lemma positive_keys_iff_ex:
  "distinct (map fst (executors es)) \<Longrightarrow>
   k \<in> set (positive_keys (executors es)) \<longleftrightarrow> 0 < ex_get_stake es k"
  using positive_keys_iff [of "to_stake_set es" k]
  by (simp add: to_stake_set_def get_stake_def ex_get_stake_def)

lemma positive_keys_distinct:
  "distinct (map fst m) \<Longrightarrow> distinct (positive_keys m)"
  unfolding positive_keys_def by (simp add: distinct_map_filter)

lemma positive_keys_sorted: "sorted (positive_keys m)"
  by (simp add: positive_keys_def)

lemma positive_keys_nonempty:
  assumes "total_stake ss \<noteq> 0"
  shows "positive_keys (stakers ss) \<noteq> []"
proof
  assume "positive_keys (stakers ss) = []"
  then have "filter (\<lambda>kv. snd kv > 0) (stakers ss) = []"
    by (simp add: positive_keys_def flip: length_0_conv)
  then have "\<forall>kv\<in>set (stakers ss). snd kv = 0"
    by (auto simp: filter_empty_conv word_greater_zero_iff)
  then have "sum_list (map (unat \<circ> snd) (stakers ss)) = 0"
    by (intro sum_list_eq_0_iff [THEN iffD2]) auto
  then have "unat (total_stake ss) = 0" by (simp only: unat_total_stake)
  then show False using assms by (simp add: unat_eq_0)
qed

lemma fingerprint_length: "length (fingerprint sha rmp ss) = 32"
  by (simp add: fingerprint_def array32_or_zero_def)

end
