(* ===== verification/Leader_Selection.thy ===== *)
theory Leader_Selection
  imports Stake_Sets
begin

text \<open>
  Deterministic selection, \<^verbatim>\<open>src/epoch/leader.rs\<close>: the domain-separated seed, the
  Fisher-Yates \<^verbatim>\<open>Shuffler\<close>, the stake-weighted walk \<^verbatim>\<open>deterministic_select\<close>, the
  stake-balanced shard partition \<^verbatim>\<open>deterministic_select_shard\<close> and the
  \<^verbatim>\<open>LeaderSelector\<close> built on them, together with the committer's own selector of
  \<^verbatim>\<open>committer/src/epoch_manager.rs\<close>.

  SHA-256 and the seeded generator (\<^verbatim>\<open>StdRng\<close> of the \<^verbatim>\<open>rand\<close> crate) are parameters.
  The predicate \<open>rng_in_range\<close> is the documented contract of \<^verbatim>\<open>gen_range\<close>: the draw
  lies in the requested range.  An indexing panic of the source is the outer
  \<open>None\<close> of the operations that index.
\<close>

section \<open>The generator\<close>

record 'r rng =
  from_seed :: "bytes \<Rightarrow> 'r"
  gen_u64 :: "'r \<Rightarrow> u64 \<Rightarrow> u64 \<times> 'r"
  gen_u32 :: "'r \<Rightarrow> u32 \<Rightarrow> u32 \<times> 'r"
  gen_usize_incl :: "'r \<Rightarrow> nat \<Rightarrow> nat \<times> 'r"

definition rng_in_range :: "'r rng \<Rightarrow> bool" where
  "rng_in_range g \<longleftrightarrow>
     (\<forall>s n. 0 < n \<longrightarrow> fst (gen_u64 g s n) < n) \<and>
     (\<forall>s n. 0 < n \<longrightarrow> fst (gen_u32 g s n) < n) \<and>
     (\<forall>s i. fst (gen_usize_incl g s i) \<le> i)"

section \<open>Seeds\<close>

definition LEADER_DOMAIN :: u8 where "LEADER_DOMAIN = 1"
definition SHARD_SHUFFLE_DOMAIN :: u8 where "SHARD_SHUFFLE_DOMAIN = 2"
definition FINALIZER_DOMAIN :: u8 where "FINALIZER_DOMAIN = 3"
definition SHARD_INDEX_DOMAIN :: u8 where "SHARD_INDEX_DOMAIN = 4"

definition selection_seed_input :: "u8 \<Rightarrow> u64 \<Rightarrow> bytes \<Rightarrow> bytes \<Rightarrow> bytes" where
  "selection_seed_input domain epoch_number prev_block_hash extra =
     [domain] @ to_be_bytes epoch_number @ prev_block_hash @ extra"

definition derive_selection_seed ::
    "(bytes \<Rightarrow> bytes) \<Rightarrow> u8 \<Rightarrow> u64 \<Rightarrow> bytes \<Rightarrow> bytes \<Rightarrow> bytes" where
  "derive_selection_seed sha domain epoch_number prev_block_hash extra =
     sha (selection_seed_input domain epoch_number prev_block_hash extra)"

section \<open>The shuffler\<close>

definition swap_at :: "'a list \<Rightarrow> nat \<Rightarrow> nat \<Rightarrow> 'a list option" where
  "swap_at xs i j =
     (if i < length xs \<and> j < length xs then Some (xs[i := xs ! j, j := xs ! i]) else None)"

fun fisher_yates :: "'r rng \<Rightarrow> nat list \<Rightarrow> 'r \<Rightarrow> 'a list \<Rightarrow> 'a list option" where
  "fisher_yates g [] s indices = Some indices"
| "fisher_yates g (i # is) s indices =
     (let (j, s') = gen_usize_incl g s i in
      case swap_at indices i j of
        None \<Rightarrow> None
      | Some indices' \<Rightarrow> fisher_yates g is s' indices')"

definition index_all :: "'a list \<Rightarrow> nat list \<Rightarrow> 'a list option" where
  "index_all items is =
     (if \<forall>i\<in>set is. i < length items then Some (map (\<lambda>i. items ! i) is) else None)"

definition shuffler_new ::
    "(bytes \<Rightarrow> bytes) \<Rightarrow> 'r rng \<Rightarrow> bytes list \<Rightarrow> u64 \<Rightarrow> bytes \<Rightarrow> bytes list option" where
  "shuffler_new sha g items epoch_number prev_block_hash =
     (let seed = derive_selection_seed sha SHARD_SHUFFLE_DOMAIN epoch_number prev_block_hash [];
          n = length items
      in if n = 0 then Some []
         else case fisher_yates g (rev [1..<n]) (from_seed g seed) [0..<n] of
                None \<Rightarrow> None
              | Some indices \<Rightarrow> index_all items indices)"

definition shuffler ::
    "(bytes \<Rightarrow> bytes) \<Rightarrow> 'r rng \<Rightarrow> executor_set \<Rightarrow> u64 \<Rightarrow> bytes \<Rightarrow> bytes list option" where
  "shuffler sha g es epoch_number prev_block_hash =
     shuffler_new sha g (sort (map fst (executors es))) epoch_number prev_block_hash"

section \<open>Stake-weighted selection\<close>

fun select_walk :: "stake_set \<Rightarrow> u64 \<Rightarrow> u64 \<Rightarrow> bytes list \<Rightarrow> bytes option" where
  "select_walk ss target cumulative [] = None"
| "select_walk ss target cumulative (key # keys) =
     (let cumulative' = saturating_add cumulative (get_stake ss key)
      in if target \<le> cumulative' then Some key else select_walk ss target cumulative' keys)"

definition first_key :: "bytes list \<Rightarrow> bytes option" where
  "first_key keys = (case keys of [] \<Rightarrow> None | k # _ \<Rightarrow> Some k)"

definition walk_or_first :: "stake_set \<Rightarrow> u64 \<Rightarrow> bytes option" where
  "walk_or_first ss target =
     (let keys = positive_keys (stakers ss)
      in case select_walk ss target 0 keys of Some k \<Rightarrow> Some k | None \<Rightarrow> first_key keys)"

definition deterministic_select ::
    "(bytes \<Rightarrow> bytes) \<Rightarrow> 'r rng \<Rightarrow> stake_set \<Rightarrow> u8 \<Rightarrow> bytes \<Rightarrow> u64 \<Rightarrow> bytes \<Rightarrow> bytes option" where
  "deterministic_select sha g ss domain seed_bytes epoch_number prev_block_hash =
     (let total = total_stake ss in
      if total = 0 then None
      else let seed = derive_selection_seed sha domain epoch_number prev_block_hash seed_bytes;
               target = fst (gen_u64 g (from_seed g seed) total)
           in walk_or_first ss target)"

section \<open>Shard selection\<close>

text \<open>\<^verbatim>\<open>(0..n).min_by_key(|i| xs[i])\<close>: the first index of a least element.\<close>

definition min_index :: "u64 list \<Rightarrow> nat" where
  "min_index xs = length (takeWhile (\<lambda>x. \<not> (\<forall>y\<in>set xs. x \<le> y)) xs)"

fun assign_shards ::
    "executor_set \<Rightarrow> bytes list \<Rightarrow> u64 list \<Rightarrow> bytes list list \<Rightarrow> u64 list \<times> bytes list list" where
  "assign_shards es [] shard_stakes shard_executors = (shard_stakes, shard_executors)"
| "assign_shards es (key # keys) shard_stakes shard_executors =
     (let stake = ex_get_stake es key;
          target_shard = min_index shard_stakes
      in assign_shards es keys
           (shard_stakes[target_shard := saturating_add (shard_stakes ! target_shard) stake])
           (shard_executors[target_shard := shard_executors ! target_shard @ [key]]))"

definition shard_partition :: "executor_set \<Rightarrow> nat \<Rightarrow> bytes list \<Rightarrow> bytes list list" where
  "shard_partition es shard_count positive =
     snd (assign_shards es positive (replicate shard_count 0) (replicate shard_count []))"

definition deterministic_select_shard ::
    "(bytes \<Rightarrow> bytes) \<Rightarrow> 'r rng \<Rightarrow> executor_set \<Rightarrow> u32 \<Rightarrow> string \<Rightarrow> u64 \<Rightarrow> bytes \<Rightarrow>
     bytes list option option" where
  "deterministic_select_shard sha g es shard_count tx_id epoch_number prev_block_hash =
     (if ex_is_empty es then Some None
      else if shard_count = 0 then Some None
      else if shard_count = 1 then Some (Some (positive_keys (executors es)))
      else
        let seed = derive_selection_seed sha SHARD_INDEX_DOMAIN epoch_number prev_block_hash
                     (as_bytes tx_id);
            shard_index = fst (gen_u32 g (from_seed g seed) shard_count)
        in case shuffler sha g es epoch_number prev_block_hash of
             None \<Rightarrow> None
           | Some shuffled \<Rightarrow>
               if shuffled = [] then Some None
               else
                 let positive = filter (\<lambda>key. ex_get_stake es key > 0) shuffled in
                 if positive = [] then Some None
                 else
                   let shard_executors = shard_partition es (unat shard_count) positive;
                       idx = unat shard_index
                   in if length shard_executors \<le> idx then None
                      else if shard_executors ! idx = [] then Some None
                      else Some (Some (shard_executors ! idx)))"

section \<open>Leader selectors\<close>

definition leader_select ::
    "(bytes \<Rightarrow> bytes) \<Rightarrow> 'r rng \<Rightarrow> stake_set \<Rightarrow> u64 \<Rightarrow> bytes \<Rightarrow> bytes" where
  "leader_select sha g ss epoch_number prev_block_hash =
     (case deterministic_select sha g ss LEADER_DOMAIN [] epoch_number prev_block_hash of
        None \<Rightarrow> [] | Some k \<Rightarrow> k)"

text \<open>The committer's selector takes its hash from a \<^verbatim>\<open>HashProvider\<close> of any digest length.\<close>

definition select_internal ::
    "(bytes \<Rightarrow> bytes) \<Rightarrow> 'r rng \<Rightarrow> stake_set \<Rightarrow> u64 \<Rightarrow> bytes \<Rightarrow> nat + bytes" where
  "select_internal hash g ss epoch_number prev_block_hash =
     (let total = total_stake ss in
      if total = 0 then Inr []
      else let seed = hash ([LEADER_DOMAIN] @ to_be_bytes epoch_number @ prev_block_hash) in
           if length seed \<noteq> 32 then Inl (length seed)
           else let target = fst (gen_u64 g (from_seed g seed) total);
                    keys = positive_keys (stakers ss)
                in case select_walk ss target 0 keys of
                     Some key \<Rightarrow> Inr key
                   | None \<Rightarrow> Inr (case first_key keys of None \<Rightarrow> [] | Some k \<Rightarrow> k))"

definition committer_leader_select ::
    "(bytes \<Rightarrow> bytes) \<Rightarrow> 'r rng \<Rightarrow> stake_set \<Rightarrow> u64 \<Rightarrow> bytes \<Rightarrow> bytes" where
  "committer_leader_select hash g ss epoch_number prev_block_hash =
     unwrap_or_nil (select_internal hash g ss epoch_number prev_block_hash)"

section \<open>Facts on seeds and shuffling\<close>

lemma rng_ranges:
  assumes "rng_in_range g"
  shows "0 < n \<Longrightarrow> fst (gen_u64 g s n) < n"
    and "0 < m \<Longrightarrow> fst (gen_u32 g s m) < m"
    and "fst (gen_usize_incl g s i) \<le> i"
  using assms by (simp_all add: rng_in_range_def)

lemma length_to_be_bytes [simp]: "length (to_be_bytes x) = 8"
  by (simp add: to_be_bytes_def)

lemma to_be_bytes_inj: "to_be_bytes x = to_be_bytes y \<longleftrightarrow> x = y"
proof
  assume eq: "to_be_bytes x = to_be_bytes y"
  show "x = y"
  proof (rule bit_word_eqI)
    fix n assume n: "n < LENGTH(64)"
    have slice: "(ucast (drop_bit (8 * i) x) :: 8 word) = ucast (drop_bit (8 * i) y)"
      if "i \<in> set [7, 6, 5, 4, 3, 2, 1, 0]" for i
      using eq that unfolding to_be_bytes_def map_eq_conv by blast
    have "n div 8 < 8" using n by simp
    then have "n div 8 \<in> set [7, 6, 5, 4, 3, 2, 1, 0]" by (simp only: list.set insert_iff) linarith
    then have "bit (ucast (drop_bit (8 * (n div 8)) x) :: 8 word) (n mod 8) =
               bit (ucast (drop_bit (8 * (n div 8)) y) :: 8 word) (n mod 8)"
      by (simp only: slice)
    then show "bit x n = bit y n"
      using n by (simp add: bit_ucast_iff bit_drop_bit_eq)
  qed
qed simp

lemma mset_swap_at:
  assumes "swap_at xs i j = Some ys"
  shows "mset ys = mset xs"
  using assms mset_swap [of j xs i] by (auto simp: swap_at_def split: if_splits)

lemma fisher_yates_permutes:
  assumes "rng_in_range g" and "\<forall>i\<in>set is. i < length xs"
  shows "\<exists>ys. fisher_yates g is s xs = Some ys \<and> mset ys = mset xs"
  using assms(2)
proof (induction "is" arbitrary: s xs)
  case Nil
  then show ?case by simp
next
  case (Cons i "is")
  obtain j s' where draw: "gen_usize_incl g s i = (j, s')" by fastforce
  have "j \<le> i" using rng_ranges(3) [OF assms(1), of s i] draw by simp
  then have "swap_at xs i j = Some (xs[i := xs ! j, j := xs ! i])" (is "_ = Some ?xs'")
    using Cons.prems by (simp add: swap_at_def)
  moreover have "\<exists>ys. fisher_yates g is s' ?xs' = Some ys \<and> mset ys = mset ?xs'"
    using Cons.prems by (intro Cons.IH) simp
  ultimately show ?case using draw mset_swap_at by fastforce
qed

lemma shuffler_new_permutes:
  assumes "rng_in_range g"
  shows "\<exists>ys. shuffler_new sha g items e p = Some ys \<and> mset ys = mset items"
proof (cases "items = []")
  case True
  then show ?thesis by (simp add: shuffler_new_def)
next
  case False
  let ?n = "length items"
  obtain "is" where "is":
      "fisher_yates g (rev [1..<?n])
         (from_seed g (derive_selection_seed sha SHARD_SHUFFLE_DOMAIN e p [])) [0..<?n] = Some is"
      "mset is = mset [0..<?n]"
    using fisher_yates_permutes [OF assms, of "rev [1..<?n]" "[0..<?n]"] by fastforce
  have "set is = {0..<?n}" using "is"(2) by (metis atLeastLessThan_upt set_mset_mset)
  then have "index_all items is = Some (map ((!) items) is)" by (simp add: index_all_def)
  moreover have "mset (map ((!) items) is) = mset (map ((!) items) [0..<?n])"
    by (simp add: "is"(2))
  ultimately show ?thesis using False "is"(1) by (simp add: shuffler_new_def map_nth)
qed

section \<open>Facts on the stake walk\<close>

abbreviation stake_sum :: "stake_set \<Rightarrow> bytes list \<Rightarrow> nat" where
  "stake_sum ss ks \<equiv> sum_list (map (\<lambda>k. unat (get_stake ss k)) ks)"

definition stake_before :: "stake_set \<Rightarrow> bytes \<Rightarrow> nat" where
  "stake_before ss k = stake_sum ss (filter (\<lambda>k'. k' < k) (positive_keys (stakers ss)))"

lemma select_walk_mem: "select_walk ss t c ks = Some k \<Longrightarrow> k \<in> set ks"
  by (induction ss t c ks rule: select_walk.induct) (auto simp: Let_def split: if_splits)

lemma walk_or_first_mem:
  "walk_or_first ss t = Some k \<Longrightarrow> k \<in> set (positive_keys (stakers ss))"
  by (auto simp: walk_or_first_def first_key_def Let_def
      split: option.splits list.splits dest: select_walk_mem)

lemma walk_or_first_total:
  "positive_keys (stakers ss) \<noteq> [] \<Longrightarrow> \<exists>k. walk_or_first ss t = Some k"
  by (auto simp: walk_or_first_def first_key_def Let_def split: option.splits list.splits)

lemma unat_saturating_add_exact:
  fixes a b :: "'a::len word"
  assumes "unat a + unat b < 2 ^ LENGTH('a)"
  shows "unat (saturating_add a b) = unat a + unat b"
  using assms by (simp add: unat_saturating_add)

lemma select_walk_None:
  assumes "unat c + stake_sum ss ks < 2 ^ 64" and "select_walk ss t c ks = None" and "ks \<noteq> []"
  shows "unat c + stake_sum ss ks < unat t"
  using assms
proof (induction ss t c ks rule: select_walk.induct)
  case (1 ss t c)
  then show ?case by simp
next
  case (2 ss t c k ks)
  let ?c = "saturating_add c (get_stake ss k)"
  have c: "unat ?c = unat c + unat (get_stake ss k)"
    using "2.prems"(1) by (intro unat_saturating_add_exact) simp
  have t: "\<not> t \<le> ?c" and walk: "select_walk ss t ?c ks = None"
    using "2.prems"(2) by (auto simp: Let_def split: if_splits)
  show ?case
  proof (cases "ks = []")
    case True
    then show ?thesis using t c by (simp add: word_le_nat_alt)
  next
    case False
    then show ?thesis using "2.IH" [OF refl t _ walk] "2.prems"(1) c by simp
  qed
qed

lemma select_walk_Some:
  assumes "unat c + stake_sum ss ks < 2 ^ 64"
  shows "select_walk ss t c ks = Some k \<longleftrightarrow>
         (\<exists>pre post. ks = pre @ k # post \<and>
            unat t \<le> unat c + stake_sum ss pre + unat (get_stake ss k) \<and>
            (pre \<noteq> [] \<longrightarrow> unat c + stake_sum ss pre < unat t))"
  using assms
proof (induction ss t c ks rule: select_walk.induct)
  case (1 ss t c)
  then show ?case by simp
next
  case (2 ss t c a ks)
  let ?c = "saturating_add c (get_stake ss a)"
  have c: "unat ?c = unat c + unat (get_stake ss a)"
    using "2.prems" by (intro unat_saturating_add_exact) simp
  show ?case
  proof (cases "t \<le> ?c")
    case True
    then show ?thesis
      unfolding ex_split_Cons using c by (auto simp: word_le_nat_alt Let_def)
  next
    case False
    then have "select_walk ss t ?c ks = Some k \<longleftrightarrow>
        (\<exists>pre post. ks = pre @ k # post \<and>
            unat t \<le> unat ?c + stake_sum ss pre + unat (get_stake ss k) \<and>
            (pre \<noteq> [] \<longrightarrow> unat ?c + stake_sum ss pre < unat t))"
      using "2.IH" [OF refl False] "2.prems" c by simp
    moreover have beyond: "unat c + unat (get_stake ss a) < unat t"
      using False c by (simp add: word_le_nat_alt)
    moreover have "(pre \<noteq> [] \<longrightarrow> unat ?c + stake_sum ss pre < unat t) \<longleftrightarrow>
                   unat c + stake_sum ss (a # pre) < unat t" for pre
      using beyond c by (cases pre) (simp_all add: add.assoc)
    ultimately show ?thesis
      unfolding ex_split_Cons by (simp add: Let_def False c add.assoc) (use beyond in auto)
  qed
qed

lemma stake_sum_positive_keys:
  assumes "distinct (map fst (stakers ss))"
  shows "stake_sum ss (positive_keys (stakers ss)) = sum_list (map (unat \<circ> snd) (stakers ss))"
proof -
  have entry: "get_stake ss (fst kv) = snd kv" if "kv \<in> set (stakers ss)" for kv
    using assms that by (cases kv) (simp add: get_stake_def)
  have "stake_sum ss (positive_keys (stakers ss)) =
        stake_sum ss (map fst (filter (\<lambda>kv. snd kv > 0) (stakers ss)))"
    unfolding positive_keys_def by (simp add: multiset.map_comp flip: sum_mset_sum_list)
  also have "\<dots> = sum_list (map (unat \<circ> snd) (filter (\<lambda>kv. snd kv > 0) (stakers ss)))"
    by (auto intro!: arg_cong [where f = sum_list] simp: entry)
  also have "\<dots> = sum_list (map (unat \<circ> snd) (stakers ss))"
    by (rule sum_list_map_filter) (simp add: word_greater_zero_iff)
  finally show ?thesis .
qed

lemma filter_below_split:
  fixes k :: "'a::linorder"
  assumes "sorted (pre @ k # post)" and "distinct (pre @ k # post)"
  shows "filter (\<lambda>x. x < k) (pre @ k # post) = pre"
proof -
  have "filter (\<lambda>x. x < k) pre = pre"
    using assms by (intro filter_True) (force simp: sorted_append)
  moreover have "filter (\<lambda>x. x < k) post = []"
    using assms by (auto simp: sorted_append filter_empty_conv)
  ultimately show ?thesis by simp
qed

lemma walk_owner:
  assumes "distinct (map fst (stakers ss))"
    and "sum_list (map (unat \<circ> snd) (stakers ss)) < 2 ^ 64"
    and "t < total_stake ss"
  shows "walk_or_first ss t = Some k \<longleftrightarrow>
         0 < get_stake ss k \<and> unat t \<le> stake_before ss k + unat (get_stake ss k) \<and>
         (stake_before ss k = 0 \<or> stake_before ss k < unat t)"
proof -
  let ?ks = "positive_keys (stakers ss)"
  have sum: "stake_sum ss ?ks = sum_list (map (unat \<circ> snd) (stakers ss))"
    by (rule stake_sum_positive_keys [OF assms(1)])
  then have total: "unat (total_stake ss) = stake_sum ss ?ks"
    using assms(2) by (simp add: unat_total_stake)
  have bound: "unat (0 :: u64) + stake_sum ss ?ks < 2 ^ 64" using sum assms(2) by simp
  have "total_stake ss \<noteq> 0" using assms(3) by auto
  then have "?ks \<noteq> []" by (rule positive_keys_nonempty)
  then have "select_walk ss t 0 ?ks \<noteq> None"
    using select_walk_None [OF bound, of t] total assms(3) by (auto simp: word_less_nat_alt)
  then have "walk_or_first ss t = select_walk ss t 0 ?ks"
    by (auto simp: walk_or_first_def)
  also have "(\<dots> = Some k) \<longleftrightarrow>
      (\<exists>pre post. ?ks = pre @ k # post \<and> unat t \<le> stake_sum ss pre + unat (get_stake ss k) \<and>
         (pre \<noteq> [] \<longrightarrow> stake_sum ss pre < unat t))"
    using select_walk_Some [OF bound, of t k] by simp
  also have "\<dots> \<longleftrightarrow> k \<in> set ?ks \<and> unat t \<le> stake_before ss k + unat (get_stake ss k) \<and>
         (stake_before ss k = 0 \<or> stake_before ss k < unat t)" (is "?L \<longleftrightarrow> ?R")
  proof -
    have before: "stake_before ss k = stake_sum ss pre \<and> (pre = [] \<longleftrightarrow> stake_sum ss pre = 0)"
      if "?ks = pre @ k # post" for pre post
    proof
      show "stake_before ss k = stake_sum ss pre"
        using filter_below_split [of pre k post] that positive_keys_sorted [of "stakers ss"]
          positive_keys_distinct [OF assms(1)] by (simp add: stake_before_def)
      have "\<forall>x\<in>set pre. 0 < get_stake ss x"
        using that positive_keys_iff [OF assms(1)] by (metis Un_iff set_append)
      then show "pre = [] \<longleftrightarrow> stake_sum ss pre = 0"
        by (cases pre) (auto simp: unat_eq_0)
    qed
    show ?thesis
    proof
      assume ?L
      then obtain pre post where s: "?ks = pre @ k # post"
        "unat t \<le> stake_sum ss pre + unat (get_stake ss k)" "pre \<noteq> [] \<longrightarrow> stake_sum ss pre < unat t"
        by blast
      then show ?R using before [OF s(1)] by auto
    next
      assume ?R
      then obtain pre post where s: "?ks = pre @ k # post" by (meson split_list)
      then show ?L using before [OF s] \<open>?R\<close> by auto
    qed
  qed
  also have "\<dots> \<longleftrightarrow> 0 < get_stake ss k \<and> unat t \<le> stake_before ss k + unat (get_stake ss k) \<and>
         (stake_before ss k = 0 \<or> stake_before ss k < unat t)"
    using positive_keys_iff [OF assms(1)] by simp
  finally show ?thesis .
qed

section \<open>Facts on the shard partition\<close>

abbreviation shard_load :: "executor_set \<Rightarrow> bytes list \<Rightarrow> nat" where
  "shard_load es ks \<equiv> sum_list (map (\<lambda>k. unat (ex_get_stake es k)) ks)"

lemma min_index_least:
  assumes "xs \<noteq> []"
  shows "min_index xs < length xs \<and> (\<forall>y\<in>set xs. xs ! min_index xs \<le> y)"
proof -
  let ?P = "\<lambda>x. \<not> (\<forall>y\<in>set xs. x \<le> y)"
  have "Min (set xs) \<in> set xs" "\<not> ?P (Min (set xs))" using assms by auto
  then have less: "length (takeWhile ?P xs) < length xs"
    by (rule length_takeWhile_less)
  then show ?thesis
    using nth_length_takeWhile [OF less] by (simp add: min_index_def)
qed

lemma concat_update_append:
  assumes "t < length ex"
  shows "mset (concat (ex[t := ex ! t @ [k]])) = add_mset k (mset (concat ex))"
  using assms
proof (induction ex arbitrary: t)
  case (Cons x ex)
  then show ?case by (cases t) simp_all
qed simp

lemma assign_shards_length:
  "length (fst (assign_shards es ks st ex)) = length st \<and>
   length (snd (assign_shards es ks st ex)) = length ex"
  by (induction es ks st ex rule: assign_shards.induct) (simp_all add: Let_def)

lemma assign_shards_mset:
  assumes "length st = length ex" and "st \<noteq> []"
  shows "mset (concat (snd (assign_shards es ks st ex))) = mset (concat ex) + mset ks"
  using assms
proof (induction es ks st ex rule: assign_shards.induct)
  case (2 es k ks st ex)
  have "min_index st < length ex" using min_index_least "2.prems" by metis
  then show ?case using 2 by (simp add: Let_def concat_update_append)
qed simp

definition balanced :: "nat \<Rightarrow> u64 list \<Rightarrow> bool" where
  "balanced m st \<longleftrightarrow> (\<forall>i<length st. \<forall>j<length st. unat (st ! i) \<le> unat (st ! j) + m)"

lemma balanced_step:
  assumes "balanced m st" and "st \<noteq> []" and "unat s \<le> m"
  shows "balanced m (st[min_index st := saturating_add (st ! min_index st) s])"
proof -
  let ?t = "min_index st" and ?st = "st[min_index st := saturating_add (st ! min_index st) s]"
  have t: "?t < length st" and least: "\<And>j. j < length st \<Longrightarrow> unat (st ! ?t) \<le> unat (st ! j)"
    using min_index_least [OF assms(2)] by (auto simp: word_le_nat_alt)
  have up: "unat (st ! ?t) \<le> unat (?st ! ?t)" "unat (?st ! ?t) \<le> unat (st ! ?t) + m"
  proof -
    have "unat (st ! ?t) < 2 ^ 64" using unsigned_less [of "st ! ?t"] by simp
    then show "unat (st ! ?t) \<le> unat (?st ! ?t)" "unat (?st ! ?t) \<le> unat (st ! ?t) + m"
      using t assms(3) by (simp_all add: unat_saturating_add)
  qed
  show ?thesis unfolding balanced_def
  proof (intro allI impI)
    fix i j assume "i < length ?st" "j < length ?st"
    then have ij: "i < length st" "j < length st" by simp_all
    consider "i = ?t" "j = ?t" | "i = ?t" "j \<noteq> ?t" | "i \<noteq> ?t" "j = ?t" | "i \<noteq> ?t" "j \<noteq> ?t" by blast
    then show "unat (?st ! i) \<le> unat (?st ! j) + m"
    proof cases
      case 2
      then show ?thesis using up(2) least [OF ij(2)] by simp
    next
      case 3
      have "unat (st ! i) \<le> unat (st ! ?t) + m" using assms(1) ij(1) t by (simp add: balanced_def)
      then show ?thesis using 3 up(1) by simp
    qed (use assms(1) ij in \<open>simp_all add: balanced_def\<close>)
  qed
qed

lemma assign_shards_balanced:
  assumes "balanced m st" and "st \<noteq> []" and "\<forall>k\<in>set ks. unat (ex_get_stake es k) \<le> m"
  shows "balanced m (fst (assign_shards es ks st ex))"
  using assms
proof (induction es ks st ex rule: assign_shards.induct)
  case (2 es k ks st ex)
  then show ?case by (simp add: Let_def balanced_step)
qed simp

lemma assign_shards_loads:
  assumes "length st = length ex" and "st \<noteq> []"
    and "shard_load es (concat ex @ ks) < 2 ^ 64"
    and "\<forall>i<length ex. unat (st ! i) = shard_load es (ex ! i)" and "i < length ex"
  shows "unat (fst (assign_shards es ks st ex) ! i) = shard_load es (snd (assign_shards es ks st ex) ! i)"
  using assms
proof (induction es ks st ex rule: assign_shards.induct)
  case (2 es k ks st ex)
  let ?t = "min_index st"
  let ?st = "st[?t := saturating_add (st ! ?t) (ex_get_stake es k)]" and ?ex = "ex[?t := ex ! ?t @ [k]]"
  have t: "?t < length ex" using min_index_least "2.prems" by metis
  have "mset (concat ?ex @ ks) = mset (concat ex @ k # ks)"
    using t by (simp add: concat_update_append)
  then have load: "shard_load es (concat ?ex @ ks) = shard_load es (concat ex @ k # ks)"
    by (rule sum_list_mset_eq)
  have "shard_load es (ex ! ?t) \<le> shard_load es (concat ex)"
    using t by (intro sum_list_le_concat) simp
  then have "unat (saturating_add (st ! ?t) (ex_get_stake es k)) = shard_load es (ex ! ?t @ [k])"
    using "2.prems"(3,4) t by (subst unat_saturating_add_exact) simp_all
  then have "\<forall>i<length ?ex. unat (?st ! i) = shard_load es (?ex ! i)"
    using "2.prems"(1,4) t by (auto simp: nth_list_update)
  then show ?case
    using 2 load by (simp add: Let_def)
qed simp

section \<open>The leader selector interface\<close>

text \<open>
  The trait \<^verbatim>\<open>IEpochLeaderSelector\<close> of \<^verbatim>\<open>src/epoch/types.rs\<close>, as its clients rely on it:
  an elected key has stake at risk, nobody is elected from a stakeless set, and the
  outcome does not depend on a map's iteration order.
\<close>

locale leader_selector =
  fixes select :: "stake_set \<Rightarrow> u64 \<Rightarrow> bytes \<Rightarrow> bytes"
  assumes select_staked:
      "distinct (map fst (stakers ss)) \<Longrightarrow> select ss e p = [] \<or> 0 < get_stake ss (select ss e p)"
    and select_no_stake: "total_stake ss = 0 \<Longrightarrow> select ss e p = []"
    and select_same: "same_stakes ss ts \<Longrightarrow> select ss e p = select ts e p"

lemma walk_or_first_same:
  assumes "same_stakes ss ts"
  shows "walk_or_first ss t = walk_or_first ts t"
proof -
  have "select_walk ss t c ks = select_walk ts t c ks" for c ks
    by (induction ks arbitrary: c) (simp_all add: get_stake_same [OF assms] Let_def)
  moreover have "positive_keys (stakers ss) = positive_keys (stakers ts)"
    using assms by (intro positive_keys_same) (simp add: same_stakes_def)
  ultimately show ?thesis by (simp add: walk_or_first_def)
qed

lemma select_internal_walk:
  "select_internal hash g ss e p =
     (if total_stake ss = 0 then Inr []
      else let seed = hash (selection_seed_input LEADER_DOMAIN e p []) in
           if length seed \<noteq> 32 then Inl (length seed)
           else Inr (case walk_or_first ss (fst (gen_u64 g (from_seed g seed) (total_stake ss))) of
                       None \<Rightarrow> [] | Some k \<Rightarrow> k))"
  by (simp add: select_internal_def walk_or_first_def selection_seed_input_def Let_def
      split: option.splits)

lemma walk_or_first_staked:
  "distinct (map fst (stakers ss)) \<Longrightarrow> walk_or_first ss t = Some k \<Longrightarrow> 0 < get_stake ss k"
  using walk_or_first_mem positive_keys_iff by blast

interpretation core: leader_selector "leader_select sha g" for sha g
proof (unfold_locales, goal_cases)
  case (1 ss e p)
  then show ?case
    by (auto simp: leader_select_def deterministic_select_def Let_def walk_or_first_staked
        split: option.splits if_splits)
next
  case (2 ss e p)
  then show ?case by (simp add: leader_select_def deterministic_select_def)
next
  case (3 ss ts e p)
  then show ?case
    by (simp add: leader_select_def deterministic_select_def Let_def total_stake_same
        walk_or_first_same)
qed

interpretation node: leader_selector "committer_leader_select hash g" for hash g
proof (unfold_locales, goal_cases)
  case (1 ss e p)
  then show ?case
    by (auto simp: committer_leader_select_def select_internal_walk Let_def unwrap_or_nil_def
        walk_or_first_staked split: option.splits)
next
  case (2 ss e p)
  then show ?case by (simp add: committer_leader_select_def select_internal_walk unwrap_or_nil_def)
next
  case (3 ss ts e p)
  then show ?case
    by (simp add: committer_leader_select_def select_internal_walk Let_def total_stake_same
        walk_or_first_same)
qed

section \<open>Properties of selection\<close>

text \<open>Selection returns nobody exactly when the saturating total stake is zero, and
  whoever it returns has a positive stake.\<close>

theorem deterministic_select_eligible:
  assumes "distinct (map fst (stakers ss))"
  shows "(deterministic_select sha g ss d extra e p = None \<longleftrightarrow> total_stake ss = 0) \<and>
         (\<forall>k. deterministic_select sha g ss d extra e p = Some k \<longrightarrow> 0 < get_stake ss k)"
  using walk_or_first_total [OF positive_keys_nonempty, of ss] walk_or_first_staked [OF assms]
  by (auto simp: deterministic_select_def Let_def)


text \<open>A staker of one unit whose key is the greatest of several positive-stake keys is
  never selected, whatever the generator draws.\<close>

theorem deterministic_select_last_unit_starved:
  assumes "rng_in_range g" and "distinct (map fst (stakers ss))"
    and "sum_list (map (unat \<circ> snd) (stakers ss)) < 2 ^ 64"
    and "get_stake ss k = 1" and "0 < stake_before ss k"
    and "\<forall>k'. 0 < get_stake ss k' \<longrightarrow> k' \<le> k"
  shows "deterministic_select sha g ss d extra e p \<noteq> Some k"
proof (cases "total_stake ss = 0")
  case True
  then show ?thesis by (simp add: deterministic_select_def)
next
  case False
  let ?ks = "positive_keys (stakers ss)"
  define t where
    "t = fst (gen_u64 g (from_seed g (derive_selection_seed sha d e p extra)) (total_stake ss))"
  have "t < total_stake ss"
    using False rng_ranges(1) [OF assms(1)] by (simp add: t_def word_greater_zero_iff)
  moreover have "unat (total_stake ss) = stake_before ss k + 1"
  proof -
    have k: "k \<in> set ?ks" using positive_keys_iff [OF assms(2)] assms(4) by simp
    then obtain pre post where s: "?ks = pre @ k # post" by (meson split_list)
    have "post = []"
      using s assms(6) positive_keys_iff [OF assms(2)] positive_keys_sorted [of "stakers ss"]
        positive_keys_distinct [OF assms(2)]
      by (cases post) (auto simp: sorted_append, metis order_antisym)
    moreover have "stake_before ss k = stake_sum ss pre"
      using filter_below_split [of pre k post] s positive_keys_sorted [of "stakers ss"]
        positive_keys_distinct [OF assms(2)] by (simp add: stake_before_def)
    ultimately have "stake_sum ss ?ks = stake_before ss k + 1" using s assms(4) by simp
    then show ?thesis
      using stake_sum_positive_keys [OF assms(2)] assms(3) by (simp add: unat_total_stake)
  qed
  ultimately have "\<not> (stake_before ss k = 0 \<or> stake_before ss k < unat t)"
    using assms(5) by (simp add: word_less_nat_alt)
  then show ?thesis
    using walk_owner [OF assms(2,3) \<open>t < total_stake ss\<close>, of k] False
    by (simp add: deterministic_select_def t_def Let_def)
qed

text \<open>A generator that always draws zero, for the concrete evaluations.\<close>

definition zero_rng :: "unit rng" where
  "zero_rng = \<lparr>from_seed = (\<lambda>_. ()), gen_u64 = (\<lambda>s n. (0, s)), gen_u32 = (\<lambda>s n. (0, s)),
               gen_usize_incl = (\<lambda>s i. (0, s))\<rparr>"

lemma zero_rng_in_range: "rng_in_range zero_rng"
  by (simp add: rng_in_range_def zero_rng_def)

definition two_units :: stake_set where
  "two_units = \<lparr>stakers = [([2], 1), ([1], 1)]\<rparr>"

lemma two_units_facts:
  "distinct (map fst (stakers two_units))"
  "sum_list (map (unat \<circ> snd) (stakers two_units)) < 2 ^ 64"
  "total_stake two_units \<noteq> 0"
  "get_stake two_units [2] = 1" "get_stake two_units [1] = 1"
  "0 < get_stake two_units k' \<Longrightarrow> k' = [1] \<or> k' = [2]"
  "positive_keys (stakers two_units) = [[1], [2]]"
  "stake_before two_units [2] = 1" "stake_before two_units [1] = 0"
  by (simp_all add: two_units_def total_stake_def saturating_add_def get_stake_def
      positive_keys_def stake_before_def split: if_splits)

theorem deterministic_select_eligible_witness:
  "\<exists>k. deterministic_select (\<lambda>b. b) zero_rng two_units LEADER_DOMAIN [] 0 [] = Some k \<and> 0 < get_stake two_units k"
  using deterministic_select_eligible [OF two_units_facts(1),
      of "\<lambda>b. b" zero_rng LEADER_DOMAIN "[]" 0 "[]"] two_units_facts(3)
  by blast


theorem deterministic_select_last_unit_starved_witness:
  "deterministic_select (\<lambda>b. b) zero_rng two_units LEADER_DOMAIN [] 0 [] \<noteq> Some [2]"
  using two_units_facts
  by (intro deterministic_select_last_unit_starved [OF zero_rng_in_range]) fastforce+

section \<open>Properties of shard selection and of the two selectors\<close>

lemma shuffler_permutes:
  assumes "rng_in_range g"
  shows "\<exists>ys. shuffler sha g es e p = Some ys \<and> mset ys = mset (map fst (executors es))"
  using shuffler_new_permutes [OF assms] by (fastforce simp: shuffler_def)

lemma shard_partition_mset:
  "0 < n \<Longrightarrow> mset (concat (shard_partition es n ks)) = mset ks"
  using assign_shards_mset [of "replicate n 0" "replicate n []" es ks]
  by (simp add: shard_partition_def)

lemma length_shard_partition: "length (shard_partition es n ks) = n"
  using assign_shards_length [of es ks "replicate n 0" "replicate n []"]
  by (simp add: shard_partition_def)

text \<open>The shuffle of an executor set never indexes out of range and returns every
  executor key exactly as often as the set holds it.\<close>

theorem shuffler_is_permutation:
  assumes "rng_in_range g"
  shows "\<exists>ys. shuffler sha g es e p = Some ys \<and> mset ys = mset (map fst (executors es))"
  using shuffler_permutes [OF assms] .

text \<open>Shard selection never panics; a shard it returns lists distinct executors, all of
  positive stake, and is not empty when there is more than one shard.\<close>

theorem deterministic_select_shard_sound:
  assumes "rng_in_range g" and "distinct (map fst (executors es))"
  shows "\<exists>r. deterministic_select_shard sha g es n tx e p = Some r \<and>
           (\<forall>ks. r = Some ks \<longrightarrow> distinct ks \<and> (\<forall>k\<in>set ks. 0 < ex_get_stake es k) \<and>
                 (n \<noteq> 1 \<longrightarrow> ks \<noteq> []))"
proof -
  obtain ys where ys: "shuffler sha g es e p = Some ys" "mset ys = mset (map fst (executors es))"
    using shuffler_permutes [OF assms(1)] by blast
  define pos where "pos = filter (\<lambda>k. 0 < ex_get_stake es k) ys"
  have dpos: "distinct pos"
    using ys(2) assms(2) by (metis distinct_filter mset_eq_imp_distinct_iff pos_def)
  have shard: "distinct (shard_partition es m pos ! i) \<and>
      (\<forall>k\<in>set (shard_partition es m pos ! i). 0 < ex_get_stake es k)"
    if "0 < m" "i < m" for m i
  proof -
    let ?s = "shard_partition es m pos"
    have mem: "?s ! i \<in> set ?s" using that length_shard_partition [of es m pos] by simp
    have "distinct (concat ?s)"
      using dpos shard_partition_mset [OF that(1)] by (metis mset_eq_imp_distinct_iff)
    moreover have "set (concat ?s) = set pos"
      using shard_partition_mset [OF that(1)] by (metis set_mset_mset)
    ultimately show ?thesis using mem by (auto simp: distinct_concat_iff pos_def)
  qed
  have idx: "unat (fst (gen_u32 g s n)) < unat n" if "n \<noteq> 0" for s
    using rng_ranges(2) [OF assms(1), of n s] that
    by (simp add: word_less_nat_alt unat_gt_0)
  show ?thesis
    using ys(1) shard idx idx [unfolded not_le [symmetric]] positive_keys_distinct [OF assms(2)] positive_keys_iff_ex [OF assms(2)]
    by (auto simp: deterministic_select_shard_def Let_def length_shard_partition unat_gt_0
        simp flip: pos_def)
qed

text \<open>The partition puts every executor it is given into exactly one shard, and no two
  shards differ in stake by more than the largest single stake.\<close>

theorem shard_partition_balanced:
  assumes "0 < n" and "shard_load es ks < 2 ^ 64"
    and "\<forall>k\<in>set ks. unat (ex_get_stake es k) \<le> m"
  shows "mset (concat (shard_partition es n ks)) = mset ks \<and> length (shard_partition es n ks) = n \<and>
         (\<forall>i<n. \<forall>j<n. shard_load es (shard_partition es n ks ! i) \<le>
                        shard_load es (shard_partition es n ks ! j) + m)"
proof (intro conjI allI impI)
  show "mset (concat (shard_partition es n ks)) = mset ks" by (rule shard_partition_mset [OF assms(1)])
  show "length (shard_partition es n ks) = n" by (rule length_shard_partition)
  fix i j assume ij: "i < n" "j < n"
  let ?a = "assign_shards es ks (replicate n 0) (replicate n [])"
  have loads: "unat (fst ?a ! i) = shard_load es (snd ?a ! i)" if "i < n" for i
    using assms that by (intro assign_shards_loads) simp_all
  have "balanced m (fst ?a)"
    using assms by (intro assign_shards_balanced) (simp_all add: balanced_def)
  then have "unat (fst ?a ! i) \<le> unat (fst ?a ! j) + m"
    using ij assign_shards_length [of es ks "replicate n 0" "replicate n []"] by (simp add: balanced_def)
  then show "shard_load es (shard_partition es n ks ! i) \<le> shard_load es (shard_partition es n ks ! j) + m"
    using ij by (simp add: loads shard_partition_def)
qed

text \<open>Neither the shuffle nor shard selection depends on the iteration order of the
  executor map, so every node computes the same shard.\<close>

theorem deterministic_select_shard_order_independent:
  assumes "same_executors es fs"
  shows "deterministic_select_shard sha g es n tx e p = deterministic_select_shard sha g fs n tx e p"
proof -
  have m: "same_map (executors es) (executors fs)" using assms by (simp add: same_executors_def)
  have empty: "ex_is_empty es = ex_is_empty fs"
    using same_map_set [OF m] by (auto simp: ex_is_empty_def)
  have "sort (map fst (executors es)) = sort (map fst (executors fs))"
    using same_map_filter_keys [OF m, of "\<lambda>_. True"] by simp
  then have shuffle: "shuffler sha g es e p = shuffler sha g fs e p" by (simp add: shuffler_def)
  have "assign_shards es ks st ex = assign_shards fs ks st ex" for ks st ex
    by (induction ks arbitrary: st ex) (simp_all add: ex_get_stake_same [OF assms] Let_def)
  then have "shard_partition es = shard_partition fs" by (intro ext) (simp add: shard_partition_def)
  then show ?thesis
    unfolding deterministic_select_shard_def
    by (simp only: empty shuffle positive_keys_same [OF m] ex_get_stake_same [OF assms])
qed

text \<open>Leader and finalizer selection do not depend on the iteration order of the stake map.\<close>

theorem deterministic_select_order_independent:
  assumes "same_stakes ss ts"
  shows "deterministic_select sha g ss d extra e p = deterministic_select sha g ts d extra e p"
  using assms by (simp add: deterministic_select_def Let_def total_stake_same walk_or_first_same)

text \<open>With a hash provider that yields 32 bytes, the committer's selector elects the same
  leader as the selector of the core crate; with any other digest length it elects nobody.\<close>

theorem committer_leader_select_refines_core:
  "committer_leader_select sha g ss e p =
     (if length (sha (selection_seed_input LEADER_DOMAIN e p [])) = 32
      then leader_select sha g ss e p else [])"
  by (simp add: committer_leader_select_def select_internal_walk leader_select_def
      deterministic_select_def derive_selection_seed_def unwrap_or_nil_def Let_def split: option.splits)

text \<open>Seeds of different selection purposes or epochs are hashes of different inputs, and
  within one purpose and epoch the input determines the tip hash and the salt up to where
  the one ends and the other begins.\<close>

theorem selection_seed_input_separates:
  "selection_seed_input d e p x = selection_seed_input d' e' p' x' \<longleftrightarrow>
   d = d' \<and> e = e' \<and> p @ x = p' @ x'"
  by (auto simp: selection_seed_input_def append_eq_append_conv to_be_bytes_inj)

definition three_executors :: executor_set where
  "three_executors = \<lparr>executors = [([3], 4), ([1], 5), ([2], 0)]\<rparr>"

theorem shuffler_is_permutation_witness:
  "\<exists>ys. shuffler (\<lambda>b. b) zero_rng three_executors 7 [] = Some ys \<and>
        mset ys = mset (map fst (executors three_executors))"
  by (rule shuffler_is_permutation [OF zero_rng_in_range])

lemma three_executors_distinct: "distinct (map fst (executors three_executors))"
  by (simp add: three_executors_def)

theorem deterministic_select_shard_sound_witness:
  "\<exists>r. deterministic_select_shard (\<lambda>b. b) zero_rng three_executors 2 ''tx'' 7 [] = Some r \<and>
     (\<forall>ks. r = Some ks \<longrightarrow> distinct ks \<and> (\<forall>k\<in>set ks. 0 < ex_get_stake three_executors k) \<and>
           ((2 :: u32) \<noteq> 1 \<longrightarrow> ks \<noteq> []))"
  by (rule deterministic_select_shard_sound [OF zero_rng_in_range three_executors_distinct])

theorem shard_partition_balanced_witness:
  "mset (concat (shard_partition three_executors 2 [[3], [1]])) = mset [[3], [1]] \<and>
   shard_load three_executors (shard_partition three_executors 2 [[3], [1]] ! 0) \<le>
     shard_load three_executors (shard_partition three_executors 2 [[3], [1]] ! 1) + 5"
proof -
  have "shard_load three_executors [[3], [1]] < 2 ^ 64"
    "\<forall>k\<in>set [[3], [1]]. unat (ex_get_stake three_executors k) \<le> 5"
    by (simp_all add: three_executors_def ex_get_stake_def)
  from shard_partition_balanced [OF _ this, of 2] show ?thesis by simp
qed

theorem deterministic_select_shard_order_independent_witness:
  "deterministic_select_shard (\<lambda>b. b) zero_rng three_executors 2 ''tx'' 7 [] =
   deterministic_select_shard (\<lambda>b. b) zero_rng \<lparr>executors = [([1], 5), ([2], 0), ([3], 4)]\<rparr> 2 ''tx'' 7 []"
  by (rule deterministic_select_shard_order_independent)
    (simp add: same_executors_def same_map_def three_executors_def)

theorem deterministic_select_order_independent_witness:
  "deterministic_select (\<lambda>b. b) zero_rng two_units FINALIZER_DOMAIN [9] 7 [] =
   deterministic_select (\<lambda>b. b) zero_rng \<lparr>stakers = [([1], 1), ([2], 1)]\<rparr> FINALIZER_DOMAIN [9] 7 []"
  by (rule deterministic_select_order_independent)
    (simp add: same_stakes_def same_map_def two_units_def)

end
