(* ===== verification/Epoch.thy ===== *)
theory Epoch
  imports Leader_Selection
begin

text \<open>
  The epoch protocol of \<^verbatim>\<open>src/epoch/\<close>: the epoch and reconciliation types and
  \<^verbatim>\<open>resolve_block_conflict\<close> (\<^verbatim>\<open>types.rs\<close>), the \<^verbatim>\<open>EpochBoundaryDetector\<close>
  (\<^verbatim>\<open>boundary.rs\<close>), the bounded \<^verbatim>\<open>CandidateRegistry\<close> (\<^verbatim>\<open>candidates.rs\<close>) and the
  \<^verbatim>\<open>EpochSnapshotCache\<close> (\<^verbatim>\<open>snapshot_cache.rs\<close>).  Registry and cache are polymorphic in
  the block and the snapshot they hold.
\<close>

section \<open>Epoch types\<close>

record epoch =
  start_timestamp :: i64
  end_timestamp :: i64
  epoch_number :: u64
  leader_public_key :: bytes

datatype staking_op =
    AddStaker bytes u64
  | RemoveStaker bytes
  | Slash bytes u64
  | Reward bytes u64

record conflict =
  block_a :: bytes
  block_b :: bytes
  stake_a :: u64
  stake_b :: u64

record epoch_reconciliation =
  misshapen_tokens :: "bytes list"
  finalization_conflicts :: "conflict list"
  slashing_ops :: "staking_op list"
  reward_ops :: "staking_op list"

definition new_with_leader ::
    "u64 \<Rightarrow> i64 \<Rightarrow> i64 \<Rightarrow> (stake_set \<Rightarrow> u64 \<Rightarrow> bytes \<Rightarrow> bytes) \<Rightarrow> stake_set \<Rightarrow> bytes \<Rightarrow> epoch" where
  "new_with_leader n start stop select ss prev_block_hash =
     \<lparr>start_timestamp = start, end_timestamp = stop, epoch_number = n,
      leader_public_key = select ss n prev_block_hash\<rparr>"

section \<open>Conflict resolution\<close>

datatype conflict_resolution =
    DiscardLoser bytes
  | SameProposerSlash bytes bytes
  | TieFlagBoth bytes

definition resolve_block_conflict ::
    "bytes \<Rightarrow> bytes \<Rightarrow> bytes \<Rightarrow> bytes \<Rightarrow> stake_set \<Rightarrow> conflict_resolution" where
  "resolve_block_conflict block_a_hash block_b_hash proposer_a proposer_b ss =
     (let sa = get_stake ss proposer_a; sb = get_stake ss proposer_b in
      if sa > sb then DiscardLoser block_a_hash
      else if sb > sa then DiscardLoser block_b_hash
      else if proposer_a = proposer_b then SameProposerSlash block_a_hash proposer_a
      else TieFlagBoth block_a_hash)"

section \<open>The epoch boundary detector\<close>

record epoch_boundary_detector =
  current_epoch :: epoch
  previous_leader :: "bytes option"

definition detector_new :: "epoch \<Rightarrow> epoch_boundary_detector" where
  "detector_new e = \<lparr>current_epoch = e, previous_leader = None\<rparr>"

definition is_epoch_expired :: "epoch_boundary_detector \<Rightarrow> i64 \<Rightarrow> bool" where
  "is_epoch_expired d now \<longleftrightarrow> end_timestamp (current_epoch d) \<le>s now"

definition current_leader :: "epoch_boundary_detector \<Rightarrow> bytes option" where
  "current_leader d =
     (if leader_public_key (current_epoch d) = [] then None
      else Some (leader_public_key (current_epoch d)))"

definition advance_to_new_epoch ::
    "(stake_set \<Rightarrow> u64 \<Rightarrow> bytes \<Rightarrow> bytes) \<Rightarrow> stake_set \<Rightarrow> i64 \<Rightarrow> bytes \<Rightarrow>
     epoch_boundary_detector \<Rightarrow> epoch_boundary_detector" where
  "advance_to_new_epoch select ss epoch_duration prev_block_hash d =
     (let cur = current_epoch d;
          prev = (if leader_public_key cur \<noteq> [] then Some (leader_public_key cur)
                  else previous_leader d);
          now = end_timestamp cur
      in \<lparr>current_epoch = new_with_leader (epoch_number cur + 1) now (now + epoch_duration)
                            select ss prev_block_hash,
          previous_leader = prev\<rparr>)"

definition is_stale_block :: "epoch_boundary_detector \<Rightarrow> bytes \<Rightarrow> bool" where
  "is_stale_block d proposer_key =
     (case previous_leader d of Some prev \<Rightarrow> prev = proposer_key | None \<Rightarrow> False)"

section \<open>The candidate registry\<close>

record 'b candidate_registry =
  candidates :: "((bytes \<times> bytes) \<times> ('b \<times> bytes) list) list"
  max_candidates :: nat

definition DEFAULT_MAX_CANDIDATES :: nat where "DEFAULT_MAX_CANDIDATES = 1024"

definition candidates_new :: "'b candidate_registry" where
  "candidates_new = \<lparr>candidates = [], max_candidates = DEFAULT_MAX_CANDIDATES\<rparr>"

definition with_max_candidates :: "nat \<Rightarrow> 'b candidate_registry" where
  "with_max_candidates n = \<lparr>candidates = [], max_candidates = max n 1\<rparr>"

fun evict_front :: "nat \<Rightarrow> 'a list \<Rightarrow> 'a list" where
  "evict_front limit [] = []"
| "evict_front limit (x # xs) =
     (if length (x # xs) > limit then evict_front limit xs else x # xs)"

definition get_candidates :: "'b candidate_registry \<Rightarrow> bytes \<Rightarrow> bytes \<Rightarrow> ('b \<times> bytes) list" where
  "get_candidates r token_id previous_hash =
     (case map_of (candidates r) (token_id, previous_hash) of Some v \<Rightarrow> v | None \<Rightarrow> [])"

definition candidates_insert ::
    "bytes \<Rightarrow> bytes \<Rightarrow> 'b \<Rightarrow> bytes \<Rightarrow> 'b candidate_registry \<Rightarrow> 'b candidate_registry" where
  "candidates_insert token_id previous_hash blk proposer_key r =
     r\<lparr>candidates :=
         AList.update (token_id, previous_hash)
           (evict_front (max_candidates r)
              (get_candidates r token_id previous_hash @ [(blk, proposer_key)]))
           (candidates r)\<rparr>"

definition has_conflict :: "'b candidate_registry \<Rightarrow> bytes \<Rightarrow> bytes \<Rightarrow> bool" where
  "has_conflict r token_id previous_hash =
     (case map_of (candidates r) (token_id, previous_hash) of
        Some v \<Rightarrow> 2 \<le> length v | None \<Rightarrow> False)"

definition candidate_count :: "'b candidate_registry \<Rightarrow> bytes \<Rightarrow> bytes \<Rightarrow> nat" where
  "candidate_count r token_id previous_hash =
     (case map_of (candidates r) (token_id, previous_hash) of Some v \<Rightarrow> length v | None \<Rightarrow> 0)"

definition remove_conflicted ::
    "bytes \<Rightarrow> bytes \<Rightarrow> 'b candidate_registry \<Rightarrow> nat \<times> 'b candidate_registry" where
  "remove_conflicted token_id previous_hash r =
     (candidate_count r token_id previous_hash,
      r\<lparr>candidates := AList.delete (token_id, previous_hash) (candidates r)\<rparr>)"

definition candidates_len :: "'b candidate_registry \<Rightarrow> nat" where
  "candidates_len r = length (candidates r)"

definition candidates_is_empty :: "'b candidate_registry \<Rightarrow> bool" where
  "candidates_is_empty r \<longleftrightarrow> candidates r = []"

section \<open>The snapshot cache\<close>

text \<open>
  The fetch hook is the parameter \<open>fetch\<close>, an answer of the data provider to an epoch
  and a partition.
\<close>

record 't snapshot_cache =
  local_tier :: "(u64 \<times> 't) list"
  partition_id :: string

definition cache_new :: "string \<Rightarrow> 't snapshot_cache" where
  "cache_new pid = \<lparr>local_tier = [], partition_id = pid\<rparr>"

definition cache_get ::
    "(u64 \<Rightarrow> string \<Rightarrow> 'e + 't) \<Rightarrow> u64 \<Rightarrow> 't snapshot_cache \<Rightarrow> 't option \<times> 't snapshot_cache" where
  "cache_get fetch e c =
     (case map_of (local_tier c) e of
        Some snapshot \<Rightarrow> (Some snapshot, c)
      | None \<Rightarrow>
          (case fetch e (partition_id c) of
             Inr snapshot \<Rightarrow> (Some snapshot, c\<lparr>local_tier := AList.update e snapshot (local_tier c)\<rparr>)
           | Inl _ \<Rightarrow> (None, c)))"

definition cache_put :: "u64 \<Rightarrow> 't \<Rightarrow> 't snapshot_cache \<Rightarrow> 't snapshot_cache" where
  "cache_put e snapshot c = c\<lparr>local_tier := AList.update e snapshot (local_tier c)\<rparr>"

definition cached_count :: "'t snapshot_cache \<Rightarrow> nat" where
  "cached_count c = length (local_tier c)"

definition invalidate_all :: "'t snapshot_cache \<Rightarrow> 't snapshot_cache" where
  "invalidate_all c = c\<lparr>local_tier := []\<rparr>"

section \<open>Facts on the candidate registry\<close>

lemma evict_front_drop: "evict_front n xs = drop (length xs - n) xs"
  by (induction n xs rule: evict_front.induct) (auto simp: Suc_diff_le not_less)

definition candidates_inv :: "'b candidate_registry \<Rightarrow> bool" where
  "candidates_inv r \<longleftrightarrow> 1 \<le> max_candidates r \<and> distinct (map fst (candidates r)) \<and>
     (\<forall>kv\<in>set (candidates r). snd kv \<noteq> [] \<and> length (snd kv) \<le> max_candidates r)"

inductive candidates_reachable :: "'b candidate_registry \<Rightarrow> bool" where
  fresh: "candidates_reachable candidates_new"
| sized: "candidates_reachable (with_max_candidates n)"
| inserted: "candidates_reachable r \<Longrightarrow> candidates_reachable (candidates_insert t h b k r)"
| removed: "candidates_reachable r \<Longrightarrow> candidates_reachable (snd (remove_conflicted t h r))"

lemma candidates_inv_new [invs]: "candidates_inv candidates_new" "candidates_inv (with_max_candidates n)"
  by (simp_all add: candidates_inv_def candidates_new_def with_max_candidates_def DEFAULT_MAX_CANDIDATES_def)

lemma set_update_subset: "set (AList.update k v m) \<subseteq> insert (k, v) (set m)"
  by (induction m) auto

lemma candidates_inv_insert [invs]:
  assumes "candidates_inv r"
  shows "candidates_inv (candidates_insert t h b k r)"
proof -
  let ?new = "evict_front (max_candidates r) (get_candidates r t h @ [(b, k)])"
  have "?new \<noteq> [] \<and> length ?new \<le> max_candidates r"
    using assms by (auto simp: evict_front_drop candidates_inv_def)
  then have "\<forall>kv\<in>set (AList.update (t, h) ?new (candidates r)).
      snd kv \<noteq> [] \<and> length (snd kv) \<le> max_candidates r"
    using assms set_update_subset [of "(t, h)" ?new "candidates r"]
    by (auto simp: candidates_inv_def)
  then show ?thesis
    using assms by (simp add: candidates_inv_def candidates_insert_def distinct_update)
qed

lemma candidates_inv_remove [invs]:
  "candidates_inv r \<Longrightarrow> candidates_inv (snd (remove_conflicted t h r))"
  by (auto simp: candidates_inv_def remove_conflicted_def AList.delete_eq distinct_map_filter)

lemma candidates_reachable_inv: "candidates_reachable r \<Longrightarrow> candidates_inv r"
  by (induction rule: candidates_reachable.induct) (auto intro: invs)

lemma candidates_lookup_insert [alist_ops]:
  "get_candidates (candidates_insert t h b k r) t' h' =
     (if t' = t \<and> h' = h
      then drop (Suc (length (get_candidates r t h)) - max_candidates r) (get_candidates r t h @ [(b, k)])
      else get_candidates r t' h')"
  by (auto simp: get_candidates_def [of "candidates_insert t h b k r"] candidates_insert_def
      update_conv evict_front_drop get_candidates_def)

lemma candidates_lookup_remove [alist_ops]:
  "get_candidates (snd (remove_conflicted t h r)) t' h' =
     (if t' = t \<and> h' = h then [] else get_candidates r t' h')"
  by (simp add: get_candidates_def remove_conflicted_def delete_conv)

lemma candidate_count_length: "candidate_count r t h = length (get_candidates r t h)"
  by (simp add: candidate_count_def get_candidates_def split: option.splits)

lemma has_conflict_count: "has_conflict r t h \<longleftrightarrow> 2 \<le> candidate_count r t h"
  by (simp add: has_conflict_def candidate_count_def split: option.splits)

section \<open>Properties of conflict resolution\<close>

text \<open>A conflict is slashed exactly when both blocks have one proposer, is left undecided
  exactly when different proposers have equal stake, and otherwise the winner is the
  proposal with the strictly larger stake, whichever way round the two are presented.\<close>

theorem resolve_block_conflict_cases:
  "(pa = pb \<longleftrightarrow> resolve_block_conflict ha hb pa pb ss = SameProposerSlash ha pa) \<and>
   (pa \<noteq> pb \<and> get_stake ss pa = get_stake ss pb \<longleftrightarrow>
      resolve_block_conflict ha hb pa pb ss = TieFlagBoth ha) \<and>
   (get_stake ss pb < get_stake ss pa \<longrightarrow>
      resolve_block_conflict ha hb pa pb ss = DiscardLoser ha \<and>
      resolve_block_conflict hb ha pb pa ss = DiscardLoser ha)"
  by (auto simp: resolve_block_conflict_def Let_def split: if_splits)

text \<open>The stakes decide which way round: a heavier and a lighter proposer.\<close>

theorem resolve_block_conflict_cases_witness:
  "resolve_block_conflict [10] [11] [1] [2] \<lparr>stakers = [([1], 5), ([2], 3)]\<rparr> = DiscardLoser [10] \<and>
   resolve_block_conflict [11] [10] [2] [1] \<lparr>stakers = [([1], 5), ([2], 3)]\<rparr> = DiscardLoser [10]"
  using resolve_block_conflict_cases [of "[1]" "[2]" "[10]" "[11]" "\<lparr>stakers = [([1], 5), ([2], 3)]\<rparr>"]
  by (simp add: get_stake_def)

section \<open>Properties of the candidate registry\<close>

text \<open>In every registry reached by inserts and removals, a position holds at most the
  configured number of candidates; a further insert keeps the newest candidates in order,
  ends with the one just inserted, and touches no other position.\<close>

theorem candidates_bounded_lru:
  assumes "candidates_reachable r"
  shows "candidate_count r t h \<le> max_candidates r \<and>
         (\<exists>older. get_candidates (candidates_insert t h b k r) t h = older @ [(b, k)] \<and>
                  suffix older (get_candidates r t h) \<and>
                  length older = min (candidate_count r t h) (max_candidates r - 1)) \<and>
         (\<forall>t' h'. (t', h') \<noteq> (t, h) \<longrightarrow>
            get_candidates (candidates_insert t h b k r) t' h' = get_candidates r t' h')"
proof -
  have inv: "candidates_inv r" using assms by (rule candidates_reachable_inv)
  have bound: "candidate_count r t h \<le> max_candidates r"
  proof (cases "map_of (candidates r) (t, h)")
    case (Some v)
    then have "((t, h), v) \<in> set (candidates r)" by (rule map_of_SomeD)
    then show ?thesis using inv Some by (auto simp: candidates_inv_def candidate_count_def)
  qed (simp add: candidate_count_def)
  let ?old = "get_candidates r t h"
  let ?older = "drop (Suc (length ?old) - max_candidates r) ?old"
  have m: "1 \<le> max_candidates r" using inv by (simp add: candidates_inv_def)
  have "get_candidates (candidates_insert t h b k r) t h = ?older @ [(b, k)]"
    using m by (simp add: candidates_lookup_insert)
  moreover have "length ?older = min (candidate_count r t h) (max_candidates r - 1)"
    using bound m by (simp add: candidate_count_length)
  moreover have "suffix ?older ?old" by (rule suffix_drop)
  ultimately show ?thesis using bound by (auto simp: candidates_lookup_insert)
qed

theorem candidates_bounded_lru_witness:
  "candidate_count (with_max_candidates 0 :: nat candidate_registry) [1] [2] \<le> 1 \<and>
   get_candidates (candidates_insert [1] [2] (7 :: nat) [9] (with_max_candidates 0)) [1] [2] = [(7, [9])]"
  using candidates_bounded_lru [OF candidates_reachable.sized, of 0 "[1]" "[2]" "7 :: nat" "[9]"]
  by (auto simp: candidate_count_def with_max_candidates_def)

section \<open>Properties of the boundary detector\<close>

context leader_selector
begin

lemma advance_leader:
  assumes "distinct (map fst (stakers ss))"
  shows "current_leader (advance_to_new_epoch select ss dur p d) = None \<or>
         (\<exists>k. current_leader (advance_to_new_epoch select ss dur p d) = Some k \<and> 0 < get_stake ss k)"
  using select_staked [OF assms]
  by (auto simp: current_leader_def advance_to_new_epoch_def new_with_leader_def Let_def)

end

text \<open>An epoch advance continues the clock and the numbering, elects nobody or a staked
  leader, and marks the blocks of the outgoing leader, and only those, as stale.\<close>

theorem advance_to_new_epoch_sound:
  assumes "distinct (map fst (stakers ss))" and "current_leader d = Some old"
    and "d' = advance_to_new_epoch (leader_select sha g) ss dur p d"
  shows "start_timestamp (current_epoch d') = end_timestamp (current_epoch d) \<and>
         epoch_number (current_epoch d') = epoch_number (current_epoch d) + 1 \<and>
         (\<forall>k. current_leader d' = Some k \<longrightarrow> 0 < get_stake ss k) \<and>
         (\<forall>k. is_stale_block d' k \<longleftrightarrow> k = old)"
  using assms(2) core.advance_leader [OF assms(1), of sha g dur p d]
  by (auto simp: assms(3) advance_to_new_epoch_def new_with_leader_def Let_def is_stale_block_def
      current_leader_def split: if_splits)

theorem advance_to_new_epoch_sound_witness:
  "is_stale_block (advance_to_new_epoch (leader_select (\<lambda>b. b) zero_rng) two_units 10 []
      (detector_new \<lparr>start_timestamp = 0, end_timestamp = 10, epoch_number = 0,
                     leader_public_key = [1]\<rparr>)) [1]"
  using advance_to_new_epoch_sound [OF two_units_facts(1) _ refl,
      of "detector_new \<lparr>start_timestamp = 0, end_timestamp = 10, epoch_number = 0,
                     leader_public_key = [1]\<rparr>" "[1]" "\<lambda>b. b" zero_rng 10 "[]"]
  by (simp add: current_leader_def detector_new_def)

section \<open>Properties of the snapshot cache\<close>

definition cache_coherent :: "(u64 \<Rightarrow> string \<Rightarrow> 'e + 't) \<Rightarrow> 't snapshot_cache \<Rightarrow> bool" where
  "cache_coherent fetch c \<longleftrightarrow>
     (\<forall>e v. map_of (local_tier c) e = Some v \<longrightarrow> fetch e (partition_id c) = Inr v)"

text \<open>A cache whose entries agree with the data provider answers every read exactly as the
  provider would, and stays in agreement; a stale entry is dropped by invalidation.\<close>

theorem cache_get_transparent:
  assumes "cache_coherent fetch c"
  shows "fst (cache_get fetch e c) =
           (case fetch e (partition_id c) of Inr v \<Rightarrow> Some v | Inl _ \<Rightarrow> None) \<and>
         cache_coherent fetch (snd (cache_get fetch e c)) \<and>
         (\<forall>fetch'. cache_coherent fetch' (invalidate_all c))"
  using assms
  by (auto simp: cache_get_def cache_coherent_def update_conv invalidate_all_def
      split: option.splits sum.splits if_splits)

theorem cache_get_transparent_witness:
  "fst (cache_get (\<lambda>e p. if e = 3 then Inr (42 :: nat) else Inl ()) 3 (cache_new ''p'')) = Some 42"
  using cache_get_transparent
    [of "\<lambda>e p. if e = 3 then Inr (42 :: nat) else Inl ()" "cache_new ''p''" 3]
  by (auto simp: cache_coherent_def cache_new_def)

end
