(* ===== verification/Errors.thy ===== *)
theory Errors
  imports Prelude
begin

text \<open>
  The error values of \<^verbatim>\<open>src/errors.rs\<close>, \<^verbatim>\<open>src/data.rs\<close> and \<^verbatim>\<open>src/tokens.rs\<close> and the risk
  metrics of a transaction.  The string a \<^verbatim>\<open>format!\<close> builds is abbreviated to a fixed
  text; which variant is returned is exactly the source's.
\<close>

datatype validation_failure_reason =
    SenderMissing | InsufficientFunds | InvalidNonce | InsufficientGasBalance | InsufficientGas
  | InsufficientStake | InvalidSignature | ContractNotFound | InvalidAmount | InvalidTimestamp
  | InvalidBidPercentage | GasLimitExceeded | RiskExceedsThreshold | NotTokenOwner
  | UnsupportedAction | NotSelfVerified | TokenNotFound | MissingResultHash
  | MissingExecutorSignatures | MissingFinalizerSignature | StaleEpochBlock | BlockConflictReason
  | InvalidCommitment | StaleNullifier | StaleMerkleRoot | InvalidShieldedProof | NotShieldedOptIn
  | UnknownNullifier | ValueBalanceMismatch | ContractExecutionFailed | ExecutionTimeout
  | ContractDeployFailed | ContractScanFailed | ContractUpgradeFailed

datatype block_validation_error =
    BvTokenNotFound | ImproperBlockFormatting | IncorrectExecutorTransactionHash
  | IncorrectExecutorTransactionSignature | FinalizedTransactionDataWasModified
  | InvalidFinalizerSignature | ChainLinkage | NoValidatorRegistered
  | InvalidBlock "validation_failure_reason list"

datatype data_error =
    FromStore string | SerializationError io_error | DeserializationError io_error | DataNotFound
  | StoreNotFound | CacheError | Poisoned | InvalidOperation string | DataInvalidSignature
  | DataCryptoError string | Timeout string | PeerUnauthenticated string | SnapshotCorrupt string

datatype pneumatic_error =
    CryptoError string | Encoding string | DataErr data_error | Network string | Resource string
  | Validation "validation_failure_reason list" | Registry string | EpochErr string
  | BlockErr block_validation_error
  | StaleBlock bytes bytes bytes u64
  | BlockConflict u64 bytes bytes
  | Shielded string | Routing string | Io string

datatype block_commit_error =
    TokenWriteLockPoisoned | FromDataError data_error
  | BlockValidationErr block_validation_error | HashErr string

datatype executor_routing_error =
    EmptyExecutorSet | ShardCountZero | ShardOutOfBounds u32 u32 | NoExecutorsInShard u32

type_synonym 'a res = "pneumatic_error + 'a"

text \<open>\<^verbatim>\<open>map_err\<close> from an encoder's I/O error, as the \<^verbatim>\<open>?\<close> conversions do it.\<close>

definition encoding_err :: "io_error + 'a \<Rightarrow> 'a res" where
  "encoding_err r = (case r of Inl e \<Rightarrow> Inl (Encoding e) | Inr b \<Rightarrow> Inr b)"

section \<open>Risk metrics\<close>

record transaction_risk_factor =
  affected_parties :: nat
  risk_amount :: u64
  is_contract :: bool
  is_multi_party :: bool

text \<open>The two component risks take the values 0, 0.5 and 1, given here in halves.\<close>

definition amount_risk :: "transaction_risk_factor \<Rightarrow> nat" where
  "amount_risk r = (if risk_amount r > 1000000000 then 2
                    else if risk_amount r > 1000000 then 1 else 0)"

definition party_risk :: "transaction_risk_factor \<Rightarrow> nat" where
  "party_risk r = (if affected_parties r \<le> 1 then 0 else if affected_parties r = 2 then 1 else 2)"

end
