(* ===== verification/Transactions.thy ===== *)
theory Transactions
  imports Errors
begin

text \<open>
  The transaction model of \<^verbatim>\<open>src/transactions.rs\<close>: the payload types, the pending
  transaction and its lock, the routing decision, the canonical encodings and the
  finalizer's digest with its verification.

  MessagePack (\<^verbatim>\<open>rmp-serde\<close>), SHA-256 and the hybrid signature scheme are parameters:
  a record \<open>codec\<close> holds one encoder per encoded type, a record \<open>crypto_provider\<close> the
  operations of the trait \<^verbatim>\<open>AsymCryptoProvider\<close> that are called.
\<close>

section \<open>Payloads\<close>

text \<open>A bid's \<^verbatim>\<open>f32\<close> percentage is only carried, so it is kept as its bit pattern.\<close>

record bid =
  bid_expiry :: i64
  bid_percentage :: u32

record selection_record =
  sel_finalizer :: bytes
  sel_epoch :: u64
  sel_salt :: bytes
  sel_sentinel :: bytes
  sel_attestation :: bytes

record transaction =
  tx_id :: string
  tx_action :: string
  tx_token :: bytes
  tx_bid :: "bid option"
  tx_seq :: nat
  tx_sender :: bytes
  tx_receiver :: bytes
  tx_amount :: "u64 option"
  tx_timestamp :: i64
  tx_result_hash :: bytes
  tx_sender_signature :: bytes
  tx_payload :: bytes
  tx_gas_limit :: u64
  tx_result_data :: bytes
  tx_selection :: "selection_record option"

record validation_result =
  is_valid :: bool
  risk :: transaction_risk_factor
  failure_reasons :: "validation_failure_reason list"
  finalizer_public_key :: bytes

definition validation_valid :: "bytes \<Rightarrow> transaction_risk_factor \<Rightarrow> validation_result" where
  "validation_valid key r =
     \<lparr>is_valid = True, risk = r, failure_reasons = [], finalizer_public_key = key\<rparr>"

definition validation_invalid :: "validation_failure_reason list \<Rightarrow> validation_result" where
  "validation_invalid reasons =
     \<lparr>is_valid = False,
      risk = \<lparr>affected_parties = 0, risk_amount = 0, is_contract = False, is_multi_party = False\<rparr>,
      failure_reasons = reasons, finalizer_public_key = []\<rparr>"

record transaction_signature =
  sig_transaction_id :: bytes
  sig_env_id :: bytes
  sig_transaction_hash :: bytes
  sig_signature :: bytes
  sig_current_stake :: u64

record shielded_transaction =
  sh_id :: string
  sh_action :: string
  sh_token :: bytes
  sh_spent_commitments :: "bytes list"
  sh_nullifiers :: "bytes list"
  sh_commitments :: "bytes list"
  sh_merkle_root :: bytes
  sh_proof :: bytes
  sh_note_ciphertexts :: "bytes list"
  sh_fee :: u64

record signed_transaction =
  sx_transaction_id :: string
  sx_transaction :: transaction
  sx_total_stake :: u64
  sx_total_voters :: u32
  sx_leader_address :: bytes
  sx_leader_stake :: u64
  sx_leader_hash :: bytes
  sx_finalizer_addr :: bytes
  sx_finalizer_sig :: transaction_signature
  sx_executor_sigs :: "transaction_signature amap"
  sx_proposer_key :: bytes
  sx_shielded :: "shielded_transaction option"

definition placeholder_transaction :: "shielded_transaction \<Rightarrow> transaction" where
  "placeholder_transaction sh =
     \<lparr>tx_id = sh_id sh, tx_action = ''ShieldedTransfer'', tx_token = sh_token sh, tx_bid = None,
      tx_seq = 0, tx_sender = [], tx_receiver = [], tx_amount = None, tx_timestamp = 0,
      tx_result_hash = [], tx_sender_signature = [], tx_payload = [], tx_gas_limit = 0,
      tx_result_data = [], tx_selection = None\<rparr>"

section \<open>The transaction state machine\<close>

datatype transaction_state =
    Pending
  | Preloaded transaction
  | Validated transaction validation_result
  | Executing transaction
  | Finalizing transaction bytes
  | Committed transaction bytes
  | Failed transaction "validation_failure_reason list"

definition is_pending :: "transaction_state \<Rightarrow> bool" where
  "is_pending s = (case s of Pending \<Rightarrow> True | _ \<Rightarrow> False)"

definition is_finalizing :: "transaction_state \<Rightarrow> bool" where
  "is_finalizing s = (case s of Finalizing _ _ \<Rightarrow> True | _ \<Rightarrow> False)"

definition state_transaction :: "transaction_state \<Rightarrow> transaction option" where
  "state_transaction s =
     (case s of
        Pending \<Rightarrow> None
      | Preloaded tx \<Rightarrow> Some tx
      | Validated tx _ \<Rightarrow> Some tx
      | Executing tx \<Rightarrow> Some tx
      | Finalizing tx _ \<Rightarrow> Some tx
      | Committed tx _ \<Rightarrow> Some tx
      | Failed tx _ \<Rightarrow> Some tx)"

record pending_transaction =
  pt_id :: string
  pt_state :: transaction_state
  lock_count :: nat

definition pending_new :: "string \<Rightarrow> transaction_state \<Rightarrow> pending_transaction" where
  "pending_new i s = \<lparr>pt_id = i, pt_state = s, lock_count = 0\<rparr>"

definition is_terminal :: "transaction_state \<Rightarrow> bool" where
  "is_terminal s = (case s of Failed _ _ \<Rightarrow> True | Committed _ _ \<Rightarrow> True | _ \<Rightarrow> False)"

definition acquire :: "pending_transaction \<Rightarrow> pending_transaction option" where
  "acquire pt = (if is_terminal (pt_state pt) then None
                 else Some (pt\<lparr>lock_count := lock_count pt + 1\<rparr>))"

definition release :: "pending_transaction \<Rightarrow> bool \<times> pending_transaction" where
  "release pt =
     (let pt' = (if lock_count pt > 0 then pt\<lparr>lock_count := lock_count pt - 1\<rparr> else pt)
      in (lock_count pt' = 0 \<and> is_terminal (pt_state pt'), pt'))"

definition transition_to_preloaded :: "transaction \<Rightarrow> pending_transaction \<Rightarrow> pending_transaction" where
  "transition_to_preloaded tx pt = pt\<lparr>pt_state := Preloaded tx\<rparr>"

definition transition_to_validated ::
    "transaction \<Rightarrow> validation_result \<Rightarrow> pending_transaction \<Rightarrow> pending_transaction" where
  "transition_to_validated tx v pt = pt\<lparr>pt_state := Validated tx v\<rparr>"

definition transition_to_executing :: "transaction \<Rightarrow> pending_transaction \<Rightarrow> pending_transaction" where
  "transition_to_executing tx pt = pt\<lparr>pt_state := Executing tx\<rparr>"

definition transition_to_finalizing ::
    "transaction \<Rightarrow> bytes \<Rightarrow> pending_transaction \<Rightarrow> pending_transaction" where
  "transition_to_finalizing tx key pt = pt\<lparr>pt_state := Finalizing tx key\<rparr>"

definition transition_to_committed ::
    "transaction \<Rightarrow> bytes \<Rightarrow> pending_transaction \<Rightarrow> pending_transaction" where
  "transition_to_committed tx h pt = pt\<lparr>pt_state := Committed tx h\<rparr>"

definition transition_to_failed ::
    "transaction \<Rightarrow> validation_failure_reason list \<Rightarrow> pending_transaction \<Rightarrow> pending_transaction" where
  "transition_to_failed tx rs pt = pt\<lparr>pt_state := Failed tx rs\<rparr>"

definition is_awaiting_finalizer :: "pending_transaction \<Rightarrow> bool" where
  "is_awaiting_finalizer pt = (case pt_state pt of Validated _ _ \<Rightarrow> True | _ \<Rightarrow> False)"

section \<open>Canonical views and their encoders\<close>

record canonical_signed_transaction =
  cst_transaction_id :: string
  cst_transaction :: transaction
  cst_total_stake :: u64
  cst_total_voters :: u32
  cst_leader_address :: bytes
  cst_leader_stake :: u64
  cst_leader_hash :: bytes
  cst_finalizer_addr :: bytes
  cst_finalizer_sig :: transaction_signature
  cst_executor_sigs :: "transaction_signature amap"
  cst_proposer_key :: bytes

text \<open>\<^verbatim>\<open>CanonicalFinalizerCarrier\<close> is the same view with the shielded payload as a field.\<close>

record finalizer_carrier = canonical_signed_transaction +
  car_shielded :: "shielded_transaction option"

record canonical_transaction =
  ct_id :: string
  ct_action :: string
  ct_token :: bytes
  ct_bid :: "bid option"
  ct_seq :: nat
  ct_sender :: bytes
  ct_receiver :: bytes
  ct_amount :: "u64 option"
  ct_timestamp :: i64
  ct_result_hash :: bytes
  ct_payload :: bytes
  ct_gas_limit :: u64

record codec =
  rmp_surface :: "bytes \<times> u8 \<times> bytes \<times> u64 \<times> bytes \<Rightarrow> io_error + bytes"
  rmp_shielded :: "shielded_transaction \<Rightarrow> io_error + bytes"
  rmp_signed :: "canonical_signed_transaction \<Rightarrow> io_error + bytes"
  rmp_carrier :: "finalizer_carrier \<Rightarrow> io_error + bytes"
  rmp_canonical_tx :: "canonical_transaction \<Rightarrow> io_error + bytes"
  rmp_tx :: "transaction \<Rightarrow> io_error + bytes"
  rmp_i64 :: "i64 \<Rightarrow> io_error + bytes"
  rmp_u64 :: "u64 \<Rightarrow> io_error + bytes"
  rmp_bytes :: "bytes \<Rightarrow> io_error + bytes"
  rmp_str_map :: "(string \<times> string) list \<Rightarrow> io_error + bytes"
  rmp_stakes :: "(bytes \<times> u64) list \<Rightarrow> io_error + bytes"

record crypto_provider =
  check_signature :: "bytes \<Rightarrow> bytes \<Rightarrow> bytes \<Rightarrow> bool res"
  sign_data :: "bytes \<Rightarrow> bytes res"
  public_key :: "bytes res"

section \<open>The routing decision\<close>

definition attestation_surface ::
    "codec \<Rightarrow> string \<Rightarrow> u8 \<Rightarrow> bytes \<Rightarrow> u64 \<Rightarrow> bytes \<Rightarrow> bytes res" where
  "attestation_surface c txid domain fkey epoch salt =
     encoding_err (rmp_surface c (as_bytes txid, domain, fkey, epoch, salt))"

definition attest ::
    "codec \<Rightarrow> crypto_provider \<Rightarrow> string \<Rightarrow> u8 \<Rightarrow> bytes \<Rightarrow> u64 \<Rightarrow> bytes \<Rightarrow> selection_record res" where
  "attest c cr txid domain fkey epoch salt =
     (case attestation_surface c txid domain fkey epoch salt of
        Inl e \<Rightarrow> Inl e
      | Inr surface \<Rightarrow>
          (case sign_data cr surface of
             Inl e \<Rightarrow> Inl e
           | Inr att \<Rightarrow>
               (case public_key cr of
                  Inl e \<Rightarrow> Inl e
                | Inr pk \<Rightarrow> Inr \<lparr>sel_finalizer = fkey, sel_epoch = epoch, sel_salt = salt,
                                 sel_sentinel = pk, sel_attestation = att\<rparr>)))"

definition selection_verify ::
    "codec \<Rightarrow> crypto_provider \<Rightarrow> selection_record \<Rightarrow> string \<Rightarrow> u8 \<Rightarrow> bool res" where
  "selection_verify c cr s txid domain =
     (if sel_attestation s = [] \<or> sel_sentinel s = [] then Inr False
      else case attestation_surface c txid domain (sel_finalizer s) (sel_epoch s) (sel_salt s) of
             Inl e \<Rightarrow> Inl e
           | Inr surface \<Rightarrow> check_signature cr (sel_attestation s) (sel_sentinel s) surface)"

definition selection_names :: "selection_record \<Rightarrow> bytes \<Rightarrow> bool" where
  "selection_names s key \<longleftrightarrow> key \<noteq> [] \<and> sel_finalizer s = key"

definition same_decision_as :: "selection_record \<Rightarrow> selection_record \<Rightarrow> bool" where
  "same_decision_as s t \<longleftrightarrow>
     sel_finalizer s = sel_finalizer t \<and> sel_sentinel s = sel_sentinel t \<and>
     sel_epoch s = sel_epoch t \<and> sel_salt s = sel_salt t"

section \<open>Canonical encodings\<close>

definition shielded_canonical_bytes :: "codec \<Rightarrow> shielded_transaction \<Rightarrow> bytes res" where
  "shielded_canonical_bytes c sh = encoding_err (rmp_shielded c sh)"

definition shielded_hash :: "codec \<Rightarrow> (bytes \<Rightarrow> bytes) \<Rightarrow> shielded_transaction \<Rightarrow> bytes res" where
  "shielded_hash c hash sh =
     (case shielded_canonical_bytes c sh of Inl e \<Rightarrow> Inl e | Inr b \<Rightarrow> Inr (hash b))"

definition canonical_view :: "signed_transaction \<Rightarrow> canonical_signed_transaction" where
  "canonical_view sx =
     \<lparr>cst_transaction_id = sx_transaction_id sx, cst_transaction = sx_transaction sx,
      cst_total_stake = sx_total_stake sx, cst_total_voters = sx_total_voters sx,
      cst_leader_address = sx_leader_address sx, cst_leader_stake = sx_leader_stake sx,
      cst_leader_hash = sx_leader_hash sx, cst_finalizer_addr = sx_finalizer_addr sx,
      cst_finalizer_sig = sx_finalizer_sig sx,
      cst_executor_sigs = btree_of (sx_executor_sigs sx), cst_proposer_key = sx_proposer_key sx\<rparr>"

definition canonical_signed_trans_bytes :: "codec \<Rightarrow> signed_transaction \<Rightarrow> io_error + bytes" where
  "canonical_signed_trans_bytes c sx =
     (case rmp_signed c (canonical_view sx) of
        Inl e \<Rightarrow> Inl e
      | Inr b \<Rightarrow>
          (case sx_shielded sx of
             None \<Rightarrow> Inr b
           | Some sh \<Rightarrow>
               (case shielded_canonical_bytes c sh of
                  Inl _ \<Rightarrow> Inl ''shielded canonical''
                | Inr sb \<Rightarrow> Inr (b @ sb))))"

definition finalizer_placeholder_sig :: "transaction \<Rightarrow> transaction_signature" where
  "finalizer_placeholder_sig tx =
     \<lparr>sig_transaction_id = as_bytes (tx_id tx), sig_env_id = tx_token tx,
      sig_transaction_hash = [], sig_signature = [], sig_current_stake = 0\<rparr>"

definition finalizer_carrier_of :: "signed_transaction \<Rightarrow> finalizer_carrier" where
  "finalizer_carrier_of sx =
     \<lparr>cst_transaction_id = sx_transaction_id sx, cst_transaction = sx_transaction sx,
      cst_total_stake = sx_total_stake sx, cst_total_voters = sx_total_voters sx,
      cst_leader_address = sx_leader_address sx, cst_leader_stake = sx_leader_stake sx,
      cst_leader_hash = sx_leader_hash sx, cst_finalizer_addr = sx_finalizer_addr sx,
      cst_finalizer_sig = finalizer_placeholder_sig (sx_transaction sx),
      cst_executor_sigs = btree_of (sx_executor_sigs sx), cst_proposer_key = sx_proposer_key sx,
      car_shielded = sx_shielded sx\<rparr>"

definition executor_sig_input :: "signed_transaction \<Rightarrow> bytes" where
  "executor_sig_input sx = concat (map (sig_signature \<circ> snd) (btree_of (sx_executor_sigs sx)))"

definition finalizer_digest :: "codec \<Rightarrow> (bytes \<Rightarrow> bytes) \<Rightarrow> signed_transaction \<Rightarrow> bytes res" where
  "finalizer_digest c hash sx =
     (case rmp_carrier c (finalizer_carrier_of sx) of
        Inl _ \<Rightarrow> Inl (Encoding ''finalizer digest: signed_tx'')
      | Inr tx_bytes \<Rightarrow> Inr (hash (hash tx_bytes @ hash (executor_sig_input sx))))"

datatype finalizer_signature_failure =
    Missing
  | PayloadMismatch bytes bytes
  | InvalidUnderKey

definition verify_finalizer_signature ::
    "codec \<Rightarrow> (bytes \<Rightarrow> bytes) \<Rightarrow> crypto_provider \<Rightarrow> signed_transaction \<Rightarrow> bytes \<Rightarrow>
     finalizer_signature_failure + unit" where
  "verify_finalizer_signature c hash cr sx expected_key =
     (if sig_signature (sx_finalizer_sig sx) = [] then Inl Missing
      else case finalizer_digest c hash sx of
             Inl _ \<Rightarrow> Inl InvalidUnderKey
           | Inr derived \<Rightarrow>
               if derived \<noteq> sig_transaction_hash (sx_finalizer_sig sx)
               then Inl (PayloadMismatch (sig_transaction_hash (sx_finalizer_sig sx)) derived)
               else (case check_signature cr (sig_signature (sx_finalizer_sig sx)) expected_key derived of
                       Inr True \<Rightarrow> Inr ()
                     | _ \<Rightarrow> Inl InvalidUnderKey))"

section \<open>The sender's signature and transaction hashes\<close>

definition canonical_signature_bytes :: "codec \<Rightarrow> transaction \<Rightarrow> bytes res" where
  "canonical_signature_bytes c tx =
     encoding_err (rmp_canonical_tx c
       \<lparr>ct_id = tx_id tx, ct_action = tx_action tx, ct_token = tx_token tx, ct_bid = tx_bid tx,
        ct_seq = tx_seq tx, ct_sender = tx_sender tx, ct_receiver = tx_receiver tx,
        ct_amount = tx_amount tx, ct_timestamp = tx_timestamp tx,
        ct_result_hash = tx_result_hash tx, ct_payload = tx_payload tx,
        ct_gas_limit = tx_gas_limit tx\<rparr>)"

definition verify_sender_signature :: "codec \<Rightarrow> crypto_provider \<Rightarrow> transaction \<Rightarrow> bool res" where
  "verify_sender_signature c cr tx =
     (case canonical_signature_bytes c tx of
        Inl e \<Rightarrow> Inl e
      | Inr canonical \<Rightarrow> check_signature cr (tx_sender_signature tx) (tx_sender tx) canonical)"

definition identity_bytes :: "codec \<Rightarrow> transaction \<Rightarrow> bytes res" where
  "identity_bytes c tx = encoding_err (rmp_tx c (tx\<lparr>tx_result_hash := [], tx_result_data := []\<rparr>))"

definition identity_hash :: "codec \<Rightarrow> (bytes \<Rightarrow> bytes) \<Rightarrow> transaction \<Rightarrow> bytes res" where
  "identity_hash c hash tx = (case identity_bytes c tx of Inl e \<Rightarrow> Inl e | Inr b \<Rightarrow> Inr (hash b))"

definition transaction_hash :: "codec \<Rightarrow> (bytes \<Rightarrow> bytes) \<Rightarrow> transaction \<Rightarrow> bytes res" where
  "transaction_hash c hash tx =
     (case encoding_err (rmp_tx c tx) of Inl e \<Rightarrow> Inl e | Inr b \<Rightarrow> Inr (hash b))"

end
