(* ===== verification/Transaction_Pool.thy ===== *)
theory Transaction_Pool
  imports Transactions "HOL-Library.Product_Lexorder"
begin

text \<open>
  The per-token ordered queue of \<^verbatim>\<open>src/transactions.rs\<close> (\<^verbatim>\<open>TransactionPool\<close>): enqueue at
  the sorted position, removal, and the leader's dequeue.  The invariant says that every
  queue lists indexed, pairwise different transactions of its token in the order of
  sequence number and then timestamp.
\<close>

section \<open>The pool\<close>

type_synonym pool_entry = "bytes \<times> nat \<times> i64 \<times> bytes"

record transaction_pool =
  pools :: "string list amap"
  pool_index :: "(string \<times> pool_entry) list"

definition pool_new :: transaction_pool where
  "pool_new = \<lparr>pools = [], pool_index = []\<rparr>"

text \<open>The closure of \<^verbatim>\<open>position\<close>: whether a new entry goes before the queued one.\<close>

definition goes_before ::
    "(string \<times> pool_entry) list \<Rightarrow> nat \<Rightarrow> i64 \<Rightarrow> bytes \<Rightarrow> string \<Rightarrow> bool" where
  "goes_before idx seq ts sender existing_id =
     (case map_of idx existing_id of
        Some (_, eseq, ets, esender) \<Rightarrow>
          if esender = sender then seq < eseq
          else seq < eseq \<or> (seq = eseq \<and> ts <s ets)
      | None \<Rightarrow> True)"

text \<open>Insertion at the first position that satisfies the closure, or at the end.\<close>

fun insert_at_first :: "('a \<Rightarrow> bool) \<Rightarrow> 'a \<Rightarrow> 'a list \<Rightarrow> 'a list" where
  "insert_at_first P y [] = [y]"
| "insert_at_first P y (x # xs) = (if P x then y # x # xs else x # insert_at_first P y xs)"

definition queue_of :: "transaction_pool \<Rightarrow> bytes \<Rightarrow> string list" where
  "queue_of p token = (case map_of (pools p) token of Some q \<Rightarrow> q | None \<Rightarrow> [])"

definition pool_enqueue ::
    "string \<Rightarrow> bytes \<Rightarrow> nat \<Rightarrow> i64 \<Rightarrow> bytes \<Rightarrow> transaction_pool \<Rightarrow> transaction_pool" where
  "pool_enqueue txid token seq ts sender p =
     (let idx = AList.update txid (token, seq, ts, sender) (pool_index p)
      in \<lparr>pools = AList.update token
                    (insert_at_first (goes_before idx seq ts sender) txid (queue_of p token)) (pools p),
          pool_index = idx\<rparr>)"

definition pool_remove :: "string \<Rightarrow> transaction_pool \<Rightarrow> pool_entry option \<times> transaction_pool" where
  "pool_remove txid p =
     (case map_of (pool_index p) txid of
        None \<Rightarrow> (None, p)
      | Some entry \<Rightarrow>
          let token = fst entry;
              ps = (case map_of (pools p) token of
                      None \<Rightarrow> pools p
                    | Some q \<Rightarrow>
                        let q' = filter (\<lambda>i. i \<noteq> txid) q
                        in if q' = [] then AList.delete token (pools p)
                           else AList.update token q' (pools p))
          in (Some entry, \<lparr>pools = ps, pool_index = AList.delete txid (pool_index p)\<rparr>))"

definition peek_top :: "transaction_pool \<Rightarrow> bytes \<Rightarrow> nat \<Rightarrow> string list" where
  "peek_top p token n = take n (queue_of p token)"

definition dequeue_for_leader ::
    "bytes \<Rightarrow> nat \<Rightarrow> transaction_pool \<Rightarrow> string list \<times> transaction_pool" where
  "dequeue_for_leader token n p =
     (peek_top p token n,
      (case map_of (pools p) token of
         None \<Rightarrow> p
       | Some q \<Rightarrow>
           let remaining = drop (min n (length q)) q
           in p\<lparr>pools := (if remaining = [] then AList.delete token (pools p)
                          else AList.update token remaining (pools p))\<rparr>))"

definition pool_len :: "transaction_pool \<Rightarrow> bytes \<Rightarrow> nat" where
  "pool_len p token = (case map_of (pools p) token of Some q \<Rightarrow> length q | None \<Rightarrow> 0)"

definition pool_is_empty :: "transaction_pool \<Rightarrow> bytes \<Rightarrow> bool" where
  "pool_is_empty p token = (case map_of (pools p) token of Some q \<Rightarrow> q = [] | None \<Rightarrow> True)"

definition total_len :: "transaction_pool \<Rightarrow> nat" where
  "total_len p = length (pool_index p)"

definition token_ids :: "transaction_pool \<Rightarrow> bytes list" where
  "token_ids p = map fst (pools p)"

section \<open>The invariant\<close>

definition order_key :: "(string \<times> pool_entry) list \<Rightarrow> string \<Rightarrow> nat \<times> int" where
  "order_key idx i = (case map_of idx i of Some (_, s, ts, _) \<Rightarrow> (s, sint ts) | None \<Rightarrow> (0, 0))"

definition nonce_of :: "(string \<times> pool_entry) list \<Rightarrow> string \<Rightarrow> (bytes \<times> bytes \<times> nat) option" where
  "nonce_of idx i = map_option (\<lambda>(tok, s, ts, sn). (tok, sn, s)) (map_of idx i)"

definition queue_ok :: "(string \<times> pool_entry) list \<Rightarrow> bytes \<Rightarrow> string list \<Rightarrow> bool" where
  "queue_ok idx token q \<longleftrightarrow>
     distinct q \<and> sorted (map (order_key idx) q) \<and>
     (\<forall>i\<in>set q. \<exists>sn s. nonce_of idx i = Some (token, sn, s)) \<and> inj_on (nonce_of idx) (set q)"

definition pool_inv :: "transaction_pool \<Rightarrow> bool" where
  "pool_inv p \<longleftrightarrow>
     distinct (map fst (pools p)) \<and> distinct (map fst (pool_index p)) \<and>
     (\<forall>token. queue_ok (pool_index p) token (queue_of p token))"

definition queued :: "transaction_pool \<Rightarrow> string \<Rightarrow> bool" where
  "queued p i \<longleftrightarrow> (\<exists>token. i \<in> set (queue_of p token))"

section \<open>Facts on queues\<close>

lemma queue_of_enqueue [alist_ops]:
  "queue_of (pool_enqueue i tok s ts sn p) tok' =
     (if tok' = tok
      then insert_at_first (goes_before (AList.update i (tok, s, ts, sn) (pool_index p)) s ts sn) i
             (queue_of p tok)
      else queue_of p tok')"
  by (simp add: pool_enqueue_def Let_def queue_of_def update_conv)

lemma queue_of_dequeue [alist_ops]:
  "queue_of (snd (dequeue_for_leader tok n p)) tok' =
     (if tok' = tok then drop n (queue_of p tok) else queue_of p tok')"
  by (auto simp: dequeue_for_leader_def queue_of_def Let_def delete_conv update_conv min_def
      split: option.splits)

lemma queue_of_remove [alist_ops]:
  "queue_of (snd (pool_remove i p)) tok =
     (case map_of (pool_index p) i of
        Some entry \<Rightarrow> if fst entry = tok then filter (\<lambda>j. j \<noteq> i) (queue_of p tok) else queue_of p tok
      | None \<Rightarrow> queue_of p tok)"
  by (auto simp: pool_remove_def queue_of_def Let_def delete_conv update_conv split: option.splits)

lemma set_insert_at_first: "set (insert_at_first P y xs) = insert y (set xs)"
  by (induction P y xs rule: insert_at_first.induct) auto

lemma distinct_insert_at_first: "distinct (insert_at_first P y xs) \<longleftrightarrow> y \<notin> set xs \<and> distinct xs"
  by (induction P y xs rule: insert_at_first.induct) (auto simp: set_insert_at_first)

lemma sorted_insert_at_first:
  assumes "sorted (map f xs)" and "\<forall>x\<in>set xs. P x \<longleftrightarrow> f y < f x"
  shows "sorted (map f (insert_at_first P y xs))"
  using assms
proof (induction P y xs rule: insert_at_first.induct)
  case (2 P y x xs)
  then show ?case by (auto simp: set_insert_at_first not_less intro: order_trans less_imp_le)
qed simp

lemma map_of_update_other: "j \<noteq> i \<Longrightarrow> map_of (AList.update i v m) j = map_of m j"
  by (simp add: update_conv)

lemma queue_ok_cong:
  assumes "queue_ok idx tok q"
    and "\<And>j. j \<in> set q \<Longrightarrow> order_key idx' j = order_key idx j \<and> nonce_of idx' j = nonce_of idx j"
  shows "queue_ok idx' tok q"
proof -
  have keys: "map (order_key idx') q = map (order_key idx) q" using assms(2) by simp
  have "inj_on (nonce_of idx') (set q) \<longleftrightarrow> inj_on (nonce_of idx) (set q)"
    using assms(2) by (intro inj_on_cong) simp
  then show ?thesis using assms unfolding queue_ok_def keys by simp
qed

lemma goes_before_iff:
  assumes "nonce_of idx x = Some (tok, sn', s')" and "(tok, sn', s') \<noteq> (tok, sn, s)"
    and "nonce_of idx y = Some (tok, sn, s)" and "order_key idx y = (s, sint ts)"
  shows "goes_before idx s ts sn x \<longleftrightarrow> order_key idx y < order_key idx x"
  using assms
  by (auto simp: goes_before_def order_key_def nonce_of_def word_sless_alt less_prod_def split: option.splits)

lemma queue_ok_enqueue:
  assumes "queue_ok idx tok q" and "i \<notin> set q" and "\<forall>j\<in>set q. nonce_of idx j \<noteq> Some (tok, sn, s)"
  shows "queue_ok (AList.update i (tok, s, ts, sn) idx) tok
           (insert_at_first (goes_before (AList.update i (tok, s, ts, sn) idx) s ts sn) i q)"
proof -
  let ?idx = "AList.update i (tok, s, ts, sn) idx"
  have old: "order_key ?idx j = order_key idx j" "nonce_of ?idx j = nonce_of idx j" if "j \<in> set q" for j
    using that assms(2) by (auto simp: order_key_def nonce_of_def update_conv)
  have new: "order_key ?idx i = (s, sint ts)" "nonce_of ?idx i = Some (tok, sn, s)"
    by (simp_all add: order_key_def nonce_of_def update_conv)
  have "queue_ok ?idx tok q" by (rule queue_ok_cong [OF assms(1)]) (simp add: old)
  then have "sorted (map (order_key ?idx) q)" by (simp add: queue_ok_def)
  moreover have "goes_before ?idx s ts sn x \<longleftrightarrow> order_key ?idx i < order_key ?idx x" if x: "x \<in> set q" for x
  proof -
    obtain sn' s' where "nonce_of ?idx x = Some (tok, sn', s')"
      using assms(1) x old(2) [OF x] by (auto simp: queue_ok_def)
    then show ?thesis
      using assms(3) x old(2) [OF x] new by (intro goes_before_iff) auto
  qed
  ultimately have "sorted (map (order_key ?idx) (insert_at_first (goes_before ?idx s ts sn) i q))"
    by (intro sorted_insert_at_first) auto
  moreover have "inj_on (nonce_of ?idx) (insert i (set q))"
    using assms old(2) new(2) by (auto simp: queue_ok_def inj_on_def)
  ultimately show ?thesis
    using assms(1,2) new(2) old(2)
    by (auto simp: queue_ok_def distinct_insert_at_first set_insert_at_first)
qed

lemma queue_ok_update_other:
  "queue_ok idx tok q \<Longrightarrow> i \<notin> set q \<Longrightarrow> queue_ok (AList.update i v idx) tok q"
  by (rule queue_ok_cong) (auto simp: order_key_def nonce_of_def update_conv)

lemma queue_ok_delete_other:
  "queue_ok idx tok q \<Longrightarrow> i \<notin> set q \<Longrightarrow> queue_ok (AList.delete i idx) tok q"
  by (rule queue_ok_cong) (auto simp: order_key_def nonce_of_def delete_conv)

lemma queue_ok_sub:
  assumes "queue_ok idx tok q" and "set q' \<subseteq> set q" and "distinct q'" and "sorted (map (order_key idx) q')"
  shows "queue_ok idx tok q'"
proof -
  have "inj_on (nonce_of idx) (set q')"
    using assms(1) by (auto simp: queue_ok_def intro: inj_on_subset [OF _ assms(2)])
  then show ?thesis using assms unfolding queue_ok_def by blast
qed

lemma queue_ok_drop: "queue_ok idx tok q \<Longrightarrow> queue_ok idx tok (drop n q)"
  by (rule queue_ok_sub, assumption, rule set_drop_subset)
    (simp_all add: queue_ok_def sorted_wrt_drop flip: drop_map)

lemma queue_ok_filter: "queue_ok idx tok q \<Longrightarrow> queue_ok idx tok (filter P q)"
  by (rule queue_ok_sub, assumption, rule filter_is_subset) (simp_all add: queue_ok_def sorted_filter)

section \<open>Preservation of the invariant\<close>

lemma pool_inv_new [invs]: "pool_inv pool_new"
  by (simp add: pool_inv_def pool_new_def queue_of_def queue_ok_def)

lemma pool_inv_enqueue [invs]:
  assumes "pool_inv p" and "\<not> queued p i"
    and "\<forall>j\<in>set (queue_of p tok). nonce_of (pool_index p) j \<noteq> Some (tok, sn, s)"
  shows "pool_inv (pool_enqueue i tok s ts sn p)"
proof -
  let ?p = "pool_enqueue i tok s ts sn p"
  have ok: "queue_ok (pool_index p) t (queue_of p t)" and fresh: "i \<notin> set (queue_of p t)" for t
    using assms(1,2) by (auto simp: pool_inv_def queued_def)
  have idx: "pool_index ?p = AList.update i (tok, s, ts, sn) (pool_index p)"
    by (simp add: pool_enqueue_def Let_def)
  have "queue_ok (pool_index ?p) t (queue_of ?p t)" for t
    unfolding idx queue_of_enqueue
    using queue_ok_enqueue [OF ok fresh assms(3)] queue_ok_update_other [OF ok fresh] by simp
  moreover have "distinct (map fst (pools ?p))" "distinct (map fst (pool_index ?p))"
    using assms(1) by (simp_all add: pool_inv_def pool_enqueue_def Let_def distinct_update)
  ultimately show ?thesis by (simp add: pool_inv_def)
qed

lemma pool_inv_dequeue [invs]:
  assumes "pool_inv p"
  shows "pool_inv (snd (dequeue_for_leader tok n p))"
proof -
  have "pool_index (snd (dequeue_for_leader tok n p)) = pool_index p"
    by (simp add: dequeue_for_leader_def Let_def split: option.split)
  moreover have "distinct (map fst (pools (snd (dequeue_for_leader tok n p))))"
    using assms by (simp add: pool_inv_def dequeue_for_leader_def Let_def distinct_update distinct_delete
        split: option.split)
  ultimately show ?thesis
    using assms by (auto simp: pool_inv_def queue_of_dequeue queue_ok_drop)
qed

lemma pool_inv_remove [invs]:
  assumes "pool_inv p"
  shows "pool_inv (snd (pool_remove i p))"
proof (cases "map_of (pool_index p) i")
  case None
  then show ?thesis using assms by (simp add: pool_remove_def)
next
  case (Some entry)
  let ?p = "snd (pool_remove i p)"
  have idx: "pool_index ?p = AList.delete i (pool_index p)"
    using Some by (simp add: pool_remove_def Let_def)
  have d: "distinct (map fst (pools ?p))"
    using assms Some by (simp add: pool_inv_def pool_remove_def Let_def distinct_update distinct_delete
        split: option.split)
  have "queue_ok (pool_index ?p) t (queue_of ?p t)" for t
  proof -
    have ok: "queue_ok (pool_index p) t (queue_of p t)" using assms by (simp add: pool_inv_def)
    have mem: "fst entry = t" if "i \<in> set (queue_of p t)"
    proof -
      have "\<exists>sn s. nonce_of (pool_index p) i = Some (t, sn, s)" using ok that by (simp add: queue_ok_def)
      then show ?thesis using Some by (cases entry) (auto simp: nonce_of_def)
    qed
    have "i \<notin> set (queue_of ?p t)" using mem Some by (auto simp: queue_of_remove)
    moreover have "queue_ok (pool_index p) t (queue_of ?p t)"
      using ok Some by (simp add: queue_of_remove queue_ok_filter)
    ultimately show ?thesis unfolding idx by (intro queue_ok_delete_other)
  qed
  then show ?thesis using assms d by (simp add: pool_inv_def idx distinct_delete)
qed

lemma fst_dequeue: "fst (dequeue_for_leader tok n p) = take n (queue_of p tok)"
  by (simp add: dequeue_for_leader_def peek_top_def)

section \<open>The leader's queue interface\<close>

text \<open>
  What a block proposer relies on when it drains a queue: a dequeue returns the front of
  the token's queue, keeps the rest in order, and leaves other tokens alone.
\<close>

locale leader_queue =
  fixes queue :: "'s \<Rightarrow> bytes \<Rightarrow> string list"
    and dequeue :: "bytes \<Rightarrow> nat \<Rightarrow> 's \<Rightarrow> string list \<times> 's"
  assumes dequeue_front: "fst (dequeue tok n s) = take n (queue s tok)"
    and dequeue_rest: "queue (snd (dequeue tok n s)) tok = drop n (queue s tok)"
    and dequeue_other: "tok' \<noteq> tok \<Longrightarrow> queue (snd (dequeue tok n s)) tok' = queue s tok'"
begin

lemma dequeue_split: "fst (dequeue tok n s) @ queue (snd (dequeue tok n s)) tok = queue s tok"
  by (simp add: dequeue_front dequeue_rest)

lemma batches_disjoint:
  assumes "distinct (queue s tok)"
  shows "set (fst (dequeue tok n s)) \<inter> set (fst (dequeue tok m (snd (dequeue tok n s)))) = {}"
proof -
  have "set (take m (drop n (queue s tok))) \<subseteq> set (drop n (queue s tok))" by (rule set_take_subset)
  then show ?thesis
    using set_take_disj_set_drop_if_distinct [OF assms order_refl, of n]
    by (auto simp: dequeue_front dequeue_rest)
qed

end

interpretation pool: leader_queue queue_of dequeue_for_leader
  by unfold_locales (simp_all add: queue_of_dequeue fst_dequeue)

end
