(* ===== verification/Pending_Registry.thy ===== *)
theory Pending_Registry
  imports Transaction_Pool Transaction_Binding
begin

text \<open>
  The registries of \<^verbatim>\<open>src/registry.rs\<close> that hold transactions in flight:
  \<^verbatim>\<open>PendingTransactionRegistry\<close> (\<^verbatim>\<open>registry/pending.rs\<close>) and
  \<^verbatim>\<open>TransactionSignatureRegistry\<close> (\<^verbatim>\<open>registry/signatures.rs\<close>), and the batch proposer of
  \<^verbatim>\<open>src/epoch/proposer.rs\<close> that drains the former.  An operation that may fail returns its
  result together with the registry it leaves behind.
\<close>

section \<open>The pending transaction registry\<close>

record pending_admin_credit =
  credit_id :: string
  admin_public_key :: bytes
  credit_amount :: u64
  credit_token :: bytes

record pending_registry =
  transactions :: "(string \<times> pending_transaction) list"
  pool :: transaction_pool
  admin_credits :: "(string \<times> pending_admin_credit) list"
  gas_tracker :: "(string \<times> u64) list"
  used_nonces :: "(bytes \<times> bytes \<times> nat) list"
  shielded_transactions :: "(string \<times> shielded_transaction) list"

definition registry_new :: pending_registry where
  "registry_new = \<lparr>transactions = [], pool = pool_new, admin_credits = [], gas_tracker = [],
                   used_nonces = [], shielded_transactions = []\<rparr>"

definition contains :: "pending_registry \<Rightarrow> string \<Rightarrow> bool" where
  "contains r i \<longleftrightarrow> map_of (transactions r) i \<noteq> None"

definition in_flight_count :: "pending_registry \<Rightarrow> nat" where
  "in_flight_count r = length (transactions r)"

definition shielded_count :: "pending_registry \<Rightarrow> nat" where
  "shielded_count r = length (shielded_transactions r)"

definition put_transaction :: "string \<Rightarrow> pending_transaction \<Rightarrow> pending_registry \<Rightarrow> pending_registry" where
  "put_transaction i pt r = r\<lparr>transactions := AList.update i pt (transactions r)\<rparr>"

definition add_transaction ::
    "string \<Rightarrow> pending_transaction \<Rightarrow> pending_registry \<Rightarrow> unit res \<times> pending_registry" where
  "add_transaction i pt r =
     (let r' = put_transaction i pt r
      in if map_of (transactions r) i \<noteq> None then (Inl (Registry ''already exists''), r')
         else (Inr (), r'))"

definition register_pending :: "string \<Rightarrow> pending_registry \<Rightarrow> unit res \<times> pending_registry" where
  "register_pending i r = add_transaction i (pending_new i Pending) r"

definition remove_transaction :: "string \<Rightarrow> pending_registry \<Rightarrow> unit res \<times> pending_registry" where
  "remove_transaction i r =
     (if map_of (transactions r) i = None then (Inl (Registry ''not found''), r)
      else (Inr (), r\<lparr>transactions := AList.delete i (transactions r)\<rparr>))"

definition register_shielded ::
    "shielded_transaction \<Rightarrow> pending_registry \<Rightarrow> unit res \<times> pending_registry" where
  "register_shielded sh r =
     (let prev = map_of (shielded_transactions r) (sh_id sh);
          inserted = AList.update (sh_id sh) sh (shielded_transactions r)
      in case prev of
           Some old \<Rightarrow>
             (Inl (Registry ''already exists''),
              r\<lparr>shielded_transactions := AList.update (sh_id sh) old inserted\<rparr>)
         | None \<Rightarrow> (Inr (), r\<lparr>shielded_transactions := inserted\<rparr>))"

definition contains_shielded :: "pending_registry \<Rightarrow> string \<Rightarrow> bool" where
  "contains_shielded r i \<longleftrightarrow> map_of (shielded_transactions r) i \<noteq> None"

definition get_shielded :: "pending_registry \<Rightarrow> string \<Rightarrow> shielded_transaction option" where
  "get_shielded r i = map_of (shielded_transactions r) i"

definition acquire_transaction :: "string \<Rightarrow> pending_registry \<Rightarrow> unit res \<times> pending_registry" where
  "acquire_transaction i r =
     (case map_of (transactions r) i of
        None \<Rightarrow> (Inl (Registry ''not found''), r)
      | Some pt \<Rightarrow>
          (case acquire pt of
             None \<Rightarrow> (Inl (Registry ''terminal state''), r)
           | Some pt' \<Rightarrow> (Inr (), put_transaction i pt' r)))"

definition get_validation_result :: "pending_registry \<Rightarrow> string \<Rightarrow> validation_result res" where
  "get_validation_result r i =
     (case map_of (transactions r) i of
        None \<Rightarrow> Inl (Registry ''not found'')
      | Some pt \<Rightarrow>
          (case pt_state pt of
             Validated _ v \<Rightarrow> Inr v
           | _ \<Rightarrow> Inl (Registry ''not in Validated state'')))"

definition set_requested_finalizer ::
    "string \<Rightarrow> bytes \<Rightarrow> pending_registry \<Rightarrow> unit res \<times> pending_registry" where
  "set_requested_finalizer i key r =
     (case map_of (transactions r) i of
        None \<Rightarrow> (Inl (Registry ''not found''), r)
      | Some pt \<Rightarrow>
          (case pt_state pt of
             Validated tx _ \<Rightarrow> (Inr (), put_transaction i (transition_to_finalizing tx key pt) r)
           | old \<Rightarrow> (Inl (Registry ''not validated''), put_transaction i (pt\<lparr>pt_state := old\<rparr>) r)))"

definition is_requested_finalizer :: "pending_registry \<Rightarrow> string \<Rightarrow> bytes \<Rightarrow> bool" where
  "is_requested_finalizer r i key =
     (if key = [] then False
      else case map_of (transactions r) i of
             None \<Rightarrow> False
           | Some pt \<Rightarrow>
               (case pt_state pt of
                  Finalizing _ fkey \<Rightarrow> fkey = key
                | Validated _ v \<Rightarrow> finalizer_public_key v \<noteq> [] \<and> finalizer_public_key v = key
                | _ \<Rightarrow> False))"

definition release_transaction :: "string \<Rightarrow> pending_registry \<Rightarrow> bool res \<times> pending_registry" where
  "release_transaction i r =
     (case map_of (transactions r) i of
        None \<Rightarrow> (Inl (Registry ''not found''), r)
      | Some pt \<Rightarrow> (Inr (fst (release pt)), put_transaction i (snd (release pt)) r))"

text \<open>\<^verbatim>\<open>get_transaction_mut\<close>: a state transition under the entry's write guard.\<close>

definition with_transaction_mut ::
    "string \<Rightarrow> (pending_transaction \<Rightarrow> pending_transaction) \<Rightarrow> pending_registry \<Rightarrow>
     unit res \<times> pending_registry" where
  "with_transaction_mut i f r =
     (case map_of (transactions r) i of
        None \<Rightarrow> (Inl (Registry ''not found''), r)
      | Some pt \<Rightarrow> (Inr (), put_transaction i (f pt) r))"

definition transaction_is_awaiting_finalizer :: "pending_registry \<Rightarrow> string \<Rightarrow> bool" where
  "transaction_is_awaiting_finalizer r i =
     (case map_of (transactions r) i of None \<Rightarrow> False | Some pt \<Rightarrow> is_awaiting_finalizer pt)"

section \<open>Pool operations of the registry\<close>

definition enqueue_to_pool ::
    "string \<Rightarrow> bytes \<Rightarrow> nat \<Rightarrow> i64 \<Rightarrow> bytes \<Rightarrow> pending_registry \<Rightarrow> unit res \<times> pending_registry" where
  "enqueue_to_pool i token seq ts sender r =
     (if (token, sender, seq) \<in> set (used_nonces r) then (Inl (Registry ''duplicate nonce''), r)
      else (Inr (), r\<lparr>used_nonces := (token, sender, seq) # used_nonces r,
                      pool := pool_enqueue i token seq ts sender (pool r)\<rparr>))"

definition registry_dequeue ::
    "bytes \<Rightarrow> nat \<Rightarrow> pending_registry \<Rightarrow> string list \<times> pending_registry" where
  "registry_dequeue token n r =
     (let (ids, p) = dequeue_for_leader token n (pool r) in (ids, r\<lparr>pool := p\<rparr>))"

definition remove_from_pool :: "string \<Rightarrow> pending_registry \<Rightarrow> pending_registry" where
  "remove_from_pool i r = r\<lparr>pool := snd (pool_remove i (pool r))\<rparr>"

definition get_transaction :: "pending_registry \<Rightarrow> string \<Rightarrow> transaction res" where
  "get_transaction r i =
     (case map_of (transactions r) i of
        None \<Rightarrow> Inl (Registry ''not found'')
      | Some pt \<Rightarrow>
          (case pt_state pt of
             Validated tx _ \<Rightarrow> Inr tx
           | _ \<Rightarrow> Inl (Registry ''not in Validated state'')))"

fun collect_transactions :: "pending_registry \<Rightarrow> string list \<Rightarrow> transaction list res" where
  "collect_transactions r [] = Inr []"
| "collect_transactions r (i # is) =
     (case get_transaction r i of
        Inl e \<Rightarrow> Inl e
      | Inr tx \<Rightarrow> (case collect_transactions r is of Inl e \<Rightarrow> Inl e | Inr txs \<Rightarrow> Inr (tx # txs)))"

definition get_ordered_transactions ::
    "bytes \<Rightarrow> nat \<Rightarrow> pending_registry \<Rightarrow> transaction list res \<times> pending_registry" where
  "get_ordered_transactions token limit r =
     (let (ids, r') = registry_dequeue token limit r in (collect_transactions r' ids, r'))"

definition record_gas_used :: "string \<Rightarrow> u64 \<Rightarrow> pending_registry \<Rightarrow> pending_registry" where
  "record_gas_used i gas r = r\<lparr>gas_tracker := AList.update i gas (gas_tracker r)\<rparr>"

definition get_gas_used :: "pending_registry \<Rightarrow> string \<Rightarrow> u64 option" where
  "get_gas_used r i = map_of (gas_tracker r) i"

definition record_admin_credit :: "pending_admin_credit \<Rightarrow> pending_registry \<Rightarrow> pending_registry" where
  "record_admin_credit c r = r\<lparr>admin_credits := AList.update (credit_id c) c (admin_credits r)\<rparr>"

definition get_admin_credit :: "pending_registry \<Rightarrow> string \<Rightarrow> pending_admin_credit option" where
  "get_admin_credit r i = map_of (admin_credits r) i"

definition take_admin_credit ::
    "string \<Rightarrow> pending_registry \<Rightarrow> pending_admin_credit option \<times> pending_registry" where
  "take_admin_credit i r =
     (case map_of (admin_credits r) i of
        None \<Rightarrow> (None, r)
      | Some c \<Rightarrow> (Some c, r\<lparr>admin_credits := AList.delete i (admin_credits r)\<rparr>))"

definition transition_to_validated_and_enqueue ::
    "string \<Rightarrow> transaction \<Rightarrow> validation_result \<Rightarrow> pending_registry \<Rightarrow> unit res \<times> pending_registry" where
  "transition_to_validated_and_enqueue i tx v r =
     (case with_transaction_mut i (transition_to_validated tx v) r of
        (Inl e, r') \<Rightarrow> (Inl e, r')
      | (Inr _, r') \<Rightarrow> enqueue_to_pool i (tx_token tx) (tx_seq tx) (tx_timestamp tx) (tx_sender tx) r')"

section \<open>The batch proposer\<close>

record block_proposer =
  bp_leader_address :: bytes
  bp_leader_stake :: u64
  bp_leader_hash :: bytes

definition proposal_of :: "block_proposer \<Rightarrow> transaction \<Rightarrow> signed_transaction" where
  "proposal_of b tx =
     \<lparr>sx_transaction_id = tx_id tx, sx_transaction = tx, sx_total_stake = 0, sx_total_voters = 0,
      sx_leader_address = bp_leader_address b, sx_leader_stake = bp_leader_stake b,
      sx_leader_hash = bp_leader_hash b, sx_finalizer_addr = [],
      sx_finalizer_sig = \<lparr>sig_transaction_id = [], sig_env_id = [], sig_transaction_hash = [],
                          sig_signature = [], sig_current_stake = 0\<rparr>,
      sx_executor_sigs = [], sx_proposer_key = bp_leader_address b, sx_shielded = None\<rparr>"

definition propose_batch ::
    "block_proposer \<Rightarrow> bytes \<Rightarrow> nat \<Rightarrow> pending_registry \<Rightarrow>
     (transaction \<times> signed_transaction) list res \<times> pending_registry" where
  "propose_batch b token limit r =
     (let (ids, r') = registry_dequeue token limit r
      in (case collect_transactions r' ids of
            Inl e \<Rightarrow> Inl e
          | Inr txs \<Rightarrow> Inr (map (\<lambda>tx. (tx, proposal_of b tx)) txs), r'))"

section \<open>The signature registry\<close>

type_synonym signature_registry = "(string \<times> transaction_signature amap) list"

definition try_add_transaction :: "string \<Rightarrow> signature_registry \<Rightarrow> unit res \<times> signature_registry" where
  "try_add_transaction i g =
     (if map_of g i \<noteq> None then (Inl (Registry ''already in signature registry''), g)
      else (Inr (), AList.update i [] g))"

definition ensure_transaction_registered :: "string \<Rightarrow> signature_registry \<Rightarrow> signature_registry" where
  "ensure_transaction_registered i g = (if map_of g i \<noteq> None then g else AList.update i [] g)"

definition transaction_is_registered :: "signature_registry \<Rightarrow> string \<Rightarrow> bool" where
  "transaction_is_registered g i \<longleftrightarrow> map_of g i \<noteq> None"

definition get_transaction_registry :: "signature_registry \<Rightarrow> string \<Rightarrow> transaction_signature amap option" where
  "get_transaction_registry g i = map_of g i"

definition try_add_signature ::
    "string \<Rightarrow> bytes \<Rightarrow> transaction_signature \<Rightarrow> signature_registry \<Rightarrow> unit res \<times> signature_registry" where
  "try_add_signature i key sg g =
     (case map_of g i of
        None \<Rightarrow> (Inl (Registry ''not in signature registry''), g)
      | Some m \<Rightarrow>
          if map_of m key \<noteq> None then (Inl (Registry ''duplicate signature''), g)
          else (Inr (), AList.update i (AList.update key sg m) g))"

definition try_remove_transaction :: "string \<Rightarrow> signature_registry \<Rightarrow> unit res \<times> signature_registry" where
  "try_remove_transaction i g =
     (if map_of g i = None then (Inl (Registry ''not in signature registry''), g)
      else (Inr (), AList.delete i g))"

definition signatures_is_empty :: "signature_registry \<Rightarrow> bool" where
  "signatures_is_empty g \<longleftrightarrow> g = []"

definition signatures_len :: "signature_registry \<Rightarrow> nat" where
  "signatures_len g = length g"

section \<open>Steps of the registry\<close>

text \<open>
  One step is one call of a mutating operation.  The flag says whether callers enqueue an
  identifier only while it is not waiting in a queue already; with the flag off every
  call is a step.
\<close>

inductive registry_step :: "bool \<Rightarrow> pending_registry \<Rightarrow> pending_registry \<Rightarrow> bool"
  for unique_ids :: bool where
  step_add: "registry_step unique_ids r (snd (add_transaction i pt r))"
| step_remove: "registry_step unique_ids r (snd (remove_transaction i r))"
| step_shielded: "registry_step unique_ids r (snd (register_shielded sh r))"
| step_acquire: "registry_step unique_ids r (snd (acquire_transaction i r))"
| step_finalizer: "registry_step unique_ids r (snd (set_requested_finalizer i key r))"
| step_release: "registry_step unique_ids r (snd (release_transaction i r))"
| step_mut: "registry_step unique_ids r (snd (with_transaction_mut i f r))"
| step_enqueue: "(unique_ids \<longrightarrow> \<not> queued (pool r) i) \<Longrightarrow>
    registry_step unique_ids r (snd (enqueue_to_pool i tok seq ts sender r))"
| step_dequeue: "registry_step unique_ids r (snd (registry_dequeue tok n r))"
| step_unpool: "registry_step unique_ids r (remove_from_pool i r)"
| step_gas: "registry_step unique_ids r (record_gas_used i gas r)"
| step_credit: "registry_step unique_ids r (record_admin_credit c r)"
| step_take: "registry_step unique_ids r (snd (take_admin_credit i r))"
| step_validated: "(unique_ids \<longrightarrow> \<not> queued (pool r) i) \<Longrightarrow>
    registry_step unique_ids r (snd (transition_to_validated_and_enqueue i tx v r))"

abbreviation registry_run :: "bool \<Rightarrow> pending_registry \<Rightarrow> pending_registry \<Rightarrow> bool" where
  "registry_run u \<equiv> (registry_step u)\<^sup>*\<^sup>*"

definition registry_inv :: "pending_registry \<Rightarrow> bool" where
  "registry_inv r \<longleftrightarrow> pool_inv (pool r) \<and>
     (\<forall>i. queued (pool r) i \<longrightarrow>
        (\<exists>nonce\<in>set (used_nonces r). nonce_of (pool_index (pool r)) i = Some nonce))"

text \<open>The operations that leave the pool and the admitted nonces alone.\<close>

lemma transactions_only:
  "pool (put_transaction i pt r) = pool r" "used_nonces (put_transaction i pt r) = used_nonces r"
  "shielded_transactions (put_transaction i pt r) = shielded_transactions r"
  by (simp_all add: put_transaction_def)

lemmas transaction_ops = add_transaction_def remove_transaction_def register_shielded_def
  acquire_transaction_def set_requested_finalizer_def release_transaction_def with_transaction_mut_def
  record_gas_used_def record_admin_credit_def take_admin_credit_def transactions_only Let_def

lemma enqueue_to_pool_cases:
  "snd (enqueue_to_pool i tok s ts sn r) = r \<or>
   ((tok, sn, s) \<notin> set (used_nonces r) \<and>
    pool (snd (enqueue_to_pool i tok s ts sn r)) = pool_enqueue i tok s ts sn (pool r) \<and>
    used_nonces (snd (enqueue_to_pool i tok s ts sn r)) = (tok, sn, s) # used_nonces r)"
  by (simp add: enqueue_to_pool_def)

lemma registry_step_effect:
  assumes "registry_step u r r'"
  obtains (same) "pool r' = pool r" "used_nonces r' = used_nonces r"
  | (enqueued) i tok s ts sn where "(tok, sn, s) \<notin> set (used_nonces r)" "u \<longrightarrow> \<not> queued (pool r) i"
      "pool r' = pool_enqueue i tok s ts sn (pool r)" "used_nonces r' = (tok, sn, s) # used_nonces r"
  | (dequeued) tok n where "pool r' = snd (dequeue_for_leader tok n (pool r))" "used_nonces r' = used_nonces r"
  | (removed) i where "pool r' = snd (pool_remove i (pool r))" "used_nonces r' = used_nonces r"
  using assms
proof cases
  case (step_enqueue i tok seq ts sender)
  then show ?thesis using enqueue_to_pool_cases [of i tok seq ts sender r] same enqueued by metis
next
  case (step_validated i tx v)
  let ?w = "with_transaction_mut i (transition_to_validated tx v) r"
  have w: "pool (snd ?w) = pool r" "used_nonces (snd ?w) = used_nonces r"
    by (simp_all add: transaction_ops split: option.split)
  have "r' = snd ?w \<or> r' = snd (enqueue_to_pool i (tx_token tx) (tx_seq tx) (tx_timestamp tx) (tx_sender tx) (snd ?w))"
    using step_validated by (auto simp: transition_to_validated_and_enqueue_def split: prod.splits sum.splits)
  then show ?thesis
    using enqueue_to_pool_cases [of i "tx_token tx" "tx_seq tx" "tx_timestamp tx" "tx_sender tx" "snd ?w"]
      w step_validated(2) same enqueued by metis
next
  case (step_dequeue tok n)
  then show ?thesis by (intro dequeued [of tok n]) (simp_all add: registry_dequeue_def split: prod.split)
next
  case (step_unpool i)
  then show ?thesis by (intro removed [of i]) (simp_all add: remove_from_pool_def)
qed (use same in \<open>auto simp: transaction_ops split: option.splits transaction_state.splits\<close>)

lemma registry_inv_new [invs]: "registry_inv registry_new"
proof -
  have "\<not> queued pool_new i" for i by (simp add: queued_def pool_new_def queue_of_def)
  then show ?thesis by (simp add: registry_inv_def registry_new_def pool_inv_new)
qed

lemma registry_inv_step [invs]:
  assumes "registry_inv r" and "registry_step True r r'"
  shows "registry_inv r'"
  using assms(2)
proof (cases rule: registry_step_effect)
  case same
  then show ?thesis using assms(1) by (simp add: registry_inv_def)
next
  case (enqueued i tok s ts sn)
  let ?idx = "pool_index (pool r)"
  have fresh: "\<forall>j\<in>set (queue_of (pool r) tok). nonce_of ?idx j \<noteq> Some (tok, sn, s)"
    using assms(1) enqueued(1) by (fastforce simp: registry_inv_def queued_def)
  have "pool_inv (pool r')"
    using assms(1) enqueued(2,3) fresh by (simp add: registry_inv_def pool_inv_enqueue)
  moreover have "nonce_of (pool_index (pool r')) j =
      (if j = i then Some (tok, sn, s) else nonce_of ?idx j)" for j
    by (simp add: enqueued(3) pool_enqueue_def Let_def nonce_of_def update_conv)
  moreover have "queued (pool r') j \<longleftrightarrow> j = i \<or> queued (pool r) j" for j
    by (auto simp: queued_def enqueued(3) queue_of_enqueue set_insert_at_first split: if_splits)
  ultimately show ?thesis
    using assms(1) enqueued(4) by (auto simp: registry_inv_def)
next
  case (dequeued tok n)
  have "pool_index (pool r') = pool_index (pool r)"
    by (simp add: dequeued(1) dequeue_for_leader_def Let_def split: option.split)
  moreover have "queued (pool r') j \<Longrightarrow> queued (pool r) j" for j
    using set_drop_subset [of n "queue_of (pool r) tok"]
    by (auto simp: queued_def dequeued(1) queue_of_dequeue split: if_splits)
  ultimately show ?thesis
    using assms(1) dequeued pool_inv_dequeue by (auto simp: registry_inv_def)
next
  case (removed i)
  have inv: "pool_inv (pool r')" using assms(1) removed(1) pool_inv_remove by (simp add: registry_inv_def)
  have sub: "queued (pool r) j" if "queued (pool r') j" for j
    using that by (auto simp: queued_def removed(1) queue_of_remove split: option.splits if_splits)
  have "nonce_of (pool_index (pool r')) j = nonce_of (pool_index (pool r)) j" if "queued (pool r') j" for j
  proof -
    have "nonce_of (pool_index (pool r')) j \<noteq> None"
      using inv that unfolding pool_inv_def queue_ok_def queued_def by fastforce
    then show ?thesis
      by (auto simp: removed(1) pool_remove_def nonce_of_def delete_conv Let_def split: option.splits if_splits)
  qed
  then show ?thesis using assms(1) inv sub removed(2) by (simp add: registry_inv_def)
qed

lemma registry_inv_run: "registry_run True registry_new r \<Longrightarrow> registry_inv r"
  by (induction rule: rtranclp_induct) (auto intro: invs)

lemma used_nonces_run: "registry_run u r r' \<Longrightarrow> set (used_nonces r) \<subseteq> set (used_nonces r')"
proof (induction rule: rtranclp_induct)
  case (step y z)
  from step.hyps(2) show ?case by (cases rule: registry_step_effect) (use step.IH in auto)
qed simp

section \<open>Properties of the registry\<close>

interpretation registry: leader_queue "\<lambda>r. queue_of (pool r)" registry_dequeue
  by unfold_locales
    (simp_all add: registry_dequeue_def queue_of_dequeue fst_dequeue split_beta)

text \<open>C10: once a nonce has been admitted for a token and sender, no later call admits it
  again, whatever calls happen in between; the refused call changes nothing.\<close>

theorem nonce_never_readmitted:
  assumes "fst (enqueue_to_pool i tok s ts sn r) = Inr ()"
    and "registry_run False (snd (enqueue_to_pool i tok s ts sn r)) r'"
  shows "enqueue_to_pool i' tok s ts' sn r' = (Inl (Registry ''duplicate nonce''), r')"
proof -
  have "(tok, sn, s) \<in> set (used_nonces (snd (enqueue_to_pool i tok s ts sn r)))"
    by (simp add: enqueue_to_pool_def)
  then have "(tok, sn, s) \<in> set (used_nonces r')" using used_nonces_run [OF assms(2)] by blast
  then show ?thesis by (simp add: enqueue_to_pool_def)
qed

text \<open>In every registry reached from the empty one, a leader's dequeue returns different
  transactions of the token in the order of sequence number and then timestamp, none of
  them ordered after one that stays queued, and a following dequeue never returns one of
  them again.\<close>

theorem leader_batch_ordered:
  assumes "registry_run True registry_new r" and "registry_dequeue tok n r = (ids, r')"
  shows "distinct ids \<and> sorted (map (order_key (pool_index (pool r))) ids) \<and>
         (\<forall>i\<in>set ids. \<forall>j\<in>set (queue_of (pool r') tok).
            order_key (pool_index (pool r)) i \<le> order_key (pool_index (pool r)) j) \<and>
         set ids \<inter> set (fst (registry_dequeue tok m r')) = {}"
proof -
  let ?q = "queue_of (pool r) tok" and ?k = "order_key (pool_index (pool r))"
  have ok: "distinct ?q" "sorted (map ?k ?q)"
    using registry_inv_run [OF assms(1)] by (simp_all add: registry_inv_def pool_inv_def queue_ok_def)
  have ids: "ids = take n ?q" "queue_of (pool r') tok = drop n ?q"
    using registry.dequeue_front [of tok n r] registry.dequeue_rest [of tok n r] assms(2) by simp_all
  have "sorted (map ?k (take n ?q) @ map ?k (drop n ?q))"
    using ok(2) by (simp flip: map_append)
  then have "sorted (map ?k ids) \<and> (\<forall>i\<in>set ids. \<forall>j\<in>set (queue_of (pool r') tok). ?k i \<le> ?k j)"
    by (auto simp: sorted_append ids)
  moreover have "set ids \<inter> set (fst (registry_dequeue tok m r')) = {}"
    using registry.batches_disjoint [OF ok(1), of n m] assms(2) by simp
  ultimately show ?thesis using ok(1) ids(1) by simp
qed

text \<open>A proposed batch wraps exactly the validated transactions at the front of the
  token's queue, in queue order, each labelled with the leader as its proposer.\<close>

theorem propose_batch_front:
  assumes "propose_batch b tok n r = (Inr batch, r')"
  shows "map (get_transaction r' ) (take n (queue_of (pool r) tok)) = map (Inr \<circ> fst) batch \<and>
         (\<forall>(tx, sx)\<in>set batch. sx_transaction sx = tx \<and> sx_transaction_id sx = tx_id tx \<and>
            sx_proposer_key sx = bp_leader_address b)"
proof -
  have collect: "collect_transactions r is = Inr txs \<Longrightarrow> map (get_transaction r) is = map Inr txs" for r "is" txs
    by (induction "is" arbitrary: txs) (auto split: sum.splits)
  have "fst (registry_dequeue tok n r) = take n (queue_of (pool r) tok)" by (rule registry.dequeue_front)
  then show ?thesis
    using assms collect
    by (auto simp: propose_batch_def split_beta proposal_of_def split: sum.splits)
qed

text \<open>An admitted shielded transfer is never replaced or dropped: after any calls its
  entry is the one that was admitted, and a second registration under its id fails
  without changing the registry's answers.\<close>

theorem shielded_never_replaced:
  assumes "get_shielded r i = Some sh" and "registry_run False r r'"
  shows "get_shielded r' i = Some sh"
  using assms(2,1)
proof (induction rule: rtranclp_induct)
  case (step y z)
  have "get_shielded z i = Some sh" if "get_shielded y i = Some sh"
    using step.hyps(2) that
    by cases (auto simp: get_shielded_def transaction_ops update_conv enqueue_to_pool_def registry_dequeue_def
        remove_from_pool_def transition_to_validated_and_enqueue_def
        split: option.splits transaction_state.splits prod.splits sum.splits)
  then show ?case using step by simp
qed simp

text \<open>Registering a transaction under an id that is already present returns an error and
  nevertheless replaces the entry in flight, its state and its lock included.\<close>

theorem add_transaction_clobbers:
  assumes "contains r i"
  shows "fst (add_transaction i pt r) = Inl (Registry ''already exists'') \<and>
         map_of (transactions (snd (add_transaction i pt r))) i = Some pt"
  using assms by (simp add: add_transaction_def contains_def put_transaction_def update_conv Let_def)

text \<open>The combined transition is not atomic: when the nonce was used before, the call
  returns an error, the queues are untouched, and yet the entry is in the validated state.\<close>

theorem validated_and_enqueue_not_atomic:
  assumes "contains r i" and "(tx_token tx, tx_sender tx, tx_seq tx) \<in> set (used_nonces r)"
    and "transition_to_validated_and_enqueue i tx v r = (res, r')"
  shows "res = Inl (Registry ''duplicate nonce'') \<and> pool r' = pool r \<and>
         get_transaction r' i = Inr tx"
  using assms
  by (auto simp: transition_to_validated_and_enqueue_def with_transaction_mut_def enqueue_to_pool_def
      contains_def put_transaction_def update_conv get_transaction_def transition_to_validated_def)

text \<open>Dequeuing for a leader never shrinks the total the pool reports, although the
  dequeued transactions left their queue.\<close>

theorem dequeue_keeps_total_len:
  "total_len (snd (dequeue_for_leader tok n p)) = total_len p \<and>
   pool_len (snd (dequeue_for_leader tok n p)) tok = pool_len p tok - n"
proof
  show "total_len (snd (dequeue_for_leader tok n p)) = total_len p"
    by (simp add: total_len_def dequeue_for_leader_def Let_def split: option.split)
  have len: "pool_len p t = length (queue_of p t)" for p t
    by (simp add: pool_len_def queue_of_def split: option.split)
  show "pool_len (snd (dequeue_for_leader tok n p)) tok = pool_len p tok - n"
    by (simp add: len queue_of_dequeue)
qed

text \<open>An executor signs a transaction at most once: after an accepted signature a further
  one under the same key is refused, and the first stays on record.\<close>

theorem signature_recorded_once:
  assumes "try_add_signature i key sg g = (Inr (), g')"
  shows "try_add_signature i key sg' g' = (Inl (Registry ''duplicate signature''), g') \<and>
         (\<exists>m. get_transaction_registry g' i = Some m \<and> map_of m key = Some sg)"
  using assms
  by (auto simp: try_add_signature_def get_transaction_registry_def update_conv split: option.splits if_splits)

section \<open>Concrete instances\<close>

lemma step_run: "registry_step u r r' \<Longrightarrow> registry_run u r r'"
  by (rule r_into_rtranclp)

theorem nonce_never_readmitted_witness:
  "enqueue_to_pool ''t2'' [1] 0 9 [2] (snd (registry_dequeue [1] 1
     (snd (enqueue_to_pool ''t1'' [1] 0 5 [2] registry_new)))) =
   (Inl (Registry ''duplicate nonce''), snd (registry_dequeue [1] 1
     (snd (enqueue_to_pool ''t1'' [1] 0 5 [2] registry_new))))"
  by (rule nonce_never_readmitted [OF _ step_run [OF step_dequeue]])
    (simp add: enqueue_to_pool_def registry_new_def)

definition two_queued :: pending_registry where
  "two_queued = snd (enqueue_to_pool ''t2'' [1] 0 5 [2] (snd (enqueue_to_pool ''t1'' [1] 1 5 [2] registry_new)))"

lemma two_queued_reached: "registry_run True registry_new two_queued"
proof -
  have "registry_step True registry_new (snd (enqueue_to_pool ''t1'' [1] 1 5 [2] registry_new))"
    by (rule step_enqueue) (simp add: queued_def registry_new_def pool_new_def queue_of_def)
  moreover have "registry_step True (snd (enqueue_to_pool ''t1'' [1] 1 5 [2] registry_new)) two_queued"
    unfolding two_queued_def
    by (rule step_enqueue)
      (simp add: queued_def registry_new_def pool_new_def enqueue_to_pool_def pool_enqueue_def queue_of_def Let_def)
  ultimately show ?thesis by (meson rtranclp.simps)
qed

theorem leader_batch_ordered_witness:
  "set [''t2''] \<inter> set (fst (registry_dequeue [1] 1 (snd (registry_dequeue [1] 1 two_queued)))) = {}"
proof -
  have "registry_dequeue [1] 1 two_queued = ([''t2''], snd (registry_dequeue [1] 1 two_queued))"
    by (simp add: prod_eq_iff registry.dequeue_front, simp add: two_queued_def enqueue_to_pool_def registry_new_def
        pool_new_def queue_of_enqueue queue_of_def pool_enqueue_def goes_before_def update_conv)
  from leader_batch_ordered [OF two_queued_reached this, of 1] show ?thesis by blast
qed

definition one_validated :: pending_registry where
  "one_validated = registry_new\<lparr>transactions :=
     [(''t1'', pending_new ''t1'' (Validated demo_tx (validation_invalid [])))],
     used_nonces := [([1], [2], 0)],
     pool := \<lparr>pools = [([1], [''t1''])], pool_index = [(''t1'', ([1], 0, 5, [2]))]\<rparr>\<rparr>"

definition demo_proposer :: block_proposer where
  "demo_proposer = \<lparr>bp_leader_address = [4], bp_leader_stake = 0, bp_leader_hash = []\<rparr>"

theorem propose_batch_front_witness:
  "\<exists>r'. propose_batch demo_proposer [1] 1 one_validated = (Inr [(demo_tx, proposal_of demo_proposer demo_tx)], r') \<and>
     map (get_transaction r') (take 1 (queue_of (pool one_validated) [1])) = [Inr demo_tx]"
proof -
  let ?r = "snd (propose_batch demo_proposer [1] 1 one_validated)"
  have run: "propose_batch demo_proposer [1] 1 one_validated =
      (Inr [(demo_tx, proposal_of demo_proposer demo_tx)], ?r)"
    by (simp add: propose_batch_def registry_dequeue_def dequeue_for_leader_def peek_top_def queue_of_def
        one_validated_def registry_new_def get_transaction_def pending_new_def Let_def)
  show ?thesis using run propose_batch_front [OF run] by auto
qed

definition demo_shielded :: shielded_transaction where
  "demo_shielded = \<lparr>sh_id = ''s1'', sh_action = ''ShieldedTransfer'', sh_token = [1],
     sh_spent_commitments = [], sh_nullifiers = [[7]], sh_commitments = [[8]], sh_merkle_root = [],
     sh_proof = [], sh_note_ciphertexts = [], sh_fee = 0\<rparr>"

theorem shielded_never_replaced_witness:
  "get_shielded (snd (register_shielded (demo_shielded\<lparr>sh_fee := 5\<rparr>) (snd (register_shielded demo_shielded registry_new))))
     ''s1'' = Some demo_shielded"
  by (rule shielded_never_replaced [OF _ step_run [OF step_shielded]])
    (simp add: get_shielded_def register_shielded_def registry_new_def demo_shielded_def)

theorem add_transaction_clobbers_witness:
  "fst (add_transaction ''t1'' (pending_new ''t1'' Pending) one_validated) = Inl (Registry ''already exists'') \<and>
   map_of (transactions (snd (add_transaction ''t1'' (pending_new ''t1'' Pending) one_validated))) ''t1'' =
     Some (pending_new ''t1'' Pending)"
  by (rule add_transaction_clobbers) (simp add: contains_def one_validated_def)

theorem validated_and_enqueue_not_atomic_witness:
  "fst (transition_to_validated_and_enqueue ''t1'' demo_tx (validation_invalid []) one_validated) =
     Inl (Registry ''duplicate nonce'')"
  using validated_and_enqueue_not_atomic [OF _ _ surjective_pairing, of one_validated "''t1''" demo_tx]
  by (simp add: contains_def one_validated_def demo_tx_def)

theorem signature_recorded_once_witness:
  "try_add_signature ''t1'' [9] (finalizer_placeholder_sig demo_tx)
     (snd (try_add_signature ''t1'' [9] (finalizer_placeholder_sig demo_tx) [(''t1'', [])])) =
   (Inl (Registry ''duplicate signature''),
    snd (try_add_signature ''t1'' [9] (finalizer_placeholder_sig demo_tx) [(''t1'', [])]))"
  by (rule conjunct1 [OF signature_recorded_once [of _ _ "finalizer_placeholder_sig demo_tx" "[(''t1'', [])]"]])
    (simp add: try_add_signature_def)

end
