(* ===== verification/Nullifiers.thy ===== *)
theory Nullifiers
  imports Errors
begin

text \<open>
  The spent-nullifier set of \<^verbatim>\<open>src/registry/nullifiers.rs\<close>: single and batch marking, and
  the scoped removal a tip rollback uses.  The contract that the shielded pool relies on
  is the locale \<open>spent_set\<close>.
\<close>

section \<open>The registry\<close>

type_synonym nullifier_registry = "bytes list"

definition nullifiers_new :: nullifier_registry where
  "nullifiers_new = []"

definition nullifier_contains :: "nullifier_registry \<Rightarrow> bytes \<Rightarrow> bool" where
  "nullifier_contains r n \<longleftrightarrow> n \<in> set r"

definition nullifiers_len :: "nullifier_registry \<Rightarrow> nat" where
  "nullifiers_len r = length r"

definition nullifiers_is_empty :: "nullifier_registry \<Rightarrow> bool" where
  "nullifiers_is_empty r \<longleftrightarrow> r = []"

text \<open>\<^verbatim>\<open>DashMap::insert\<close>: whether the key was present, and the map with it.\<close>

definition nullifier_insert :: "bytes \<Rightarrow> nullifier_registry \<Rightarrow> bool \<times> nullifier_registry" where
  "nullifier_insert n r = (if n \<in> set r then (True, r) else (False, n # r))"

definition stale_nullifier :: "'a res" where
  "stale_nullifier = Inl (Validation [StaleNullifier])"

definition try_mark_spent :: "bytes \<Rightarrow> nullifier_registry \<Rightarrow> unit res \<times> nullifier_registry" where
  "try_mark_spent n r =
     (let (present, r') = nullifier_insert n r
      in if present then (stale_nullifier, r') else (Inr (), r'))"

definition unmark_many :: "bytes list \<Rightarrow> nullifier_registry \<Rightarrow> nullifier_registry" where
  "unmark_many ns r = fold (\<lambda>n acc. removeAll n acc) ns r"

text \<open>Phase 2 of \<^verbatim>\<open>mark_many_atomic\<close>, with the keys this call has inserted so far.\<close>

fun insert_all :: "bytes list \<Rightarrow> bytes list \<Rightarrow> nullifier_registry \<Rightarrow> unit res \<times> nullifier_registry" where
  "insert_all [] inserted r = (Inr (), r)"
| "insert_all (n # ns) inserted r =
     (let (present, r') = nullifier_insert n r
      in if present then (stale_nullifier, unmark_many inserted r')
         else insert_all ns (inserted @ [n]) r')"

definition mark_many_atomic :: "bytes list \<Rightarrow> nullifier_registry \<Rightarrow> unit res \<times> nullifier_registry" where
  "mark_many_atomic ns r =
     (if \<exists>n\<in>set ns. n \<in> set r then (stale_nullifier, r) else insert_all ns [] r)"

section \<open>Facts\<close>

lemma unmark_many_filter: "unmark_many ns r = filter (\<lambda>n. n \<notin> set ns) r"
proof (induction ns arbitrary: r)
  case (Cons n ns)
  then show ?case
    by (auto simp: unmark_many_def removeAll_filter_not_eq intro!: filter_cong)
qed (simp add: unmark_many_def)

lemma insert_all_result:
  assumes "set inserted \<inter> set base = {}" and "r = rev inserted @ base"
  shows "insert_all ns inserted r =
           (if distinct ns \<and> set ns \<inter> set r = {} then (Inr (), rev ns @ r) else (stale_nullifier, base))"
  using assms
proof (induction ns inserted r rule: insert_all.induct)
  case (2 n ns inserted r)
  show ?case
  proof (cases "n \<in> set r")
    case True
    have "unmark_many inserted r = base"
      using 2(2,3) by (auto simp: unmark_many_filter filter_empty_conv intro!: filter_True)
    then show ?thesis using True by (simp add: nullifier_insert_def)
  next
    case False
    then have "insert_all ns (inserted @ [n]) (n # r) =
        (if distinct ns \<and> set ns \<inter> set (n # r) = {} then (Inr (), rev ns @ n # r) else (stale_nullifier, base))"
      using 2 by (intro "2.IH") (auto simp: nullifier_insert_def)
    then show ?thesis using False by (auto simp: nullifier_insert_def)
  qed
qed simp

lemma mark_many_atomic_result:
  "mark_many_atomic ns r =
     (if distinct ns \<and> set ns \<inter> set r = {} then (Inr (), rev ns @ r) else (stale_nullifier, r))"
  using insert_all_result [of "[]" r r ns] by (auto simp: mark_many_atomic_def)

lemma unmark_mark: "fst (mark_many_atomic ns r) = Inr () \<Longrightarrow> unmark_many ns (snd (mark_many_atomic ns r)) = r"
  by (auto simp: mark_many_atomic_result unmark_many_filter stale_nullifier_def filter_empty_conv
      split: if_splits intro!: filter_True)

section \<open>The spent-set interface\<close>

text \<open>
  What the pool relies on: a batch is marked as a whole or not at all, it is refused
  exactly when it repeats a key or touches a spent one, and unmarking a marked batch
  gives the set back.
\<close>

locale spent_set =
  fixes spent :: "'s \<Rightarrow> bytes \<Rightarrow> bool"
    and mark :: "bytes list \<Rightarrow> 's \<Rightarrow> unit res \<times> 's"
    and unmark :: "bytes list \<Rightarrow> 's \<Rightarrow> 's"
  assumes mark_ok: "(\<exists>u. fst (mark ns s) = Inr u) \<longleftrightarrow> distinct ns \<and> (\<forall>n\<in>set ns. \<not> spent s n)"
    and mark_spent: "fst (mark ns s) = Inr u \<Longrightarrow> spent (snd (mark ns s)) n \<longleftrightarrow> spent s n \<or> n \<in> set ns"
    and mark_error: "fst (mark ns s) = Inl e \<Longrightarrow> snd (mark ns s) = s"
    and unmark_spent: "spent (unmark ns s) n \<longleftrightarrow> spent s n \<and> n \<notin> set ns"
begin

text \<open>A key is never marked by two batches unless it was unmarked in between.\<close>

lemma no_double_spend:
  assumes "fst (mark ns s) = Inr u" and "n \<in> set ns" and "n \<in> set ms"
  shows "\<exists>e. fst (mark ms (snd (mark ns s))) = Inl e"
proof -
  have "spent (snd (mark ns s)) n" using assms(1,2) mark_spent by blast
  then have "\<not> (\<exists>u. fst (mark ms (snd (mark ns s))) = Inr u)" using assms(3) mark_ok by blast
  then show ?thesis by (metis sumE)
qed

lemma mark_unmark_spent:
  assumes "fst (mark ns s) = Inr u"
  shows "spent (unmark ns (snd (mark ns s))) n \<longleftrightarrow> spent s n"
proof -
  have "\<not> spent s n" if "n \<in> set ns" using assms mark_ok that by blast
  then show ?thesis using mark_spent [OF assms] unmark_spent by blast
qed

end

interpretation registry_set: spent_set nullifier_contains mark_many_atomic unmark_many
  by unfold_locales
    (auto simp: nullifier_contains_def mark_many_atomic_result unmark_many_filter stale_nullifier_def
      split: if_splits)

section \<open>Properties\<close>

text \<open>A batch of nullifiers is spent as a whole or not at all.  It is refused exactly when
  it names a nullifier twice or one that is spent, a refusal changes nothing, and once a
  batch is accepted every later batch that shares a nullifier with it is refused.\<close>

theorem mark_many_all_or_nothing:
  "(mark_many_atomic ns r =
      (if distinct ns \<and> (\<forall>n\<in>set ns. \<not> nullifier_contains r n)
       then (Inr (), rev ns @ r) else (Inl (Validation [StaleNullifier]), r))) \<and>
   (fst (mark_many_atomic ns r) = Inr () \<and> set ns \<inter> set ms \<noteq> {} \<longrightarrow>
      fst (mark_many_atomic ms (snd (mark_many_atomic ns r))) = Inl (Validation [StaleNullifier]))"
  by (auto simp: mark_many_atomic_result nullifier_contains_def stale_nullifier_def)

theorem mark_many_all_or_nothing_witness:
  "fst (mark_many_atomic [[2], [1]] (snd (mark_many_atomic [[1]] []))) = Inl (Validation [StaleNullifier])"
  using mark_many_all_or_nothing [of "[[1]]" "[]" "[[2], [1]]"] by (auto simp: nullifier_contains_def)

text \<open>Unmarking exactly the batch an earlier call marked restores the set, key for key and
  also as stored.\<close>

theorem unmark_inverts_mark:
  assumes "fst (mark_many_atomic ns r) = Inr ()"
  shows "unmark_many ns (snd (mark_many_atomic ns r)) = r"
  by (rule unmark_mark [OF assms])

theorem unmark_inverts_mark_witness:
  "unmark_many [[1], [2]] (snd (mark_many_atomic [[1], [2]] [[3]])) = [[3]]"
  by (rule unmark_inverts_mark) (simp add: mark_many_atomic_result)

end
