(* ===== verification/Root_History.thy ===== *)
theory Root_History
  imports Nullifiers
begin

text \<open>
  The committed-root history of \<^verbatim>\<open>src/shielded/roots.rs\<close> and the read-only pool view of
  \<^verbatim>\<open>src/shielded/pool_view.rs\<close>, with the freshness check of
  \<^verbatim>\<open>src/validation/shielded.rs\<close> that reads them.  The history keeps the newest
  \<open>window + 1\<close> roots; the properties show that this loses nothing the check could see.
\<close>

section \<open>State and operations\<close>

record root_snapshot =
  snap_root :: bytes
  snap_height :: u64

record merkle_root_state =
  window :: nat
  next_height :: u64
  roots :: "root_snapshot list"

text \<open>The genesis root is the canonical encoding of the field's zero, the argument.\<close>

definition roots_new :: "bytes \<Rightarrow> nat \<Rightarrow> merkle_root_state" where
  "roots_new zero_root recency_window =
     \<lparr>window = recency_window, next_height = 1, roots = [\<lparr>snap_root = zero_root, snap_height = 0\<rparr>]\<rparr>"

definition roots_push :: "bytes \<Rightarrow> merkle_root_state \<Rightarrow> u64 \<times> merkle_root_state" where
  "roots_push root s =
     (let height = next_height s;
          pushed = roots s @ [\<lparr>snap_root = root, snap_height = height\<rparr>];
          keep = window s + 1;
          kept = (if length pushed > keep then drop (length pushed - keep) pushed else pushed)
      in (height, s\<lparr>next_height := next_height s + 1, roots := kept\<rparr>))"

text \<open>\<^verbatim>\<open>expect\<close> on an empty history is the outer \<open>None\<close>.\<close>

definition current_root :: "merkle_root_state \<Rightarrow> bytes option" where
  "current_root s = (if roots s = [] then None else Some (snap_root (last (roots s))))"

definition recency_window :: "merkle_root_state \<Rightarrow> nat" where
  "recency_window s = window s"

definition roots_len :: "merkle_root_state \<Rightarrow> nat" where
  "roots_len s = length (roots s)"

definition roots_is_empty :: "merkle_root_state \<Rightarrow> bool" where
  "roots_is_empty s \<longleftrightarrow> roots s = []"

text \<open>\<^verbatim>\<open>is_root_fresh\<close> on the canonical encoding of the referenced root.\<close>

definition is_root_fresh :: "bytes \<Rightarrow> root_snapshot list \<Rightarrow> nat \<Rightarrow> bool" where
  "is_root_fresh merkle_root history k =
     (if history = [] then False
      else case find (\<lambda>s. snap_root s = merkle_root) history of
             Some s \<Rightarrow> unat (saturating_sub (snap_height (last history)) (snap_height s)) \<le> k
           | None \<Rightarrow> False)"

record pool_view =
  pv_nullifiers :: nullifier_registry
  pv_roots :: merkle_root_state

definition view_with :: "nullifier_registry \<Rightarrow> merkle_root_state \<Rightarrow> pool_view" where
  "view_with ns rs = \<lparr>pv_nullifiers = ns, pv_roots = rs\<rparr>"

definition view_new :: "bytes \<Rightarrow> nat \<Rightarrow> pool_view" where
  "view_new zero_root k = view_with nullifiers_new (roots_new zero_root k)"

section \<open>What the bounded history holds\<close>

text \<open>Pushing a sequence of roots, and the unpruned history of the same sequence.\<close>

definition push_all :: "bytes list \<Rightarrow> merkle_root_state \<Rightarrow> merkle_root_state" where
  "push_all rs s = fold (\<lambda>r st. snd (roots_push r st)) rs s"

definition full_history :: "bytes \<Rightarrow> bytes list \<Rightarrow> root_snapshot list" where
  "full_history g rs = map (\<lambda>i. \<lparr>snap_root = (g # rs) ! i, snap_height = of_nat i\<rparr>) [0..<Suc (length rs)]"

definition last_n :: "nat \<Rightarrow> 'a list \<Rightarrow> 'a list" where
  "last_n n xs = drop (length xs - n) xs"

lemma last_n_snoc: "0 < n \<Longrightarrow> last_n n (last_n n xs @ [x]) = last_n n (xs @ [x])"
  by (cases "n \<le> length xs") (auto simp: last_n_def Suc_diff_le)

lemma last_n_snoc_nonempty [simp]: "0 < n \<Longrightarrow> last_n n (xs @ [x]) \<noteq> []"
  by (simp add: last_n_def)

lemma last_last_n [simp]: "0 < n \<Longrightarrow> xs \<noteq> [] \<Longrightarrow> last (last_n n xs) = last xs"
  by (simp add: last_n_def last_drop)

lemma full_history_snoc:
  "full_history g (rs @ [r]) = full_history g rs @ [\<lparr>snap_root = r, snap_height = of_nat (Suc (length rs))\<rparr>]"
proof -
  have "map (\<lambda>i. \<lparr>snap_root = (g # rs @ [r]) ! i, snap_height = of_nat i\<rparr>) [0..<Suc (length rs)] =
      full_history g rs"
    by (auto simp: full_history_def nth_append nth_Cons split: nat.split)
  then show ?thesis by (simp add: full_history_def nth_append)
qed

lemma full_history_nonempty [simp]: "full_history g rs \<noteq> []"
  by (simp add: full_history_def)

lemma length_full_history [simp]: "length (full_history g rs) = Suc (length rs)"
  by (simp add: full_history_def)

lemma push_all_new:
  "push_all rs (roots_new g k) =
     \<lparr>window = k, next_height = of_nat (Suc (length rs)), roots = last_n (Suc k) (full_history g rs)\<rparr>"
proof (induction rs rule: rev_induct)
  case Nil
  show ?case by (simp add: push_all_def roots_new_def last_n_def full_history_def)
next
  case (snoc r rs)
  have "push_all (rs @ [r]) (roots_new g k) = snd (roots_push r (push_all rs (roots_new g k)))"
    by (simp add: push_all_def)
  also have "\<dots> = \<lparr>window = k, next_height = of_nat (Suc (Suc (length rs))),
      roots = last_n (Suc k) (last_n (Suc k) (full_history g rs) @
                [\<lparr>snap_root = r, snap_height = of_nat (Suc (length rs))\<rparr>])\<rparr>"
    unfolding snoc by (simp add: roots_push_def Let_def last_n_def)
  finally show ?case by (simp add: last_n_snoc full_history_snoc)
qed

lemma last_n_map: "last_n n (map f xs) = map f (last_n n xs)"
  by (simp add: last_n_def drop_map)

lemma last_n_upt: "last_n n [0..<m] = [m - n..<m]"
  by (simp add: last_n_def)

lemma ex_named: "(\<exists>s. (\<exists>i. P i \<and> s = g i) \<and> Q s) \<longleftrightarrow> (\<exists>i. P i \<and> Q (g i))"
  by blast

text \<open>The check on a run of consecutive heights, read through the root at each height.\<close>

lemma fresh_on_run:
  assumes n: "n < 2 ^ 64" and m: "m \<le> n"
  shows "is_root_fresh r (map (\<lambda>i. \<lparr>snap_root = f i, snap_height = of_nat i\<rparr>) [m..<Suc n]) k \<longleftrightarrow>
           (\<exists>i. m \<le> i \<and> i \<le> n \<and> f i = r \<and> (\<forall>j. m \<le> j \<and> j < i \<longrightarrow> f j \<noteq> r) \<and> n - i \<le> k)"
    (is "is_root_fresh r ?h k \<longleftrightarrow> ?R")
proof -
  have diff: "unat (saturating_sub (of_nat n :: u64) (of_nat i)) = n - i" if "i \<le> n" for i
    using n that by (simp add: unat_ops unat_of_nat take_bit_nat_eq_self)
  have found: "find (\<lambda>s. snap_root s = r) ?h = Some s \<longleftrightarrow>
      (\<exists>i. (m \<le> i \<and> i \<le> n \<and> f i = r \<and> (\<forall>j. m \<le> j \<and> j < i \<longrightarrow> f j \<noteq> r)) \<and>
           s = \<lparr>snap_root = f i, snap_height = of_nat i\<rparr>)" (is "_ \<longleftrightarrow> ?S s") for s
  proof
    assume "find (\<lambda>s. snap_root s = r) ?h = Some s"
    then obtain d where d: "d < Suc n - m" "f (m + d) = r" "\<forall>e<d. f (m + e) \<noteq> r"
        "s = \<lparr>snap_root = f (m + d), snap_height = of_nat (m + d)\<rparr>"
      by (auto simp: find_Some_iff simp del: upt_Suc of_nat_add)
    have "f j \<noteq> r" if "m \<le> j" "j < m + d" for j
      using d(3) that by (metis le_add_diff_inverse nat_add_left_cancel_less)
    then show "?S s" using d m by (intro exI [of _ "m + d"]) auto
  next
    assume "?S s"
    then obtain i where i: "m \<le> i" "i \<le> n" "f i = r" "\<forall>j. m \<le> j \<and> j < i \<longrightarrow> f j \<noteq> r"
        "s = \<lparr>snap_root = f i, snap_height = of_nat i\<rparr>" by blast
    then show "find (\<lambda>s. snap_root s = r) ?h = Some s"
      by (auto simp: find_Some_iff less_diff_conv simp del: upt_Suc of_nat_add intro!: exI [of _ "i - m"])
  qed
  have "last ?h = \<lparr>snap_root = f n, snap_height = of_nat n\<rparr>" and "?h \<noteq> []"
    using m by (simp_all add: last_map)
  then have "is_root_fresh r ?h k \<longleftrightarrow>
      (\<exists>s. find (\<lambda>s. snap_root s = r) ?h = Some s \<and>
           unat (saturating_sub (of_nat n :: u64) (snap_height s)) \<le> k)"
    by (auto simp: is_root_fresh_def split: option.split simp del: upt_Suc)
  also have "\<dots> \<longleftrightarrow> (\<exists>i. (m \<le> i \<and> i \<le> n \<and> f i = r \<and> (\<forall>j. m \<le> j \<and> j < i \<longrightarrow> f j \<noteq> r)) \<and>
      unat (saturating_sub (of_nat n :: u64) (of_nat i)) \<le> k)"
    unfolding found ex_named by simp
  also have "\<dots> \<longleftrightarrow> ?R" by (intro iff_exI) (simp add: diff cong: conj_cong)
  finally show ?thesis .
qed

lemma fresh_retained:
  assumes "length rs < 2 ^ 64"
  shows "is_root_fresh r (last_n (Suc k) (full_history g rs)) k \<longleftrightarrow> r \<in> set (last_n (Suc k) (g # rs))"
proof -
  let ?n = "length rs" and ?f = "\<lambda>i. (g # rs) ! i"
  have "is_root_fresh r (last_n (Suc k) (full_history g rs)) k \<longleftrightarrow>
      (\<exists>i. ?n - k \<le> i \<and> i \<le> ?n \<and> ?f i = r \<and> (\<forall>j. ?n - k \<le> j \<and> j < i \<longrightarrow> ?f j \<noteq> r) \<and> ?n - i \<le> k)"
    using fresh_on_run [OF assms, of "?n - k" r ?f k]
    by (simp add: full_history_def last_n_map last_n_upt del: upt_Suc)
  also have "\<dots> \<longleftrightarrow> (\<exists>i. ?n - k \<le> i \<and> i \<le> ?n \<and> ?f i = r)" (is "?A \<longleftrightarrow> ?B")
  proof
    assume ?B
    let ?P = "\<lambda>i. ?n - k \<le> i \<and> i \<le> ?n \<and> ?f i = r"
    from \<open>?B\<close> have first: "?P (LEAST i. ?P i)" by (rule LeastI_ex)
    have "?f j \<noteq> r" if "?n - k \<le> j" "j < (LEAST i. ?P i)" for j
      using not_less_Least [OF that(2)] that first by auto
    then show ?A using first by (intro exI [of _ "LEAST i. ?P i"]) auto
  qed blast
  also have "\<dots> \<longleftrightarrow> r \<in> set (map ?f (last_n (Suc k) [0..<Suc ?n]))"
    by (auto simp: last_n_upt less_Suc_eq_le simp del: upt_Suc)
  also have "map ?f (last_n (Suc k) [0..<Suc ?n]) = last_n (Suc k) (g # rs)"
    using map_nth [of "g # rs"] by (simp add: last_n_map [symmetric] del: upt_Suc)
  finally show ?thesis .
qed

lemma fresh_unpruned:
  assumes n: "length rs < 2 ^ 64" and dist: "distinct (g # rs)"
  shows "is_root_fresh r (full_history g rs) k \<longleftrightarrow> r \<in> set (last_n (Suc k) (g # rs))"
proof -
  let ?n = "length rs" and ?f = "\<lambda>i. (g # rs) ! i"
  have "is_root_fresh r (full_history g rs) k \<longleftrightarrow>
      (\<exists>i. i \<le> ?n \<and> ?f i = r \<and> (\<forall>j<i. ?f j \<noteq> r) \<and> ?n - i \<le> k)"
    using fresh_on_run [OF n, of 0 r ?f k] by (simp add: full_history_def del: upt_Suc)
  also have "\<dots> \<longleftrightarrow> (\<exists>i. ?n - k \<le> i \<and> i \<le> ?n \<and> ?f i = r)"
  proof -
    have "?f j \<noteq> ?f i" if "j < i" "i \<le> ?n" for i j
      using nth_eq_iff_index_eq [OF dist, of j i] that by auto
    then show ?thesis by (intro iff_exI) (auto simp: le_diff_conv add.commute)
  qed
  also have "\<dots> \<longleftrightarrow> r \<in> set (map ?f (last_n (Suc k) [0..<Suc ?n]))"
    by (auto simp: last_n_upt less_Suc_eq_le simp del: upt_Suc)
  also have "map ?f (last_n (Suc k) [0..<Suc ?n]) = last_n (Suc k) (g # rs)"
    using map_nth [of "g # rs"] by (simp add: last_n_map [symmetric] del: upt_Suc)
  finally show ?thesis .
qed

section \<open>Properties\<close>

text \<open>The bounded history decides freshness as a window over everything ever committed.
  After any sequence of pushes a root is fresh exactly when it is the tip or one of the
  \<open>k\<close> roots before it; the tip is the last root pushed and at most \<open>k + 1\<close> snapshots are
  kept.  When no root repeats, the unpruned history gives the same verdict, so pruning
  never turns a reject into an accept.\<close>

theorem bounded_history_decides_freshness:
  assumes "length rs < 2 ^ 64"
  shows "(is_root_fresh r (roots (push_all rs (roots_new g k))) k \<longleftrightarrow> r \<in> set (last_n (Suc k) (g # rs))) \<and>
         current_root (push_all rs (roots_new g k)) = Some (last (g # rs)) \<and>
         roots_len (push_all rs (roots_new g k)) = min (Suc (length rs)) (Suc k) \<and>
         (distinct (g # rs) \<longrightarrow>
            is_root_fresh r (full_history g rs) k = is_root_fresh r (roots (push_all rs (roots_new g k))) k)"
proof -
  have "last (full_history g rs) = \<lparr>snap_root = (g # rs) ! length rs, snap_height = of_nat (length rs)\<rparr>"
    by (simp add: full_history_def)
  moreover have "last_n (Suc k) (full_history g rs) \<noteq> []" by (simp add: last_n_def)
  moreover have "(g # rs) ! length rs = last (g # rs)"
    using last_conv_nth [of "g # rs"] by (simp del: last.simps)
  ultimately have "current_root (push_all rs (roots_new g k)) = Some (last (g # rs))"
    by (simp add: push_all_new current_root_def del: last.simps)
  then show ?thesis
    using fresh_retained [OF assms, of r k g] fresh_unpruned [OF assms, of g r k]
    by (simp add: push_all_new roots_len_def last_n_def)
qed

theorem bounded_history_decides_freshness_witness:
  "is_root_fresh [2] (roots (push_all [[1], [2], [3]] (roots_new [0] 1))) 1 \<and>
   \<not> is_root_fresh [1] (roots (push_all [[1], [2], [3]] (roots_new [0] 1))) 1"
  using bounded_history_decides_freshness [of "[[1], [2], [3]]" "[2]" "[0]" 1]
    bounded_history_decides_freshness [of "[[1], [2], [3]]" "[1]" "[0]" 1]
  by (simp add: last_n_def)

end
