(* ===== verification/Merkle_Tree.thy ===== *)
theory Merkle_Tree
  imports Prelude
begin

text \<open>
  The incremental Merkle tree of \<^verbatim>\<open>src/shielded/tree.rs\<close>, over a field element type with
  its zero and the two-input Poseidon hash as parameters.  The reference definition
  \<open>node\<close> gives every node of the tree from the leaf sequence alone: an unfilled node is
  zero at every level, as in the source.
\<close>

section \<open>The tree\<close>

record 'f merkle_tree =
  mt_depth :: nat
  mt_levels :: "'f list list"
  mt_leaf_count :: nat

record 'f tree_proof =
  mp_index :: nat
  mp_siblings :: "'f list"

record 'f tree_state =
  ts_root :: 'f
  ts_leaf_count :: nat
  ts_recent_leaves :: "'f list"

definition DEFAULT_DEPTH :: nat where "DEFAULT_DEPTH = 32"

definition tree_new :: "nat \<Rightarrow> 'f merkle_tree" where
  "tree_new depth = \<lparr>mt_depth = depth, mt_levels = replicate (depth + 1) [], mt_leaf_count = 0\<rparr>"

definition tree_root :: "'f \<Rightarrow> 'f merkle_tree \<Rightarrow> 'f" where
  "tree_root zero t = (if mt_leaf_count t = 0 then zero else mt_levels t ! mt_depth t ! 0)"

text \<open>\<^verbatim>\<open>pos ^ 1\<close>, and \<^verbatim>\<open>get(i).copied().unwrap_or(Fp::zero())\<close>.\<close>

definition sibling_pos :: "nat \<Rightarrow> nat" where
  "sibling_pos pos = (if even pos then pos + 1 else pos - 1)"

definition get_or :: "'f \<Rightarrow> 'f list \<Rightarrow> nat \<Rightarrow> 'f" where
  "get_or zero xs i = (if i < length xs then xs ! i else zero)"

definition hash_pair :: "('f \<Rightarrow> 'f \<Rightarrow> 'f) \<Rightarrow> nat \<Rightarrow> 'f \<Rightarrow> 'f \<Rightarrow> 'f" where
  "hash_pair h pos cur sib = (if even pos then h cur sib else h sib cur)"

definition put_node :: "nat \<Rightarrow> 'f \<Rightarrow> 'f list \<Rightarrow> 'f list" where
  "put_node i x xs = (if i = length xs then xs @ [x] else xs[i := x])"

text \<open>The loop over the levels: the updated levels, the last hash and the siblings.\<close>

fun append_path ::
    "('f \<Rightarrow> 'f \<Rightarrow> 'f) \<Rightarrow> 'f \<Rightarrow> nat \<Rightarrow> nat list \<Rightarrow> 'f \<Rightarrow> 'f list list \<Rightarrow> 'f list list \<times> 'f \<times> 'f list" where
  "append_path h zero index [] cur levels = (levels, cur, [])"
| "append_path h zero index (l # ls) cur levels =
     (let pos = index div 2 ^ l;
          sib = get_or zero (levels ! l) (sibling_pos pos);
          cur' = hash_pair h pos cur sib;
          levels' = levels[Suc l := put_node (pos div 2) cur' (levels ! Suc l)];
          (lv, rt, sibs) = append_path h zero index ls cur' levels'
      in (lv, rt, sib # sibs))"

definition append_leaf ::
    "('f \<Rightarrow> 'f \<Rightarrow> 'f) \<Rightarrow> 'f \<Rightarrow> 'f \<Rightarrow> 'f merkle_tree \<Rightarrow> ('f \<times> 'f tree_proof) \<times> 'f merkle_tree" where
  "append_leaf h zero leaf t =
     (let index = mt_leaf_count t;
          levels = (mt_levels t)[0 := mt_levels t ! 0 @ [leaf]];
          (lv, rt, sibs) = append_path h zero index [0..<mt_depth t] leaf levels
      in ((rt, \<lparr>mp_index = index, mp_siblings = sibs\<rparr>),
          t\<lparr>mt_levels := lv, mt_leaf_count := index + 1\<rparr>))"

definition from_leaves :: "('f \<Rightarrow> 'f \<Rightarrow> 'f) \<Rightarrow> 'f \<Rightarrow> nat \<Rightarrow> 'f list \<Rightarrow> 'f merkle_tree" where
  "from_leaves h zero depth leaves =
     fold (\<lambda>leaf t. snd (append_leaf h zero leaf t)) leaves (tree_new depth)"

definition membership_proof :: "'f \<Rightarrow> 'f merkle_tree \<Rightarrow> nat \<Rightarrow> 'f tree_proof" where
  "membership_proof zero t index =
     \<lparr>mp_index = index,
      mp_siblings = map (\<lambda>l. get_or zero (mt_levels t ! l) (sibling_pos (index div 2 ^ l))) [0..<mt_depth t]\<rparr>"

fun hash_up :: "('f \<Rightarrow> 'f \<Rightarrow> 'f) \<Rightarrow> nat \<Rightarrow> nat \<Rightarrow> 'f \<Rightarrow> 'f list \<Rightarrow> 'f" where
  "hash_up h index l cur [] = cur"
| "hash_up h index l cur (sib # sibs) =
     hash_up h index (Suc l) (hash_pair h (index div 2 ^ l) cur sib) sibs"

text \<open>The bound on the index is only checked for depths below the width of the index.\<close>

definition verify_proof :: "('f \<Rightarrow> 'f \<Rightarrow> 'f) \<Rightarrow> 'f \<Rightarrow> 'f tree_proof \<Rightarrow> 'f \<Rightarrow> nat \<Rightarrow> bool" where
  "verify_proof h leaf p root depth =
     (if length (mp_siblings p) \<noteq> depth then False
      else if depth < 64 \<and> 2 ^ depth \<le> mp_index p then False
      else hash_up h (mp_index p) 0 leaf (mp_siblings p) = root)"

definition tree_snapshot :: "'f \<Rightarrow> nat \<Rightarrow> 'f merkle_tree \<Rightarrow> 'f tree_state" where
  "tree_snapshot zero since t =
     \<lparr>ts_root = tree_root zero t, ts_leaf_count = mt_leaf_count t,
      ts_recent_leaves = drop (min since (mt_leaf_count t)) (mt_levels t ! 0)\<rparr>"

section \<open>The reference tree\<close>

fun node :: "('f \<Rightarrow> 'f \<Rightarrow> 'f) \<Rightarrow> 'f \<Rightarrow> 'f list \<Rightarrow> nat \<Rightarrow> nat \<Rightarrow> 'f" where
  "node h zero leaves 0 i = (if i < length leaves then leaves ! i else zero)"
| "node h zero leaves (Suc l) i =
     (if i * 2 ^ Suc l < length leaves
      then h (node h zero leaves l (2 * i)) (node h zero leaves l (2 * i + 1)) else zero)"

text \<open>The number of filled nodes at a level.\<close>

definition filled :: "nat \<Rightarrow> nat \<Rightarrow> nat" where
  "filled n l = (n + 2 ^ l - 1) div 2 ^ l"

definition level_ok :: "('f \<Rightarrow> 'f \<Rightarrow> 'f) \<Rightarrow> 'f \<Rightarrow> 'f list \<Rightarrow> nat \<Rightarrow> 'f list \<Rightarrow> bool" where
  "level_ok h zero leaves l xs \<longleftrightarrow>
     length xs = filled (length leaves) l \<and> (\<forall>i<length xs. xs ! i = node h zero leaves l i)"

definition tree_ok :: "('f \<Rightarrow> 'f \<Rightarrow> 'f) \<Rightarrow> 'f \<Rightarrow> 'f list \<Rightarrow> 'f merkle_tree \<Rightarrow> bool" where
  "tree_ok h zero leaves t \<longleftrightarrow>
     length (mt_levels t) = mt_depth t + 1 \<and> mt_leaf_count t = length leaves \<and>
     (\<forall>l\<le>mt_depth t. level_ok h zero leaves l (mt_levels t ! l))"

section \<open>Facts on the reference tree\<close>

lemma filled_iff: "i < filled n l \<longleftrightarrow> i * 2 ^ l < n"
proof -
  have "i < filled n l \<longleftrightarrow> Suc i * 2 ^ l \<le> n + 2 ^ l - 1"
    unfolding filled_def Suc_le_eq [symmetric] by (rule less_eq_div_iff_mult_less_eq) simp
  also have "\<dots> \<longleftrightarrow> i * 2 ^ l < n"
  proof -
    have "(0::nat) < 2 ^ l" by simp
    then show ?thesis unfolding mult_Suc by linarith
  qed
  finally show ?thesis .
qed

lemma filled_Suc: "filled (Suc n) l = n div 2 ^ l + 1"
  by (simp add: filled_def div_add_self2)

lemma filled_bounds: "n div 2 ^ l \<le> filled n l \<and> filled n l \<le> n div 2 ^ l + 1"
proof
  have "(1::nat) \<le> 2 ^ l" by simp
  then show "n div 2 ^ l \<le> filled n l" unfolding filled_def by (intro div_le_mono) linarith
  have "filled n l \<le> filled (Suc n) l" unfolding filled_def by (rule div_le_mono) simp
  then show "filled n l \<le> n div 2 ^ l + 1" by (simp add: filled_Suc)
qed

lemma node_unfilled: "\<not> i * 2 ^ l < length leaves \<Longrightarrow> node h zero leaves l i = zero"
  by (cases l) simp_all

lemma get_or_node:
  assumes "level_ok h zero leaves l xs"
  shows "get_or zero xs i = node h zero leaves l i"
proof (cases "i < length xs")
  case True
  then show ?thesis using assms by (simp add: get_or_def level_ok_def)
next
  case False
  then have "\<not> i * 2 ^ l < length leaves" using assms by (simp add: level_ok_def filled_iff [symmetric])
  then show ?thesis using False by (simp add: get_or_def node_unfilled)
qed

lemma node_append_other:
  "i \<noteq> length leaves div 2 ^ l \<Longrightarrow> node h zero (leaves @ [x]) l i = node h zero leaves l i"
proof (induction l arbitrary: i)
  case 0
  then show ?case by (simp add: nth_append)
next
  case (Suc l)
  have half: "length leaves div 2 ^ Suc l = (length leaves div 2 ^ l) div 2"
    by (simp add: div_mult2_eq power_Suc2 del: power_Suc)
  have "node h zero (leaves @ [x]) l j = node h zero leaves l j" if "j = 2 * i \<or> j = 2 * i + 1" for j
    using Suc.prems half that by (intro Suc.IH) auto
  moreover have "i * 2 ^ Suc l < Suc (length leaves) \<longleftrightarrow> i * 2 ^ Suc l < length leaves"
  proof -
    have "i * 2 ^ Suc l \<noteq> length leaves"
    proof
      assume "i * 2 ^ Suc l = length leaves"
      then have "length leaves div 2 ^ Suc l = i * 2 ^ Suc l div 2 ^ Suc l" by (simp only:)
      then show False using Suc.prems by (simp only: nonzero_mult_div_cancel_right power_not_zero) simp
    qed
    then show ?thesis by linarith
  qed
  ultimately show ?case by simp
qed

lemma hash_pair_node:
  assumes "(pos div 2) * 2 ^ Suc l < length leaves"
  shows "hash_pair h pos (node h zero leaves l pos) (node h zero leaves l (sibling_pos pos)) =
         node h zero leaves (Suc l) (pos div 2)"
  using assms by (auto simp: hash_pair_def sibling_pos_def elim!: oddE evenE)

lemma level_ok_put:
  assumes "level_ok h zero leaves l xs"
    and "y = node h zero (leaves @ [x]) l (length leaves div 2 ^ l)"
  shows "level_ok h zero (leaves @ [x]) l (put_node (length leaves div 2 ^ l) y xs)"
proof -
  let ?m = "length leaves div 2 ^ l"
  have len: "length xs = filled (length leaves) l" using assms(1) by (simp add: level_ok_def)
  then have m: "?m \<le> length xs" "length xs \<le> ?m + 1" using filled_bounds [of "length leaves" l] by simp_all
  then have "length (put_node ?m y xs) = filled (length (leaves @ [x])) l"
    by (auto simp: put_node_def filled_Suc)
  moreover have "put_node ?m y xs ! i = node h zero (leaves @ [x]) l i" if "i < length (put_node ?m y xs)" for i
  proof (cases "i = ?m")
    case True
    then show ?thesis using assms(2) m by (auto simp: put_node_def nth_append)
  next
    case False
    then have "i < length xs" using that m by (auto simp: put_node_def split: if_splits)
    moreover have "put_node ?m y xs ! i = xs ! i" using False calculation by (auto simp: put_node_def nth_append)
    ultimately show ?thesis using assms(1) False by (simp add: level_ok_def node_append_other)
  qed
  ultimately show ?thesis by (simp add: level_ok_def)
qed

section \<open>Facts on appending\<close>

lemma append_path_ok:
  assumes "l \<le> d" and "length levels = d + 1"
    and "\<forall>k\<le>l. level_ok h zero (leaves @ [x]) k (levels ! k)"
    and "\<forall>k. l < k \<and> k \<le> d \<longrightarrow> level_ok h zero leaves k (levels ! k)"
    and "cur = node h zero (leaves @ [x]) l (length leaves div 2 ^ l)"
    and "append_path h zero (length leaves) [l..<d] cur levels = (lv, rt, sibs)"
  shows "length lv = d + 1 \<and> (\<forall>k\<le>d. level_ok h zero (leaves @ [x]) k (lv ! k)) \<and>
         rt = node h zero (leaves @ [x]) d (length leaves div 2 ^ d) \<and>
         sibs = map (\<lambda>k. node h zero (leaves @ [x]) k (sibling_pos (length leaves div 2 ^ k))) [l..<d]"
  using assms
proof (induction "d - l" arbitrary: l cur levels lv rt sibs)
  case 0
  then show ?case by simp
next
  case (Suc m)
  let ?n = "length leaves" and ?leaves = "leaves @ [x]"
  let ?pos = "?n div 2 ^ l"
  let ?sib = "get_or zero (levels ! l) (sibling_pos ?pos)"
  let ?cur = "hash_pair h ?pos cur ?sib"
  let ?levels = "levels[Suc l := put_node (?pos div 2) ?cur (levels ! Suc l)]"
  have l: "l < d" using Suc.hyps(2) by simp
  have half: "?pos div 2 = ?n div 2 ^ Suc l" by (simp add: div_mult2_eq power_Suc2 del: power_Suc)
  obtain sibs' where rest: "append_path h zero ?n [Suc l..<d] ?cur ?levels = (lv, rt, sibs')"
      and sibs: "sibs = ?sib # sibs'"
    using Suc.prems(6) by (auto simp: upt_conv_Cons [OF l] Let_def split: prod.splits)
  have sib: "?sib = node h zero ?leaves l (sibling_pos ?pos)"
    using Suc.prems(3) by (intro get_or_node) simp
  have "(?pos div 2) * 2 ^ Suc l < length ?leaves"
    unfolding half by (simp del: power_Suc add: less_Suc_eq_le)
  then have cur: "?cur = node h zero ?leaves (Suc l) (?n div 2 ^ Suc l)"
    unfolding sib Suc.prems(5) half [symmetric] by (rule hash_pair_node)
  have "level_ok h zero ?leaves (Suc l) (put_node (?pos div 2) ?cur (levels ! Suc l))"
    unfolding half using Suc.prems(4) l cur by (intro level_ok_put) auto
  then have lev: "\<forall>k\<le>Suc l. level_ok h zero ?leaves k (?levels ! k)"
    using Suc.prems(2,3) l by (auto simp: nth_list_update le_Suc_eq)
  have above: "\<forall>k. Suc l < k \<and> k \<le> d \<longrightarrow> level_ok h zero leaves k (?levels ! k)"
    using Suc.prems(4) by auto
  have "length lv = d + 1 \<and> (\<forall>k\<le>d. level_ok h zero ?leaves k (lv ! k)) \<and>
      rt = node h zero ?leaves d (?n div 2 ^ d) \<and>
      sibs' = map (\<lambda>k. node h zero ?leaves k (sibling_pos (?n div 2 ^ k))) [Suc l..<d]"
    using Suc.hyps(1) [of "Suc l" ?levels ?cur lv rt sibs'] Suc.hyps(2) l Suc.prems(2) lev above cur rest by simp
  then show ?case using sibs sib by (simp add: upt_conv_Cons [OF l])
qed

lemma append_leaf_ok:
  assumes "tree_ok h zero leaves t" and "append_leaf h zero x t = ((rt, p), t')"
  shows "tree_ok h zero (leaves @ [x]) t' \<and> mt_depth t' = mt_depth t \<and>
         rt = node h zero (leaves @ [x]) (mt_depth t) (length leaves div 2 ^ mt_depth t) \<and>
         p = \<lparr>mp_index = length leaves,
              mp_siblings = map (\<lambda>k. node h zero (leaves @ [x]) k (sibling_pos (length leaves div 2 ^ k)))
                              [0..<mt_depth t]\<rparr>"
proof -
  let ?levels = "(mt_levels t)[0 := mt_levels t ! 0 @ [x]]"
  have count: "mt_leaf_count t = length leaves" and len: "length (mt_levels t) = mt_depth t + 1"
    and ok: "\<And>l. l \<le> mt_depth t \<Longrightarrow> level_ok h zero leaves l (mt_levels t ! l)"
    using assms(1) by (auto simp: tree_ok_def)
  obtain lv sibs where path:
      "append_path h zero (length leaves) [0..<mt_depth t] x ?levels = (lv, rt, sibs)"
      and t': "t' = t\<lparr>mt_levels := lv, mt_leaf_count := length leaves + 1\<rparr>"
      and p: "p = \<lparr>mp_index = length leaves, mp_siblings = sibs\<rparr>"
    using assms(2) by (auto simp: append_leaf_def Let_def count split: prod.splits)
  have leaf: "mt_levels t ! 0 @ [x] = put_node (length leaves div 2 ^ 0) x (mt_levels t ! 0)"
    using ok [of 0] by (simp add: level_ok_def put_node_def filled_def)
  have "level_ok h zero (leaves @ [x]) 0 (?levels ! 0)"
    using level_ok_put [OF ok [of 0], of x x] len by (simp add: leaf [simplified])
  then have "length lv = mt_depth t + 1 \<and> (\<forall>k\<le>mt_depth t. level_ok h zero (leaves @ [x]) k (lv ! k)) \<and>
      rt = node h zero (leaves @ [x]) (mt_depth t) (length leaves div 2 ^ mt_depth t) \<and>
      sibs = map (\<lambda>k. node h zero (leaves @ [x]) k (sibling_pos (length leaves div 2 ^ k))) [0..<mt_depth t]"
    using ok len path by (intro append_path_ok [where levels = ?levels and cur = x]) auto
  then show ?thesis using t' p by (simp add: tree_ok_def)
qed

lemma tree_new_ok: "tree_ok h zero [] (tree_new depth)"
proof -
  have "filled 0 l = 0" for l by (simp add: filled_def)
  then show ?thesis by (simp add: tree_ok_def tree_new_def level_ok_def nth_replicate del: replicate_Suc)
qed

lemma from_leaves_ok:
  "tree_ok h zero leaves (from_leaves h zero depth leaves) \<and> mt_depth (from_leaves h zero depth leaves) = depth"
proof (induction leaves rule: rev_induct)
  case Nil
  then show ?case using tree_new_ok [of h zero depth] by (simp add: from_leaves_def tree_new_def)
next
  case (snoc x leaves)
  obtain rt p t' where "append_leaf h zero x (from_leaves h zero depth leaves) = ((rt, p), t')"
    by (metis surj_pair)
  then show ?case
    using append_leaf_ok [of h zero leaves "from_leaves h zero depth leaves" x rt p t'] snoc
    by (simp add: from_leaves_def)
qed

lemma tree_root_node:
  assumes "tree_ok h zero leaves t"
  shows "tree_root zero t = node h zero leaves (mt_depth t) 0"
proof (cases "leaves = []")
  case True
  then show ?thesis using assms node_unfilled [of 0 "mt_depth t" leaves h zero] by (simp add: tree_root_def tree_ok_def)
next
  case False
  then have "0 < filled (length leaves) (mt_depth t)" by (simp add: filled_iff)
  then show ?thesis using assms False by (simp add: tree_root_def tree_ok_def level_ok_def)
qed

lemma hash_up_node:
  assumes "i < length leaves" and "l \<le> d"
  shows "hash_up h i l (node h zero leaves l (i div 2 ^ l))
           (map (\<lambda>k. node h zero leaves k (sibling_pos (i div 2 ^ k))) [l..<d]) = node h zero leaves d (i div 2 ^ d)"
  using assms(2)
proof (induction "d - l" arbitrary: l)
  case 0
  then show ?case by simp
next
  case (Suc m)
  then have l: "l < d" by simp
  have half: "(i div 2 ^ l) div 2 = i div 2 ^ Suc l" by (simp add: div_mult2_eq power_Suc2 del: power_Suc)
  have "i div 2 ^ Suc l * 2 ^ Suc l < length leaves"
    using div_times_less_eq_dividend [of i "2 ^ Suc l"] assms(1) by linarith
  then have "hash_pair h (i div 2 ^ l) (node h zero leaves l (i div 2 ^ l))
      (node h zero leaves l (sibling_pos (i div 2 ^ l))) = node h zero leaves (Suc l) (i div 2 ^ Suc l)"
    using hash_pair_node [of "i div 2 ^ l" l leaves h zero] unfolding half by blast
  then show ?case
    using Suc.hyps(1) [of "Suc l"] Suc.hyps(2) l by (simp add: upt_conv_Cons [OF l] del: node.simps power_Suc)
qed

lemma hash_up_sound:
  assumes "\<And>a b c d. h a b = h c d \<Longrightarrow> a = c \<and> b = d" and "\<And>a b. h a b \<noteq> zero"
    and "hash_up h i l cur sibs = node h zero leaves (l + length sibs) (i div 2 ^ (l + length sibs))"
  shows "cur = node h zero leaves l (i div 2 ^ l)"
  using assms(3)
proof (induction sibs arbitrary: l cur)
  case Nil
  then show ?case by simp
next
  case (Cons sib sibs)
  let ?pos = "i div 2 ^ l"
  have half: "?pos div 2 = i div 2 ^ Suc l" by (simp add: div_mult2_eq power_Suc2 del: power_Suc)
  have up: "hash_pair h ?pos cur sib = node h zero leaves (Suc l) (?pos div 2)"
    unfolding half by (rule Cons.IH) (use Cons.prems in simp)
  moreover have "hash_pair h ?pos cur sib \<noteq> zero" using assms(2) by (simp add: hash_pair_def)
  ultimately have "hash_pair h ?pos cur sib =
      h (node h zero leaves l (2 * (?pos div 2))) (node h zero leaves l (2 * (?pos div 2) + 1))"
    by (simp split: if_splits)
  then have pair: "(if even ?pos then h cur sib else h sib cur) =
      h (node h zero leaves l (2 * (?pos div 2))) (node h zero leaves l (2 * (?pos div 2) + 1))"
    unfolding hash_pair_def .
  show ?case
  proof (cases "even ?pos")
    case True
    then have "2 * (?pos div 2) = ?pos" by simp
    then show ?thesis using pair True assms(1) by metis
  next
    case False
    then have "2 * (?pos div 2) + 1 = ?pos" by (rule odd_two_times_div_two_succ)
    then show ?thesis using pair False assms(1) by metis
  qed
qed

section \<open>Properties of the tree\<close>

text \<open>C24: the incremental tree equals the reference tree.  After any appends its root is the
  root node computed from the leaf sequence alone, and the same leaves appended one by one
  or restored at once give the same root.\<close>

theorem from_leaves_root:
  "tree_root zero (from_leaves h zero depth leaves) = node h zero leaves depth 0 \<and>
   mt_leaf_count (from_leaves h zero depth leaves) = length leaves \<and>
   from_leaves h zero depth (leaves @ [x]) = snd (append_leaf h zero x (from_leaves h zero depth leaves))"
  using from_leaves_ok [of h zero leaves depth] tree_root_node [of h zero leaves "from_leaves h zero depth leaves"]
  by (simp add: tree_ok_def) (simp add: from_leaves_def)

text \<open>Every leaf of a tree within its capacity has a membership proof that verifies against
  the current root, and the proof an append returns verifies against the root it returns,
  which is the new root.\<close>

theorem membership_proofs_verify:
  assumes "length leaves \<le> 2 ^ depth" and "i < length leaves"
    and "t = from_leaves h zero depth leaves"
  shows "verify_proof h (leaves ! i) (membership_proof zero t i) (tree_root zero t) depth \<and>
         (length leaves < 2 ^ depth \<longrightarrow>
            (case append_leaf h zero x t of
               ((rt, p), t') \<Rightarrow> rt = tree_root zero t' \<and> verify_proof h x p rt depth))"
proof
  have ok: "tree_ok h zero leaves t" "mt_depth t = depth" using from_leaves_ok [of h zero leaves depth] assms(3) by simp_all
  have "mp_siblings (membership_proof zero t i) =
      map (\<lambda>k. node h zero leaves k (sibling_pos (i div 2 ^ k))) [0..<depth]"
    using ok by (auto simp: membership_proof_def tree_ok_def intro!: get_or_node)
  moreover have "i div 2 ^ depth = 0" using assms(1,2) by simp
  ultimately show "verify_proof h (leaves ! i) (membership_proof zero t i) (tree_root zero t) depth"
    using hash_up_node [OF assms(2), of 0 depth h zero] tree_root_node [OF ok(1)] ok(2) assms(1,2)
    by (simp add: verify_proof_def) (simp add: membership_proof_def)
next
  show "length leaves < 2 ^ depth \<longrightarrow> (case append_leaf h zero x t of
               ((rt, p), t') \<Rightarrow> rt = tree_root zero t' \<and> verify_proof h x p rt depth)"
  proof
    assume cap: "length leaves < 2 ^ depth"
    obtain rt p t' where app: "append_leaf h zero x t = ((rt, p), t')" by (metis surj_pair)
    have ok: "tree_ok h zero leaves t" "mt_depth t = depth" using from_leaves_ok [of h zero leaves depth] assms(3) by simp_all
    have new: "tree_ok h zero (leaves @ [x]) t'" "mt_depth t' = depth"
        "rt = node h zero (leaves @ [x]) depth 0"
        "p = \<lparr>mp_index = length leaves, mp_siblings =
                map (\<lambda>k. node h zero (leaves @ [x]) k (sibling_pos (length leaves div 2 ^ k))) [0..<depth]\<rparr>"
      using append_leaf_ok [OF ok(1) app] ok(2) cap by simp_all
    have "verify_proof h x p rt depth"
      using hash_up_node [of "length leaves" "leaves @ [x]" 0 depth h zero] cap
      by (simp add: verify_proof_def new(3,4) nth_append)
    then show "case append_leaf h zero x t of ((rt, p), t') \<Rightarrow> rt = tree_root zero t' \<and> verify_proof h x p rt depth"
      using tree_root_node [OF new(1)] new(2,3) app by simp
  qed
qed

text \<open>A proof that verifies against the root of a tree names one of its leaves, or the
  zero element, when the node hash is injective and never zero.\<close>

theorem verified_proof_names_leaf:
  assumes "\<And>a b c d. h a b = h c d \<Longrightarrow> a = c \<and> b = d" and "\<And>a b. h a b \<noteq> zero" and "depth < 64"
    and "verify_proof h x p (tree_root zero (from_leaves h zero depth leaves)) depth"
  shows "(mp_index p < length leaves \<and> x = leaves ! mp_index p) \<or> x = zero"
proof -
  have v: "length (mp_siblings p) = depth" "mp_index p < 2 ^ depth"
      "hash_up h (mp_index p) 0 x (mp_siblings p) = node h zero leaves depth 0"
    using assms(3,4) from_leaves_root [of zero h depth leaves]
    by (auto simp: verify_proof_def split: if_splits)
  have "x = node h zero leaves 0 (mp_index p div 2 ^ 0)"
    by (rule hash_up_sound [where h = h and zero = zero and sibs = "mp_siblings p", OF assms(1,2)])
      (use v in simp_all)
  then show ?thesis by (simp split: if_splits)
qed

text \<open>Nothing guards the capacity: once the tree holds as many leaves as its depth allows, an
  append still succeeds and counts the leaf, but the root no longer changes.\<close>

theorem append_beyond_capacity_keeps_root:
  assumes "2 ^ depth \<le> length leaves"
  shows "tree_root zero (from_leaves h zero depth (leaves @ [x])) = tree_root zero (from_leaves h zero depth leaves) \<and>
         mt_leaf_count (from_leaves h zero depth (leaves @ [x])) = length leaves + 1"
proof -
  have "(0::nat) \<noteq> length leaves div 2 ^ depth"
    using assms by (metis div_greater_zero_iff less_not_refl zero_less_numeral zero_less_power)
  then show ?thesis
    using from_leaves_root [of zero h depth leaves] from_leaves_root [of zero h depth "leaves @ [x]"]
    by (simp add: node_append_other)
qed

section \<open>Concrete instances\<close>

text \<open>A free node algebra, in which the hash is injective and never zero.\<close>

datatype free_node = Zero | Leaf nat | Node free_node free_node

theorem membership_proofs_verify_witness:
  "verify_proof Node (Leaf 1) (membership_proof Zero (from_leaves Node Zero 2 [Leaf 0, Leaf 1, Leaf 2]) 1)
     (tree_root Zero (from_leaves Node Zero 2 [Leaf 0, Leaf 1, Leaf 2])) 2"
  using membership_proofs_verify [of "[Leaf 0, Leaf 1, Leaf 2]" 2 1, OF _ _ refl, of Node Zero] by simp

theorem verified_proof_names_leaf_witness:
  "verify_proof Node (Leaf 7) \<lparr>mp_index = 0, mp_siblings = [Zero]\<rparr>
     (tree_root Zero (from_leaves Node Zero 1 [Leaf 7])) 1 \<and> Leaf 7 = [Leaf 7] ! 0"
proof -
  have "verify_proof Node (Leaf 7) \<lparr>mp_index = 0, mp_siblings = [Zero]\<rparr>
      (tree_root Zero (from_leaves Node Zero 1 [Leaf 7])) 1"
    using from_leaves_root [of Zero Node 1 "[Leaf 7]"] by (simp add: verify_proof_def hash_pair_def)
  then show ?thesis
    using verified_proof_names_leaf [of Node Zero 1 "Leaf 7" "\<lparr>mp_index = 0, mp_siblings = [Zero]\<rparr>" "[Leaf 7]"]
    by simp
qed

theorem append_beyond_capacity_keeps_root_witness:
  "tree_root Zero (from_leaves Node Zero 0 ([Leaf 1] @ [Leaf 2])) = tree_root Zero (from_leaves Node Zero 0 [Leaf 1]) \<and>
   mt_leaf_count (from_leaves Node Zero 0 ([Leaf 1] @ [Leaf 2])) = length [Leaf 1] + 1"
  by (rule append_beyond_capacity_keeps_root) simp

end
