(* ===== verification/Floats.thy ===== *)
theory Floats
  imports Complex_Main Prelude
begin

text \<open>
  IEEE-754 double arithmetic as far as the sources use it: conversion from \<^verbatim>\<open>u64\<close>,
  multiplication rounded to nearest even, \<^verbatim>\<open>round\<close>, \<^verbatim>\<open>min\<close> and the saturating \<^verbatim>\<open>as u64\<close>
  cast.  A finite double is the rational it denotes (the two zeros are one value, which
  none of these operations can tell apart in its integer result).
\<close>

datatype f64 = Fin rat | PInf | NInf | NaN

fun nlog2 :: "nat \<Rightarrow> nat" where
  "nlog2 n = (if n < 2 then 0 else Suc (nlog2 (n div 2)))"

declare nlog2.simps [simp del]

text \<open>The exponent of a positive rational: the greatest power of two not above it.\<close>

definition exponent_of :: "rat \<Rightarrow> int" where
  "exponent_of q =
     (let (n, d) = quotient_of q; e = int (nlog2 (nat n)) - int (nlog2 (nat d))
      in if 2 powi e \<le> q then e else e - 1)"

definition round_half_even :: "rat \<Rightarrow> int" where
  "round_half_even q =
     (let f = \<lfloor>q\<rfloor>; r = q - of_int f
      in if r < 1 / 2 then f else if 1 / 2 < r then f + 1 else if even f then f else f + 1)"

text \<open>Rounding a rational to the nearest double: 53 bits of significand, gradual underflow.\<close>

definition f64_round :: "rat \<Rightarrow> f64" where
  "f64_round q =
     (if q = 0 then Fin 0
      else let a = \<bar>q\<bar>;
               ulp = 2 powi (max (exponent_of a) (-1022) - 52);
               v = of_int (round_half_even (a / ulp)) * ulp
           in if 2 ^ 1024 \<le> v then (if 0 < q then PInf else NInf)
              else Fin (if 0 < q then v else - v))"

definition f64_of_u64 :: "u64 \<Rightarrow> f64" where
  "f64_of_u64 x = f64_round (of_nat (unat x))"

fun f64_mult :: "f64 \<Rightarrow> f64 \<Rightarrow> f64" where
  "f64_mult (Fin a) (Fin b) = f64_round (a * b)"
| "f64_mult NaN y = NaN"
| "f64_mult x NaN = NaN"
| "f64_mult (Fin a) PInf = (if a = 0 then NaN else if 0 < a then PInf else NInf)"
| "f64_mult (Fin a) NInf = (if a = 0 then NaN else if 0 < a then NInf else PInf)"
| "f64_mult PInf (Fin b) = (if b = 0 then NaN else if 0 < b then PInf else NInf)"
| "f64_mult NInf (Fin b) = (if b = 0 then NaN else if 0 < b then NInf else PInf)"
| "f64_mult PInf PInf = PInf"
| "f64_mult NInf NInf = PInf"
| "f64_mult PInf NInf = NInf"
| "f64_mult NInf PInf = NInf"

text \<open>\<^verbatim>\<open>round\<close>: halves away from zero.\<close>

fun f64_round_int :: "f64 \<Rightarrow> f64" where
  "f64_round_int (Fin q) = Fin (of_int (if 0 \<le> q then \<lfloor>q + 1 / 2\<rfloor> else - \<lfloor>- q + 1 / 2\<rfloor>))"
| "f64_round_int x = x"

fun f64_less :: "f64 \<Rightarrow> f64 \<Rightarrow> bool" where
  "f64_less (Fin a) (Fin b) \<longleftrightarrow> a < b"
| "f64_less NaN y \<longleftrightarrow> False"
| "f64_less x NaN \<longleftrightarrow> False"
| "f64_less NInf y \<longleftrightarrow> y \<noteq> NInf"
| "f64_less x NInf \<longleftrightarrow> False"
| "f64_less x PInf \<longleftrightarrow> x \<noteq> PInf"
| "f64_less PInf y \<longleftrightarrow> False"

definition f64_min :: "f64 \<Rightarrow> f64 \<Rightarrow> f64" where
  "f64_min x y = (if x = NaN then y else if y = NaN then x else if f64_less y x then y else x)"

fun f64_as_u64 :: "f64 \<Rightarrow> u64" where
  "f64_as_u64 (Fin q) = (if q \<le> 0 then 0 else if 2 ^ 64 \<le> q then - 1 else of_int \<lfloor>q\<rfloor>)"
| "f64_as_u64 PInf = - 1"
| "f64_as_u64 NInf = 0"
| "f64_as_u64 NaN = 0"

section \<open>Rounding of integers\<close>

lemma half_bounds: "(p::nat) \<le> n div 2 \<and> n div 2 < 2 * p \<Longrightarrow> 2 * p \<le> n \<and> n < 4 * p"
  by linarith

lemma nlog2_bounds: "0 < n \<Longrightarrow> 2 ^ nlog2 n \<le> n \<and> n < 2 ^ Suc (nlog2 n)"
proof (induction n rule: nlog2.induct)
  case (1 n)
  show ?case
  proof (cases "n < 2")
    case True
    with 1 show ?thesis by (simp add: nlog2.simps)
  next
    case False
    then have "2 ^ nlog2 (n div 2) \<le> n div 2 \<and> n div 2 < 2 ^ Suc (nlog2 (n div 2))"
      using 1 by simp
    moreover have "nlog2 n = Suc (nlog2 (n div 2))" using False by (simp add: nlog2.simps)
    ultimately show ?thesis
      using half_bounds [of "2 ^ nlog2 (n div 2)" n] by simp
  qed
qed

lemma nlog2_less:
  assumes "0 < n" and "n < 2 ^ k"
  shows "nlog2 n < k"
proof -
  have "2 ^ nlog2 n \<le> n" using nlog2_bounds [OF assms(1)] by blast
  then have "(2::nat) ^ nlog2 n < 2 ^ k" using assms(2) by (rule le_less_trans)
  then show ?thesis by (rule power_less_imp_less_exp [rotated]) simp
qed

lemma exponent_of_nat: "0 < n \<Longrightarrow> exponent_of (of_nat n) = int (nlog2 n)"
proof -
  assume n: "0 < n"
  have q: "quotient_of (of_nat n) = (int n, 1)"
    using quotient_of_int [of "int n"] by simp
  have "(2::rat) powi int (nlog2 n) \<le> of_nat n"
    using nlog2_bounds [OF n] by (simp add: power_int_of_nat)
  then show ?thesis by (simp add: exponent_of_def q nlog2.simps [of "Suc 0"] power_int_of_nat)
qed

lemma round_half_even_int [simp]: "round_half_even (of_int k) = k"
  by (simp add: round_half_even_def Let_def)

lemma f64_round_nat_exact:
  assumes "n < 2 ^ 53"
  shows "f64_round (of_nat n) = Fin (of_nat n)"
proof (cases "n = 0")
  case True
  then show ?thesis by (simp add: f64_round_def)
next
  case False
  define k where "k = 52 - nlog2 n"
  have e: "nlog2 n \<le> 52" using nlog2_less [of n 53] assms False by simp
  have ulp: "(2::rat) powi (max (exponent_of (of_nat n)) (-1022) - 52) = 1 / 2 ^ k"
    using False e by (simp add: exponent_of_nat k_def power_int_def divide_simps nat_diff_distrib flip: power_inverse)
  have v: "round_half_even (rat_of_nat n * 2 ^ k) = int (n * 2 ^ k)"
    using round_half_even_int [of "int (n * 2 ^ k)"] by simp
  have "(of_nat n :: rat) < 2 ^ 1024"
  proof -
    have "n < 2 ^ 1024" using assms by simp
    then show ?thesis by (metis of_nat_less_iff of_nat_numeral of_nat_power)
  qed
  then show ?thesis using False by (simp add: f64_round_def ulp v Let_def)
qed

lemma f64_as_u64_nat:
  assumes "n < 2 ^ 64"
  shows "f64_as_u64 (Fin (of_nat n)) = of_nat n"
proof -
  have "\<not> 2 ^ 64 \<le> (of_nat n :: rat)" using assms by (simp add: not_le)
  then show ?thesis by simp
qed

end
