(* ===== verification/Shielded_Validation.thy ===== *)
theory Shielded_Validation
  imports Transactions Root_History Merkle_Tree Floats
begin

text \<open>
  Validation of a shielded transfer: the public-input reconstruction of
  \<^verbatim>\<open>src/shielded/verify.rs\<close>, the risk score of \<^verbatim>\<open>src/errors.rs\<close> and the four checks and the
  risk gate of \<^verbatim>\<open>src/validation/shielded.rs\<close>.  The field, the curve, Poseidon and the Halo2
  verifier are the record \<open>field_ops\<close>.
\<close>

section \<open>The risk score\<close>

text \<open>
  Single precision on the magnitudes the score meets (at most 1): rounding to 24 bits of
  significand, ties to even.
\<close>

definition f32_round :: "rat \<Rightarrow> rat" where
  "f32_round q =
     (if q = 0 then 0
      else let ulp = 2 powi (max (exponent_of \<bar>q\<bar>) (-126) - 23)
           in of_int (round_half_even (q / ulp)) * ulp)"

definition f32_add :: "rat \<Rightarrow> rat \<Rightarrow> rat" where
  "f32_add a b = f32_round (a + b)"

definition f32_mult :: "rat \<Rightarrow> rat \<Rightarrow> rat" where
  "f32_mult a b = f32_round (a * b)"

definition risk_score :: "transaction_risk_factor \<Rightarrow> rat" where
  "risk_score r =
     (let amount = of_nat (amount_risk r) / 2;
          party = of_nat (party_risk r) / 2;
          complexity = (if is_contract r \<or> is_multi_party r then 1 else 1 / 2)
      in f32_add (f32_add (f32_mult amount (f32_round (4 / 10))) (f32_mult party (f32_round (3 / 10))))
           (f32_mult complexity (f32_round (3 / 10))))"

section \<open>The field, the curve and the proof system\<close>

record 'f public_inputs =
  pi_nullifier :: 'f
  pi_commit_x :: 'f
  pi_commit_y :: 'f
  pi_merkle_root :: 'f
  pi_output_commit_x :: 'f
  pi_output_commit_y :: 'f
  pi_fee :: 'f

text \<open>
  \<^verbatim>\<open>Fp::zero\<close>, \<^verbatim>\<open>poseidon_hash\<close> on two inputs, \<^verbatim>\<open>to_repr\<close>, \<^verbatim>\<open>from_repr\<close>,
  \<^verbatim>\<open>from_uniform_bytes\<close>, \<^verbatim>\<open>Fp::from\<close>, \<^verbatim>\<open>EpAffine::from_bytes\<close>, \<^verbatim>\<open>coordinates\<close> and Halo2's
  \<^verbatim>\<open>verify_proof\<close> on the instance columns.
\<close>

record ('f, 'p) field_ops =
  fp_zero :: 'f
  poseidon2 :: "'f \<Rightarrow> 'f \<Rightarrow> 'f"
  to_repr :: "'f \<Rightarrow> bytes"
  from_repr :: "bytes \<Rightarrow> 'f option"
  from_uniform_bytes :: "bytes \<Rightarrow> 'f"
  fp_from_u64 :: "u64 \<Rightarrow> 'f"
  point_from_bytes :: "bytes \<Rightarrow> 'p option"
  point_coordinates :: "'p \<Rightarrow> ('f \<times> 'f) option"
  plonk_verify :: "bytes \<Rightarrow> 'f list list list \<Rightarrow> bool"

definition root_to_bytes :: "('f, 'p) field_ops \<Rightarrow> 'f \<Rightarrow> bytes" where
  "root_to_bytes F r = to_repr F r"

definition bytes_to_root :: "('f, 'p) field_ops \<Rightarrow> bytes \<Rightarrow> 'f option" where
  "bytes_to_root F b = from_repr F b"

definition decode_failure :: "'a res" where
  "decode_failure = Inl (Validation [InvalidCommitment])"

definition bytes32_to_fp :: "('f, 'p) field_ops \<Rightarrow> bytes \<Rightarrow> 'f" where
  "bytes32_to_fp F b = from_uniform_bytes F (b @ replicate 32 0)"

definition point_coords :: "('f, 'p) field_ops \<Rightarrow> bytes \<Rightarrow> ('f \<times> 'f) res" where
  "point_coords F b =
     (case point_from_bytes F b of
        None \<Rightarrow> decode_failure
      | Some pt \<Rightarrow> (case point_coordinates F pt of None \<Rightarrow> decode_failure | Some xy \<Rightarrow> Inr xy))"

definition first_point :: "('f, 'p) field_ops \<Rightarrow> bytes list \<Rightarrow> ('f \<times> 'f) res" where
  "first_point F bs = (case bs of [] \<Rightarrow> decode_failure | b # _ \<Rightarrow> point_coords F b)"

definition public_inputs_from_shielded_tx ::
  "('f, 'p) field_ops \<Rightarrow> shielded_transaction \<Rightarrow> 'f public_inputs res" where
  "public_inputs_from_shielded_tx F tx =
     (case sh_nullifiers tx of
        [] \<Rightarrow> decode_failure
      | n # _ \<Rightarrow>
        (case first_point F (sh_spent_commitments tx) of
           Inl e \<Rightarrow> Inl e
         | Inr (cx, cy) \<Rightarrow>
           (case bytes_to_root F (sh_merkle_root tx) of
              None \<Rightarrow> decode_failure
            | Some mr \<Rightarrow>
              (case first_point F (sh_commitments tx) of
                 Inl e \<Rightarrow> Inl e
               | Inr (ox, oy) \<Rightarrow>
                   Inr \<lparr>pi_nullifier = bytes32_to_fp F n, pi_commit_x = cx, pi_commit_y = cy,
                        pi_merkle_root = mr, pi_output_commit_x = ox, pi_output_commit_y = oy,
                        pi_fee = fp_from_u64 F (sh_fee tx)\<rparr>))))"

definition commitment_leaf :: "('f, 'p) field_ops \<Rightarrow> bytes \<Rightarrow> 'f res" where
  "commitment_leaf F b =
     (case point_coords F b of Inl e \<Rightarrow> Inl e | Inr (x, y) \<Rightarrow> Inr (poseidon2 F x y))"

definition instances_for :: "'f public_inputs \<Rightarrow> 'f list list list" where
  "instances_for p =
     [[[pi_nullifier p], [pi_commit_x p], [pi_commit_y p], [pi_merkle_root p],
       [pi_output_commit_x p], [pi_output_commit_y p], [pi_fee p]]]"

definition shielded_verify :: "('f, 'p) field_ops \<Rightarrow> bytes \<Rightarrow> 'f public_inputs \<Rightarrow> unit res" where
  "shielded_verify F proof p =
     (if plonk_verify F proof (instances_for p) then Inr () else Inl (Shielded ''proof verification failed''))"

section \<open>The checks\<close>

definition CIRCUIT_MAX_INPUTS :: nat where "CIRCUIT_MAX_INPUTS = 1"

text \<open>\<^verbatim>\<open>ShieldedValidationDeps\<close>: the two trait objects are the functions they answer with.\<close>

record shielded_deps =
  deps_spent :: "bytes \<Rightarrow> bool"
  deps_roots :: "root_snapshot list"
  deps_recency_window :: nat

definition shielded_structure_err :: "'a res" where
  "shielded_structure_err = Inl (Validation [InvalidCommitment])"

definition shielded_neutral_risk :: transaction_risk_factor where
  "shielded_neutral_risk =
     \<lparr>affected_parties = 2, risk_amount = 0, is_contract = False, is_multi_party = False\<rparr>"

definition out_of_bounds :: "'a list \<Rightarrow> bool" where
  "out_of_bounds xs \<longleftrightarrow> xs = [] \<or> CIRCUIT_MAX_INPUTS < length xs"

fun pairwise_distinct :: "'a list \<Rightarrow> bool" where
  "pairwise_distinct [] \<longleftrightarrow> True"
| "pairwise_distinct (x # xs) \<longleftrightarrow> list_all (\<lambda>y. x \<noteq> y) xs \<and> pairwise_distinct xs"

definition check_structural :: "shielded_transaction \<Rightarrow> unit res" where
  "check_structural tx =
     (if out_of_bounds (sh_nullifiers tx) then shielded_structure_err
      else if out_of_bounds (sh_spent_commitments tx) then shielded_structure_err
      else if out_of_bounds (sh_commitments tx) then shielded_structure_err
      else if \<not> pairwise_distinct (sh_nullifiers tx) then shielded_structure_err
      else Inr ())"

text \<open>\<open>max_risk\<close> is the environment's threshold, of which the spec reads nothing else.\<close>

definition validate_shielded ::
  "('f, 'p) field_ops \<Rightarrow> f64 \<Rightarrow> shielded_transaction \<Rightarrow> shielded_deps \<Rightarrow> validation_result res" where
  "validate_shielded F max_risk tx deps =
     (case check_structural tx of
        Inl e \<Rightarrow> Inl e
      | Inr _ \<Rightarrow>
        (case public_inputs_from_shielded_tx F tx of
           Inl e \<Rightarrow> Inl e
         | Inr p \<Rightarrow>
           if list_ex (deps_spent deps) (sh_nullifiers tx) then Inl (Validation [StaleNullifier])
           else if \<not> is_root_fresh (to_repr F (pi_merkle_root p)) (deps_roots deps) (deps_recency_window deps)
           then Inl (Validation [StaleMerkleRoot])
           else if f64_less max_risk (Fin (risk_score shielded_neutral_risk))
           then Inl (Validation [RiskExceedsThreshold])
           else (case shielded_verify F (sh_proof tx) p of
                   Inl _ \<Rightarrow> Inl (Validation [InvalidShieldedProof])
                 | Inr _ \<Rightarrow> Inr (validation_valid [] shielded_neutral_risk))))"

section \<open>Facts\<close>

lemma out_of_bounds_iff: "out_of_bounds xs \<longleftrightarrow> (\<nexists>x. xs = [x])"
  by (cases xs) (auto simp: out_of_bounds_def CIRCUIT_MAX_INPUTS_def)

lemma check_structural_ok:
  "check_structural tx = Inr u \<longleftrightarrow>
     (\<exists>n. sh_nullifiers tx = [n]) \<and> (\<exists>s. sh_spent_commitments tx = [s]) \<and> (\<exists>c. sh_commitments tx = [c])"
  by (cases "\<exists>n. sh_nullifiers tx = [n]")
    (auto simp: check_structural_def shielded_structure_err_def out_of_bounds_iff)

lemma check_structural_err: "check_structural tx = Inl e \<Longrightarrow> e = Validation [InvalidCommitment]"
  by (auto simp: check_structural_def shielded_structure_err_def split: if_splits)

text \<open>The neutral score is the single-precision number nearest to 0.3.\<close>

lemma nlog2_step: "nlog2 n = (if n < 2 then 0 else Suc (nlog2 (n div 2)))"
  by (rule nlog2.simps)

lemma quotient_three_tenths: "quotient_of (3 / 10) = (3, 10)"
  by code_simp

lemma quotient_score: "quotient_of (5033165 / 16777216) = (5033165, 16777216)"
  by code_simp

lemma quotient_half_score: "quotient_of (5033165 / 33554432) = (5033165, 33554432)"
  by code_simp

lemma score_exponents:
  "exponent_of (3 / 10) = - 2" "exponent_of (5033165 / 16777216) = - 2" "exponent_of (5033165 / 33554432) = - 3"
  unfolding exponent_of_def quotient_three_tenths quotient_score quotient_half_score
  by (simp_all add: nlog2_step power_int_def power2_eq_square power3_eq_cube)

lemma neutral_score: "risk_score shielded_neutral_risk = 5033165 / 16777216"
proof -
  have "\<lfloor>50331648 / 5 :: rat\<rfloor> = 10066329" by (simp add: floor_eq_iff)
  then have r: "f32_round (3 / 10) = 5033165 / 16777216"
    by (simp add: f32_round_def score_exponents power_int_def round_half_even_def Let_def power_divide)
  have s: "f32_round (5033165 / 16777216) = 5033165 / 16777216"
    by (simp add: f32_round_def score_exponents power_int_def round_half_even_def Let_def power_divide)
  have h: "f32_round (5033165 / 33554432) = 5033165 / 33554432"
    by (simp add: f32_round_def score_exponents power_int_def round_half_even_def Let_def power_divide)
  have z: "f32_round 0 = 0" by (simp add: f32_round_def)
  show ?thesis
    by (simp add: risk_score_def shielded_neutral_risk_def amount_risk_def party_risk_def f32_mult_def f32_add_def
        r s h z)
qed

lemma commitment_leaf_of_inputs:
  assumes "public_inputs_from_shielded_tx F tx = Inr p" and "sh_commitments tx = [c]"
  shows "commitment_leaf F c = Inr (poseidon2 F (pi_output_commit_x p) (pi_output_commit_y p))"
  using assms
  by (auto simp: public_inputs_from_shielded_tx_def first_point_def commitment_leaf_def decode_failure_def
      split: list.splits sum.splits prod.splits option.splits)

lemma inputs_root:
  assumes "public_inputs_from_shielded_tx F tx = Inr p"
  shows "from_repr F (sh_merkle_root tx) = Some (pi_merkle_root p)"
  using assms
  by (auto simp: public_inputs_from_shielded_tx_def bytes_to_root_def decode_failure_def
      split: list.splits sum.splits prod.splits option.splits)

lemma validate_shielded_ok:
  "validate_shielded F max_risk tx deps = Inr v \<longleftrightarrow>
     v = validation_valid [] shielded_neutral_risk \<and>
     (\<exists>n s c p. sh_nullifiers tx = [n] \<and> sh_spent_commitments tx = [s] \<and> sh_commitments tx = [c] \<and>
        public_inputs_from_shielded_tx F tx = Inr p \<and> \<not> deps_spent deps n \<and>
        is_root_fresh (to_repr F (pi_merkle_root p)) (deps_roots deps) (deps_recency_window deps) \<and>
        \<not> f64_less max_risk (Fin (5033165 / 16777216)) \<and>
        plonk_verify F (sh_proof tx) (instances_for p))"
proof (cases "check_structural tx")
  case (Inl e)
  then have "\<not> ((\<exists>n. sh_nullifiers tx = [n]) \<and> (\<exists>s. sh_spent_commitments tx = [s]) \<and> (\<exists>c. sh_commitments tx = [c]))"
    using check_structural_ok [of tx "()"] by auto
  then show ?thesis using Inl by (auto simp: validate_shielded_def)
next
  case (Inr u)
  then obtain n s c where "sh_nullifiers tx = [n]" "sh_spent_commitments tx = [s]" "sh_commitments tx = [c]"
    using check_structural_ok by blast
  then show ?thesis
    using Inr by (auto simp: validate_shielded_def neutral_score shielded_verify_def split: sum.split)
qed

section \<open>Properties\<close>

text \<open>C29: the shielded spec accepts a transfer exactly when it spends one nullifier, consumes one
  commitment and creates one, all three decode to circuit inputs, the nullifier is unspent,
  the referenced root is fresh, the environment's threshold admits the neutral risk and the
  proof verifies on those inputs.  Every rejection names one of the documented reasons, in
  the order of the checks.\<close>

theorem validate_shielded_exact:
  "(case validate_shielded F max_risk tx deps of
      Inr v \<Rightarrow>
        is_valid v \<and> finalizer_public_key v = [] \<and>
        (\<exists>n s c p. sh_nullifiers tx = [n] \<and> sh_spent_commitments tx = [s] \<and> sh_commitments tx = [c] \<and>
           public_inputs_from_shielded_tx F tx = Inr p \<and> \<not> deps_spent deps n \<and>
           is_root_fresh (to_repr F (pi_merkle_root p)) (deps_roots deps) (deps_recency_window deps) \<and>
           \<not> f64_less max_risk (Fin (5033165 / 16777216)) \<and>
           plonk_verify F (sh_proof tx) (instances_for p))
    | Inl e \<Rightarrow>
        (if length (sh_nullifiers tx) = 1 \<and> length (sh_spent_commitments tx) = 1 \<and> length (sh_commitments tx) = 1
         then case public_inputs_from_shielded_tx F tx of
                Inl d \<Rightarrow> e = d \<and> d = Validation [InvalidCommitment]
              | Inr p \<Rightarrow>
                  if deps_spent deps (hd (sh_nullifiers tx)) then e = Validation [StaleNullifier]
                  else if \<not> is_root_fresh (to_repr F (pi_merkle_root p)) (deps_roots deps) (deps_recency_window deps)
                  then e = Validation [StaleMerkleRoot]
                  else if f64_less max_risk (Fin (5033165 / 16777216)) then e = Validation [RiskExceedsThreshold]
                  else e = Validation [InvalidShieldedProof] \<and> \<not> plonk_verify F (sh_proof tx) (instances_for p)
         else e = Validation [InvalidCommitment]))"
proof (cases "validate_shielded F max_risk tx deps")
  case (Inr v)
  then show ?thesis using validate_shielded_ok [of F max_risk tx deps v] by (simp add: validation_valid_def)
next
  case (Inl e)
  have one: "length (sh_nullifiers tx) = 1 \<and> length (sh_spent_commitments tx) = 1 \<and> length (sh_commitments tx) = 1
      \<longleftrightarrow> check_structural tx = Inr ()"
    by (auto simp: check_structural_ok length_Suc_conv)
  show ?thesis
  proof (cases "check_structural tx")
    case (Inl e')
    then show ?thesis
      using one \<open>validate_shielded F max_risk tx deps = Inl e\<close> check_structural_err [OF Inl]
      by (auto simp: validate_shielded_def)
  next
    case ok: (Inr u)
    then obtain n where n: "sh_nullifiers tx = [n]" using check_structural_ok by blast
    have d: "public_inputs_from_shielded_tx F tx = Inl d \<Longrightarrow> d = Validation [InvalidCommitment]" for d
      by (auto simp: public_inputs_from_shielded_tx_def first_point_def point_coords_def decode_failure_def
          split: list.splits sum.splits prod.splits option.splits)
    show ?thesis
      using one ok n Inl d
      by (auto simp: validate_shielded_def neutral_score shielded_verify_def split: sum.splits if_splits)
  qed
qed

end
