(* ===== verification/Committer_Errors.thy ===== *)
theory Committer_Errors
  imports Errors
begin

text \<open>
  The error values of \<^verbatim>\<open>committer/src/committer_error.rs\<close>.  The variants keep their
  structured fields; the free-text causes a \<^verbatim>\<open>format!\<close> builds are left out.
\<close>

datatype committer_error =
    CeEncoding io_error | CeDeserialization io_error
  | CeTokenNotFound string | CeTransactionNotFound string | CeTransactionNotInFinalizing string
  | CeTransactionPayloadMismatch string | CeEnvironmentMismatch string string
  | CeInvalidBlockHash | CeInvalidFinalizerSignature | CeSignaturePayloadMismatch string
  | CeTransactionAlreadyCommitted string string | CeBlockCommit block_commit_error
  | CeUnknownAction string | CeUnauthenticatedSender string | CeUnauthorizedRole string
  | CeCore pneumatic_error | CeInternalSerialization | CeGasDeduction string string u64
  | CeLoserDiscarded | CeSnapshotPersist u64 string | CeTokenConflict string
  | CeShieldedProofInvalid string | CePoolState string | CePoolPersist | CePoolRollback string
  | CeTokenPersist string | CeRouting string

type_synonym 'a cres = "committer_error + 'a"

text \<open>The conversions of the \<^verbatim>\<open>From\<close> instances, applied by \<^verbatim>\<open>?\<close>.\<close>

definition core_err :: "'a res \<Rightarrow> 'a cres" where
  "core_err r = (case r of Inl e \<Rightarrow> Inl (CeCore e) | Inr x \<Rightarrow> Inr x)"

definition io_err :: "io_error + 'a \<Rightarrow> 'a cres" where
  "io_err r = (case r of Inl e \<Rightarrow> Inl (CeEncoding e) | Inr x \<Rightarrow> Inr x)"

definition block_commit_err :: "block_commit_error + 'a \<Rightarrow> 'a cres" where
  "block_commit_err r = (case r of Inl e \<Rightarrow> Inl (CeBlockCommit e) | Inr x \<Rightarrow> Inr x)"

section \<open>Hexadecimal printing\<close>

definition hex_digit :: "nat \<Rightarrow> char" where
  "hex_digit n = ''0123456789abcdef'' ! n"

definition bytes_to_hex :: "bytes \<Rightarrow> string" where
  "bytes_to_hex bs = concat (map (\<lambda>b. [hex_digit (unat b div 16), hex_digit (unat b mod 16)]) bs)"

lemma hex_digit_inj: "i < 16 \<Longrightarrow> j < 16 \<Longrightarrow> hex_digit i = hex_digit j \<Longrightarrow> i = j"
proof -
  have d: "distinct ''0123456789abcdef''" by simp
  assume "i < 16" "j < 16" "hex_digit i = hex_digit j"
  then show "i = j"
    using nth_eq_iff_index_eq [OF d, of i j] by (simp add: hex_digit_def)
qed

lemma bytes_to_hex_inj: "bytes_to_hex a = bytes_to_hex b \<Longrightarrow> a = b"
proof (induction a arbitrary: b)
  case Nil
  then show ?case by (cases b) (simp_all add: bytes_to_hex_def)
next
  case (Cons x xs)
  then obtain y ys where b: "b = y # ys" by (cases b) (simp_all add: bytes_to_hex_def)
  have lt: "unat z div 16 < 16" for z :: "8 word"
    using unsigned_less [where 'a = nat, of z] by simp
  have "unat x div 16 = unat y div 16" "unat x mod 16 = unat y mod 16"
    using Cons.prems b lt by (auto simp: bytes_to_hex_def intro: hex_digit_inj)
  then have "unat x = unat y" by (metis div_mult_mod_eq)
  then have "x = y" by (rule unsigned_word_eqI)
  moreover have "xs = ys"
    using Cons.prems b by (intro Cons.IH) (auto simp: bytes_to_hex_def)
  ultimately show ?case using b by simp
qed

end
