(* ===== verification/Blocks.thy ===== *)
theory Blocks
  imports Transaction_Binding
begin

text \<open>
  Blocks and the per-token chain of \<^verbatim>\<open>src/blocks.rs\<close>: the block hash, the chain with its
  tip operations, the O(1) append and the full re-validation of the chain, and the
  finality status.  A \<^verbatim>\<open>VecDeque\<close> is a list whose last element is the tip.
\<close>

section \<open>Blocks\<close>

datatype finality_status = Optimistic | Confirmed

record block =
  signed_trans :: signed_transaction
  token_metadata :: "(string \<times> string) list"
  previous_hash :: bytes
  current_hash :: bytes
  blk_timestamp :: i64
  blk_finality :: finality_status
  blk_proposer_key :: bytes
  blk_epoch :: u64

definition canonical_map_bytes :: "codec \<Rightarrow> (string \<times> string) list \<Rightarrow> io_error + bytes" where
  "canonical_map_bytes c m = rmp_str_map c (btree_of m)"

text \<open>The accumulating \<^verbatim>\<open>append\<close>s of \<^verbatim>\<open>create_hash\<close>; any encoding failure is an error.\<close>

definition append_part :: "bytes res \<Rightarrow> io_error + bytes \<Rightarrow> bytes res" where
  "append_part acc part =
     (case acc of
        Inl e \<Rightarrow> Inl e
      | Inr input \<Rightarrow> (case part of Inl _ \<Rightarrow> Inl (Encoding ''create_hash'') | Inr b \<Rightarrow> Inr (input @ b)))"

definition hash_input :: "codec \<Rightarrow> block \<Rightarrow> bytes res" where
  "hash_input c b =
     append_part (append_part (append_part (append_part (append_part
       (Inr (previous_hash b))
       (rmp_i64 c (blk_timestamp b)))
       (canonical_signed_trans_bytes c (signed_trans b)))
       (canonical_map_bytes c (token_metadata b)))
       (rmp_bytes c (blk_proposer_key b)))
       (rmp_u64 c (blk_epoch b))"

definition create_hash :: "codec \<Rightarrow> (bytes \<Rightarrow> bytes) \<Rightarrow> block \<Rightarrow> bytes res" where
  "create_hash c hash b = (case hash_input c b of Inl e \<Rightarrow> Inl e | Inr i \<Rightarrow> Inr (hash i))"

section \<open>Chains\<close>

record blockchain =
  chain :: "block list"
  bc_metadata :: "(string \<times> string) list"

datatype append_outcome = LinkageMismatch | InvalidHash | Appended

record chain_state =
  state_is_valid :: bool
  last_hash_in :: bytes

definition chain_state_invalid :: chain_state where
  "chain_state_invalid = \<lparr>state_is_valid = False, last_hash_in = []\<rparr>"

definition chain_state_new :: "bool \<Rightarrow> block \<Rightarrow> chain_state" where
  "chain_state_new valid b = \<lparr>state_is_valid = valid, last_hash_in = current_hash b\<rparr>"

definition chain_state_empty :: chain_state where
  "chain_state_empty = \<lparr>state_is_valid = True, last_hash_in = []\<rparr>"

definition blockchain_new :: blockchain where
  "blockchain_new = \<lparr>chain = [], bc_metadata = []\<rparr>"

definition get_count :: "blockchain \<Rightarrow> nat" where
  "get_count bc = length (chain bc)"

definition add_block :: "block \<Rightarrow> blockchain \<Rightarrow> blockchain" where
  "add_block b bc = bc\<lparr>chain := chain bc @ [b]\<rparr>"

definition last_block :: "blockchain \<Rightarrow> block option" where
  "last_block bc = (if chain bc = [] then None else Some (last (chain bc)))"

definition cached_tip :: "blockchain \<Rightarrow> bytes" where
  "cached_tip bc = (case last_block bc of Some b \<Rightarrow> current_hash b | None \<Rightarrow> [])"

definition links_to :: "bytes \<Rightarrow> block \<Rightarrow> bool" where
  "links_to tip b \<longleftrightarrow> (if tip = [] then previous_hash b = [] else tip = previous_hash b)"

definition append_validated_block ::
    "codec \<Rightarrow> (bytes \<Rightarrow> bytes) \<Rightarrow> block \<Rightarrow> blockchain \<Rightarrow> append_outcome \<times> blockchain" where
  "append_validated_block c hash b bc =
     (let tip = cached_tip bc in
      if \<not> links_to tip b then (LinkageMismatch, bc)
      else case create_hash c hash b of
             Inl _ \<Rightarrow> (InvalidHash, bc)
           | Inr h \<Rightarrow> if h \<noteq> current_hash b then (InvalidHash, bc)
                      else (Appended, add_block b bc))"

definition remove_block :: "blockchain \<Rightarrow> block option \<times> blockchain" where
  "remove_block bc =
     (if chain bc = [] then (None, bc)
      else (Some (last (chain bc)), bc\<lparr>chain := butlast (chain bc)\<rparr>))"

definition remove_oldest :: "blockchain \<Rightarrow> block option \<times> blockchain" where
  "remove_oldest bc =
     (case chain bc of [] \<Rightarrow> (None, bc) | b # bs \<Rightarrow> (Some b, bc\<lparr>chain := bs\<rparr>))"

text \<open>The loop of \<^verbatim>\<open>get_current_chain_state\<close>, from a block that is known to be valid.\<close>

fun check_rest :: "codec \<Rightarrow> (bytes \<Rightarrow> bytes) \<Rightarrow> block \<Rightarrow> block list \<Rightarrow> chain_state" where
  "check_rest c hash prev [] = chain_state_new True prev"
| "check_rest c hash prev (b # bs) =
     (case create_hash c hash b of
        Inl _ \<Rightarrow> chain_state_invalid
      | Inr h \<Rightarrow> if previous_hash b = current_hash prev \<and> h = current_hash b
                 then check_rest c hash b bs else chain_state_invalid)"

definition get_current_chain_state :: "codec \<Rightarrow> (bytes \<Rightarrow> bytes) \<Rightarrow> blockchain \<Rightarrow> chain_state" where
  "get_current_chain_state c hash bc =
     (case chain bc of
        [] \<Rightarrow> chain_state_empty
      | b # bs \<Rightarrow>
          (case create_hash c hash b of
             Inl _ \<Rightarrow> chain_state_invalid
           | Inr h \<Rightarrow> if current_hash b = h then check_rest c hash b bs else chain_state_invalid))"

definition validate_next_block :: "codec \<Rightarrow> (bytes \<Rightarrow> bytes) \<Rightarrow> blockchain \<Rightarrow> block \<Rightarrow> bool" where
  "validate_next_block c hash bc b =
     (let s = get_current_chain_state c hash bc in
      if \<not> state_is_valid s then False
      else links_to (last_hash_in s) b \<and>
           (case create_hash c hash b of Inr h \<Rightarrow> h = current_hash b | Inl _ \<Rightarrow> False))"

definition get_block_at :: "blockchain \<Rightarrow> nat \<Rightarrow> block option" where
  "get_block_at bc i = (if i < length (chain bc) then Some (chain bc ! i) else None)"

fun set_finality :: "bytes \<Rightarrow> finality_status \<Rightarrow> block list \<Rightarrow> block list option" where
  "set_finality h st [] = None"
| "set_finality h st (b # bs) =
     (if current_hash b = h then Some (b\<lparr>blk_finality := st\<rparr> # bs)
      else case set_finality h st bs of None \<Rightarrow> None | Some bs' \<Rightarrow> Some (b # bs'))"

definition set_finality_status ::
    "bytes \<Rightarrow> finality_status \<Rightarrow> blockchain \<Rightarrow> bool \<times> blockchain" where
  "set_finality_status h st bc =
     (case set_finality h st (chain bc) of
        None \<Rightarrow> (False, bc)
      | Some bs \<Rightarrow> (True, bc\<lparr>chain := bs\<rparr>))"

section \<open>Valid chains\<close>

definition self_hashed :: "codec \<Rightarrow> (bytes \<Rightarrow> bytes) \<Rightarrow> block \<Rightarrow> bool" where
  "self_hashed c hash b \<longleftrightarrow> create_hash c hash b = Inr (current_hash b)"

definition linked :: "block list \<Rightarrow> bool" where
  "linked bs \<longleftrightarrow> successively (\<lambda>a b. previous_hash b = current_hash a) bs"

definition chain_valid :: "codec \<Rightarrow> (bytes \<Rightarrow> bytes) \<Rightarrow> blockchain \<Rightarrow> bool" where
  "chain_valid c hash bc \<longleftrightarrow> (\<forall>b\<in>set (chain bc). self_hashed c hash b) \<and> linked (chain bc)"

lemma check_rest_valid:
  "check_rest c hash prev bs =
     (if (\<forall>b\<in>set bs. self_hashed c hash b) \<and> linked (prev # bs)
      then chain_state_new True (last (prev # bs)) else chain_state_invalid)"
  by (induction c hash prev bs rule: check_rest.induct)
    (auto simp: self_hashed_def linked_def split: sum.splits)

lemma get_current_chain_state_valid:
  "get_current_chain_state c hash bc =
     (if chain_valid c hash bc then \<lparr>state_is_valid = True, last_hash_in = cached_tip bc\<rparr>
      else chain_state_invalid)"
proof (cases "chain bc")
  case Nil
  then show ?thesis
    by (simp add: get_current_chain_state_def chain_valid_def linked_def chain_state_empty_def
        cached_tip_def last_block_def)
next
  case (Cons b bs)
  then show ?thesis
    by (auto simp: get_current_chain_state_def chain_valid_def check_rest_valid self_hashed_def
        chain_state_new_def cached_tip_def last_block_def split: sum.splits)
qed

lemma validate_next_block_iff:
  "validate_next_block c hash bc b \<longleftrightarrow>
     chain_valid c hash bc \<and> links_to (cached_tip bc) b \<and> self_hashed c hash b"
  by (auto simp: validate_next_block_def get_current_chain_state_valid chain_state_invalid_def
      self_hashed_def Let_def split: sum.splits)

lemma append_validated_block_iff:
  "fst (append_validated_block c hash b bc) = Appended \<longleftrightarrow>
     links_to (cached_tip bc) b \<and> self_hashed c hash b"
  by (auto simp: append_validated_block_def self_hashed_def Let_def split: sum.splits if_splits)

lemma append_validated_block_result:
  "snd (append_validated_block c hash b bc) =
     (if fst (append_validated_block c hash b bc) = Appended then add_block b bc else bc)"
  by (simp add: append_validated_block_def Let_def split: sum.splits)

lemma linked_snoc: "linked (bs @ [b]) \<longleftrightarrow> linked bs \<and> (bs \<noteq> [] \<longrightarrow> previous_hash b = current_hash (last bs))"
  by (auto simp: linked_def successively_append_iff)

lemma chain_valid_add:
  assumes "chain_valid c hash bc" and "links_to (cached_tip bc) b" and "self_hashed c hash b"
    and "\<forall>x. hash x \<noteq> []"
  shows "chain_valid c hash (add_block b bc)"
proof -
  have "previous_hash b = current_hash (last (chain bc))" if ne: "chain bc \<noteq> []"
  proof -
    have "self_hashed c hash (last (chain bc))" using assms(1) ne by (simp add: chain_valid_def)
    then have "current_hash (last (chain bc)) \<noteq> []"
      using assms(4) by (auto simp: self_hashed_def create_hash_def split: sum.splits)
    then show ?thesis using assms(2) ne by (simp add: links_to_def cached_tip_def last_block_def)
  qed
  then show ?thesis using assms(1,3) by (auto simp: chain_valid_def add_block_def linked_snoc)
qed

lemma chain_valid_remove:
  "chain_valid c hash bc \<Longrightarrow> chain_valid c hash (snd (remove_block bc))"
  by (cases "chain bc" rule: rev_cases) (auto simp: remove_block_def chain_valid_def linked_snoc)

lemma chain_valid_remove_oldest:
  "chain_valid c hash bc \<Longrightarrow> chain_valid c hash (snd (remove_oldest bc))"
  by (auto simp: remove_oldest_def chain_valid_def linked_def successively_Cons split: list.splits)

lemma remove_add_block:
  "remove_block bc = (Some b, bc') \<Longrightarrow> add_block b bc' = bc"
  by (auto simp: remove_block_def add_block_def split: if_splits)

lemma hash_input_prefix: "hash_input c b = Inr i \<Longrightarrow> \<exists>rest. i = previous_hash b @ rest"
  by (auto simp: hash_input_def append_part_def split: sum.splits)

lemma hash_input_finality: "hash_input c (b\<lparr>blk_finality := st\<rparr>) = hash_input c b"
  by (simp add: hash_input_def)

lemma self_hashed_input: "self_hashed c hash b \<longleftrightarrow> (\<exists>i. hash_input c b = Inr i \<and> current_hash b = hash i)"
  by (auto simp: self_hashed_def create_hash_def split: sum.splits)

lemma same_hash_inputs:
  assumes "length bs = length ds" and "\<forall>b\<in>set bs \<union> set ds. self_hashed c hash b"
    and "linked bs" and "linked ds" and "bs \<noteq> [] \<longrightarrow> current_hash (last bs) = current_hash (last ds)"
    and "inj_on hash {i. \<exists>b\<in>set bs \<union> set ds. hash_input c b = Inr i}" and "\<forall>x. length (hash x) = 32"
  shows "map (hash_input c) bs = map (hash_input c) ds"
  using assms(1-6)
proof (induction bs arbitrary: ds rule: rev_induct)
  case (snoc b bs)
  obtain d es where ds: "ds = es @ [d]" using snoc.prems(1) by (cases ds rule: rev_cases) auto
  obtain i j where ij: "hash_input c b = Inr i" "hash_input c d = Inr j"
    "hash i = current_hash b" "hash j = current_hash d"
    using snoc.prems(2) ds by (auto simp: self_hashed_input)
  have "hash i = hash j" using snoc.prems(5) ds ij by simp
  moreover have "i \<in> {i. \<exists>b\<in>set (bs @ [b]) \<union> set ds. hash_input c b = Inr i}"
    and "j \<in> {i. \<exists>b\<in>set (bs @ [b]) \<union> set ds. hash_input c b = Inr i}"
    using ij ds by auto
  ultimately have eq: "i = j" by (rule inj_onD [OF snoc.prems(6)])
  have len: "length (current_hash x) = 32" if "x \<in> set bs \<union> set es" for x
  proof -
    have "self_hashed c hash x" using snoc.prems(2) that ds by auto
    then show ?thesis using assms(7) by (auto simp: self_hashed_input)
  qed
  have tips: "bs \<noteq> [] \<longrightarrow> current_hash (last bs) = current_hash (last es)"
  proof
    assume ne: "bs \<noteq> []"
    then have ne': "es \<noteq> []" using snoc.prems(1) ds by auto
    then have prev: "previous_hash b = current_hash (last bs)" "previous_hash d = current_hash (last es)"
      using snoc.prems(3,4) ds ne by (simp_all add: linked_snoc)
    obtain r s where "i = previous_hash b @ r" "j = previous_hash d @ s"
      using ij hash_input_prefix by blast
    then show "current_hash (last bs) = current_hash (last es)"
      using eq prev len [of "last bs"] len [of "last es"] ne ne' by simp
  qed
  have "map (hash_input c) bs = map (hash_input c) es"
  proof (rule snoc.IH)
    show "inj_on hash {i. \<exists>b\<in>set bs \<union> set es. hash_input c b = Inr i}"
      using snoc.prems(6) by (rule inj_on_subset) (auto simp: ds)
  qed (use snoc.prems(1-4) ds tips in \<open>auto simp: linked_snoc\<close>)
  then show ?case using ds ij eq by simp
qed simp

section \<open>Properties of chains\<close>

text \<open>C26: on a valid chain the append that reads only the cached tip accepts a block exactly
  when the full re-validation of the chain accepts it; an accepted block becomes the tip of
  a chain that is valid again, a refused one changes nothing.\<close>

theorem append_agrees_with_full_validation:
  assumes "chain_valid c hash bc" and "\<forall>x. hash x \<noteq> []"
    and "append_validated_block c hash b bc = (out, bc')"
  shows "(out = Appended \<longleftrightarrow> validate_next_block c hash bc b) \<and>
         chain_valid c hash bc' \<and>
         (if out = Appended then chain bc' = chain bc @ [b] \<and> cached_tip bc' = current_hash b else bc' = bc)"
proof -
  have "out = Appended \<longleftrightarrow> links_to (cached_tip bc) b \<and> self_hashed c hash b"
    using append_validated_block_iff [of c hash b bc] assms(3) by simp
  moreover have "bc' = (if out = Appended then add_block b bc else bc)"
    using append_validated_block_result [of c hash b bc] assms(3) by simp
  ultimately show ?thesis
    using assms(1,2) chain_valid_add
    by (auto simp: validate_next_block_iff add_block_def cached_tip_def last_block_def)
qed

text \<open>The tip hash binds the history.  Two valid chains of one length with the same tip
  hash were built from the same hash inputs, block by block, unless two of those inputs
  collide.\<close>

theorem tip_hash_binds_history:
  assumes "chain_valid c hash bc" and "chain_valid c hash bd"
    and "length (chain bc) = length (chain bd)" and "cached_tip bc = cached_tip bd"
    and "inj_on hash {i. \<exists>b\<in>set (chain bc) \<union> set (chain bd). hash_input c b = Inr i}"
    and "\<forall>x. length (hash x) = 32"
  shows "map (hash_input c) (chain bc) = map (hash_input c) (chain bd)"
proof -
  have "chain bc \<noteq> [] \<longrightarrow> current_hash (last (chain bc)) = current_hash (last (chain bd))"
    using assms(3,4) by (auto simp: cached_tip_def last_block_def split: if_splits)
  then show ?thesis
    using assms(1,2,3,5,6) by (intro same_hash_inputs) (auto simp: chain_valid_def)
qed

lemma set_finality_Some:
  "set_finality h st bs = Some bs' \<Longrightarrow>
   h \<in> set (map current_hash bs) \<and> map current_hash bs' = map current_hash bs \<and>
   map previous_hash bs' = map previous_hash bs \<and>
   map (hash_input c) bs' = map (hash_input c) bs \<and>
   (\<exists>b\<in>set bs'. current_hash b = h \<and> blk_finality b = st)"
  by (induction h st bs arbitrary: bs' rule: set_finality.induct)
    (auto simp: hash_input_finality split: if_splits option.splits)

lemma set_finality_None: "set_finality h st bs = None \<longleftrightarrow> h \<notin> set (map current_hash bs)"
  by (induction h st bs rule: set_finality.induct) (auto split: option.splits)

lemma linked_cong:
  "map current_hash bs = map current_hash ds \<Longrightarrow> map previous_hash bs = map previous_hash ds \<Longrightarrow>
   linked bs = linked ds"
proof (induction bs arbitrary: ds rule: rev_induct)
  case (snoc b bs)
  then obtain d es where ds: "ds = es @ [d]" by (cases ds rule: rev_cases) auto
  then have "bs \<noteq> [] \<longrightarrow> current_hash (last bs) = current_hash (last es)"
    using snoc.prems(1) by (cases bs rule: rev_cases; cases es rule: rev_cases) auto
  moreover have "bs = [] \<longleftrightarrow> es = []" using snoc.prems(1) ds by auto
  ultimately show ?case using snoc ds by (simp add: linked_snoc)
qed simp

lemma self_hashed_all_cong:
  "map (hash_input c) bs = map (hash_input c) ds \<Longrightarrow> map current_hash bs = map current_hash ds \<Longrightarrow>
   (\<forall>b\<in>set bs. self_hashed c hash b) = (\<forall>b\<in>set ds. self_hashed c hash b)"
  by (induction bs ds rule: list_induct2') (auto simp: self_hashed_def create_hash_def)

text \<open>Confirming a block succeeds exactly when its hash is on the chain; it changes no
  hash, keeps the chain valid and its tip, and leaves a block of that hash in the new
  finality status.\<close>

theorem set_finality_status_sound:
  assumes "set_finality_status h st bc = (ok, bc')"
  shows "(ok \<longleftrightarrow> h \<in> set (map current_hash (chain bc))) \<and>
         cached_tip bc' = cached_tip bc \<and> (chain_valid c hash bc' \<longleftrightarrow> chain_valid c hash bc) \<and>
         (ok \<longrightarrow> (\<exists>b\<in>set (chain bc'). current_hash b = h \<and> blk_finality b = st))"
proof (cases "set_finality h st (chain bc)")
  case None
  then show ?thesis using assms set_finality_None [of h st "chain bc"] by (simp add: set_finality_status_def)
next
  case (Some bs)
  have bc': "ok" "chain bc' = bs" using assms Some by (auto simp: set_finality_status_def)
  note eqs = set_finality_Some [OF Some, of c]
  have tip: "cached_tip bc' = cached_tip bc"
    using eqs bc'(2) by (cases bs rule: rev_cases; cases "chain bc" rule: rev_cases)
      (auto simp: cached_tip_def last_block_def)
  have "(\<forall>b\<in>set bs. self_hashed c hash b) \<longleftrightarrow> (\<forall>b\<in>set (chain bc). self_hashed c hash b)"
    using eqs by (intro self_hashed_all_cong) auto
  moreover have "linked bs \<longleftrightarrow> linked (chain bc)" using eqs by (intro linked_cong) auto
  ultimately show ?thesis using eqs bc' tip by (simp add: chain_valid_def)
qed

section \<open>Concrete instances\<close>

definition demo_input :: "bytes \<Rightarrow> bytes" where
  "demo_input prev = prev @ to_be_bytes 0 @ [3] @ [4] @ to_be_bytes 0"

definition demo_block :: "bytes \<Rightarrow> block" where
  "demo_block prev =
     \<lparr>signed_trans = demo_signed, token_metadata = [], previous_hash = prev,
      current_hash = length_hash (demo_input prev), blk_timestamp = 0, blk_finality = Optimistic,
      blk_proposer_key = [4], blk_epoch = 0\<rparr>"

lemma demo_hash_input: "hash_input demo_codec (demo_block prev) = Inr (demo_input prev)"
  by (simp add: hash_input_def append_part_def demo_block_def demo_codec_def demo_input_def
      canonical_signed_trans_bytes_def canonical_map_bytes_def demo_signed_def)

lemma demo_self_hashed: "self_hashed demo_codec length_hash (demo_block prev)"
  by (simp add: self_hashed_input demo_hash_input) (simp add: demo_block_def)

lemma length_hash_facts: "\<forall>x. length_hash x \<noteq> []" "\<forall>x. length (length_hash x) = 32"
  by (simp_all add: length_hash_def)

definition demo_chain :: blockchain where
  "demo_chain = add_block (demo_block []) blockchain_new"

lemma demo_chain_valid: "chain_valid demo_codec length_hash demo_chain"
  by (simp add: demo_chain_def chain_valid_def add_block_def blockchain_new_def demo_self_hashed linked_def)

lemma demo_tip: "cached_tip demo_chain = current_hash (demo_block [])"
  by (simp add: demo_chain_def cached_tip_def last_block_def add_block_def)

theorem append_agrees_with_full_validation_witness:
  "fst (append_validated_block demo_codec length_hash (demo_block (cached_tip demo_chain)) demo_chain) = Appended \<and>
   validate_next_block demo_codec length_hash demo_chain (demo_block (cached_tip demo_chain))"
proof -
  let ?b = "demo_block (cached_tip demo_chain)"
  have "links_to (cached_tip demo_chain) ?b" by (simp add: links_to_def demo_block_def)
  then have "fst (append_validated_block demo_codec length_hash ?b demo_chain) = Appended"
    by (simp add: append_validated_block_iff demo_self_hashed)
  then show ?thesis
    using append_agrees_with_full_validation [OF demo_chain_valid length_hash_facts(1) surjective_pairing]
    by blast
qed

definition confirmed_chain :: blockchain where
  "confirmed_chain = snd (set_finality_status (cached_tip demo_chain) Confirmed demo_chain)"

theorem set_finality_status_sound_witness:
  "fst (set_finality_status (cached_tip demo_chain) Confirmed demo_chain) \<and>
   cached_tip confirmed_chain = cached_tip demo_chain \<and>
   chain_valid demo_codec length_hash confirmed_chain"
  unfolding confirmed_chain_def
  using set_finality_status_sound [OF surjective_pairing, of "cached_tip demo_chain" Confirmed demo_chain
      demo_codec length_hash] demo_chain_valid
  by (simp add: demo_tip) (simp add: demo_chain_def add_block_def)

lemma confirmed_chain_blocks: "chain confirmed_chain = [(demo_block [])\<lparr>blk_finality := Confirmed\<rparr>]"
  by (simp add: confirmed_chain_def set_finality_status_def demo_tip)
    (simp add: demo_chain_def add_block_def blockchain_new_def)

theorem tip_hash_binds_history_witness:
  "map (hash_input demo_codec) (chain demo_chain) = map (hash_input demo_codec) (chain confirmed_chain)"
proof (rule tip_hash_binds_history [OF demo_chain_valid _ _ _ _ length_hash_facts(2)])
  show "chain_valid demo_codec length_hash confirmed_chain"
    using demo_self_hashed [of "[]"]
    by (simp add: chain_valid_def confirmed_chain_blocks linked_def self_hashed_input hash_input_finality)
  show "inj_on length_hash {i. \<exists>b\<in>set (chain demo_chain) \<union> set (chain confirmed_chain). hash_input demo_codec b = Inr i}"
    by (simp add: confirmed_chain_blocks hash_input_finality demo_hash_input)
      (simp add: demo_chain_def add_block_def blockchain_new_def demo_hash_input inj_on_def)
  show "cached_tip demo_chain = cached_tip confirmed_chain"
    unfolding demo_tip by (simp add: cached_tip_def last_block_def confirmed_chain_blocks)
  show "length (chain demo_chain) = length (chain confirmed_chain)"
    by (simp add: confirmed_chain_blocks demo_chain_def add_block_def blockchain_new_def)
qed

end
