(* ===== verification/Shielded_Pool.thy ===== *)
theory Shielded_Pool
  imports Shielded_Validation Committer_Errors Blocks Stake_Sets
begin

text \<open>
  The committer's global shielded pool, \<^verbatim>\<open>committer/src/shielded_pool.rs\<close>, with the persisted
  state of \<^verbatim>\<open>src/data.rs\<close>: applying a block's delta, reverting one, rebuilding from the delta
  history, saving and loading.  The mutex is held over each whole operation, so an
  operation is one step on the pool.
\<close>

section \<open>Persisted state\<close>

record applied_pool_delta =
  ad_block_hash :: bytes
  ad_leaves :: "bytes list"
  ad_nullifiers :: "bytes list"
  ad_post_root :: bytes

record shielded_pool_state =
  st_root :: bytes
  st_leaf_count :: u64
  st_leaves :: "bytes list"
  st_nullifiers :: "bytes list"
  st_applied :: "applied_pool_delta list"

definition pool_canonical_bytes ::
    "(shielded_pool_state \<Rightarrow> io_error + bytes) \<Rightarrow> shielded_pool_state \<Rightarrow> data_error + bytes" where
  "pool_canonical_bytes rmp s =
     (case rmp s of Inl e \<Rightarrow> Inl (SerializationError e) | Inr b \<Rightarrow> Inr b)"

definition pool_fingerprint ::
    "(shielded_pool_state \<Rightarrow> io_error + bytes) \<Rightarrow> (bytes \<Rightarrow> bytes) \<Rightarrow> shielded_pool_state \<Rightarrow> bytes" where
  "pool_fingerprint rmp sha s =
     array32_or_zero (sha (case pool_canonical_bytes rmp s of Inl _ \<Rightarrow> [] | Inr b \<Rightarrow> b))"

record pool_envelope =
  env_payload :: shielded_pool_state
  env_hash :: bytes

definition envelope_new ::
    "(shielded_pool_state \<Rightarrow> io_error + bytes) \<Rightarrow> (bytes \<Rightarrow> bytes) \<Rightarrow> shielded_pool_state \<Rightarrow> pool_envelope" where
  "envelope_new rmp sha s = \<lparr>env_payload = s, env_hash = pool_fingerprint rmp sha s\<rparr>"

definition envelope_verify ::
    "(shielded_pool_state \<Rightarrow> io_error + bytes) \<Rightarrow> (bytes \<Rightarrow> bytes) \<Rightarrow> pool_envelope \<Rightarrow> data_error + unit" where
  "envelope_verify rmp sha e =
     (if env_hash e \<noteq> pool_fingerprint rmp sha (env_payload e)
      then Inl (SnapshotCorrupt ''shielded pool state: stored hash != payload.fingerprint()'') else Inr ())"

section \<open>The pool\<close>

datatype pool_apply_outcome = Applied | AlreadyApplied | Plain

record 'f pool_state =
  ps_leaves :: "'f list"
  ps_tree :: "'f merkle_tree"
  ps_roots :: merkle_root_state
  ps_applied :: "applied_pool_delta list"
  ps_applied_index :: "(bytes \<times> nat) list"

record 'f shielded_pool =
  sp_nullifiers :: nullifier_registry
  sp_recency_window :: nat
  sp_view_roots :: merkle_root_state
  sp_guard :: "'f pool_state"

definition empty_pool_state :: "('f, 'p) field_ops \<Rightarrow> nat \<Rightarrow> 'f pool_state" where
  "empty_pool_state F k =
     \<lparr>ps_leaves = [], ps_tree = tree_new DEFAULT_DEPTH, ps_roots = roots_new (root_to_bytes F (fp_zero F)) k,
      ps_applied = [], ps_applied_index = []\<rparr>"

definition shielded_pool_new :: "('f, 'p) field_ops \<Rightarrow> nat \<Rightarrow> 'f shielded_pool" where
  "shielded_pool_new F k =
     \<lparr>sp_nullifiers = nullifiers_new, sp_recency_window = k,
      sp_view_roots = roots_new (root_to_bytes F (fp_zero F)) k, sp_guard = empty_pool_state F k\<rparr>"

section \<open>Rebuilding from the delta history\<close>

definition append_to_tree :: "('f, 'p) field_ops \<Rightarrow> 'f \<Rightarrow> 'f merkle_tree \<Rightarrow> 'f merkle_tree" where
  "append_to_tree F leaf t = snd (append_leaf (poseidon2 F) (fp_zero F) leaf t)"

fun append_encoded ::
    "('f, 'p) field_ops \<Rightarrow> bytes list \<Rightarrow> 'f merkle_tree \<Rightarrow> 'f list \<Rightarrow> ('f merkle_tree \<times> 'f list) cres" where
  "append_encoded F [] tree leaves = Inr (tree, leaves)"
| "append_encoded F (b # bs) tree leaves =
     (case bytes_to_root F b of
        None \<Rightarrow> Inl (CePoolState ''invalid_root'')
      | Some f \<Rightarrow> append_encoded F bs (append_to_tree F f tree) (leaves @ [f]))"

definition rebuild_delta ::
    "('f, 'p) field_ops \<Rightarrow> bool \<Rightarrow> applied_pool_delta \<Rightarrow> 'f pool_state \<Rightarrow> 'f pool_state cres" where
  "rebuild_delta F verify_recorded delta st =
     (case append_encoded F (ad_leaves delta) (ps_tree st) (ps_leaves st) of
        Inl e \<Rightarrow> Inl e
      | Inr (tree, leaves) \<Rightarrow>
          let post_root = root_to_bytes F (tree_root (fp_zero F) tree) in
          if verify_recorded \<and> post_root \<noteq> ad_post_root delta then Inl (CePoolState ''integrity'')
          else Inr \<lparr>ps_leaves = leaves, ps_tree = tree, ps_roots = snd (roots_push post_root (ps_roots st)),
                    ps_applied = ps_applied st @ [delta\<lparr>ad_post_root := post_root\<rparr>],
                    ps_applied_index =
                      AList.update (ad_block_hash delta) (length (ps_applied st)) (ps_applied_index st)\<rparr>)"

fun rebuild_from ::
    "('f, 'p) field_ops \<Rightarrow> bool \<Rightarrow> applied_pool_delta list \<Rightarrow> 'f pool_state \<Rightarrow> 'f pool_state cres" where
  "rebuild_from F verify_recorded [] st = Inr st"
| "rebuild_from F verify_recorded (d # ds) st =
     (case rebuild_delta F verify_recorded d st of
        Inl e \<Rightarrow> Inl e
      | Inr st' \<Rightarrow> rebuild_from F verify_recorded ds st')"

definition rebuild_state ::
    "('f, 'p) field_ops \<Rightarrow> applied_pool_delta list \<Rightarrow> nat \<Rightarrow> bool \<Rightarrow> 'f pool_state cres" where
  "rebuild_state F deltas k verify_recorded = rebuild_from F verify_recorded deltas (empty_pool_state F k)"

section \<open>Applying and reverting\<close>

text \<open>
  Step 3: the leaves appended so far stay in the guard when a commitment fails to decode.
\<close>

fun append_commitments ::
    "('f, 'p) field_ops \<Rightarrow> string \<Rightarrow> bytes list \<Rightarrow> 'f pool_state \<Rightarrow> bytes list \<Rightarrow> bytes list cres \<times> 'f pool_state" where
  "append_commitments F sid [] st post_leaves = (Inr post_leaves, st)"
| "append_commitments F sid (c # cs) st post_leaves =
     (case commitment_leaf F c of
        Inl _ \<Rightarrow> (Inl (CeShieldedProofInvalid sid), st)
      | Inr leaf \<Rightarrow>
          append_commitments F sid cs
            (st\<lparr>ps_tree := append_to_tree F leaf (ps_tree st), ps_leaves := ps_leaves st @ [leaf]\<rparr>)
            (post_leaves @ [root_to_bytes F leaf]))"

text \<open>Step 4.\<close>

definition record_delta ::
    "('f, 'p) field_ops \<Rightarrow> bytes \<Rightarrow> bytes list \<Rightarrow> bytes list \<Rightarrow> 'f pool_state \<Rightarrow> 'f pool_state" where
  "record_delta F block_hash post_leaves nullifiers st =
     (let post_root = root_to_bytes F (tree_root (fp_zero F) (ps_tree st))
      in st\<lparr>ps_roots := snd (roots_push post_root (ps_roots st)),
            ps_applied_index := AList.update block_hash (length (ps_applied st)) (ps_applied_index st),
            ps_applied := ps_applied st @
              [\<lparr>ad_block_hash = block_hash, ad_leaves = post_leaves, ad_nullifiers = nullifiers,
                ad_post_root = post_root\<rparr>]\<rparr>)"

definition pool_block_hash :: "codec \<Rightarrow> (bytes \<Rightarrow> bytes) \<Rightarrow> block \<Rightarrow> bytes" where
  "pool_block_hash c hash b =
     (if current_hash b = [] then (case create_hash c hash b of Inl _ \<Rightarrow> [] | Inr h \<Rightarrow> h)
      else current_hash b)"

definition pool_deps :: "'f shielded_pool \<Rightarrow> shielded_deps" where
  "pool_deps p =
     \<lparr>deps_spent = nullifier_contains (sp_nullifiers p), deps_roots = roots (ps_roots (sp_guard p)),
      deps_recency_window = sp_recency_window p\<rparr>"

definition apply_update ::
    "('f, 'p) field_ops \<Rightarrow> codec \<Rightarrow> (bytes \<Rightarrow> bytes) \<Rightarrow> f64 \<Rightarrow> block \<Rightarrow> 'f shielded_pool \<Rightarrow>
     pool_apply_outcome cres \<times> 'f shielded_pool" where
  "apply_update F c hash max_risk b p =
     (case sx_shielded (signed_trans b) of
        None \<Rightarrow> (Inr Plain, p)
      | Some stx \<Rightarrow>
          let block_hash = pool_block_hash c hash b; st = sp_guard p in
          if map_of (ps_applied_index st) block_hash \<noteq> None then (Inr AlreadyApplied, p)
          else case validate_shielded F max_risk stx (pool_deps p) of
                 Inl _ \<Rightarrow> (Inl (CeShieldedProofInvalid (sh_id stx)), p)
               | Inr _ \<Rightarrow>
                 (case mark_many_atomic (sh_nullifiers stx) (sp_nullifiers p) of
                    (Inl _, ns) \<Rightarrow> (Inl (CeShieldedProofInvalid (sh_id stx)), p\<lparr>sp_nullifiers := ns\<rparr>)
                  | (Inr _, ns) \<Rightarrow>
                    (case append_commitments F (sh_id stx) (sh_commitments stx) st [] of
                       (Inl e, st') \<Rightarrow> (Inl e, p\<lparr>sp_nullifiers := ns, sp_guard := st'\<rparr>)
                     | (Inr post_leaves, st') \<Rightarrow>
                         (Inr Applied,
                          p\<lparr>sp_nullifiers := ns,
                            sp_guard := record_delta F block_hash post_leaves (sh_nullifiers stx) st'\<rparr>))))"

text \<open>
  \<^verbatim>\<open>Vec::remove\<close> at a recorded index; the early returns keep the removed delta and the
  unmarked nullifiers.
\<close>

definition remove_at :: "nat \<Rightarrow> 'a list \<Rightarrow> 'a list" where
  "remove_at i xs = take i xs @ drop (Suc i) xs"

definition revert_update ::
    "('f, 'p) field_ops \<Rightarrow> bytes \<Rightarrow> 'f shielded_pool \<Rightarrow> unit cres \<times> 'f shielded_pool" where
  "revert_update F block_hash p =
     (let st = sp_guard p in
      case map_of (ps_applied_index st) block_hash of
        None \<Rightarrow> (Inl (CePoolRollback (bytes_to_hex block_hash)), p)
      | Some idx \<Rightarrow>
          let removed = ps_applied st ! idx;
              survivors = remove_at idx (ps_applied st);
              p' = p\<lparr>sp_nullifiers := unmark_many (ad_nullifiers removed) (sp_nullifiers p),
                     sp_guard := st\<lparr>ps_applied := survivors\<rparr>\<rparr>
          in case rebuild_state F survivors (sp_recency_window p) False of
               Inl e \<Rightarrow> (Inl e, p')
             | Inr rebuilt \<Rightarrow>
                 if current_root (ps_roots rebuilt) \<noteq> Some (root_to_bytes F (tree_root (fp_zero F) (ps_tree rebuilt)))
                 then (Inl (CePoolState ''integrity''), p')
                 else (Inr (), p'\<lparr>sp_guard := rebuilt\<rparr>))"

section \<open>Saving and loading\<close>

definition state_snapshot :: "('f, 'p) field_ops \<Rightarrow> 'f shielded_pool \<Rightarrow> shielded_pool_state" where
  "state_snapshot F p =
     (let st = sp_guard p
      in \<lparr>st_root = root_to_bytes F (tree_root (fp_zero F) (ps_tree st)),
          st_leaf_count = of_nat (length (ps_leaves st)),
          st_leaves = map (root_to_bytes F) (ps_leaves st),
          st_nullifiers = concat (map ad_nullifiers (ps_applied st)),
          st_applied = ps_applied st\<rparr>)"

fun mark_deltas :: "applied_pool_delta list \<Rightarrow> nullifier_registry \<Rightarrow> nullifier_registry cres" where
  "mark_deltas [] ns = Inr ns"
| "mark_deltas (d # ds) ns =
     (case mark_many_atomic (ad_nullifiers d) ns of
        (Inl _, _) \<Rightarrow> Inl (CePoolState ''integrity'')
      | (Inr _, ns') \<Rightarrow> mark_deltas ds ns')"

definition from_state :: "('f, 'p) field_ops \<Rightarrow> shielded_pool_state \<Rightarrow> nat \<Rightarrow> 'f shielded_pool cres" where
  "from_state F s k =
     (if st_leaf_count s \<noteq> of_nat (length (st_leaves s)) then Inl (CePoolState ''integrity'')
      else case rebuild_state F (st_applied s) k True of
             Inl e \<Rightarrow> Inl e
           | Inr rebuilt \<Rightarrow>
               if map (root_to_bytes F) (ps_leaves rebuilt) \<noteq> st_leaves s then Inl (CePoolState ''integrity'')
               else if current_root (ps_roots rebuilt) \<noteq> Some (st_root s) then Inl (CePoolState ''integrity'')
               else if sort (concat (map ad_nullifiers (st_applied s))) \<noteq> sort (st_nullifiers s)
               then Inl (CePoolState ''integrity'')
               else case mark_deltas (st_applied s) nullifiers_new of
                      Inl e \<Rightarrow> Inl e
                    | Inr ns \<Rightarrow>
                        Inr \<lparr>sp_nullifiers = ns, sp_recency_window = k, sp_view_roots = ps_roots rebuilt,
                             sp_guard = rebuilt\<rparr>)"

text \<open>
  The data provider is given by its two calls on a store \<open>'d\<close>; \<^verbatim>\<open>load\<close> seeds and persists an
  absent state.
\<close>

record 'd pool_provider =
  get_shielded_pool :: "string \<Rightarrow> 'd \<Rightarrow> data_error + shielded_pool_state option"
  save_shielded_pool :: "shielded_pool_state \<Rightarrow> string \<Rightarrow> 'd \<Rightarrow> (data_error + unit) \<times> 'd"

definition pool_save ::
    "('f, 'p) field_ops \<Rightarrow> 'd pool_provider \<Rightarrow> string \<Rightarrow> 'f shielded_pool \<Rightarrow> 'd \<Rightarrow> unit cres \<times> 'd" where
  "pool_save F dp part p d =
     (case save_shielded_pool dp (state_snapshot F p) part d of
        (Inl _, d') \<Rightarrow> (Inl CePoolPersist, d')
      | (Inr _, d') \<Rightarrow> (Inr (), d'))"

definition pool_load ::
    "('f, 'p) field_ops \<Rightarrow> 'd pool_provider \<Rightarrow> string \<Rightarrow> nat \<Rightarrow> 'd \<Rightarrow> 'f shielded_pool cres \<times> 'd" where
  "pool_load F dp part k d =
     (case get_shielded_pool dp part d of
        Inl _ \<Rightarrow> (Inl (CePoolState ''corrupt''), d)
      | Inr None \<Rightarrow>
          (let p = shielded_pool_new F k
           in case pool_save F dp part p d of
                (Inl e, d') \<Rightarrow> (Inl e, d')
              | (Inr _, d') \<Rightarrow> (Inr p, d'))
      | Inr (Some s) \<Rightarrow> (from_state F s k, d))"

definition view_parts :: "'f shielded_pool \<Rightarrow> nullifier_registry \<times> merkle_root_state" where
  "view_parts p = (sp_nullifiers p, ps_roots (sp_guard p))"

definition pool_current_root :: "('f, 'p) field_ops \<Rightarrow> 'f shielded_pool \<Rightarrow> bytes" where
  "pool_current_root F p = root_to_bytes F (tree_root (fp_zero F) (ps_tree (sp_guard p)))"

definition leaf_count :: "'f shielded_pool \<Rightarrow> u64" where
  "leaf_count p = of_nat (length (ps_leaves (sp_guard p)))"

definition applied_count :: "'f shielded_pool \<Rightarrow> nat" where
  "applied_count p = length (ps_applied (sp_guard p))"

text \<open>The role view: the live nullifier set and the root history of construction time.\<close>

definition pool_role_view :: "'f shielded_pool \<Rightarrow> pool_view" where
  "pool_role_view p = view_with (sp_nullifiers p) (sp_view_roots p)"

section \<open>The history determines the pool\<close>

text \<open>Canonical encoding of field elements: \<^verbatim>\<open>from_repr\<close> reads what \<^verbatim>\<open>to_repr\<close> writes.\<close>

definition canonical_field :: "('f, 'p) field_ops \<Rightarrow> bool" where
  "canonical_field F \<longleftrightarrow> (\<forall>x. from_repr F (to_repr F x) = Some x)"

text \<open>
  The pool invariant: the guard is what a verified rebuild of its own delta history gives,
  no block and no nullifier occurs twice in the history, and the spent set is the union of
  the history's nullifiers.
\<close>

definition history_nullifiers :: "applied_pool_delta list \<Rightarrow> bytes list" where
  "history_nullifiers ds = concat (map ad_nullifiers ds)"

definition pool_ok :: "('f, 'p) field_ops \<Rightarrow> 'f shielded_pool \<Rightarrow> bool" where
  "pool_ok F p \<longleftrightarrow>
     (let ds = ps_applied (sp_guard p)
      in rebuild_state F ds (sp_recency_window p) True = Inr (sp_guard p) \<and>
         distinct (map ad_block_hash ds) \<and> distinct (history_nullifiers ds) \<and>
         sp_nullifiers p = rev (history_nullifiers ds))"

lemma rebuild_from_append:
  "rebuild_from F v (ds @ es) st =
     (case rebuild_from F v ds st of Inl e \<Rightarrow> Inl e | Inr st' \<Rightarrow> rebuild_from F v es st')"
  by (induction ds arbitrary: st) (simp_all split: sum.split)

lemma rebuild_delta_applied:
  assumes "rebuild_delta F v d st = Inr st'"
  shows "\<exists>r. ps_applied st' = ps_applied st @ [d\<lparr>ad_post_root := r\<rparr>] \<and>
           rebuild_delta F True (d\<lparr>ad_post_root := r\<rparr>) st = Inr st' \<and> (v \<longrightarrow> r = ad_post_root d)"
proof -
  from assms obtain tree lv where "append_encoded F (ad_leaves d) (ps_tree st) (ps_leaves st) = Inr (tree, lv)"
    by (auto simp: rebuild_delta_def split: sum.splits)
  with assms show ?thesis
    by (intro exI [of _ "root_to_bytes F (tree_root (fp_zero F) tree)"])
      (simp add: rebuild_delta_def Let_def split: if_splits; force)
qed

lemma rebuild_delta_verified: "rebuild_delta F True d st = Inr st' \<Longrightarrow> rebuild_delta F False d st = Inr st'"
  by (auto simp: rebuild_delta_def Let_def split: sum.splits if_splits)

lemma rebuild_from_verified: "rebuild_from F True ds st = Inr st' \<Longrightarrow> rebuild_from F False ds st = Inr st'"
  by (induction ds arbitrary: st) (auto split: sum.splits dest: rebuild_delta_verified)

text \<open>A rebuild records exactly the deltas it was given, up to the recomputed roots, and its
  record rebuilds to the same state under verification.\<close>

lemma rebuild_from_record:
  "rebuild_from F v ds st = Inr st' \<Longrightarrow>
     \<exists>ds'. ps_applied st' = ps_applied st @ ds' \<and> rebuild_from F True ds' st = Inr st' \<and>
           map ad_block_hash ds' = map ad_block_hash ds \<and> map ad_nullifiers ds' = map ad_nullifiers ds \<and>
           (v \<longrightarrow> ds' = ds)"
proof (induction ds arbitrary: st)
  case Nil
  then show ?case by simp
next
  case (Cons d ds)
  then obtain st1 where st1: "rebuild_delta F v d st = Inr st1" and rest: "rebuild_from F v ds st1 = Inr st'"
    by (auto split: sum.splits)
  from rebuild_delta_applied [OF st1] obtain r where r:
      "ps_applied st1 = ps_applied st @ [d\<lparr>ad_post_root := r\<rparr>]"
      "rebuild_delta F True (d\<lparr>ad_post_root := r\<rparr>) st = Inr st1" "v \<longrightarrow> r = ad_post_root d" by blast
  from Cons.IH [OF rest] obtain ds' where "ps_applied st' = ps_applied st1 @ ds'"
      "rebuild_from F True ds' st1 = Inr st'" "map ad_block_hash ds' = map ad_block_hash ds"
      "map ad_nullifiers ds' = map ad_nullifiers ds" "v \<longrightarrow> ds' = ds" by blast
  with r show ?case by (intro exI [of _ "d\<lparr>ad_post_root := r\<rparr> # ds'"]) auto
qed

lemma rebuild_state_record:
  assumes "rebuild_state F ds k v = Inr st"
  shows "rebuild_state F (ps_applied st) k True = Inr st"
    and "map ad_block_hash (ps_applied st) = map ad_block_hash ds"
    and "map ad_nullifiers (ps_applied st) = map ad_nullifiers ds"
    and "v \<Longrightarrow> ps_applied st = ds"
  using rebuild_from_record [of F v ds "empty_pool_state F k" st] assms
  by (auto simp: rebuild_state_def empty_pool_state_def)

text \<open>Without verification only an undecodable leaf stops a rebuild.\<close>

definition leaves_decode :: "('f, 'p) field_ops \<Rightarrow> applied_pool_delta \<Rightarrow> bool" where
  "leaves_decode F d \<longleftrightarrow> (\<forall>b\<in>set (ad_leaves d). from_repr F b \<noteq> None)"

lemma append_encoded_decodes:
  "(\<exists>r. append_encoded F bs t lv = Inr r) \<longleftrightarrow> (\<forall>b\<in>set bs. from_repr F b \<noteq> None)"
  by (induction F bs t lv rule: append_encoded.induct) (auto simp: bytes_to_root_def split: option.split)

lemma rebuild_delta_decodes: "rebuild_delta F v d st = Inr st' \<Longrightarrow> leaves_decode F d"
  using append_encoded_decodes [of F "ad_leaves d" "ps_tree st" "ps_leaves st"]
  by (auto simp: rebuild_delta_def leaves_decode_def split: sum.splits)

lemma rebuild_from_decodes: "rebuild_from F v ds st = Inr st' \<Longrightarrow> \<forall>d\<in>set ds. leaves_decode F d"
  by (induction ds arbitrary: st) (auto split: sum.splits dest: rebuild_delta_decodes)

lemma rebuild_from_total: "\<forall>d\<in>set ds. leaves_decode F d \<Longrightarrow> \<exists>st'. rebuild_from F False ds st = Inr st'"
proof (induction ds arbitrary: st)
  case (Cons d ds)
  then obtain r where "append_encoded F (ad_leaves d) (ps_tree st) (ps_leaves st) = Inr r"
    using append_encoded_decodes [of F "ad_leaves d" "ps_tree st" "ps_leaves st"]
    by (force simp: leaves_decode_def)
  then show ?case using Cons by (cases r) (auto simp: rebuild_delta_def Let_def)
qed simp

text \<open>The tip of the root history is the root of the tree.\<close>

lemma current_root_push [simp]: "current_root (snd (roots_push r s)) = Some r"
  by (auto simp: roots_push_def current_root_def Let_def last_drop)

lemma rebuild_from_tip:
  assumes "rebuild_from F v ds st = Inr st'"
    and "current_root (ps_roots st) = Some (root_to_bytes F (tree_root (fp_zero F) (ps_tree st)))"
  shows "current_root (ps_roots st') = Some (root_to_bytes F (tree_root (fp_zero F) (ps_tree st')))"
  using assms
proof (induction ds arbitrary: st)
  case (Cons d ds)
  from Cons.prems(1) obtain st1 where st1: "rebuild_delta F v d st = Inr st1"
    and rest: "rebuild_from F v ds st1 = Inr st'"
    by (auto split: sum.splits)
  have "current_root (ps_roots st1) = Some (root_to_bytes F (tree_root (fp_zero F) (ps_tree st1)))"
    using st1 by (auto simp: rebuild_delta_def Let_def split: sum.splits if_splits)
  then show ?case by (rule Cons.IH [OF rest])
qed simp

lemma rebuild_state_tip:
  "rebuild_state F ds k v = Inr st \<Longrightarrow>
     current_root (ps_roots st) = Some (root_to_bytes F (tree_root (fp_zero F) (ps_tree st)))"
  unfolding rebuild_state_def
  by (erule rebuild_from_tip) (simp add: empty_pool_state_def roots_new_def current_root_def tree_root_def tree_new_def)

text \<open>The index finds each block at its position.\<close>

definition index_ok :: "'f pool_state \<Rightarrow> bool" where
  "index_ok st \<longleftrightarrow>
     (\<forall>h i. map_of (ps_applied_index st) h = Some i \<longleftrightarrow>
            i < length (ps_applied st) \<and> ad_block_hash (ps_applied st ! i) = h)"

lemma index_okD:
  "index_ok st \<Longrightarrow> map_of (ps_applied_index st) h = Some i \<longleftrightarrow>
     i < length (ps_applied st) \<and> ad_block_hash (ps_applied st ! i) = h"
  by (simp add: index_ok_def)

lemma rebuild_delta_index:
  assumes "rebuild_delta F v d st = Inr st'" and ok: "index_ok st"
    and new: "ad_block_hash d \<notin> ad_block_hash ` set (ps_applied st)"
  shows "index_ok st'"
proof -
  have idx: "ps_applied_index st' = AList.update (ad_block_hash d) (length (ps_applied st)) (ps_applied_index st)"
    using assms(1) by (auto simp: rebuild_delta_def Let_def split: sum.splits if_splits)
  from rebuild_delta_applied [OF assms(1)] obtain r where
    ap: "ps_applied st' = ps_applied st @ [d\<lparr>ad_post_root := r\<rparr>]" by blast
  have "ad_block_hash (ps_applied st ! i) \<noteq> ad_block_hash d" if "i < length (ps_applied st)" for i
    using new that by (metis image_eqI nth_mem)
  then show ?thesis
    using ok unfolding index_ok_def
    by (auto simp: idx ap AList.update_conv nth_append less_Suc_eq)
qed

lemma rebuild_from_index:
  assumes "rebuild_from F v ds st = Inr st'" and "index_ok st"
    and "distinct (map ad_block_hash (ps_applied st @ ds))"
  shows "index_ok st'"
  using assms
proof (induction ds arbitrary: st)
  case (Cons d ds)
  from Cons.prems(1) obtain st1 where st1: "rebuild_delta F v d st = Inr st1"
    and rest: "rebuild_from F v ds st1 = Inr st'"
    by (auto split: sum.splits)
  from rebuild_delta_applied [OF st1] obtain r where
    ap: "ps_applied st1 = ps_applied st @ [d\<lparr>ad_post_root := r\<rparr>]" by blast
  have "index_ok st1"
    using rebuild_delta_index [OF st1 Cons.prems(2)] Cons.prems(3) by auto
  moreover have "distinct (map ad_block_hash (ps_applied st1 @ ds))" using Cons.prems(3) ap by simp
  ultimately show ?case by (rule Cons.IH [OF rest])
qed simp

lemma rebuild_state_index:
  assumes "rebuild_state F ds k v = Inr st" and "distinct (map ad_block_hash ds)"
  shows "index_ok st"
  using rebuild_from_index [of F v ds "empty_pool_state F k" st] assms
  by (simp add: rebuild_state_def empty_pool_state_def index_ok_def)

section \<open>Each operation keeps the invariant\<close>

lemma pool_ok_new: "pool_ok F (shielded_pool_new F k)"
  by (simp add: pool_ok_def shielded_pool_new_def empty_pool_state_def rebuild_state_def history_nullifiers_def
      nullifiers_new_def Let_def)

lemma pool_ok_index: "pool_ok F p \<Longrightarrow> index_ok (sp_guard p)"
  by (rule rebuild_state_index [of F "ps_applied (sp_guard p)" "sp_recency_window p" True])
    (simp_all add: pool_ok_def Let_def)

lemma pool_ok_new_hash:
  assumes "pool_ok F p" and "map_of (ps_applied_index (sp_guard p)) h = None"
  shows "h \<notin> ad_block_hash ` set (ps_applied (sp_guard p))"
proof
  assume "h \<in> ad_block_hash ` set (ps_applied (sp_guard p))"
  then obtain i where "i < length (ps_applied (sp_guard p))" "ad_block_hash (ps_applied (sp_guard p) ! i) = h"
    by (metis imageE in_set_conv_nth)
  then show False using index_okD [OF pool_ok_index [OF assms(1)], of h i] assms(2) by simp
qed

text \<open>
  What applying does: only an accepted transfer changes the pool, and then the guard grows
  by the one delta of the block.  In particular no error leaves a trace, although the
  nullifiers are marked before the commitments are decoded.
\<close>

lemma apply_update_cases:
  assumes "apply_update F c hash max_risk b p = (r, p')"
  shows "(r \<noteq> Inr Applied \<and> p' = p) \<or>
     (\<exists>stx n leaf d. r = Inr Applied \<and> sx_shielded (signed_trans b) = Some stx \<and> sh_nullifiers stx = [n] \<and>
        map_of (ps_applied_index (sp_guard p)) (pool_block_hash c hash b) = None \<and>
        \<not> nullifier_contains (sp_nullifiers p) n \<and>
        (\<exists>v. validate_shielded F max_risk stx (pool_deps p) = Inr v) \<and>
        d = \<lparr>ad_block_hash = pool_block_hash c hash b, ad_leaves = [root_to_bytes F leaf], ad_nullifiers = [n],
             ad_post_root = pool_current_root F p'\<rparr> \<and>
        (canonical_field F \<longrightarrow> rebuild_delta F True d (sp_guard p) = Inr (sp_guard p')) \<and>
        ps_applied (sp_guard p') = ps_applied (sp_guard p) @ [d] \<and>
        sp_nullifiers p' = n # sp_nullifiers p \<and> sp_recency_window p' = sp_recency_window p \<and>
        sp_view_roots p' = sp_view_roots p)" (is "?same \<or> ?grown")
proof (cases "sx_shielded (signed_trans b)")
  case None
  then show ?thesis using assms by (auto simp: apply_update_def)
next
  case (Some stx)
  let ?h = "pool_block_hash c hash b"
  show ?thesis
  proof (cases "map_of (ps_applied_index (sp_guard p)) ?h = None \<and>
      (\<exists>v. validate_shielded F max_risk stx (pool_deps p) = Inr v)")
    case False
    then show ?thesis
      using assms Some by (auto simp: apply_update_def Let_def split: if_splits sum.splits)
  next
    case True
    then obtain n cm i where n: "sh_nullifiers stx = [n]" and cm: "sh_commitments stx = [cm]"
      and i: "public_inputs_from_shielded_tx F stx = Inr i" and free: "\<not> nullifier_contains (sp_nullifiers p) n"
      by (auto simp: validate_shielded_ok pool_deps_def)
    obtain leaf where leaf: "commitment_leaf F cm = Inr leaf"
      using commitment_leaf_of_inputs [OF i cm] by blast
    have mark: "mark_many_atomic [n] (sp_nullifiers p) = (Inr (), n # sp_nullifiers p)"
      using free by (simp add: mark_many_atomic_result nullifier_contains_def)
    define g where "g = record_delta F ?h [root_to_bytes F leaf] [n]
      ((sp_guard p)\<lparr>ps_tree := append_to_tree F leaf (ps_tree (sp_guard p)), ps_leaves := ps_leaves (sp_guard p) @ [leaf]\<rparr>)"
    let ?d = "\<lparr>ad_block_hash = ?h, ad_leaves = [root_to_bytes F leaf], ad_nullifiers = [n],
        ad_post_root = root_to_bytes F (tree_root (fp_zero F) (ps_tree g))\<rparr>"
    have r: "r = Inr Applied" and p': "p' = p\<lparr>sp_nullifiers := n # sp_nullifiers p, sp_guard := g\<rparr>"
      using assms Some True n cm free leaf mark by (auto simp: apply_update_def Let_def g_def)
    have grow: "canonical_field F \<longrightarrow> rebuild_delta F True ?d (sp_guard p) = Inr g"
      by (auto simp: g_def record_delta_def Let_def rebuild_delta_def canonical_field_def root_to_bytes_def
          bytes_to_root_def intro!: pool_state.equality)
    have "ps_applied g = ps_applied (sp_guard p) @ [?d]" by (simp add: g_def record_delta_def Let_def)
    then have ?grown
      by (intro exI [of _ stx] exI [of _ n] exI [of _ leaf] exI [of _ ?d])
        (simp add: r p' grow Some n True free pool_current_root_def)
    then show ?thesis ..
  qed
qed

lemma pool_ok_apply:
  assumes F: "canonical_field F" and ok: "pool_ok F p" and "apply_update F c hash max_risk b p = (r, p')"
  shows "pool_ok F p'"
  using apply_update_cases [OF assms(3)]
proof (elim disjE exE conjE)
  assume "p' = p"
  then show ?thesis using ok by simp
next
  fix stx n leaf d
  assume g: "map_of (ps_applied_index (sp_guard p)) (pool_block_hash c hash b) = None"
      "\<not> nullifier_contains (sp_nullifiers p) n"
      "d = \<lparr>ad_block_hash = pool_block_hash c hash b, ad_leaves = [root_to_bytes F leaf], ad_nullifiers = [n],
            ad_post_root = pool_current_root F p'\<rparr>"
      "canonical_field F \<longrightarrow> rebuild_delta F True d (sp_guard p) = Inr (sp_guard p')"
      "ps_applied (sp_guard p') = ps_applied (sp_guard p) @ [d]"
      "sp_nullifiers p' = n # sp_nullifiers p" "sp_recency_window p' = sp_recency_window p"
  have "rebuild_state F (ps_applied (sp_guard p) @ [d]) (sp_recency_window p) True = Inr (sp_guard p')"
    using ok F g(4) by (simp add: pool_ok_def Let_def rebuild_state_def rebuild_from_append)
  moreover have "pool_block_hash c hash b \<notin> ad_block_hash ` set (ps_applied (sp_guard p))"
    by (rule pool_ok_new_hash [OF ok g(1)])
  ultimately show ?thesis
    using ok g(2,5,6,7) unfolding g(3)
    by (simp add: pool_ok_def Let_def history_nullifiers_def nullifier_contains_def)
qed

lemma unmark_removed:
  assumes "distinct (history_nullifiers ds)" and "i < length ds"
  shows "unmark_many (ad_nullifiers (ds ! i)) (rev (history_nullifiers ds)) = rev (history_nullifiers (remove_at i ds))"
proof -
  define a x z where "a = take i ds" and "x = ds ! i" and "z = drop (Suc i) ds"
  have ds: "ds = a @ x # z" using id_take_nth_drop [OF assms(2)] by (simp add: a_def x_def z_def)
  have "filter (\<lambda>n. n \<notin> set (ad_nullifiers x)) (history_nullifiers a) = history_nullifiers a"
      "filter (\<lambda>n. n \<notin> set (ad_nullifiers x)) (history_nullifiers z) = history_nullifiers z"
    using assms(1) by (auto simp: ds history_nullifiers_def filter_id_conv)
  then have "filter (\<lambda>n. n \<notin> set (ad_nullifiers x)) (history_nullifiers (a @ x # z)) = history_nullifiers (a @ z)"
    by (simp add: history_nullifiers_def)
  moreover have "remove_at i ds = a @ z" by (simp add: remove_at_def a_def z_def)
  ultimately show ?thesis unfolding ds [symmetric] by (simp add: unmark_many_filter rev_filter [symmetric] x_def)
qed

lemma distinct_remove_at: "distinct (map f ds) \<Longrightarrow> distinct (map f (remove_at i ds))"
  using set_take_disj_set_drop_if_distinct [of "map f ds" i "Suc i"]
  by (simp add: remove_at_def take_map [symmetric] drop_map [symmetric] del: set_map)

text \<open>Reverting a recorded block succeeds and gives the pool of the surviving history.\<close>

lemma revert_update_recorded:
  assumes ok: "pool_ok F p" and i: "i < length (ps_applied (sp_guard p))"
    and h: "ad_block_hash (ps_applied (sp_guard p) ! i) = h"
  shows "\<exists>g. rebuild_state F (remove_at i (ps_applied (sp_guard p))) (sp_recency_window p) False = Inr g \<and>
             revert_update F h p =
               (Inr (), p\<lparr>sp_nullifiers := rev (history_nullifiers (remove_at i (ps_applied (sp_guard p)))), sp_guard := g\<rparr>)"
proof -
  let ?ds = "ps_applied (sp_guard p)"
  have idx: "map_of (ps_applied_index (sp_guard p)) h = Some i"
    using index_okD [OF pool_ok_index [OF ok], of h i] i h by simp
  have "\<forall>d\<in>set ?ds. leaves_decode F d"
    using ok rebuild_from_decodes by (fastforce simp: pool_ok_def Let_def rebuild_state_def)
  then have "\<forall>d\<in>set (remove_at i ?ds). leaves_decode F d"
    by (auto simp: remove_at_def dest: in_set_takeD in_set_dropD)
  then obtain g where g: "rebuild_state F (remove_at i ?ds) (sp_recency_window p) False = Inr g"
    unfolding rebuild_state_def using rebuild_from_total by blast
  have "unmark_many (ad_nullifiers (?ds ! i)) (sp_nullifiers p) = rev (history_nullifiers (remove_at i ?ds))"
    using ok unmark_removed [OF _ i] by (simp add: pool_ok_def Let_def)
  then show ?thesis
    using g rebuild_state_tip [OF g] by (simp add: revert_update_def Let_def idx)
qed

lemma pool_ok_revert:
  assumes ok: "pool_ok F p" and r: "revert_update F h p = (r, p')"
  shows "pool_ok F p'"
proof (cases "map_of (ps_applied_index (sp_guard p)) h")
  case None
  then show ?thesis using ok r by (auto simp: revert_update_def Let_def)
next
  case (Some i)
  let ?ds = "ps_applied (sp_guard p)"
  have i: "i < length ?ds" "ad_block_hash (?ds ! i) = h"
    using Some index_okD [OF pool_ok_index [OF ok], of h i] by simp_all
  from revert_update_recorded [OF ok i] obtain g where
    g: "rebuild_state F (remove_at i ?ds) (sp_recency_window p) False = Inr g"
    and "revert_update F h p = (Inr (), p\<lparr>sp_nullifiers := rev (history_nullifiers (remove_at i ?ds)), sp_guard := g\<rparr>)"
    by blast
  then have p': "p' = p\<lparr>sp_nullifiers := rev (history_nullifiers (remove_at i ?ds)), sp_guard := g\<rparr>" using r by simp
  note rec = rebuild_state_record [OF g]
  have "distinct (history_nullifiers (remove_at i ?ds))"
    using ok unmark_removed [OF _ i(1)] distinct_rev
    by (metis distinct_filter pool_ok_def unmark_many_filter)
  then show ?thesis
    using ok rec distinct_remove_at [of ad_block_hash ?ds i]
    by (simp add: pool_ok_def Let_def p' history_nullifiers_def)
qed

section \<open>The derived views\<close>

definition tree_of :: "('f, 'p) field_ops \<Rightarrow> 'f list \<Rightarrow> 'f merkle_tree" where
  "tree_of F leaves = from_leaves (poseidon2 F) (fp_zero F) DEFAULT_DEPTH leaves"

lemma tree_of_snoc: "tree_of F (ls @ [l]) = append_to_tree F l (tree_of F ls)"
  by (simp add: tree_of_def from_leaves_def append_to_tree_def)

lemma append_encoded_tree:
  "append_encoded F bs t lv = Inr (t', lv') \<Longrightarrow> t = tree_of F lv \<Longrightarrow> t' = tree_of F lv'"
  by (induction F bs t lv rule: append_encoded.induct) (auto simp: tree_of_snoc split: option.splits)

lemma rebuild_from_tree:
  "rebuild_from F v ds st = Inr st' \<Longrightarrow> ps_tree st = tree_of F (ps_leaves st) \<Longrightarrow>
     ps_tree st' = tree_of F (ps_leaves st')"
proof (induction ds arbitrary: st)
  case (Cons d ds)
  from Cons.prems(1) obtain st1 where st1: "rebuild_delta F v d st = Inr st1"
    and rest: "rebuild_from F v ds st1 = Inr st'"
    by (auto split: sum.splits)
  have "ps_tree st1 = tree_of F (ps_leaves st1)"
    using st1 Cons.prems(2) append_encoded_tree [of F "ad_leaves d" "ps_tree st" "ps_leaves st"]
    by (auto simp: rebuild_delta_def Let_def split: sum.splits if_splits)
  then show ?case by (rule Cons.IH [OF rest])
qed simp

lemma pool_ok_tree: "pool_ok F p \<Longrightarrow> ps_tree (sp_guard p) = tree_of F (ps_leaves (sp_guard p))"
  using rebuild_from_tree [of F True "ps_applied (sp_guard p)" "empty_pool_state F (sp_recency_window p)" "sp_guard p"]
  by (simp add: pool_ok_def Let_def rebuild_state_def empty_pool_state_def tree_of_def from_leaves_def)

lemma mark_deltas_ok:
  "distinct (history_nullifiers ds) \<Longrightarrow> set ns \<inter> set (history_nullifiers ds) = {} \<Longrightarrow>
     mark_deltas ds ns = Inr (rev (history_nullifiers ds) @ ns)"
proof (induction ds arbitrary: ns)
  case (Cons d ds)
  have "mark_many_atomic (ad_nullifiers d) ns = (Inr (), rev (ad_nullifiers d) @ ns)"
    using Cons.prems by (auto simp: mark_many_atomic_result history_nullifiers_def)
  moreover have "mark_deltas ds (rev (ad_nullifiers d) @ ns) = Inr (rev (history_nullifiers ds) @ rev (ad_nullifiers d) @ ns)"
    using Cons.prems by (intro Cons.IH) (auto simp: history_nullifiers_def)
  ultimately show ?case by (simp add: history_nullifiers_def)
qed (simp add: history_nullifiers_def)

lemma from_snapshot:
  assumes "pool_ok F p"
  shows "from_state F (state_snapshot F p) (sp_recency_window p) = Inr (p\<lparr>sp_view_roots := ps_roots (sp_guard p)\<rparr>)"
proof -
  have r: "rebuild_state F (ps_applied (sp_guard p)) (sp_recency_window p) True = Inr (sp_guard p)"
    and n: "mark_deltas (ps_applied (sp_guard p)) nullifiers_new = Inr (sp_nullifiers p)"
    using assms by (simp_all add: pool_ok_def Let_def mark_deltas_ok nullifiers_new_def)
  show ?thesis
    using rebuild_state_tip [OF r]
    by (simp add: from_state_def state_snapshot_def Let_def r n)
qed

text \<open>
  The life of a pool: it starts fresh, and then blocks are applied, blocks are reverted and
  the node restarts from the persisted state, in any order.
\<close>

inductive pool_life :: "('f, 'p) field_ops \<Rightarrow> codec \<Rightarrow> (bytes \<Rightarrow> bytes) \<Rightarrow> nat \<Rightarrow> 'f shielded_pool \<Rightarrow> bool"
  for F c hash k where
  fresh: "pool_life F c hash k (shielded_pool_new F k)"
| apply_block: "pool_life F c hash k p \<Longrightarrow> pool_life F c hash k (snd (apply_update F c hash max_risk b p))"
| revert_block: "pool_life F c hash k p \<Longrightarrow> pool_life F c hash k (snd (revert_update F h p))"
| restart: "pool_life F c hash k p \<Longrightarrow> from_state F (state_snapshot F p) k = Inr p' \<Longrightarrow> pool_life F c hash k p'"

lemma pool_life_ok:
  assumes "pool_life F c hash k p" and F: "canonical_field F"
  shows "pool_ok F p \<and> sp_recency_window p = k"
  using assms(1)
proof induction
  case fresh
  show ?case using pool_ok_new by (simp add: shielded_pool_new_def)
next
  case (apply_block p max_risk b)
  obtain r p' where a: "apply_update F c hash max_risk b p = (r, p')" by (cases "apply_update F c hash max_risk b p")
  have "sp_recency_window p' = sp_recency_window p" using apply_update_cases [OF a] by blast
  then show ?case using apply_block pool_ok_apply [OF F _ a] a by simp
next
  case (revert_block p h)
  obtain r p' where a: "revert_update F h p = (r, p')" by (cases "revert_update F h p")
  have "sp_recency_window p' = sp_recency_window p"
    using a by (auto simp: revert_update_def Let_def split: option.splits sum.splits if_splits)
  then show ?case using revert_block pool_ok_revert [OF _ a] a by simp
next
  case (restart p p')
  then have "p' = p\<lparr>sp_view_roots := ps_roots (sp_guard p)\<rparr>" using from_snapshot by force
  then show ?case using restart by (auto simp: pool_ok_def Let_def)
qed

section \<open>Properties\<close>

text \<open>C1: through every sequence of applied blocks, reverts and restarts the pool stays
  consistent with itself.  The spent set is exactly the nullifiers of the recorded deltas,
  each recorded once; no block is recorded twice and the index finds each at its place;
  the tree is the tree of the leaf sequence; and the newest committed root is the root of
  that tree.\<close>

theorem pool_life_consistent:
  assumes "pool_life F c hash k p" and "canonical_field F"
  shows "sp_nullifiers p = rev (history_nullifiers (ps_applied (sp_guard p))) \<and>
         distinct (sp_nullifiers p) \<and>
         distinct (map ad_block_hash (ps_applied (sp_guard p))) \<and>
         index_ok (sp_guard p) \<and>
         ps_tree (sp_guard p) = tree_of F (ps_leaves (sp_guard p)) \<and>
         current_root (ps_roots (sp_guard p)) = Some (pool_current_root F p)"
proof -
  have ok: "pool_ok F p" using pool_life_ok [OF assms] by blast
  then have "rebuild_state F (ps_applied (sp_guard p)) (sp_recency_window p) True = Inr (sp_guard p)"
    by (simp add: pool_ok_def Let_def)
  from rebuild_state_tip [OF this] show ?thesis
    using ok pool_ok_index [OF ok] pool_ok_tree [OF ok] by (simp add: pool_ok_def Let_def pool_current_root_def)
qed

text \<open>Applying a block is all or nothing.  Unless the outcome is \<open>Applied\<close> the pool is
  untouched, whatever the error; when it is \<open>Applied\<close> the transfer passed every check against
  the pool's own state, its nullifier was unspent and is spent now, and one delta of one leaf
  was recorded under the block's hash.\<close>

theorem apply_update_all_or_nothing:
  assumes "apply_update F c hash max_risk b p = (r, p')"
  shows "if r = Inr Applied
         then \<exists>stx v n leaf. sx_shielded (signed_trans b) = Some stx \<and>
                validate_shielded F max_risk stx (pool_deps p) = Inr v \<and>
                \<not> nullifier_contains (sp_nullifiers p) n \<and> nullifier_contains (sp_nullifiers p') n \<and>
                ps_applied (sp_guard p') = ps_applied (sp_guard p) @
                  [\<lparr>ad_block_hash = pool_block_hash c hash b, ad_leaves = [root_to_bytes F leaf],
                    ad_nullifiers = [n], ad_post_root = pool_current_root F p'\<rparr>]
         else p' = p"
  using apply_update_cases [OF assms] by (auto simp: nullifier_contains_def)

text \<open>C9: a spent nullifier cannot be spent again.  While a delta that spends \<open>n\<close> is recorded,
  every block that carries \<open>n\<close> under another hash is refused and changes nothing.\<close>

theorem pool_no_double_spend:
  assumes "pool_life F c hash k p" and "canonical_field F"
    and "d \<in> set (ps_applied (sp_guard p))" and "n \<in> set (ad_nullifiers d)"
    and "sx_shielded (signed_trans b) = Some stx" and "n \<in> set (sh_nullifiers stx)"
    and "map_of (ps_applied_index (sp_guard p)) (pool_block_hash c hash b) = None"
  shows "apply_update F c hash max_risk b p = (Inl (CeShieldedProofInvalid (sh_id stx)), p)"
proof -
  have "pool_ok F p" using pool_life_ok [OF assms(1,2)] by blast
  then have "nullifier_contains (sp_nullifiers p) n"
    using assms(3,4) by (auto simp: pool_ok_def Let_def nullifier_contains_def history_nullifiers_def)
  then have "validate_shielded F max_risk stx (pool_deps p) \<noteq> Inr v" for v
    using assms(6) by (auto simp: validate_shielded_ok pool_deps_def)
  then show ?thesis using assms(5,7) by (auto simp: apply_update_def Let_def split: sum.split)
qed

lemma revert_applied:
  assumes ok: "pool_ok F p" and F: "canonical_field F"
    and a: "apply_update F c hash max_risk b p = (Inr Applied, p')"
  shows "revert_update F (pool_block_hash c hash b) p' = (Inr (), p)"
proof -
  have ok': "pool_ok F p'" by (rule pool_ok_apply [OF F ok a])
  from apply_update_cases [OF a] obtain d where
      d: "ad_block_hash d = pool_block_hash c hash b" "ps_applied (sp_guard p') = ps_applied (sp_guard p) @ [d]"
      "sp_recency_window p' = sp_recency_window p" "sp_view_roots p' = sp_view_roots p" by fastforce
  let ?ds = "ps_applied (sp_guard p)"
  have i: "length ?ds < length (ps_applied (sp_guard p'))"
      "ad_block_hash (ps_applied (sp_guard p') ! length ?ds) = pool_block_hash c hash b"
    using d by simp_all
  have rm: "remove_at (length ?ds) (ps_applied (sp_guard p')) = ?ds" by (simp add: remove_at_def d(2))
  have "rebuild_state F ?ds (sp_recency_window p') False = Inr (sp_guard p)"
    using ok d(3) by (simp add: pool_ok_def Let_def rebuild_state_def rebuild_from_verified)
  with revert_update_recorded [OF ok' i] have
    "revert_update F (pool_block_hash c hash b) p' =
       (Inr (), p'\<lparr>sp_nullifiers := rev (history_nullifiers ?ds), sp_guard := sp_guard p\<rparr>)"
    unfolding rm by auto
  moreover have "p'\<lparr>sp_nullifiers := rev (history_nullifiers ?ds), sp_guard := sp_guard p\<rparr> = p"
    using ok d(3,4) by (intro shielded_pool.equality) (simp_all add: pool_ok_def Let_def)
  ultimately show ?thesis by simp
qed

text \<open>C27: reverting undoes applying, exactly.  The block that was just applied is found, the
  revert succeeds, and the pool is the one before: spent set, tree, root history, deltas and
  index.\<close>

theorem revert_inverts_apply:
  assumes "pool_life F c hash k p" and "canonical_field F"
    and "apply_update F c hash max_risk b p = (Inr Applied, p')"
  shows "revert_update F (pool_block_hash c hash b) p' = (Inr (), p)"
  using pool_life_ok [OF assms(1,2)] revert_applied [OF _ assms(2,3)] by blast

text \<open>Reverting any recorded block, also one in the middle of the history, succeeds.  It
  leaves the other deltas in order, with their roots recomputed, and frees exactly that
  block's nullifiers; an unknown block is refused and nothing changes.\<close>

theorem revert_update_exact:
  assumes "pool_life F c hash k p" and "canonical_field F"
  shows "case map_of (ps_applied_index (sp_guard p)) h of
           None \<Rightarrow> revert_update F h p = (Inl (CePoolRollback (bytes_to_hex h)), p)
         | Some i \<Rightarrow>
             fst (revert_update F h p) = Inr () \<and>
             rebuild_state F (remove_at i (ps_applied (sp_guard p))) k False = Inr (sp_guard (snd (revert_update F h p))) \<and>
             map ad_block_hash (ps_applied (sp_guard (snd (revert_update F h p)))) =
               map ad_block_hash (remove_at i (ps_applied (sp_guard p))) \<and>
             (nullifier_contains (sp_nullifiers (snd (revert_update F h p))) n \<longleftrightarrow>
                nullifier_contains (sp_nullifiers p) n \<and> n \<notin> set (ad_nullifiers (ps_applied (sp_guard p) ! i)))"
proof (cases "map_of (ps_applied_index (sp_guard p)) h")
  case None
  then show ?thesis by (simp add: revert_update_def Let_def)
next
  case (Some i)
  have ok: "pool_ok F p" and k: "sp_recency_window p = k" using pool_life_ok [OF assms] by blast+
  let ?ds = "ps_applied (sp_guard p)"
  have i: "i < length ?ds" "ad_block_hash (?ds ! i) = h"
    using Some index_okD [OF pool_ok_index [OF ok], of h i] by simp_all
  from revert_update_recorded [OF ok i] obtain g where g: "rebuild_state F (remove_at i ?ds) k False = Inr g"
      "revert_update F h p = (Inr (), p\<lparr>sp_nullifiers := rev (history_nullifiers (remove_at i ?ds)), sp_guard := g\<rparr>)"
    unfolding k by blast
  have "rev (history_nullifiers (remove_at i ?ds)) = unmark_many (ad_nullifiers (?ds ! i)) (sp_nullifiers p)"
    using ok unmark_removed [OF _ i(1)] by (simp add: pool_ok_def Let_def)
  then show ?thesis
    using Some g rebuild_state_record(2) [OF g(1)] registry_set.unmark_spent by simp
qed

text \<open>C28: a restart loses nothing.  Loading what was saved passes every integrity check and
  gives the same pool; only the roles' boot-time root view moves to the current history.\<close>

theorem save_load_roundtrip:
  assumes "pool_life F c hash k p" and "canonical_field F"
    and "get_shielded_pool dp part d = Inr (Some (state_snapshot F p))"
  shows "pool_load F dp part k d = (Inr (p\<lparr>sp_view_roots := ps_roots (sp_guard p)\<rparr>), d)"
  using pool_life_ok [OF assms(1,2)] from_snapshot [of F p] assms(3) by (simp add: pool_load_def)

section \<open>Concrete instances\<close>

text \<open>A field of byte strings, with a proof system that accepts everything.\<close>

definition demo_field :: "(bytes, bytes) field_ops" where
  "demo_field =
     \<lparr>fp_zero = [], poseidon2 = (\<lambda>a b. 1 # a @ b), to_repr = (\<lambda>x. x), from_repr = Some,
      from_uniform_bytes = (\<lambda>x. x), fp_from_u64 = (\<lambda>x. to_be_bytes x), point_from_bytes = Some,
      point_coordinates = (\<lambda>x. Some (x, x)), plonk_verify = (\<lambda>_ _. True)\<rparr>"

definition demo_transfer :: shielded_transaction where
  "demo_transfer =
     \<lparr>sh_id = ''s1'', sh_action = ''ShieldedTransfer'', sh_token = [1], sh_spent_commitments = [[3]],
      sh_nullifiers = [[7]], sh_commitments = [[4]], sh_merkle_root = [], sh_proof = [], sh_note_ciphertexts = [],
      sh_fee = 0\<rparr>"

definition transfer_block :: "bytes \<Rightarrow> block" where
  "transfer_block h =
     (demo_block [])\<lparr>signed_trans := demo_signed\<lparr>sx_shielded := Some demo_transfer\<rparr>, current_hash := h\<rparr>"

definition demo_pool :: "bytes shielded_pool" where
  "demo_pool = shielded_pool_new demo_field 2"

definition spent_pool :: "bytes shielded_pool" where
  "spent_pool = snd (apply_update demo_field demo_codec length_hash (Fin 1) (transfer_block [9]) demo_pool)"

lemma demo_field_canonical: "canonical_field demo_field"
  by (simp add: canonical_field_def demo_field_def)

lemma demo_pool_life: "pool_life demo_field demo_codec length_hash 2 demo_pool"
  unfolding demo_pool_def by (rule pool_life.fresh)

lemma transfer_hash: "pool_block_hash demo_codec length_hash (transfer_block [h]) = [h]"
  by (simp add: pool_block_hash_def transfer_block_def)

lemma transfer_payload: "sx_shielded (signed_trans (transfer_block h)) = Some demo_transfer"
  by (simp add: transfer_block_def)

lemma demo_applies:
  "apply_update demo_field demo_codec length_hash (Fin 1) (transfer_block [9]) demo_pool = (Inr Applied, spent_pool)"
proof -
  have valid: "\<exists>v. validate_shielded demo_field (Fin 1) demo_transfer (pool_deps demo_pool) = Inr v"
    by (simp add: validate_shielded_ok demo_transfer_def public_inputs_from_shielded_tx_def first_point_def point_coords_def
        bytes_to_root_def demo_field_def pool_deps_def demo_pool_def shielded_pool_new_def nullifiers_new_def
        nullifier_contains_def empty_pool_state_def roots_new_def is_root_fresh_def root_to_bytes_def unat_ops)
  then have "fst (apply_update demo_field demo_codec length_hash (Fin 1) (transfer_block [9]) demo_pool) = Inr Applied"
    by (auto simp: apply_update_def transfer_payload transfer_hash Let_def demo_pool_def shielded_pool_new_def
        empty_pool_state_def demo_transfer_def mark_many_atomic_result nullifiers_new_def commitment_leaf_def
        point_coords_def demo_field_def)
  then show ?thesis unfolding spent_pool_def by (metis prod.collapse)
qed

lemma spent_pool_life: "pool_life demo_field demo_codec length_hash 2 spent_pool"
  unfolding spent_pool_def by (rule pool_life.apply_block [OF demo_pool_life])

lemma spent_pool_history:
  obtains d where "ps_applied (sp_guard spent_pool) = [d]" and "ad_block_hash d = [9]" and "ad_nullifiers d = [[7]]"
proof -
  have "ps_applied (sp_guard demo_pool) = []"
    by (simp add: demo_pool_def shielded_pool_new_def empty_pool_state_def)
  then show thesis
    using apply_update_cases [OF demo_applies] that
    by (auto simp: transfer_payload transfer_hash demo_transfer_def)
qed

lemma spent_pool_index:
  "map_of (ps_applied_index (sp_guard spent_pool)) [9] = Some 0"
  "map_of (ps_applied_index (sp_guard spent_pool)) [8] = None"
proof -
  obtain d where d: "ps_applied (sp_guard spent_pool) = [d]" "ad_block_hash d = [9]" by (rule spent_pool_history)
  have ok: "index_ok (sp_guard spent_pool)"
    using pool_life_ok [OF spent_pool_life demo_field_canonical] pool_ok_index by blast
  show "map_of (ps_applied_index (sp_guard spent_pool)) [9] = Some 0"
    using index_okD [OF ok] d by simp
  show "map_of (ps_applied_index (sp_guard spent_pool)) [8] = None"
  proof (cases "map_of (ps_applied_index (sp_guard spent_pool)) [8]")
    case (Some i)
    then show ?thesis using index_okD [OF ok, of "[8]" i] d by auto
  qed
qed

theorem pool_life_consistent_witness:
  "distinct (sp_nullifiers spent_pool) \<and> index_ok (sp_guard spent_pool)"
  using pool_life_consistent [OF spent_pool_life demo_field_canonical] by blast

theorem apply_update_all_or_nothing_witness:
  "\<exists>n. \<not> nullifier_contains (sp_nullifiers demo_pool) n \<and> nullifier_contains (sp_nullifiers spent_pool) n"
  using apply_update_all_or_nothing [OF demo_applies] by auto

theorem pool_no_double_spend_witness:
  "apply_update demo_field demo_codec length_hash (Fin 1) (transfer_block [8]) spent_pool =
     (Inl (CeShieldedProofInvalid ''s1''), spent_pool)"
proof -
  obtain d where d: "ps_applied (sp_guard spent_pool) = [d]" "ad_nullifiers d = [[7]]" by (rule spent_pool_history)
  have "d \<in> set (ps_applied (sp_guard spent_pool))" "[7] \<in> set (ad_nullifiers d)"
      "[7] \<in> set (sh_nullifiers demo_transfer)"
      "map_of (ps_applied_index (sp_guard spent_pool))
         (pool_block_hash demo_codec length_hash (transfer_block [8])) = None"
    using d by (simp_all add: demo_transfer_def transfer_hash spent_pool_index)
  then show ?thesis
    using pool_no_double_spend [OF spent_pool_life demo_field_canonical _ _ transfer_payload, of d "[7]" "[8]" "Fin 1"]
    by (simp add: demo_transfer_def)
qed

theorem revert_inverts_apply_witness: "revert_update demo_field [9] spent_pool = (Inr (), demo_pool)"
  using revert_inverts_apply [OF demo_pool_life demo_field_canonical demo_applies] by (simp add: transfer_hash)

theorem revert_update_exact_witness:
  "fst (revert_update demo_field [9] spent_pool) = Inr () \<and>
   revert_update demo_field [5] demo_pool = (Inl (CePoolRollback (bytes_to_hex [5])), demo_pool)"
  using revert_update_exact [OF spent_pool_life demo_field_canonical, of "[9]"]
    revert_update_exact [OF demo_pool_life demo_field_canonical, of "[5]"]
  by (simp add: spent_pool_index) (simp add: demo_pool_def shielded_pool_new_def empty_pool_state_def)

theorem save_load_roundtrip_witness:
  "fst (pool_load demo_field
      \<lparr>get_shielded_pool = (\<lambda>_ s. Inr s), save_shielded_pool = (\<lambda>s _ _. (Inr (), Some s))\<rparr>
      ''p'' 2 (Some (state_snapshot demo_field spent_pool))) =
     Inr (spent_pool\<lparr>sp_view_roots := ps_roots (sp_guard spent_pool)\<rparr>)"
  using save_load_roundtrip [OF spent_pool_life demo_field_canonical,
      of "\<lparr>get_shielded_pool = (\<lambda>_ s. Inr s), save_shielded_pool = (\<lambda>s _ _. (Inr (), Some s))\<rparr>" "''p''"
         "Some (state_snapshot demo_field spent_pool)"]
  by simp

end
