(* ===== verification/Orphan_Buffer.thy ===== *)
theory Orphan_Buffer
  imports Blocks
begin

text \<open>
  The bounded buffer for finalized blocks that arrive before their parent,
  \<^verbatim>\<open>committer/src/orphan_buffer.rs\<close>.  Instants and durations are natural numbers, so that
  \<^verbatim>\<open>duration_since\<close> saturates at zero; the two reads of the clock in \<^verbatim>\<open>insert\<close> are its two
  time arguments.
\<close>

section \<open>State and operations\<close>

record buffered_block =
  bb_block :: block
  bb_parent_hash :: bytes
  bb_inserted_at :: nat
  bb_ttl :: nat

definition is_expired :: "buffered_block \<Rightarrow> nat \<Rightarrow> bool" where
  "is_expired b now \<longleftrightarrow> bb_ttl b \<le> now - bb_inserted_at b"

datatype buffer_decision = Buffered | RejectedFull

record orphan_buffer =
  by_token :: "(bytes \<times> buffered_block list) list"
  max_entries :: nat
  max_per_token :: nat
  ob_ttl :: nat
  ob_count :: nat

definition orphans_new :: "nat \<Rightarrow> nat \<Rightarrow> nat \<Rightarrow> orphan_buffer" where
  "orphans_new me mp t = \<lparr>by_token = [], max_entries = me, max_per_token = mp, ob_ttl = t, ob_count = 0\<rparr>"

definition orphans_len :: "orphan_buffer \<Rightarrow> nat" where
  "orphans_len b = ob_count b"

definition orphans_is_empty :: "orphan_buffer \<Rightarrow> bool" where
  "orphans_is_empty b \<longleftrightarrow> ob_count b = 0"

definition pending_for :: "orphan_buffer \<Rightarrow> bytes \<Rightarrow> buffered_block list" where
  "pending_for b token_id = (case map_of (by_token b) token_id of Some q \<Rightarrow> q | None \<Rightarrow> [])"

text \<open>
  \<^verbatim>\<open>drop_expired\<close>: every queue keeps its live blocks, and a queue that lost its last block is
  removed from the map.
\<close>

definition live_queue :: "nat \<Rightarrow> buffered_block list \<Rightarrow> buffered_block list" where
  "live_queue now q = filter (\<lambda>b. \<not> is_expired b now) q"

definition removed_keys :: "nat \<Rightarrow> orphan_buffer \<Rightarrow> bytes list" where
  "removed_keys now b =
     map fst (filter (\<lambda>(k, q). length q - length (live_queue now q) > 0 \<and> live_queue now q = []) (by_token b))"

definition drop_expired :: "nat \<Rightarrow> orphan_buffer \<Rightarrow> orphan_buffer" where
  "drop_expired now b =
     (let kept = map (\<lambda>(k, q). (k, live_queue now q)) (by_token b);
          dropped = sum_list (map (\<lambda>(k, q). length q - length (live_queue now q)) (by_token b))
      in b\<lparr>by_token := filter (\<lambda>(k, q). k \<notin> set (removed_keys now b)) kept, ob_count := ob_count b - dropped\<rparr>)"

text \<open>The eviction loop of \<^verbatim>\<open>insert\<close>: the queue and the counter.\<close>

fun evict_oldest :: "nat \<Rightarrow> buffered_block list \<Rightarrow> nat \<Rightarrow> buffered_block list \<times> nat" where
  "evict_oldest limit [] n = ([], n)"
| "evict_oldest limit (x # q) n =
     (if limit \<le> length (x # q) then evict_oldest limit q (n - 1) else (x # q, n))"

definition buffered_of :: "orphan_buffer \<Rightarrow> nat \<Rightarrow> block \<Rightarrow> buffered_block" where
  "buffered_of b now blk =
     \<lparr>bb_block = blk, bb_parent_hash = previous_hash blk, bb_inserted_at = now, bb_ttl = ob_ttl b\<rparr>"

definition orphans_insert ::
    "nat \<Rightarrow> nat \<Rightarrow> bytes \<Rightarrow> block \<Rightarrow> orphan_buffer \<Rightarrow> buffer_decision \<times> orphan_buffer" where
  "orphans_insert now now' token_id blk b0 =
     (let b = drop_expired now b0 in
      if max_entries b \<le> ob_count b then (RejectedFull, b)
      else let (q, n) = evict_oldest (max_per_token b) (pending_for b token_id) (ob_count b)
           in (Buffered, b\<lparr>by_token := AList.update token_id (q @ [buffered_of b now' blk]) (by_token b),
                           ob_count := n + 1\<rparr>))"

text \<open>\<^verbatim>\<open>position\<close>, \<^verbatim>\<open>remove\<close> and the cleanup of an emptied queue.\<close>

fun extract_first :: "('a \<Rightarrow> bool) \<Rightarrow> 'a list \<Rightarrow> ('a \<times> 'a list) option" where
  "extract_first P [] = None"
| "extract_first P (x # xs) =
     (if P x then Some (x, xs)
      else case extract_first P xs of None \<Rightarrow> None | Some (y, ys) \<Rightarrow> Some (y, x # ys))"

definition take_matching :: "bytes \<Rightarrow> bytes \<Rightarrow> nat \<Rightarrow> orphan_buffer \<Rightarrow> block option \<times> orphan_buffer" where
  "take_matching token_id parent_hash now b =
     (case map_of (by_token b) token_id of
        None \<Rightarrow> (None, b)
      | Some q \<Rightarrow>
          (case extract_first (\<lambda>x. \<not> is_expired x now \<and> bb_parent_hash x = parent_hash) q of
             None \<Rightarrow> (None, b)
           | Some (removed, rest) \<Rightarrow>
               (Some (bb_block removed),
                b\<lparr>by_token := (if rest = [] then AList.delete token_id (by_token b)
                               else AList.update token_id rest (by_token b)),
                  ob_count := ob_count b - 1\<rparr>)))"

definition requeue_back :: "nat \<Rightarrow> bytes \<Rightarrow> block \<Rightarrow> orphan_buffer \<Rightarrow> orphan_buffer" where
  "requeue_back now token_id blk b =
     b\<lparr>by_token := AList.update token_id (pending_for b token_id @ [buffered_of b now blk]) (by_token b),
       ob_count := ob_count b + 1\<rparr>"

section \<open>The invariant\<close>

definition total_len_of :: "(bytes \<times> buffered_block list) list \<Rightarrow> nat" where
  "total_len_of m = sum_list (map (\<lambda>(k, q). length q) m)"

definition orphan_queue_ok :: "buffered_block list \<Rightarrow> bool" where
  "orphan_queue_ok q \<longleftrightarrow> q \<noteq> [] \<and> list_all (\<lambda>x. bb_parent_hash x = previous_hash (bb_block x)) q"

definition orphans_ok :: "orphan_buffer \<Rightarrow> bool" where
  "orphans_ok b \<longleftrightarrow>
     distinct (map fst (by_token b)) \<and> list_all (\<lambda>(k, q). orphan_queue_ok q) (by_token b) \<and>
     ob_count b = total_len_of (by_token b)"

lemma total_update:
  "distinct (map fst m) \<Longrightarrow>
     total_len_of (AList.update k q m) + (case map_of m k of Some o' \<Rightarrow> length o' | None \<Rightarrow> 0) =
     total_len_of m + length q"
  by (induction m) (auto simp: total_len_of_def split: option.splits)

lemma total_delete:
  "distinct (map fst m) \<Longrightarrow>
     total_len_of (AList.delete k m) + (case map_of m k of Some o' \<Rightarrow> length o' | None \<Rightarrow> 0) = total_len_of m"
proof (induction m)
  case (Cons e m)
  have "AList.delete k m = m" if "k \<notin> fst ` set m" using that by (simp add: delete_idem)
  then show ?case using Cons
    by (cases e) (auto simp: total_len_of_def delete_idem split: option.splits)
qed (simp add: total_len_of_def)

lemma list_all_update: "list_all P m \<Longrightarrow> P (k, q) \<Longrightarrow> list_all P (AList.update k q m)"
  by (induction m) auto

lemma list_all_delete: "list_all P m \<Longrightarrow> list_all P (AList.delete k m)"
  by (simp add: list_all_iff AList.delete_eq)

lemma map_of_drop_keys: "map_of (filter (\<lambda>(k, q). k \<notin> R) m) k = (if k \<in> R then None else map_of m k)"
  by (induction m) auto

lemma map_of_map_snd: "map_of (map (\<lambda>(k, q). (k, f q)) m) k = map_option f (map_of m k)"
  by (induction m) auto

text \<open>Dropping the expired blocks filters each queue.\<close>

lemma removed_empty:
  assumes "distinct (map fst (by_token b))" and "(k, q) \<in> set (by_token b)" and "k \<in> set (removed_keys now b)"
  shows "live_queue now q = []"
proof -
  from assms(3) obtain q' where "(k, q') \<in> set (by_token b)" "live_queue now q' = []"
    by (auto simp: removed_keys_def)
  then show ?thesis using assms(1,2) by (metis eq_key_imp_eq_value)
qed

lemma pending_drop_expired:
  assumes "distinct (map fst (by_token b))"
  shows "pending_for (drop_expired now b) k = live_queue now (pending_for b k)"
proof (cases "map_of (by_token b) k")
  case None
  then show ?thesis
    by (simp add: drop_expired_def Let_def pending_for_def map_of_drop_keys map_of_map_snd live_queue_def)
next
  case (Some q)
  then have "k \<in> set (removed_keys now b) \<Longrightarrow> live_queue now q = []"
    using removed_empty [OF assms map_of_SomeD] by blast
  then show ?thesis
    using Some by (simp add: drop_expired_def Let_def pending_for_def map_of_drop_keys map_of_map_snd)
qed

lemma total_live:
  "total_len_of (map (\<lambda>(k, q). (k, live_queue now q)) m) +
     sum_list (map (\<lambda>(k, q). length q - length (live_queue now q)) m) = total_len_of m"
proof (induction m)
  case (Cons e m)
  obtain k q where e: "e = (k, q)" by (cases e)
  have "length (live_queue now q) \<le> length q" by (simp add: live_queue_def)
  then show ?case using Cons by (simp add: e total_len_of_def)
qed (simp add: total_len_of_def)

lemma total_filter_empty:
  "list_all (\<lambda>(k, q). k \<in> R \<longrightarrow> q = []) m \<Longrightarrow> total_len_of (filter (\<lambda>(k, q). k \<notin> R) m) = total_len_of m"
  by (induction m) (auto simp: total_len_of_def)

lemma orphans_ok_drop:
  assumes ok: "orphans_ok b"
  shows "orphans_ok (drop_expired now b)"
proof -
  let ?kept = "map (\<lambda>(k, q). (k, live_queue now q)) (by_token b)"
  define R where "R = set (removed_keys now b)"
  have dist: "distinct (map fst (by_token b))" using ok by (simp add: orphans_ok_def)
  have empty: "list_all (\<lambda>(k, q). k \<in> R \<longrightarrow> q = []) ?kept"
    using removed_empty [OF dist] by (auto simp: R_def list_all_iff)
  have nonempty: "orphan_queue_ok (live_queue now q)" if "(k, q) \<in> set (by_token b)" "k \<notin> R" for k q
  proof -
    have "orphan_queue_ok q" using ok that(1) by (auto simp: orphans_ok_def list_all_iff)
    moreover have "live_queue now q \<noteq> [] \<or> length q - length (live_queue now q) = 0"
      using that by (force simp: R_def removed_keys_def)
    ultimately show ?thesis by (auto simp: orphan_queue_ok_def live_queue_def list_all_iff)
  qed
  have bt: "by_token (drop_expired now b) = filter (\<lambda>(k, q). k \<notin> R) ?kept"
    by (simp add: drop_expired_def Let_def R_def)
  have "distinct (map fst ?kept)" using dist by (simp add: comp_def split_def)
  then have "distinct (map fst (by_token (drop_expired now b)))" by (simp add: bt distinct_map_filter)
  moreover have "list_all (\<lambda>(k, q). orphan_queue_ok q) (by_token (drop_expired now b))"
    using nonempty by (auto simp: bt list_all_iff)
  moreover have "ob_count (drop_expired now b) = total_len_of (by_token (drop_expired now b))"
  proof -
    have "total_len_of (by_token (drop_expired now b)) = total_len_of ?kept"
      unfolding bt by (rule total_filter_empty [OF empty])
    moreover have "ob_count b = total_len_of (by_token b)" using ok by (simp add: orphans_ok_def)
    ultimately show ?thesis using total_live [of now "by_token b"] by (simp add: drop_expired_def Let_def)
  qed
  ultimately show ?thesis by (simp add: orphans_ok_def)
qed

lemma evict_oldest_drop:
  "evict_oldest limit q n = (drop (Suc (length q) - limit) q, n - min (length q) (Suc (length q) - limit))"
proof (induction limit q n rule: evict_oldest.induct)
  case (2 limit x q n)
  show ?case
  proof (cases "limit \<le> length (x # q)")
    case True
    then have "Suc (length (x # q)) - limit = Suc (Suc (length q) - limit)" by simp
    then show ?thesis using 2 True by simp
  next
    case False
    then show ?thesis by simp
  qed
qed simp

lemma extract_first_Some:
  "extract_first P xs = Some (y, ys) \<Longrightarrow> \<exists>as bs. xs = as @ y # bs \<and> ys = as @ bs \<and> P y \<and> list_all (\<lambda>x. \<not> P x) as"
proof (induction P xs arbitrary: y ys rule: extract_first.induct)
  case (2 P x xs)
  show ?case
  proof (cases "P x")
    case True
    then have "x # xs = [] @ y # ys \<and> ys = [] @ ys \<and> P y \<and> list_all (\<lambda>x. \<not> P x) []" using 2(2) by simp
    then show ?thesis by blast
  next
    case False
    then obtain zs where "extract_first P xs = Some (y, zs)" "ys = x # zs"
      using 2(2) by (auto split: option.splits)
    moreover from 2(1) [OF False this(1)] obtain as bs where
      "xs = as @ y # bs" "zs = as @ bs" "P y" "list_all (\<lambda>x. \<not> P x) as" by blast
    ultimately have "x # xs = (x # as) @ y # bs \<and> ys = (x # as) @ bs \<and> P y \<and> list_all (\<lambda>x. \<not> P x) (x # as)"
      using False by simp
    then show ?thesis by blast
  qed
qed simp

lemma extract_first_None: "extract_first P xs = None \<longleftrightarrow> list_all (\<lambda>x. \<not> P x) xs"
  by (induction P xs rule: extract_first.induct) (auto split: option.split)

lemma pending_ok: "orphans_ok b \<Longrightarrow> list_all (\<lambda>x. bb_parent_hash x = previous_hash (bb_block x)) (pending_for b k)"
  by (auto simp: orphans_ok_def pending_for_def list_all_iff orphan_queue_ok_def split: option.splits dest!: map_of_SomeD)

lemma length_pending: "(case map_of (by_token b) k of Some q \<Rightarrow> length q | None \<Rightarrow> 0) = length (pending_for b k)"
  by (simp add: pending_for_def split: option.split)

text \<open>Replacing one queue, as \<^verbatim>\<open>insert\<close> and \<^verbatim>\<open>requeue_back\<close> do.\<close>

lemma orphans_ok_put:
  assumes ok: "orphans_ok b" and q: "orphan_queue_ok q" and n: "n + length (pending_for b k) = ob_count b + length q"
  shows "orphans_ok (b\<lparr>by_token := AList.update k q (by_token b), ob_count := n\<rparr>)"
  using assms total_update [of "by_token b" k q] length_pending [of b k]
  by (auto simp: orphans_ok_def distinct_update intro: list_all_update)

lemma pending_put: "pending_for (b\<lparr>by_token := AList.update k q m, ob_count := n\<rparr>) j =
    (if j = k then q else case map_of m j of Some q \<Rightarrow> q | None \<Rightarrow> [])"
  by (simp add: pending_for_def update_conv)

lemma orphans_ok_insert:
  assumes "orphans_ok b"
  shows "orphans_ok (snd (orphans_insert now now' k blk b))"
proof -
  let ?b = "drop_expired now b"
  have ok: "orphans_ok ?b" by (rule orphans_ok_drop [OF assms])
  let ?p = "pending_for ?b k"
  let ?d = "Suc (length ?p) - max_per_token ?b"
  have le: "length ?p \<le> ob_count ?b"
    using ok total_delete [of "by_token ?b" k] length_pending [of ?b k] by (simp add: orphans_ok_def)
  have "orphan_queue_ok (drop ?d ?p @ [buffered_of ?b now' blk])"
    using pending_ok [OF ok, of k] by (auto simp: orphan_queue_ok_def list_all_iff buffered_of_def dest: in_set_dropD)
  then have "orphans_ok (?b\<lparr>by_token := AList.update k (drop ?d ?p @ [buffered_of ?b now' blk]) (by_token ?b),
      ob_count := ob_count ?b - min (length ?p) ?d + 1\<rparr>)"
    using ok le by (intro orphans_ok_put) auto
  then show ?thesis using ok by (simp add: orphans_insert_def Let_def evict_oldest_drop)
qed

lemma orphans_ok_requeue: "orphans_ok b \<Longrightarrow> orphans_ok (requeue_back now k blk b)"
  unfolding requeue_back_def
  using pending_ok by (intro orphans_ok_put) (auto simp: orphan_queue_ok_def buffered_of_def)

lemma orphans_ok_take:
  assumes ok: "orphans_ok b"
  shows "orphans_ok (snd (take_matching k h now b))"
proof (cases "fst (take_matching k h now b)")
  case None
  then show ?thesis using ok by (auto simp: take_matching_def split: option.splits)
next
  case (Some blk)
  then obtain q x rest where q: "map_of (by_token b) k = Some q"
    and x: "extract_first (\<lambda>x. \<not> is_expired x now \<and> bb_parent_hash x = h) q = Some (x, rest)"
    by (auto simp: take_matching_def split: option.splits)
  from extract_first_Some [OF x] have len: "length q = Suc (length rest)" and sub: "set rest \<subseteq> set q" by auto
  have d: "distinct (map fst (by_token b))" using ok by (simp add: orphans_ok_def)
  have n: "ob_count b = total_len_of (by_token b)" using ok by (simp add: orphans_ok_def)
  have qok: "orphan_queue_ok q" using ok map_of_SomeD [OF q] by (auto simp: orphans_ok_def list_all_iff)
  show ?thesis
  proof (cases "rest = []")
    case True
    then show ?thesis
      using ok total_delete [OF d, of k] q x len n
      by (simp add: take_matching_def orphans_ok_def distinct_delete list_all_delete)
  next
    case False
    then have "orphan_queue_ok rest" using qok sub by (auto simp: orphan_queue_ok_def list_all_iff)
    then show ?thesis
      using ok total_update [OF d, of k rest] q x len n False
      by (simp add: take_matching_def orphans_ok_def distinct_update list_all_update)
  qed
qed

inductive orphans_run :: "nat \<Rightarrow> nat \<Rightarrow> nat \<Rightarrow> orphan_buffer \<Rightarrow> bool" for me mp t where
  start: "orphans_run me mp t (orphans_new me mp t)"
| run_insert: "orphans_run me mp t b \<Longrightarrow> orphans_run me mp t (snd (orphans_insert now now' k blk b))"
| run_take: "orphans_run me mp t b \<Longrightarrow> orphans_run me mp t (snd (take_matching k h now b))"
| run_requeue: "orphans_run me mp t b \<Longrightarrow> orphans_run me mp t (requeue_back now k blk b)"
| run_drop: "orphans_run me mp t b \<Longrightarrow> orphans_run me mp t (drop_expired now b)"

lemma orphans_run_ok: "orphans_run me mp t b \<Longrightarrow> orphans_ok b"
  by (induction rule: orphans_run.induct)
    (simp_all add: orphans_ok_insert orphans_ok_take orphans_ok_requeue orphans_ok_drop,
      simp add: orphans_ok_def orphans_new_def total_len_of_def)

lemma orphans_run_params:
  "orphans_run me mp t b \<Longrightarrow> max_entries b = me \<and> max_per_token b = mp \<and> ob_ttl b = t"
  by (induction rule: orphans_run.induct)
    (auto simp: orphans_new_def orphans_insert_def take_matching_def requeue_back_def drop_expired_def Let_def
      split: option.splits prod.splits)

section \<open>Properties\<close>

text \<open>In every reachable buffer the counter is the number of blocks held, and no empty queue
  is kept.  An insert is refused exactly when as many live blocks are held as the global cap
  allows, and then only expired blocks go; otherwise the block becomes the newest of its
  token, that token keeps its newest live blocks up to its own cap, other tokens lose only
  expired blocks, and the global cap holds afterwards.\<close>

theorem orphans_insert_exact:
  assumes "orphans_run me mp t b" and "orphans_insert now now' k blk b = (decision, b')"
  shows "orphans_len b' = total_len_of (by_token b') \<and>
     (\<forall>j. j \<noteq> k \<longrightarrow> pending_for b' j = live_queue now (pending_for b j)) \<and>
     (case decision of
        RejectedFull \<Rightarrow> me \<le> orphans_len b' \<and> pending_for b' k = live_queue now (pending_for b k)
      | Buffered \<Rightarrow>
          pending_for b' k = drop (Suc (length (live_queue now (pending_for b k))) - mp) (live_queue now (pending_for b k)) @
            [\<lparr>bb_block = blk, bb_parent_hash = previous_hash blk, bb_inserted_at = now', bb_ttl = t\<rparr>] \<and>
          length (pending_for b' k) \<le> max mp 1 \<and> orphans_len b' \<le> me)"
proof -
  have ok: "orphans_ok b" and ps: "max_entries b = me" "max_per_token b = mp" "ob_ttl b = t"
    using orphans_run_ok orphans_run_params assms(1) by blast+
  have ok': "orphans_ok b'" using orphans_ok_insert [OF ok, of now now' k blk] assms(2) by simp
  have d: "distinct (map fst (by_token b))" using ok by (simp add: orphans_ok_def)
  let ?b = "drop_expired now b"
  have pd: "max_entries ?b = me" "max_per_token ?b = mp" "ob_ttl ?b = t"
    using ps by (simp_all add: drop_expired_def Let_def)
  have others: "(case map_of (by_token ?b) j of Some q \<Rightarrow> q | None \<Rightarrow> []) = live_queue now (pending_for b j)" for j
    using pending_drop_expired [OF d, of now j] by (simp add: pending_for_def)
  have count: "orphans_len b' = total_len_of (by_token b')" using ok' by (simp add: orphans_ok_def orphans_len_def)
  show ?thesis
  proof (cases "me \<le> ob_count ?b")
    case True
    then show ?thesis
      using assms(2) pd count pending_drop_expired [OF d, of now] by (auto simp: orphans_insert_def Let_def orphans_len_def)
  next
    case False
    then show ?thesis
      using assms(2) pd count pending_drop_expired [OF d, of now]
      by (auto simp: orphans_insert_def Let_def evict_oldest_drop pending_put others orphans_len_def buffered_of_def)
  qed
qed

text \<open>Promotion takes the oldest live block of the token that chains onto the given parent, and
  removes it alone; it returns nothing exactly when no live block of the token does.\<close>

theorem take_matching_exact:
  assumes "orphans_run me mp t b" and "take_matching k h now b = (found, b')"
  shows "case found of
      None \<Rightarrow> b' = b \<and> list_all (\<lambda>x. is_expired x now \<or> previous_hash (bb_block x) \<noteq> h) (pending_for b k)
    | Some blk \<Rightarrow>
        \<exists>as x bs. pending_for b k = as @ x # bs \<and> bb_block x = blk \<and> previous_hash blk = h \<and> \<not> is_expired x now \<and>
          list_all (\<lambda>y. is_expired y now \<or> previous_hash (bb_block y) \<noteq> h) as \<and>
          pending_for b' k = as @ bs \<and> (\<forall>j. j \<noteq> k \<longrightarrow> pending_for b' j = pending_for b j) \<and>
          orphans_len b = Suc (orphans_len b')"
proof -
  have ok: "orphans_ok b" using orphans_run_ok assms(1) by blast
  let ?P = "\<lambda>x. \<not> is_expired x now \<and> bb_parent_hash x = h"
  have parent: "list_all (\<lambda>x. bb_parent_hash x = previous_hash (bb_block x)) (pending_for b k)" by (rule pending_ok [OF ok])
  show ?thesis
  proof (cases "extract_first ?P (pending_for b k)")
    case None
    then show ?thesis
      using assms(2) parent extract_first_None [of ?P "pending_for b k"]
      by (auto simp: take_matching_def pending_for_def list_all_iff split: option.splits)
  next
    case (Some r)
    then obtain x rest where x: "extract_first ?P (pending_for b k) = Some (x, rest)" by (cases r) auto
    then obtain q where q: "map_of (by_token b) k = Some q" "pending_for b k = q"
      by (auto simp: pending_for_def split: option.splits)
    from extract_first_Some [OF x] obtain as bs where s: "pending_for b k = as @ x # bs" "rest = as @ bs" "?P x"
      "list_all (\<lambda>x. \<not> ?P x) as" by blast
    have b': "found = Some (bb_block x)" "b' = b\<lparr>by_token := (if rest = [] then AList.delete k (by_token b)
        else AList.update k rest (by_token b)), ob_count := ob_count b - 1\<rparr>"
      using assms(2) q x by (auto simp: take_matching_def)
    have "pending_for b' k = rest" "\<forall>j. j \<noteq> k \<longrightarrow> pending_for b' j = pending_for b j"
      by (auto simp: b' pending_for_def update_conv delete_conv)
    moreover have "0 < length q" using s(1) q by auto
    then have "0 < total_len_of (by_token b)"
      using ok total_delete [of "by_token b" k] q(1) unfolding orphans_ok_def by (metis add_gr_0 option.simps(5))
    then have "0 < ob_count b" using ok by (simp add: orphans_ok_def)
    moreover have "previous_hash (bb_block x) = h"
        "list_all (\<lambda>y. is_expired y now \<or> previous_hash (bb_block y) \<noteq> h) as"
      using s parent by (auto simp: list_all_iff)
    moreover have "orphans_len b = Suc (orphans_len b')" using \<open>0 < ob_count b\<close> by (simp add: b' orphans_len_def)
    ultimately show ?thesis using s unfolding b'(1) option.case by blast
  qed
qed

theorem orphans_insert_exact_witness:
  "orphans_len (snd (orphans_insert 0 0 [1] (demo_block [5]) (orphans_new 4 2 9))) \<le> 4"
  using orphans_insert_exact [OF orphans_run.start, of 0 0 "[1]" "demo_block [5]" 4 2 9]
  by (auto simp: orphans_insert_def Let_def orphans_new_def drop_expired_def removed_keys_def pending_for_def orphans_len_def)

definition one_orphan :: orphan_buffer where
  "one_orphan = snd (orphans_insert 0 0 [1] (demo_block [5]) (orphans_new 4 2 9))"

theorem take_matching_exact_witness:
  "\<exists>b'. take_matching [1] [5] 3 one_orphan = (Some (demo_block [5]), b') \<and> orphans_len one_orphan = Suc (orphans_len b')"
proof -
  have "fst (take_matching [1] [5] 3 one_orphan) = Some (demo_block [5])"
    by (simp add: one_orphan_def take_matching_def orphans_insert_def Let_def orphans_new_def drop_expired_def
        removed_keys_def pending_for_def buffered_of_def is_expired_def demo_block_def)
  then obtain b' where b': "take_matching [1] [5] 3 one_orphan = (Some (demo_block [5]), b')" by (metis prod.collapse)
  have "orphans_run 4 2 9 one_orphan" unfolding one_orphan_def by (intro orphans_run.intros)
  from take_matching_exact [OF this b'] b' show ?thesis by auto
qed

end
