(* ===== verification/Tokens.thy ===== *)
theory Tokens
  imports Blocks Pending_Registry Floats
begin

text \<open>
  Tokens of \<^verbatim>\<open>src/tokens.rs\<close>, each with its own chain: block validation and the commit
  with tip rollback and trimming, minting with its fee, and the gas model of
  \<^verbatim>\<open>src/environment.rs\<close>.  The encoder and decoder of an asset and the validator specs an
  environment registers are parameters, as they are trait objects in the source.
\<close>

section \<open>The cost model\<close>

datatype node_registry_type = Committer | Sentinel | Executor | Finalizer | Archiver

record cost_model =
  base_cost :: u64
  global_min_stake :: u64
  cm_admin_public_key :: bytes
  admin_tax_percentage :: f64
  amount_multiplier :: "(string \<times> f64) list"
  per_type_min_stake :: "(node_registry_type \<times> u64) list"
  slash_fraction :: f64

definition GAS_SCALE :: u64 where "GAS_SCALE = 10000"

definition multiplier_to_fixed :: "f64 \<Rightarrow> u64" where
  "multiplier_to_fixed multiplier =
     f64_as_u64 (f64_round_int (f64_mult multiplier (f64_of_u64 GAS_SCALE)))"

definition gas_from_amount :: "u64 \<Rightarrow> u64 \<Rightarrow> u64" where
  "gas_from_amount amount multiplier = saturating_mul amount multiplier div GAS_SCALE"

definition compute_gas :: "cost_model \<Rightarrow> u64 \<Rightarrow> f64 \<Rightarrow> u64" where
  "compute_gas cm amount multiplier =
     saturating_add (base_cost cm) (gas_from_amount amount (multiplier_to_fixed multiplier))"

definition default_amount_multiplier :: "(string \<times> f64) list" where
  "default_amount_multiplier = [(''Process'', Fin 1), (''Preload'', Fin 2), (''Sign'', Fin (3 / 2))]"

definition cost_model_default :: cost_model where
  "cost_model_default =
     \<lparr>base_cost = 1, global_min_stake = 10, cm_admin_public_key = [], admin_tax_percentage = Fin 0,
      amount_multiplier = default_amount_multiplier, per_type_min_stake = [], slash_fraction = Fin 1\<rparr>"

section \<open>Tokens\<close>

record user =
  user_public_key :: bytes
  fuel_balance :: u64
  user_stake :: u64
  user_nonce :: nat

definition user_new :: "bytes \<Rightarrow> user" where
  "user_new pk = \<lparr>user_public_key = pk, fuel_balance = 0, user_stake = 0, user_nonce = 0\<rparr>"

record token =
  tok_id :: bytes
  tok_metadata :: "(string \<times> string) list"
  tok_blockchain :: blockchain
  asset_data :: "bytes option"
  asset_hash :: bytes
  security_level :: nat
  is_self_verified :: bool
  is_non_transferable :: bool
  block_validation_spec_name :: string
  tok_environment_id :: string
  tok_sequence_number :: nat

definition DEFAULT_SECURITY_LEVEL :: nat where "DEFAULT_SECURITY_LEVEL = 5"

definition token_new :: token where
  "token_new =
     \<lparr>tok_id = [], tok_metadata = [], tok_blockchain = blockchain_new, asset_data = None,
      asset_hash = [], security_level = DEFAULT_SECURITY_LEVEL, is_self_verified = False,
      is_non_transferable = False, block_validation_spec_name = ''SelfSigned'',
      tok_environment_id = ''default'', tok_sequence_number = 0\<rparr>"

definition from_asset :: "('a \<Rightarrow> io_error + bytes) \<Rightarrow> 'a \<Rightarrow> io_error + token" where
  "from_asset ser asset =
     (case ser asset of
        Inl e \<Rightarrow> Inl e
      | Inr data \<Rightarrow> Inr (token_new\<lparr>asset_data := Some data\<rparr>))"

definition with_id :: "bytes \<Rightarrow> token \<Rightarrow> token" where
  "with_id i t = t\<lparr>tok_id := i\<rparr>"

definition with_is_self_verified :: "bool \<Rightarrow> token \<Rightarrow> token" where
  "with_is_self_verified v t = t\<lparr>is_self_verified := v\<rparr>"

definition set_metadata :: "string \<Rightarrow> string \<Rightarrow> token \<Rightarrow> token" where
  "set_metadata k v t = t\<lparr>tok_metadata := AList.update k v (tok_metadata t)\<rparr>"

definition is_shielded_opt_in :: "token \<Rightarrow> bool" where
  "is_shielded_opt_in t =
     (case map_of (tok_metadata t) ''shielded_opt_in'' of Some v \<Rightarrow> v = ''true'' | None \<Rightarrow> False)"

definition get_asset :: "(bytes \<Rightarrow> io_error + 'a) \<Rightarrow> token \<Rightarrow> 'a option" where
  "get_asset de t =
     (case asset_data t of
        None \<Rightarrow> None
      | Some d \<Rightarrow> (case de d of Inr a \<Rightarrow> Some a | Inl _ \<Rightarrow> None))"

definition set_asset :: "('a \<Rightarrow> io_error + bytes) \<Rightarrow> 'a \<Rightarrow> token \<Rightarrow> (io_error + unit) \<times> token" where
  "set_asset ser asset t =
     (case ser asset of Inl e \<Rightarrow> (Inl e, t) | Inr d \<Rightarrow> (Inr (), t\<lparr>asset_data := Some d\<rparr>))"

definition update_asset ::
    "(bytes \<Rightarrow> io_error + 'a) \<Rightarrow> ('a \<Rightarrow> io_error + bytes) \<Rightarrow> ('a \<Rightarrow> 'a) \<Rightarrow> token \<Rightarrow> 'a option \<times> token" where
  "update_asset de ser f t =
     (case asset_data t of
        None \<Rightarrow> (None, t)
      | Some d \<Rightarrow>
          (case de d of
             Inl _ \<Rightarrow> (None, t)
           | Inr a \<Rightarrow>
               (case ser (f a) of
                  Inl _ \<Rightarrow> (None, t)
                | Inr d' \<Rightarrow> (Some (f a), t\<lparr>asset_data := Some d'\<rparr>))))"

section \<open>Block validation and commit\<close>

datatype spec_result = SpecValid | SpecInvalid "validation_failure_reason list"

type_synonym block_specs = "(string \<times> (block \<Rightarrow> token \<Rightarrow> spec_result res)) list"

definition validator_name_of :: "token \<Rightarrow> string" where
  "validator_name_of t =
     (if block_validation_spec_name t = []
      then (case map_of (tok_metadata t) ''validator_name'' of Some n \<Rightarrow> n | None \<Rightarrow> [])
      else block_validation_spec_name t)"

definition validate_block ::
    "codec \<Rightarrow> (bytes \<Rightarrow> bytes) \<Rightarrow> block_specs \<Rightarrow> token \<Rightarrow> block \<Rightarrow> block_validation_error + unit" where
  "validate_block c hash specs t b =
     (if \<not> validate_next_block c hash (tok_blockchain t) b then Inl ChainLinkage
      else case map_of specs (validator_name_of t) of
             None \<Rightarrow> Inl NoValidatorRegistered
           | Some spec \<Rightarrow>
               (case spec b t of
                  Inr SpecValid \<Rightarrow> Inr ()
                | Inr (SpecInvalid reasons) \<Rightarrow> Inl (InvalidBlock reasons)
                | Inl (Validation reasons) \<Rightarrow> Inl (InvalidBlock reasons)
                | Inl _ \<Rightarrow> Inl (InvalidBlock [])))"

definition create_block :: "i64 \<Rightarrow> token \<Rightarrow> signed_transaction \<Rightarrow> u64 \<Rightarrow> block" where
  "create_block now t sx epoch =
     \<lparr>signed_trans = sx, token_metadata = tok_metadata t,
      previous_hash = (if get_count (tok_blockchain t) = 0 then [] else cached_tip (tok_blockchain t)),
      current_hash = [], blk_timestamp = now, blk_finality = Optimistic,
      blk_proposer_key = sx_proposer_key sx, blk_epoch = epoch\<rparr>"

definition has_reached_max_chain_length :: "token \<Rightarrow> bool" where
  "has_reached_max_chain_length t \<longleftrightarrow> security_level t = get_count (tok_blockchain t)"

record token_commit_result =
  cr_token_id :: bytes
  cr_new_chain_length :: nat
  cr_sequence_number :: nat

definition rollback_tip :: "bytes option \<Rightarrow> token \<Rightarrow> block option \<times> token" where
  "rollback_tip loser t =
     (case loser of
        Some loser_hash \<Rightarrow>
          if cached_tip (tok_blockchain t) = loser_hash
          then (let (b, bc) = remove_block (tok_blockchain t) in (b, t\<lparr>tok_blockchain := bc\<rparr>))
          else (None, t)
      | None \<Rightarrow> (None, t))"

definition restore_tip :: "block option \<Rightarrow> token \<Rightarrow> token" where
  "restore_tip removed t =
     (case removed of
        Some loser \<Rightarrow> t\<lparr>tok_blockchain := add_block loser (tok_blockchain t)\<rparr>
      | None \<Rightarrow> t)"

definition commit_block ::
    "codec \<Rightarrow> (bytes \<Rightarrow> bytes) \<Rightarrow> block_specs \<Rightarrow> block \<Rightarrow> bool \<Rightarrow> bytes option \<Rightarrow> token \<Rightarrow>
     (block_commit_error + token_commit_result) \<times> token" where
  "commit_block c hash specs b is_archiver rollback_tip_hash t =
     (case create_hash c hash b of
        Inl _ \<Rightarrow> (Inl (HashErr ''create_hash''), t)
      | Inr h \<Rightarrow>
          let b' = b\<lparr>current_hash := h\<rparr>;
              (removed, t1) = rollback_tip rollback_tip_hash t
          in case validate_block c hash specs t1 b' of
               Inl e \<Rightarrow> (Inl (BlockValidationErr e), restore_tip removed t1)
             | Inr _ \<Rightarrow>
                 let t2 = (if \<not> is_archiver \<and> has_reached_max_chain_length t1
                           then t1\<lparr>tok_blockchain := snd (remove_oldest (tok_blockchain t1))\<rparr> else t1);
                     t3 = t2\<lparr>tok_blockchain := add_block b' (tok_blockchain t2),
                             tok_sequence_number := tok_sequence_number t2 + 1\<rparr>
                 in (Inr \<lparr>cr_token_id = tok_id t3,
                          cr_new_chain_length = get_count (tok_blockchain t3),
                          cr_sequence_number = tok_sequence_number t3\<rparr>, t3))"

section \<open>Minting\<close>

definition parse_bool :: "string \<Rightarrow> bool option" where
  "parse_bool s = (if s = ''true'' then Some True else if s = ''false'' then Some False else None)"

definition mint_token ::
    "('a \<Rightarrow> io_error + bytes) \<Rightarrow> 'a \<Rightarrow> bytes \<Rightarrow> (string \<times> string) list \<Rightarrow> string \<Rightarrow> io_error + token" where
  "mint_token ser asset i metadata env_id =
     (case from_asset ser asset of
        Inl e \<Rightarrow> Inl e
      | Inr t0 \<Rightarrow>
          let t1 = t0\<lparr>tok_id := i, tok_metadata := metadata, tok_environment_id := env_id\<rparr>;
              t2 = (case map_of metadata ''is_self_verified'' of
                      Some s \<Rightarrow> t1\<lparr>is_self_verified := (case parse_bool s of Some v \<Rightarrow> v | None \<Rightarrow> False)\<rparr>
                    | None \<Rightarrow> t1);
              t3 = (case map_of metadata ''validator_name'' of
                      Some n \<Rightarrow> t2\<lparr>block_validation_spec_name := n\<rparr>
                    | None \<Rightarrow> t2)
          in Inr t3)"

text \<open>The user records of the data provider, as the two calls that minting makes.\<close>

record 'd user_store =
  ust_get :: "'d \<Rightarrow> bytes \<Rightarrow> string \<Rightarrow> data_error + user"
  ust_save :: "bytes \<Rightarrow> user \<Rightarrow> string \<Rightarrow> 'd \<Rightarrow> (data_error + unit) \<times> 'd"

record mint_args =
  ma_owner_key :: bytes
  ma_initial_fuel_deposit :: u64
  ma_cost_model :: cost_model
  ma_partition_id :: string

record mint_result =
  mr_token :: token
  mr_admin_credit_id :: "string option"

fun show_nat :: "nat \<Rightarrow> string" where
  "show_nat n = (if n < 10 then [char_of (48 + n)] else show_nat (n div 10) @ [char_of (48 + n mod 10)])"

declare show_nat.simps [simp del]

text \<open>The identifier of an admin credit; the \<^verbatim>\<open>hex\<close> crate is a parameter.\<close>

definition credit_name :: "(bytes \<Rightarrow> string) \<Rightarrow> bytes \<Rightarrow> bytes \<Rightarrow> string" where
  "credit_name hex i owner =
     ''admin_credit_'' @ hex i @ ''_'' @ show_nat (case owner of [] \<Rightarrow> 0 | k # _ \<Rightarrow> unat k)"

definition mint_token_full ::
    "('a \<Rightarrow> io_error + bytes) \<Rightarrow> 'd user_store \<Rightarrow> (bytes \<Rightarrow> string) \<Rightarrow> 'a \<Rightarrow> mint_args \<Rightarrow> bytes \<Rightarrow>
     (string \<times> string) list \<Rightarrow> string \<Rightarrow> 'd \<Rightarrow> pending_registry \<Rightarrow>
     (io_error + mint_result) \<times> 'd \<times> pending_registry" where
  "mint_token_full ser us hex asset args i metadata env_id d r =
     (case mint_token ser asset i metadata env_id of
        Inl e \<Rightarrow> (Inl e, d, r)
      | Inr t \<Rightarrow>
          let minting_fee = base_cost (ma_cost_model args) * 10 in
          (case ust_get us d (ma_owner_key args) (ma_partition_id args) of
             Inl _ \<Rightarrow> (Inl ''get_user'', d, r)
           | Inr u0 \<Rightarrow>
               let u = (if ma_initial_fuel_deposit args > 0
                        then u0\<lparr>fuel_balance := ma_initial_fuel_deposit args\<rparr> else u0) in
               if fuel_balance u < minting_fee then (Inl ''InsufficientGas'', d, r)
               else
                 (case ust_save us (ma_owner_key args)
                         (u\<lparr>fuel_balance := fuel_balance u - minting_fee\<rparr>) (ma_partition_id args) d of
                    (Inl _, d') \<Rightarrow> (Inl ''save_user'', d', r)
                  | (Inr _, d') \<Rightarrow>
                      let admin_tax = f64_mult (f64_of_u64 minting_fee)
                                        (admin_tax_percentage (ma_cost_model args)) in
                      if f64_less (Fin 0) admin_tax then
                        let cid = credit_name hex i (ma_owner_key args) in
                        (Inr \<lparr>mr_token = t, mr_admin_credit_id = Some cid\<rparr>, d',
                         record_admin_credit
                           \<lparr>credit_id = cid, admin_public_key = cm_admin_public_key (ma_cost_model args),
                            credit_amount = f64_as_u64 admin_tax, credit_token = i\<rparr> r)
                      else (Inr \<lparr>mr_token = t, mr_admin_credit_id = None\<rparr>, d', r))))"

section \<open>Facts on commits\<close>

lemma rollback_restore: "rollback_tip l t = (removed, t1) \<Longrightarrow> restore_tip removed t1 = t"
  by (auto simp: rollback_tip_def restore_tip_def remove_block_def add_block_def
      split: option.splits if_splits prod.splits)

lemma rollback_other:
  "rollback_tip l t = (removed, t1) \<Longrightarrow>
   t1 = t\<lparr>tok_blockchain := tok_blockchain t1\<rparr> \<and>
   chain (tok_blockchain t1) = (if removed = None then chain (tok_blockchain t) else butlast (chain (tok_blockchain t)))"
  by (auto simp: rollback_tip_def remove_block_def split: option.splits if_splits prod.splits)

lemma chain_valid_rollback:
  "rollback_tip l t = (removed, t1) \<Longrightarrow> chain_valid c hash (tok_blockchain t) \<Longrightarrow>
   chain_valid c hash (tok_blockchain t1)"
  using chain_valid_remove [of c hash "tok_blockchain t"]
  by (auto simp: rollback_tip_def split: option.splits if_splits prod.splits)

lemma validate_block_next: "validate_block c hash specs t b = Inr x \<Longrightarrow> validate_next_block c hash (tok_blockchain t) b"
  by (auto simp: validate_block_def split: if_splits)

lemma create_hash_ignores_current: "create_hash c hash (b\<lparr>current_hash := h\<rparr>) = create_hash c hash b"
  by (simp add: create_hash_def hash_input_def)

lemma commit_block_ok:
  assumes "commit_block c hash specs b archiver l t = (Inr res, t')"
  obtains h removed t1 where
    "create_hash c hash b = Inr h" "rollback_tip l t = (removed, t1)"
    "validate_block c hash specs t1 (b\<lparr>current_hash := h\<rparr>) = Inr ()"
    "chain (tok_blockchain t') =
       (if \<not> archiver \<and> has_reached_max_chain_length t1 then tl (chain (tok_blockchain t1))
        else chain (tok_blockchain t1)) @ [b\<lparr>current_hash := h\<rparr>]"
    "tok_sequence_number t' = tok_sequence_number t + 1" "security_level t' = security_level t"
    "tok_id t' = tok_id t" "cr_new_chain_length res = length (chain (tok_blockchain t'))"
proof -
  obtain h where h: "create_hash c hash b = Inr h"
    using assms by (auto simp: commit_block_def split: sum.splits)
  obtain removed t1 where rb: "rollback_tip l t = (removed, t1)" by fastforce
  have v: "validate_block c hash specs t1 (b\<lparr>current_hash := h\<rparr>) = Inr ()"
    using assms h rb by (auto simp: commit_block_def Let_def split: sum.splits)
  have same: "tok_sequence_number t1 = tok_sequence_number t" "security_level t1 = security_level t" "tok_id t1 = tok_id t"
    using rollback_other [OF rb] by (metis token.select_convs token.surjective token.update_convs(3))+
  have "t' = (let t2 = (if \<not> archiver \<and> has_reached_max_chain_length t1
                           then t1\<lparr>tok_blockchain := snd (remove_oldest (tok_blockchain t1))\<rparr> else t1)
               in t2\<lparr>tok_blockchain := add_block (b\<lparr>current_hash := h\<rparr>) (tok_blockchain t2),
                             tok_sequence_number := tok_sequence_number t2 + 1\<rparr>)"
    and "cr_new_chain_length res = get_count (tok_blockchain t')"
    using assms h rb v by (auto simp: commit_block_def Let_def)
  then show thesis
    using that [OF h rb v] same
    by (simp add: Let_def add_block_def remove_oldest_def get_count_def split: list.splits if_splits)
qed

lemma commit_block_error_same:
  assumes "commit_block c hash specs b archiver l t = (Inl e, t')"
  shows "t' = t"
proof (cases "create_hash c hash b")
  case (Inl x)
  then show ?thesis using assms by (simp add: commit_block_def)
next
  case (Inr h)
  obtain removed t1 where rb: "rollback_tip l t = (removed, t1)" by fastforce
  show ?thesis
    using assms Inr rb rollback_restore [OF rb] by (auto simp: commit_block_def Let_def split: sum.splits)
qed

lemma commit_block_valid:
  assumes "chain_valid c hash (tok_blockchain t)" and "\<forall>x. hash x \<noteq> []"
    and "commit_block c hash specs b archiver l t = (Inr res, t')"
  shows "chain_valid c hash (tok_blockchain t')"
proof -
  obtain h removed t1 where c: "create_hash c hash b = Inr h" "rollback_tip l t = (removed, t1)"
      "validate_block c hash specs t1 (b\<lparr>current_hash := h\<rparr>) = Inr ()"
      "chain (tok_blockchain t') =
         (if \<not> archiver \<and> has_reached_max_chain_length t1 then tl (chain (tok_blockchain t1))
          else chain (tok_blockchain t1)) @ [b\<lparr>current_hash := h\<rparr>]"
    using commit_block_ok [OF assms(3)] by metis
  let ?b = "b\<lparr>current_hash := h\<rparr>"
  have full: "chain_valid c hash (add_block ?b (tok_blockchain t1))"
    using chain_valid_add [OF chain_valid_rollback [OF c(2) assms(1)] _ _ assms(2)] validate_block_next [OF c(3)]
    by (simp add: validate_next_block_iff)
  show ?thesis
  proof (cases "\<not> archiver \<and> has_reached_max_chain_length t1")
    case True
    have "linked (tl (chain (tok_blockchain t1)) @ [?b])"
      using full by (cases "chain (tok_blockchain t1)")
        (auto simp: chain_valid_def add_block_def linked_def successively_Cons)
    moreover have "set (tl xs) \<subseteq> set xs" for xs :: "block list" by (cases xs) auto
    ultimately show ?thesis using full c(4) True by (auto simp: chain_valid_def add_block_def)
  next
    case False
    then show ?thesis using full c(4) by (auto simp: chain_valid_def add_block_def)
  qed
qed

text \<open>C18: a commit that fails leaves the token as it was, also when the losing tip had already
  been rolled back for the winner of a conflict.\<close>

theorem commit_block_error_atomic:
  assumes "commit_block c hash specs b archiver l t = (Inl e, t')"
  shows "t' = t"
  by (rule commit_block_error_same [OF assms])

text \<open>C2: a successful commit on a valid chain yields a valid chain whose tip is the committed
  block under its recomputed hash; that block links to the tip left by the rollback, the
  chain otherwise keeps its blocks up to one trimmed at the front, and the token's
  sequence number grows by one.\<close>

theorem commit_block_extends_chain:
  assumes "chain_valid c hash (tok_blockchain t)" and "\<forall>x. hash x \<noteq> []"
    and "commit_block c hash specs b archiver l t = (Inr res, t')"
  shows "chain_valid c hash (tok_blockchain t') \<and>
         create_hash c hash b = Inr (cached_tip (tok_blockchain t')) \<and>
         last (chain (tok_blockchain t')) = b\<lparr>current_hash := cached_tip (tok_blockchain t')\<rparr> \<and>
         links_to (cached_tip (tok_blockchain (snd (rollback_tip l t)))) b \<and>
         suffix (butlast (chain (tok_blockchain t'))) (chain (tok_blockchain (snd (rollback_tip l t)))) \<and>
         tok_sequence_number t' = tok_sequence_number t + 1"
proof -
  obtain h removed t1 where c: "create_hash c hash b = Inr h" "rollback_tip l t = (removed, t1)"
      "validate_block c hash specs t1 (b\<lparr>current_hash := h\<rparr>) = Inr ()"
      "chain (tok_blockchain t') =
         (if \<not> archiver \<and> has_reached_max_chain_length t1 then tl (chain (tok_blockchain t1))
          else chain (tok_blockchain t1)) @ [b\<lparr>current_hash := h\<rparr>]"
      "tok_sequence_number t' = tok_sequence_number t + 1"
    using commit_block_ok [OF assms(3)] by metis
  have "cached_tip (tok_blockchain t') = h" using c(4) by (simp add: cached_tip_def last_block_def)
  moreover have "links_to (cached_tip (tok_blockchain t1)) b"
    using validate_block_next [OF c(3)] by (auto simp: validate_next_block_iff links_to_def split: if_splits)
  moreover have "suffix (butlast (chain (tok_blockchain t'))) (chain (tok_blockchain t1))"
    using c(4) by (simp add: suffix_tl)
  ultimately show ?thesis using c commit_block_valid [OF assms] by simp
qed

text \<open>A committer that does not archive keeps at most as many blocks as the token's
  security level, once the chain is within that bound and the level is positive.\<close>

theorem commit_block_bounded:
  assumes "0 < security_level t" and "length (chain (tok_blockchain t)) \<le> security_level t"
    and "commit_block c hash specs b False l t = (Inr res, t')"
  shows "length (chain (tok_blockchain t')) \<le> security_level t' \<and> security_level t' = security_level t \<and>
         cr_new_chain_length res = length (chain (tok_blockchain t'))"
proof -
  obtain h removed t1 where c: "rollback_tip l t = (removed, t1)"
      "chain (tok_blockchain t') =
         (if \<not> False \<and> has_reached_max_chain_length t1 then tl (chain (tok_blockchain t1))
          else chain (tok_blockchain t1)) @ [b\<lparr>current_hash := h\<rparr>]"
      "security_level t' = security_level t" "cr_new_chain_length res = length (chain (tok_blockchain t'))"
    using commit_block_ok [OF assms(3)] by metis
  have "security_level t1 = security_level t" "length (chain (tok_blockchain t1)) \<le> security_level t"
    using rollback_other [OF c(1)] assms(2)
    by (metis token.select_convs(6) token.surjective token.update_convs(3), auto split: if_splits)
  then show ?thesis
    using c assms(1) by (auto simp: has_reached_max_chain_length_def get_count_def)
qed

text \<open>The trim fires only at equality: a chain already longer than the security level is
  never trimmed again, so every further commit makes it longer.\<close>

theorem commit_block_overlong_grows:
  assumes "security_level t < length (chain (tok_blockchain t))"
    and "commit_block c hash specs b False None t = (Inr res, t')"
  shows "length (chain (tok_blockchain t')) = length (chain (tok_blockchain t)) + 1"
proof -
  obtain h removed t1 where c: "rollback_tip None t = (removed, t1)"
      "chain (tok_blockchain t') =
         (if \<not> False \<and> has_reached_max_chain_length t1 then tl (chain (tok_blockchain t1))
          else chain (tok_blockchain t1)) @ [b\<lparr>current_hash := h\<rparr>]"
    using commit_block_ok [OF assms(2)] by metis
  have "t1 = t" using c(1) by (simp add: rollback_tip_def)
  then show ?thesis using c(2) assms(1) by (simp add: has_reached_max_chain_length_def get_count_def)
qed

section \<open>Gas\<close>

lemma unat_gas_from_amount:
  "unat (gas_from_amount amount m) = min (unat amount * unat m) (2 ^ 64 - 1) div 10000"
  by (simp add: gas_from_amount_def GAS_SCALE_def unat_div unat_saturating_mul)

text \<open>Gas is the base cost plus the scaled amount, computed without wrap-around: both the
  product and the sum saturate, so gas never decreases when the amount grows and never
  falls below the base cost.\<close>

theorem compute_gas_saturates:
  "unat (compute_gas cm amount m) =
     min (unat (base_cost cm) + min (unat amount * unat (multiplier_to_fixed m)) (2 ^ 64 - 1) div 10000) (2 ^ 64 - 1) \<and>
   base_cost cm \<le> compute_gas cm amount m \<and>
   (amount \<le> amount' \<longrightarrow> compute_gas cm amount m \<le> compute_gas cm amount' m)"
proof (intro conjI impI)
  let ?k = "unat (multiplier_to_fixed m)"
  have gas: "unat (compute_gas cm a m) =
      min (unat (base_cost cm) + min (unat a * ?k) (2 ^ 64 - 1) div 10000) (2 ^ 64 - 1)" for a
    by (simp add: compute_gas_def unat_saturating_add unat_gas_from_amount)
  show "unat (compute_gas cm amount m) =
      min (unat (base_cost cm) + min (unat amount * ?k) (2 ^ 64 - 1) div 10000) (2 ^ 64 - 1)" by (rule gas)
  have "unat (base_cost cm) \<le> 2 ^ 64 - 1" using unsigned_less [where 'a = nat, of "base_cost cm"] by simp
  then show "base_cost cm \<le> compute_gas cm amount m" by (simp add: word_le_nat_alt gas)
  assume "amount \<le> amount'"
  then have "unat amount * ?k \<le> unat amount' * ?k" by (simp add: word_le_nat_alt)
  then have "min (unat amount * ?k) (2 ^ 64 - 1) div 10000 \<le> min (unat amount' * ?k) (2 ^ 64 - 1) div 10000"
    by (intro div_le_mono min.mono) simp_all
  then show "compute_gas cm amount m \<le> compute_gas cm amount' m"
    unfolding word_le_nat_alt gas by (intro min.mono add_left_mono) simp_all
qed

section \<open>Concrete instances\<close>

definition demo_specs :: block_specs where
  "demo_specs = [(''SelfSigned'', \<lambda>b t. Inr SpecValid)]"

definition demo_token :: token where
  "demo_token = token_new\<lparr>tok_blockchain := demo_chain\<rparr>"

definition demo_next :: block where
  "demo_next = (demo_block (cached_tip demo_chain))\<lparr>current_hash := []\<rparr>"

lemma demo_next_hash: "create_hash demo_codec length_hash demo_next = Inr (current_hash (demo_block (cached_tip demo_chain)))"
  using demo_self_hashed [of "cached_tip demo_chain"]
  by (simp add: demo_next_def create_hash_ignores_current self_hashed_def)

lemma demo_commits:
  assumes "tok_blockchain t = demo_chain" and "validator_name_of t = ''SelfSigned''"
  shows "\<exists>res t'. commit_block demo_codec length_hash demo_specs demo_next False None t = (Inr res, t')"
proof -
  let ?b = "demo_block (cached_tip demo_chain)"
  have b: "demo_next\<lparr>current_hash := current_hash ?b\<rparr> = ?b" by (simp add: demo_next_def)
  have "validate_next_block demo_codec length_hash demo_chain ?b"
    by (simp add: validate_next_block_iff demo_chain_valid demo_self_hashed links_to_def) (simp add: demo_block_def)
  then have "validate_block demo_codec length_hash demo_specs t ?b = Inr ()"
    using assms by (simp add: validate_block_def demo_specs_def)
  then show ?thesis by (simp add: commit_block_def demo_next_hash rollback_tip_def b Let_def)
qed

lemma demo_token_commits:
  "\<exists>res t'. commit_block demo_codec length_hash demo_specs demo_next False None demo_token = (Inr res, t')"
  by (rule demo_commits) (simp_all add: demo_token_def validator_name_of_def token_new_def)

theorem commit_block_error_atomic_witness:
  "snd (commit_block demo_codec length_hash [] demo_next False (Some (cached_tip demo_chain)) demo_token) = demo_token"
proof (rule commit_block_error_atomic [OF surjective_pairing [THEN trans]])
  show "(fst (commit_block demo_codec length_hash [] demo_next False (Some (cached_tip demo_chain)) demo_token),
         snd (commit_block demo_codec length_hash [] demo_next False (Some (cached_tip demo_chain)) demo_token)) =
        (Inl (BlockValidationErr ChainLinkage),
         snd (commit_block demo_codec length_hash [] demo_next False (Some (cached_tip demo_chain)) demo_token))"
    by (simp add: commit_block_def demo_next_hash rollback_tip_def demo_token_def remove_block_def validate_block_def
        validate_next_block_iff Let_def links_to_def)
      (simp add: demo_chain_def add_block_def blockchain_new_def cached_tip_def last_block_def demo_next_def
        demo_block_def length_hash_def)
qed

theorem commit_block_extends_chain_witness:
  "\<exists>res t'. commit_block demo_codec length_hash demo_specs demo_next False None demo_token = (Inr res, t') \<and>
            chain_valid demo_codec length_hash (tok_blockchain t') \<and> tok_sequence_number t' = 1"
proof -
  obtain res t' where run: "commit_block demo_codec length_hash demo_specs demo_next False None demo_token = (Inr res, t')"
    using demo_token_commits by blast
  then show ?thesis
    using commit_block_extends_chain [OF _ length_hash_facts(1) run] demo_chain_valid
    by (auto simp: demo_token_def token_new_def)
qed

theorem commit_block_bounded_witness:
  "\<exists>res t'. commit_block demo_codec length_hash demo_specs demo_next False None demo_token = (Inr res, t') \<and>
            length (chain (tok_blockchain t')) \<le> 5"
proof -
  obtain res t' where run: "commit_block demo_codec length_hash demo_specs demo_next False None demo_token = (Inr res, t')"
    using demo_token_commits by blast
  then show ?thesis
    using commit_block_bounded [OF _ _ run]
    by (auto simp: demo_token_def token_new_def DEFAULT_SECURITY_LEVEL_def demo_chain_def add_block_def blockchain_new_def)
qed

theorem commit_block_overlong_grows_witness:
  "\<exists>res t'. commit_block demo_codec length_hash demo_specs demo_next False None (demo_token\<lparr>security_level := 0\<rparr>) = (Inr res, t') \<and>
            length (chain (tok_blockchain t')) = 2"
proof -
  obtain res t' where run: "commit_block demo_codec length_hash demo_specs demo_next False None
      (demo_token\<lparr>security_level := 0\<rparr>) = (Inr res, t')"
    using demo_commits [of "demo_token\<lparr>security_level := 0\<rparr>"]
    by (auto simp: demo_token_def validator_name_of_def token_new_def)
  then show ?thesis
    using commit_block_overlong_grows [OF _ run]
    by (auto simp: demo_token_def demo_chain_def add_block_def blockchain_new_def)
qed

theorem compute_gas_saturates_witness:
  "compute_gas cost_model_default 10 (Fin 1) \<le> compute_gas cost_model_default 20 (Fin 1)"
  using compute_gas_saturates [of cost_model_default 10 "Fin 1" 20] by simp

end
