(* ===== verification/Staking.thy ===== *)
theory Staking
  imports Epoch Tokens
begin

text \<open>
  Stake bookkeeping of \<^verbatim>\<open>committer/src/epoch_manager.rs\<close>: the stake store, the staking manager
  that applies reconciliation operations, and the reconciler that turns invalid chains and
  double proposals into slashes.  The store is an association list with distinct keys; log
  lines are left out.
\<close>

section \<open>The stake store\<close>

type_synonym stake_store = "(bytes \<times> u64) list"

definition store_new :: stake_store where
  "store_new = []"

definition add_staker :: "bytes \<Rightarrow> u64 \<Rightarrow> stake_store \<Rightarrow> stake_store" where
  "add_staker key stake s = AList.update key stake s"

definition remove_staker :: "bytes \<Rightarrow> stake_store \<Rightarrow> stake_store" where
  "remove_staker key s = AList.delete key s"

definition slash :: "bytes \<Rightarrow> u64 \<Rightarrow> stake_store \<Rightarrow> stake_store" where
  "slash key amount s =
     (case map_of s key of
        None \<Rightarrow> s
      | Some stake \<Rightarrow>
          let new_stake = saturating_sub stake amount
          in if new_stake = 0 then AList.delete key s else AList.update key new_stake s)"

definition reward :: "bytes \<Rightarrow> u64 \<Rightarrow> stake_store \<Rightarrow> stake_store" where
  "reward key amount s =
     (case map_of s key of None \<Rightarrow> s | Some stake \<Rightarrow> AList.update key (saturating_add stake amount) s)"

definition store_get_stake :: "stake_store \<Rightarrow> bytes \<Rightarrow> u64" where
  "store_get_stake s key = (case map_of s key of None \<Rightarrow> 0 | Some stake \<Rightarrow> stake)"

definition store_iter :: "stake_store \<Rightarrow> (bytes \<times> u64) list" where
  "store_iter s = s"

definition store_to_stake_set :: "stake_store \<Rightarrow> stake_set" where
  "store_to_stake_set s = \<lparr>stakers = filter (\<lambda>(k, v). 0 < v) s\<rparr>"

section \<open>Applying reconciliation operations\<close>

fun apply_op :: "staking_op \<Rightarrow> stake_store \<Rightarrow> stake_store" where
  "apply_op (Slash key amount) s = slash key amount s"
| "apply_op (Reward key amount) s = reward key amount s"
| "apply_op (AddStaker key stake) s = add_staker key stake s"
| "apply_op (RemoveStaker key) s = remove_staker key s"

definition apply_ops :: "epoch_reconciliation \<Rightarrow> stake_store \<Rightarrow> unit res \<times> stake_store" where
  "apply_ops ops s = (Inr (), fold apply_op (slashing_ops ops @ reward_ops ops) s)"

section \<open>Reconciliation\<close>

record epoch_reconciler =
  rc_candidates :: "block candidate_registry"
  rc_env_id :: string
  rc_token_ids :: "bytes list"
  rc_slash_fraction :: f64

text \<open>\<^verbatim>\<open>(stake as f64 * fraction).round().min(u64::MAX as f64) as u64\<close>.\<close>

definition slash_amount :: "f64 \<Rightarrow> u64 \<Rightarrow> u64" where
  "slash_amount fraction stake =
     f64_as_u64 (f64_min (f64_round_int (f64_mult (f64_of_u64 stake) fraction)) (f64_of_u64 u64_max))"

definition push_slash :: "bytes \<Rightarrow> u64 \<Rightarrow> epoch_reconciliation \<Rightarrow> epoch_reconciliation" where
  "push_slash key amount r =
     (if 0 < amount then r\<lparr>slashing_ops := slashing_ops r @ [Slash key amount]\<rparr> else r)"

text \<open>One window of the candidate list; the stake set accumulates the proposers' stakes.\<close>

definition reconcile_pair ::
    "f64 \<Rightarrow> stake_store \<Rightarrow> block \<times> bytes \<Rightarrow> block \<times> bytes \<Rightarrow> stake_set \<times> epoch_reconciliation \<Rightarrow>
     stake_set \<times> epoch_reconciliation" where
  "reconcile_pair fraction s a b acc =
     (let (ba, pa) = a; (bb, pb) = b; (ss, r) = acc;
          sa = store_get_stake s pa; sb = store_get_stake s pb;
          ss' = ss\<lparr>stakers := AList.update pb sb (AList.update pa sa (stakers ss))\<rparr>;
          r' = r\<lparr>finalization_conflicts := finalization_conflicts r @
                   [\<lparr>block_a = current_hash ba, block_b = current_hash bb, stake_a = sa, stake_b = sb\<rparr>]\<rparr>
      in (ss', case resolve_block_conflict (current_hash ba) (current_hash bb) pa pb ss' of
                 SameProposerSlash _ slashed_key \<Rightarrow>
                   push_slash slashed_key (slash_amount fraction (store_get_stake s slashed_key)) r'
               | _ \<Rightarrow> r'))"

fun reconcile_windows ::
    "f64 \<Rightarrow> stake_store \<Rightarrow> (block \<times> bytes) list \<Rightarrow> stake_set \<times> epoch_reconciliation \<Rightarrow>
     stake_set \<times> epoch_reconciliation" where
  "reconcile_windows fraction s (a # b # cs) acc =
     reconcile_windows fraction s (b # cs) (reconcile_pair fraction s a b acc)"
| "reconcile_windows fraction s _ acc = acc"

definition reconcile_token ::
    "codec \<Rightarrow> (bytes \<Rightarrow> bytes) \<Rightarrow> epoch_reconciler \<Rightarrow> stake_store \<Rightarrow> bytes \<Rightarrow> token \<Rightarrow>
     stake_set \<times> epoch_reconciliation \<Rightarrow> stake_set \<times> epoch_reconciliation" where
  "reconcile_token c hash rc s token_id tok acc =
     (let cs = get_current_chain_state c hash (tok_blockchain tok); (ss, r) = acc in
      if \<not> state_is_valid cs then
        let r' = r\<lparr>misshapen_tokens := misshapen_tokens r @ [token_id]\<rparr>
        in (ss, case last_block (tok_blockchain tok) of
                  None \<Rightarrow> r'
                | Some tip \<Rightarrow>
                    push_slash (blk_proposer_key tip)
                      (slash_amount (rc_slash_fraction rc) (store_get_stake s (blk_proposer_key tip))) r')
      else if 2 \<le> candidate_count (rc_candidates rc) token_id (last_hash_in cs) then
        reconcile_windows (rc_slash_fraction rc) s (get_candidates (rc_candidates rc) token_id (last_hash_in cs)) acc
      else acc)"

text \<open>\<open>get_token\<close> answers for the data provider; an error skips the token.\<close>

definition reconcile_step ::
    "codec \<Rightarrow> (bytes \<Rightarrow> bytes) \<Rightarrow> (bytes \<Rightarrow> string \<Rightarrow> data_error + token) \<Rightarrow> epoch_reconciler \<Rightarrow> stake_store \<Rightarrow>
     bytes \<Rightarrow> stake_set \<times> epoch_reconciliation \<Rightarrow> stake_set \<times> epoch_reconciliation" where
  "reconcile_step c hash get_token rc s token_id acc =
     (case get_token token_id (rc_env_id rc) of
        Inl _ \<Rightarrow> acc
      | Inr tok \<Rightarrow> reconcile_token c hash rc s token_id tok acc)"

definition reconcile ::
    "codec \<Rightarrow> (bytes \<Rightarrow> bytes) \<Rightarrow> (bytes \<Rightarrow> string \<Rightarrow> data_error + token) \<Rightarrow> epoch_reconciler \<Rightarrow> stake_store \<Rightarrow>
     epoch_reconciliation" where
  "reconcile c hash get_token rc s =
     snd (fold (reconcile_step c hash get_token rc s) (rc_token_ids rc)
          (\<lparr>stakers = store_iter s\<rparr>,
           \<lparr>misshapen_tokens = [], finalization_conflicts = [], slashing_ops = [], reward_ops = []\<rparr>))"

section \<open>The store\<close>

definition store_ok :: "stake_store \<Rightarrow> bool" where
  "store_ok s \<longleftrightarrow> distinct (map fst s)"

lemma store_ok_op: "store_ok s \<Longrightarrow> store_ok (apply_op op s)"
  by (cases op) (auto simp: store_ok_def slash_def reward_def add_staker_def remove_staker_def Let_def
      distinct_update distinct_delete split: option.split)

lemma store_ok_ops: "store_ok s \<Longrightarrow> store_ok (fold apply_op ops s)"
  by (induction ops arbitrary: s) (auto intro: store_ok_op)

lemma unat_zero_iff: "(x :: u64) = 0 \<longleftrightarrow> unat x = 0"
  by (simp add: unat_eq_0)

lemma slash_get:
  "unat (store_get_stake (slash k a s) j) = unat (store_get_stake s j) - (if j = k then unat a else 0)"
  by (auto simp: store_get_stake_def slash_def Let_def update_conv delete_conv unat_ops unat_zero_iff
      split: option.splits)

lemma slash_zero_removes: "store_get_stake (slash k a s) k = 0 \<Longrightarrow> map_of s k \<noteq> Some 0 \<Longrightarrow> map_of (slash k a s) k = None"
  by (auto simp: store_get_stake_def slash_def Let_def update_conv delete_conv split: option.splits if_splits)

text \<open>The amounts a list of operations takes from a key.\<close>

fun slashed_from :: "bytes \<Rightarrow> staking_op list \<Rightarrow> nat" where
  "slashed_from k [] = 0"
| "slashed_from k (Slash j a # ops) = (if j = k then unat a else 0) + slashed_from k ops"
| "slashed_from k (_ # ops) = slashed_from k ops"

definition is_slash :: "staking_op \<Rightarrow> bool" where
  "is_slash op \<longleftrightarrow> (\<exists>k a. op = Slash k a)"

lemma fold_slashes:
  "list_all is_slash ops \<Longrightarrow>
     unat (store_get_stake (fold apply_op ops s) k) = unat (store_get_stake s k) - slashed_from k ops"
  by (induction ops arbitrary: s) (auto simp: is_slash_def slash_get)

section \<open>Who is slashed\<close>

lemma resolve_same_proposer [simp]: "resolve_block_conflict ha hb p p ss = SameProposerSlash ha p"
  by (simp add: resolve_block_conflict_def Let_def)

lemma resolve_other_proposer:
  "pa \<noteq> pb \<Longrightarrow> resolve_block_conflict ha hb pa pb ss \<noteq> SameProposerSlash h k"
  by (simp add: resolve_block_conflict_def Let_def)

text \<open>
  The reference: the proposer of the tip of a chain that does not validate, and the
  proposers that follow themselves among the candidates at a valid chain's tip.
\<close>

fun repeated_proposers :: "(block \<times> bytes) list \<Rightarrow> bytes list" where
  "repeated_proposers ((a, p) # (b, q) # cs) = (if p = q then [p] else []) @ repeated_proposers ((b, q) # cs)"
| "repeated_proposers _ = []"

definition offenders_of ::
    "codec \<Rightarrow> (bytes \<Rightarrow> bytes) \<Rightarrow> epoch_reconciler \<Rightarrow> bytes \<Rightarrow> token \<Rightarrow> bytes list" where
  "offenders_of c hash rc token_id tok =
     (let cs = get_current_chain_state c hash (tok_blockchain tok) in
      if \<not> state_is_valid cs
      then (case last_block (tok_blockchain tok) of None \<Rightarrow> [] | Some tip \<Rightarrow> [blk_proposer_key tip])
      else repeated_proposers (get_candidates (rc_candidates rc) token_id (last_hash_in cs)))"

definition offenders ::
    "codec \<Rightarrow> (bytes \<Rightarrow> bytes) \<Rightarrow> (bytes \<Rightarrow> string \<Rightarrow> data_error + token) \<Rightarrow> epoch_reconciler \<Rightarrow> bytes list" where
  "offenders c hash get_token rc =
     concat (map (\<lambda>t. case get_token t (rc_env_id rc) of Inl _ \<Rightarrow> [] | Inr tok \<Rightarrow> offenders_of c hash rc t tok)
       (rc_token_ids rc))"

definition slashes :: "f64 \<Rightarrow> stake_store \<Rightarrow> bytes list \<Rightarrow> staking_op list" where
  "slashes fraction s ks =
     map (\<lambda>k. Slash k (slash_amount fraction (store_get_stake s k)))
       (filter (\<lambda>k. 0 < slash_amount fraction (store_get_stake s k)) ks)"

lemma slashes_append [simp]: "slashes f s (ks @ ls) = slashes f s ks @ slashes f s ls"
  by (simp add: slashes_def)

lemma slashes_Nil [simp]: "slashes f s [] = []"
  by (simp add: slashes_def)

lemma push_slash_ops [simp]:
  "slashing_ops (push_slash k (slash_amount f (store_get_stake s k)) r) = slashing_ops r @ slashes f s [k]"
  "reward_ops (push_slash k a r) = reward_ops r"
  "misshapen_tokens (push_slash k a r) = misshapen_tokens r"
  by (simp_all add: push_slash_def slashes_def)

lemma reconcile_pair_ops:
  "slashing_ops (snd (reconcile_pair f s (ba, pa) (bb, pb) (ss, r))) =
     slashing_ops r @ slashes f s (if pa = pb then [pa] else [])"
  "reward_ops (snd (reconcile_pair f s (ba, pa) (bb, pb) (ss, r))) = reward_ops r"
  "misshapen_tokens (snd (reconcile_pair f s (ba, pa) (bb, pb) (ss, r))) = misshapen_tokens r"
  by (cases "pa = pb"; auto simp: reconcile_pair_def Let_def resolve_other_proposer split: conflict_resolution.split)+

lemma reconcile_windows_ops:
  "slashing_ops (snd (reconcile_windows f s cs acc)) = slashing_ops (snd acc) @ slashes f s (repeated_proposers cs) \<and>
   reward_ops (snd (reconcile_windows f s cs acc)) = reward_ops (snd acc) \<and>
   misshapen_tokens (snd (reconcile_windows f s cs acc)) = misshapen_tokens (snd acc)"
proof (induction f s cs acc rule: reconcile_windows.induct)
  case (1 f s a b cs acc)
  obtain ba pa bb pb ss r where "a = (ba, pa)" "b = (bb, pb)" "acc = (ss, r)"
    by (cases a, cases b, cases acc)
  then show ?case using 1 by (simp add: reconcile_pair_ops)
qed simp_all

lemma repeated_short: "length cs < 2 \<Longrightarrow> repeated_proposers cs = []"
  by (cases cs rule: repeated_proposers.cases) auto

lemma reconcile_token_ops:
  "slashing_ops (snd (reconcile_token c hash rc s t tok acc)) =
     slashing_ops (snd acc) @ slashes (rc_slash_fraction rc) s (offenders_of c hash rc t tok)"
  "reward_ops (snd (reconcile_token c hash rc s t tok acc)) = reward_ops (snd acc)"
  "misshapen_tokens (snd (reconcile_token c hash rc s t tok acc)) =
     misshapen_tokens (snd acc) @
       (if state_is_valid (get_current_chain_state c hash (tok_blockchain tok)) then [] else [t])"
  by (auto simp: reconcile_token_def offenders_of_def Let_def split_beta reconcile_windows_ops candidate_count_length
      repeated_short not_le split: option.split)

lemma reconcile_fold_ops:
  "slashing_ops (snd (fold (reconcile_step c hash get_token rc s) ts acc)) = slashing_ops (snd acc) @
      slashes (rc_slash_fraction rc) s
        (concat (map (\<lambda>t. case get_token t (rc_env_id rc) of Inl _ \<Rightarrow> [] | Inr tok \<Rightarrow> offenders_of c hash rc t tok) ts)) \<and>
   reward_ops (snd (fold (reconcile_step c hash get_token rc s) ts acc)) = reward_ops (snd acc)"
  by (induction ts arbitrary: acc) (auto simp: reconcile_step_def reconcile_token_ops split: sum.split)

lemma reconcile_ops:
  "slashing_ops (reconcile c hash get_token rc s) = slashes (rc_slash_fraction rc) s (offenders c hash get_token rc)"
  "reward_ops (reconcile c hash get_token rc s) = []"
  using reconcile_fold_ops [of c hash get_token rc s "rc_token_ids rc"]
  by (simp_all add: reconcile_def offenders_def)

text \<open>Up to 53 bits the double product with one is the stake itself.\<close>

lemma f64_max_u64: "f64_of_u64 u64_max = Fin (2 ^ 64)"
proof -
  have n: "unat u64_max = 18446744073709551615" by (simp add: u64_max_def unsigned_minus_1_eq_mask mask_eq_exp_minus_1)
  have e: "exponent_of (of_nat (unat u64_max)) = 63"
    by (subst exponent_of_nat) (simp_all add: n nlog2.simps)
  have fl: "\<lfloor>18446744073709551615 / 2048 :: rat\<rfloor> = 9007199254740991" by (simp add: floor_eq_iff)
  show ?thesis using e fl
    by (simp add: f64_of_u64_def n f64_round_def Let_def round_half_even_def)
qed

lemma f64_round_int_nat: "f64_round_int (Fin (of_nat n)) = Fin (of_nat n)"
proof -
  have "\<lfloor>of_nat n + 1 / 2 :: rat\<rfloor> = int n" by (simp add: floor_eq_iff)
  then show ?thesis by simp
qed

lemma slash_amount_full:
  assumes "unat stake < 2 ^ 53"
  shows "slash_amount (Fin 1) stake = stake"
proof -
  let ?n = "unat stake"
  have f: "f64_of_u64 stake = Fin (of_nat ?n)"
    unfolding f64_of_u64_def by (rule f64_round_nat_exact [OF assms])
  have m: "f64_mult (Fin (of_nat ?n)) (Fin 1) = Fin (of_nat ?n)"
    using f64_round_nat_exact [OF assms] by simp
  have "f64_min (Fin (of_nat ?n)) (f64_of_u64 u64_max) = Fin (of_nat ?n)"
  proof -
    have "(of_nat ?n :: rat) < of_nat (2 ^ 64)" using assms unfolding of_nat_less_iff by (rule order.strict_trans2) simp
    then show ?thesis by (simp add: f64_min_def f64_max_u64)
  qed
  then have "slash_amount (Fin 1) stake = f64_as_u64 (Fin (of_nat ?n))"
    unfolding slash_amount_def f m f64_round_int_nat by (rule arg_cong)
  also have "\<dots> = of_nat ?n" by (rule f64_as_u64_nat) (use assms in simp)
  finally show ?thesis by simp
qed

lemma slashes_are_slashes: "list_all is_slash (slashes f s ks)"
  by (simp add: slashes_def list_all_iff is_slash_def)

lemma slashed_from_slashes:
  "slashed_from k (slashes f s ks) = count (mset ks) k * unat (slash_amount f (store_get_stake s k))"
  by (induction ks) (auto simp: slashes_def unat_zero_iff word_greater_zero_iff)

section \<open>Properties\<close>

text \<open>Reconciliation slashes exactly the offenders.  For each token in order it slashes the
  proposer of the tip of a chain that does not validate, and every proposer that follows
  itself among the candidates at the tip of a valid chain; each slash is the configured
  fraction of the current stake, zero amounts are left out and nobody is rewarded.  Applying
  the result takes from each key its amount once per offence, down to zero and never below.\<close>

theorem reconcile_slashes_offenders:
  "slashing_ops (reconcile c hash get_token rc s) = slashes (rc_slash_fraction rc) s (offenders c hash get_token rc) \<and>
   reward_ops (reconcile c hash get_token rc s) = [] \<and>
   unat (store_get_stake (snd (apply_ops (reconcile c hash get_token rc s) s)) k) =
     unat (store_get_stake s k) -
       count (mset (offenders c hash get_token rc)) k *
         unat (slash_amount (rc_slash_fraction rc) (store_get_stake s k))"
  by (simp add: reconcile_ops apply_ops_def fold_slashes [OF slashes_are_slashes] slashed_from_slashes)

text \<open>With the default fraction of one and stakes below 2 to the 53, reconciliation removes
  every offender from the store, and from the stake set of the next election, and leaves
  every other key's stake alone.\<close>

theorem full_slash_removes_offender:
  assumes "rc_slash_fraction rc = Fin 1" and "unat (store_get_stake s k) < 2 ^ 53" and "store_ok s"
  shows "store_get_stake (snd (apply_ops (reconcile c hash get_token rc s) s)) k =
           (if k \<in> set (offenders c hash get_token rc) then 0 else store_get_stake s k) \<and>
         (k \<in> set (offenders c hash get_token rc) \<longrightarrow>
            map_of (stakers (store_to_stake_set (snd (apply_ops (reconcile c hash get_token rc s) s)))) k = None)"
proof -
  let ?s' = "snd (apply_ops (reconcile c hash get_token rc s) s)"
  have "unat (store_get_stake ?s' k) =
      unat (store_get_stake s k) - count (mset (offenders c hash get_token rc)) k * unat (store_get_stake s k)"
    using slash_amount_full [OF assms(2)] assms(1)
    by (simp add: reconcile_ops apply_ops_def fold_slashes [OF slashes_are_slashes] slashed_from_slashes)
  then have u: "unat (store_get_stake ?s' k) =
      (if k \<in> set (offenders c hash get_token rc) then 0 else unat (store_get_stake s k))"
  proof (cases "k \<in> set (offenders c hash get_token rc)")
    case True
    then obtain m where "count (mset (offenders c hash get_token rc)) k = Suc m"
      by (metis count_greater_zero_iff gr0_implies_Suc set_mset_mset)
    then show ?thesis using True \<open>unat (store_get_stake ?s' k) = _\<close> by simp
  next
    case False
    then have "count (mset (offenders c hash get_token rc)) k = 0" by (metis not_in_iff set_mset_mset)
    then have "unat (store_get_stake ?s' k) = unat (store_get_stake s k)"
      using \<open>unat (store_get_stake ?s' k) = _\<close> by (metis diff_zero mult_0)
    then show ?thesis using False by simp
  qed
  then have g: "store_get_stake ?s' k = (if k \<in> set (offenders c hash get_token rc) then 0 else store_get_stake s k)"
    by (auto intro: unsigned_word_eqI split: if_splits)
  have ok: "distinct (map fst ?s')" 
    using store_ok_ops [OF assms(3), unfolded store_ok_def] unfolding apply_ops_def snd_conv .
  have "map_of (filter (\<lambda>(k, v). 0 < v) ?s') k = None" if "k \<in> set (offenders c hash get_token rc)"
  proof (rule ccontr)
    assume "map_of (filter (\<lambda>(k, v). 0 < v) ?s') k \<noteq> None"
    then obtain v where v: "(k, v) \<in> set ?s'" "0 < v" by (auto dest!: map_of_SomeD)
    then have "store_get_stake ?s' k = v" using map_of_is_SomeI [OF ok] by (simp add: store_get_stake_def)
    then show False using g that v(2) by simp
  qed
  then show ?thesis using g by (simp add: store_to_stake_set_def)
qed

text \<open>Above 53 bits the conversion to a double loses units: a full slash of 2 to the 53 plus one
  takes all but one unit, and the key stays in the store.\<close>

theorem full_slash_leaves_remainder:
  "slash_amount (Fin 1) 9007199254740993 = 9007199254740992 \<and>
   map_of (slash [1] (slash_amount (Fin 1) 9007199254740993) [([1], 9007199254740993)]) [1] = Some 1"
proof -
  have e: "exponent_of (9007199254740993 :: rat) = 53"
    using exponent_of_nat [of 9007199254740993] by (simp add: nlog2.simps)
  have fl: "\<lfloor>9007199254740993 / 2 :: rat\<rfloor> = 4503599627370496" by (simp add: floor_eq_iff)
  have f: "f64_of_u64 9007199254740993 = Fin (of_nat 9007199254740992)"
    using e fl by (simp add: f64_of_u64_def f64_round_def Let_def round_half_even_def)
  have e': "exponent_of (9007199254740992 :: rat) = 53"
    using exponent_of_nat [of 9007199254740992] by (simp add: nlog2.simps)
  have m: "f64_mult (Fin (of_nat 9007199254740992)) (Fin 1) = Fin (of_nat 9007199254740992)"
    using e' by (simp add: f64_round_def Let_def round_half_even_def)
  have a: "slash_amount (Fin 1) 9007199254740993 = 9007199254740992"
    unfolding slash_amount_def f m f64_round_int_nat f64_max_u64 by (simp add: f64_min_def)
  then show ?thesis by (simp add: slash_def saturating_sub_def)
qed

section \<open>Concrete instances\<close>

definition double_candidates :: "block candidate_registry" where
  "double_candidates =
     candidates_insert [1] [] (demo_block []) [3] (candidates_insert [1] [] (demo_block []) [3] candidates_new)"

definition demo_reconciler :: epoch_reconciler where
  "demo_reconciler =
     \<lparr>rc_candidates = double_candidates, rc_env_id = ''env'', rc_token_ids = [[1]], rc_slash_fraction = Fin 1\<rparr>"

definition demo_store :: stake_store where
  "demo_store = [([3], 50), ([4], 20)]"

lemma demo_offenders: "offenders demo_codec length_hash (\<lambda>_ _. Inr token_new) demo_reconciler = [[3]]"
  by (simp add: offenders_def offenders_of_def demo_reconciler_def token_new_def blockchain_new_def
      get_current_chain_state_def chain_state_empty_def double_candidates_def candidates_insert_def candidates_new_def
      get_candidates_def DEFAULT_MAX_CANDIDATES_def Let_def)

theorem full_slash_removes_offender_witness:
  "store_get_stake (snd (apply_ops (reconcile demo_codec length_hash (\<lambda>_ _. Inr token_new) demo_reconciler demo_store) demo_store)) [3] = 0 \<and>
   store_get_stake (snd (apply_ops (reconcile demo_codec length_hash (\<lambda>_ _. Inr token_new) demo_reconciler demo_store) demo_store)) [4] = 20"
  using full_slash_removes_offender [of demo_reconciler demo_store "[3]" demo_codec length_hash "\<lambda>_ _. Inr token_new"]
    full_slash_removes_offender [of demo_reconciler demo_store "[4]" demo_codec length_hash "\<lambda>_ _. Inr token_new"]
  unfolding demo_offenders
  by (simp add: demo_reconciler_def) (simp add: demo_store_def store_get_stake_def store_ok_def)

end
