(* ===== verification/Framing.thy ===== *)
theory Framing
  imports Errors
begin

text \<open>
  The framed and authenticated byte channel to the data service: the length-prefixed frames and
  tags of \<^verbatim>\<open>conns/senders.rs\<close> and \<^verbatim>\<open>conns/uds.rs\<close> on the client side, and their counterparts
  \<^verbatim>\<open>read_body\<close> and \<^verbatim>\<open>write_body\<close> of \<^verbatim>\<open>data-service/src/server.rs\<close>.  A stream is what the peer sends,
  with the way it ends; HMAC-SHA256 is a parameter.
\<close>

section \<open>Streams\<close>

text \<open>A peer sends some bytes and then closes the stream or keeps it open without sending more,
  in which case a read runs into the socket's timeout.\<close>

datatype stream_end = Closed | Stalled

type_synonym incoming = "bytes \<times> stream_end"

datatype io_kind = UnexpectedEof | WouldBlock | OtherKind

datatype io_direction = ReadDir | WriteDir

datatype conn_error =
    ConnIO | MalformedData string | WriteError io_kind | ReadError io_kind | DecryptError
  | ConnTimeout | Unauthenticated

fun read_exact :: "nat \<Rightarrow> incoming \<Rightarrow> io_kind + bytes \<times> incoming" where
  "read_exact n (bs, e) =
     (if n \<le> length bs then Inr (take n bs, (drop n bs, e))
      else Inl (case e of Closed \<Rightarrow> UnexpectedEof | Stalled \<Rightarrow> WouldBlock))"

definition map_io_err :: "io_kind \<Rightarrow> io_direction \<Rightarrow> conn_error" where
  "map_io_err k d =
     (case k of
        WouldBlock \<Rightarrow> ConnTimeout
      | _ \<Rightarrow> (case d of ReadDir \<Rightarrow> ReadError k | WriteDir \<Rightarrow> WriteError k))"

section \<open>Frames\<close>

definition u32_to_be_bytes :: "u32 \<Rightarrow> bytes" where
  "u32_to_be_bytes x = map (\<lambda>i. ucast (drop_bit (8 * i) x)) [3, 2, 1, 0]"

definition u32_from_be_bytes :: "bytes \<Rightarrow> u32" where
  "u32_from_be_bytes bs = of_nat (foldl (\<lambda>acc b. 256 * acc + unat b) 0 bs)"

definition MAX_FRAME_SIZE :: nat where
  "MAX_FRAME_SIZE = 16 * 1024 * 1024"

definition AUTH_TAG_LEN :: nat where
  "AUTH_TAG_LEN = 32"

type_synonym hmac = "bytes \<Rightarrow> bytes \<Rightarrow> bytes"

definition sign_payload :: "hmac \<Rightarrow> bytes option \<Rightarrow> bytes \<Rightarrow> bytes \<times> bytes" where
  "sign_payload hmac secret payload =
     (case secret of
        Some s \<Rightarrow> (hmac s payload, payload)
      | None \<Rightarrow> (replicate 32 0, payload))"

definition verify_payload :: "hmac \<Rightarrow> bytes option \<Rightarrow> bytes \<Rightarrow> bytes \<Rightarrow> bool" where
  "verify_payload hmac secret tag payload =
     (case secret of
        None \<Rightarrow> True
      | Some s \<Rightarrow>
          if length tag \<noteq> 32 then False
          else (let expected = hmac s payload in hmac s payload = expected \<and> expected = tag))"

definition write_frame :: "hmac \<Rightarrow> bytes option \<Rightarrow> bytes \<Rightarrow> bytes" where
  "write_frame hmac secret payload =
     (let (tag, body) = sign_payload hmac secret payload
      in u32_to_be_bytes (of_nat (AUTH_TAG_LEN + length body)) @ tag @ body)"

definition unframe :: "hmac \<Rightarrow> bytes option \<Rightarrow> bytes \<Rightarrow> conn_error + bytes" where
  "unframe hmac secret body =
     (if length body < AUTH_TAG_LEN then Inl (MalformedData ''response shorter than auth tag'')
      else (let tag = take AUTH_TAG_LEN body; payload = drop AUTH_TAG_LEN body
            in if verify_payload hmac secret tag payload then Inr payload else Inl Unauthenticated))"

section \<open>The client's exchange\<close>

text \<open>What the network does to one exchange: connecting may fail, the request may break off after
  some bytes, and the reply may break off after some bytes.\<close>

record link =
  lk_connects :: bool
  lk_write_fails :: "(io_kind \<times> nat) option"
  lk_reply_cut :: "nat option"

text \<open>The client's half after the request is written: header, cap, body, tag.\<close>

definition read_reply :: "hmac \<Rightarrow> bytes option \<Rightarrow> incoming \<Rightarrow> conn_error + bytes" where
  "read_reply hmac secret inc =
     (case read_exact 4 inc of
        Inl k \<Rightarrow> Inl (map_io_err k ReadDir)
      | Inr (header, inc') \<Rightarrow>
          (let data_length = unat (u32_from_be_bytes header)
           in if data_length > MAX_FRAME_SIZE then Inl (MalformedData ''Frame size exceeds maximum'')
              else case read_exact data_length inc' of
                     Inl k \<Rightarrow> Inl (map_io_err k ReadDir)
                   | Inr (body, _) \<Rightarrow> unframe hmac secret body))"

text \<open>One exchange with a peer that turns the bytes it receives into a reply and a new state.\<close>

definition get_response ::
    "hmac \<Rightarrow> bytes option \<Rightarrow> link \<Rightarrow> (incoming \<Rightarrow> 'd \<Rightarrow> incoming \<times> 'd) \<Rightarrow> bytes \<Rightarrow> 'd \<Rightarrow> (conn_error + bytes) \<times> 'd" where
  "get_response hmac secret lk peer data d =
     (if \<not> lk_connects lk then (Inl ConnIO, d)
      else (let frame = write_frame hmac secret data
            in case lk_write_fails lk of
                 Some (k, n) \<Rightarrow> (Inl (map_io_err k WriteDir), snd (peer (take n frame, Closed) d))
               | None \<Rightarrow>
                   (let (reply, d') = peer (frame, Stalled) d
                    in (read_reply hmac secret
                          (case lk_reply_cut lk of None \<Rightarrow> reply | Some n \<Rightarrow> (take n (fst reply), Closed)), d'))))"

section \<open>The service's half\<close>

definition read_body :: "incoming \<Rightarrow> io_kind + bytes option" where
  "read_body inc =
     (case read_exact 4 inc of
        Inl UnexpectedEof \<Rightarrow> Inr None
      | Inl k \<Rightarrow> Inl k
      | Inr (header, inc') \<Rightarrow>
          (let len = unat (u32_from_be_bytes header)
           in if len < AUTH_TAG_LEN then Inl OtherKind
              else if len > MAX_FRAME_SIZE then Inl OtherKind
              else case read_exact len inc' of
                     Inl k \<Rightarrow> Inl k
                   | Inr (body, _) \<Rightarrow> Inr (Some body)))"

definition write_body :: "hmac \<Rightarrow> bytes option \<Rightarrow> bytes \<Rightarrow> bytes" where
  "write_body hmac secret payload =
     (let (tag, body) = sign_payload hmac secret payload
      in u32_to_be_bytes (of_nat (AUTH_TAG_LEN + length body)) @ tag @ body)"

section \<open>Big-endian lengths\<close>

lemma u32_to_be_length [simp]: "length (u32_to_be_bytes x) = 4"
  by (simp add: u32_to_be_bytes_def)

lemma unat_of_nat_small: "n < 2 ^ 32 \<Longrightarrow> unat (of_nat n :: u32) = n"
  by (simp only: unsigned_of_nat take_bit_eq_mod) simp

lemma unat_drop: "unat (drop_bit k (x :: u32)) = unat x div 2 ^ k"
  by (simp only: unat_drop_bit_eq) (simp only: drop_bit_eq_div)

lemma unat_low_byte: "unat (ucast (x :: u32) :: u8) = unat x mod 256"
  by (simp only: unsigned_ucast_eq take_bit_eq_mod) simp

lemma base256_digits:
  fixes n :: nat
  assumes "n < 4294967296"
  shows "256 * (256 * (256 * (n div 16777216 mod 256) + n div 65536 mod 256) + n div 256 mod 256) + n mod 256 = n"
proof -
  have "n div 65536 = n div 256 div 256" "n div 16777216 = n div 256 div 256 div 256"
    by (simp_all flip: div_mult2_eq)
  moreover have "n div 256 div 256 div 256 < 256" using assms by (simp flip: div_mult2_eq add: less_mult_imp_div_less)
  ultimately show ?thesis by (simp add: mult_div_mod_eq)
qed

lemma u32_be_roundtrip [simp]: "u32_from_be_bytes (u32_to_be_bytes x) = x"
proof -
  have "unat x < 4294967296" using unsigned_less [of x] by simp
  then have "foldl (\<lambda>acc b. 256 * acc + unat b) 0 (u32_to_be_bytes x) = unat x"
    using base256_digits [of "unat x"] by (simp add: u32_to_be_bytes_def unat_drop unat_low_byte)
  then show ?thesis by (simp add: u32_from_be_bytes_def)
qed

lemma four_bytes: "length bs = 4 \<Longrightarrow> \<exists>a b c d. bs = [a, b, c, d]"
  by (simp add: eval_nat_numeral length_Suc_conv) blast

lemma byte_less: "unat (b :: u8) < 256"
  using unsigned_less [of b] by simp

lemma u32_from_be_value:
  "unat (u32_from_be_bytes [a, b, c, d]) = 256 * (256 * (256 * unat a + unat b) + unat c) + unat d"
proof -
  have "256 * (256 * (256 * unat a + unat b) + unat c) + unat d < 2 ^ 32"
    using byte_less [of a] byte_less [of b] byte_less [of c] byte_less [of d] by simp
  then show ?thesis unfolding u32_from_be_bytes_def by (subst unat_of_nat_small) simp_all
qed

lemma digit_unique:
  fixes p q d e :: nat
  assumes "256 * p + d = 256 * q + e" and "d < 256" and "e < 256"
  shows "p = q \<and> d = e"
proof -
  have "(256 * p + d) div 256 = (256 * q + e) div 256" using assms(1) by (rule arg_cong)
  with assms have "p = q" by simp
  with assms(1) show ?thesis by simp
qed

lemma u32_from_be_inj:
  assumes "length xs = 4" and "length ys = 4" and "u32_from_be_bytes xs = u32_from_be_bytes ys"
  shows "xs = ys"
proof -
  obtain a b c d where xs: "xs = [a, b, c, d]" using four_bytes [OF assms(1)] by blast
  obtain a' b' c' d' where ys: "ys = [a', b', c', d']" using four_bytes [OF assms(2)] by blast
  have "256 * (256 * (256 * unat a + unat b) + unat c) + unat d = 256 * (256 * (256 * unat a' + unat b') + unat c') + unat d'"
    using arg_cong [OF assms(3), of unat] unfolding xs ys u32_from_be_value .
  from digit_unique [OF this byte_less byte_less] have
    1: "256 * (256 * unat a + unat b) + unat c = 256 * (256 * unat a' + unat b') + unat c'" "unat d = unat d'" by blast+
  from digit_unique [OF 1(1) byte_less byte_less] have
    2: "256 * unat a + unat b = 256 * unat a' + unat b'" "unat c = unat c'" by blast+
  from digit_unique [OF 2(1) byte_less byte_less] have "unat a = unat a'" "unat b = unat b'" by blast+
  with 1(2) 2(2) show ?thesis unfolding xs ys by (simp add: word_unat_eq_iff)
qed

lemma u32_be_of_from [simp]: "length bs = 4 \<Longrightarrow> u32_to_be_bytes (u32_from_be_bytes bs) = bs"
  by (rule u32_from_be_inj) simp_all

section \<open>What a frame carries\<close>

text \<open>A frame with any tag; the writer puts the payload's own tag.\<close>

definition frame_with :: "bytes \<Rightarrow> bytes \<Rightarrow> bytes" where
  "frame_with tag payload = u32_to_be_bytes (of_nat (AUTH_TAG_LEN + length payload)) @ tag @ payload"

definition tag_of :: "hmac \<Rightarrow> bytes option \<Rightarrow> bytes \<Rightarrow> bytes" where
  "tag_of hmac secret payload = fst (sign_payload hmac secret payload)"

lemma write_frame_eq: "write_frame hmac secret payload = frame_with (tag_of hmac secret payload) payload"
  by (simp add: write_frame_def frame_with_def tag_of_def sign_payload_def split: option.splits)

lemma write_body_eq: "write_body hmac secret payload = write_frame hmac secret payload"
  by (simp add: write_body_def write_frame_def)

text \<open>HMAC-SHA256 returns 32 bytes for every key and message.\<close>

definition hmac32 :: "hmac \<Rightarrow> bool" where
  "hmac32 hmac \<longleftrightarrow> (\<forall>s m. length (hmac s m) = 32)"

lemma tag_length: "hmac32 hmac \<Longrightarrow> length (tag_of hmac secret payload) = 32"
  by (simp add: tag_of_def sign_payload_def hmac32_def split: option.splits)

lemma verify_tag: "hmac32 hmac \<Longrightarrow> verify_payload hmac secret (tag_of hmac secret payload) payload"
  by (simp add: verify_payload_def tag_of_def sign_payload_def hmac32_def Let_def split: option.splits)

lemma verify_payload_iff:
  "hmac32 hmac \<Longrightarrow>
   verify_payload hmac secret tag payload \<longleftrightarrow> secret = None \<or> tag = tag_of hmac secret payload"
  by (auto simp: verify_payload_def tag_of_def sign_payload_def hmac32_def Let_def split: option.splits)

lemma frame_length_value:
  "AUTH_TAG_LEN + n \<le> MAX_FRAME_SIZE \<Longrightarrow> unat (of_nat (AUTH_TAG_LEN + n) :: u32) = AUTH_TAG_LEN + n"
  by (rule unat_of_nat_small) (simp add: MAX_FRAME_SIZE_def AUTH_TAG_LEN_def)

lemma read_frame_body:
  assumes "length tag = 32" and "AUTH_TAG_LEN + length payload \<le> MAX_FRAME_SIZE"
  shows "read_body (frame_with tag payload @ rest, e) = Inr (Some (tag @ payload))"
    and "read_reply hmac secret (frame_with tag payload @ rest, e) = unframe hmac secret (tag @ payload)"
  using assms frame_length_value [OF assms(2)]
  by (simp_all add: read_body_def read_reply_def frame_with_def AUTH_TAG_LEN_def)

lemma unframe_tag:
  "hmac32 hmac \<Longrightarrow> length tag = 32 \<Longrightarrow>
   unframe hmac secret (tag @ payload) =
     (if secret = None \<or> tag = tag_of hmac secret payload then Inr payload else Inl Unauthenticated)"
  by (simp add: unframe_def AUTH_TAG_LEN_def verify_payload_iff)

lemma read_exact_Inr:
  "read_exact n inc = Inr (a, inc') \<longleftrightarrow> n \<le> length (fst inc) \<and> a = take n (fst inc) \<and> inc' = (drop n (fst inc), snd inc)"
  by (cases inc) auto

lemma frame_with_cong:
  assumes "length header = 4" and "length body = unat (u32_from_be_bytes header)" and "AUTH_TAG_LEN \<le> length body"
  shows "header @ body = frame_with (take AUTH_TAG_LEN body) (drop AUTH_TAG_LEN body)"
proof -
  have "of_nat (length body) = u32_from_be_bytes header" by (simp add: assms(2))
  then show ?thesis using assms(1,3) by (simp add: frame_with_def)
qed

lemma read_body_Some:
  assumes "read_body inc = Inr (Some body)"
  shows "AUTH_TAG_LEN \<le> length body"
    and "\<exists>rest. fst inc = frame_with (take AUTH_TAG_LEN body) (drop AUTH_TAG_LEN body) @ rest"
proof -
  obtain header where h: "4 \<le> length (fst inc)" "header = take 4 (fst inc)"
      "AUTH_TAG_LEN \<le> unat (u32_from_be_bytes header)"
      "unat (u32_from_be_bytes header) \<le> length (drop 4 (fst inc))"
      "body = take (unat (u32_from_be_bytes header)) (drop 4 (fst inc))"
    using assms unfolding read_body_def
    by (auto simp: Let_def read_exact_Inr not_less split: sum.splits if_splits prod.splits io_kind.splits)
  have b: "length body = unat (u32_from_be_bytes header)" using h(4,5) by simp
  with h(3) show u: "AUTH_TAG_LEN \<le> length body" by simp
  have "header @ body = frame_with (take AUTH_TAG_LEN body) (drop AUTH_TAG_LEN body)"
    using h(1,2) by (intro frame_with_cong [OF _ b u]) simp
  moreover have "fst inc = header @ body @ drop (length body) (drop 4 (fst inc))"
    using h(2,5) b by (metis append_assoc append_take_drop_id)
  ultimately show "\<exists>rest. fst inc = frame_with (take AUTH_TAG_LEN body) (drop AUTH_TAG_LEN body) @ rest"
    by (metis append_assoc)
qed

text \<open>C31: authentication of the channel.  A client accepts exactly the bytes that begin with a
  well-formed frame of at most the frame cap: under a shared secret that frame is the one the
  holder of the secret writes for the payload, without a secret its tag is arbitrary.\<close>

theorem accepted_reply_is_authentic:
  assumes "hmac32 hmac"
  shows "read_reply hmac secret inc = Inr payload \<longleftrightarrow>
    AUTH_TAG_LEN + length payload \<le> MAX_FRAME_SIZE \<and>
    (\<exists>tag rest. length tag = AUTH_TAG_LEN \<and> fst inc = frame_with tag payload @ rest \<and>
       (case secret of None \<Rightarrow> True | Some _ \<Rightarrow> frame_with tag payload = write_frame hmac secret payload))"
    (is "?l \<longleftrightarrow> ?r")
proof
  assume ?r
  then obtain tag rest where r: "AUTH_TAG_LEN + length payload \<le> MAX_FRAME_SIZE" "length tag = 32"
      "fst inc = frame_with tag payload @ rest"
      "case secret of None \<Rightarrow> True | Some _ \<Rightarrow> frame_with tag payload = write_frame hmac secret payload"
    by (auto simp: AUTH_TAG_LEN_def)
  have "secret = None \<or> tag = tag_of hmac secret payload"
    using r(4) tag_length [OF assms, of secret payload] r(2)
    by (auto simp: write_frame_eq frame_with_def split: option.splits)
  then show ?l
    using read_frame_body(2) [OF r(2,1), of hmac secret rest "snd inc"] unframe_tag [OF assms r(2)] r(3)
    by (metis prod.collapse)
next
  assume l: ?l
  then obtain header body where h: "4 \<le> length (fst inc)" "header = take 4 (fst inc)"
      "unat (u32_from_be_bytes header) \<le> MAX_FRAME_SIZE"
      "unat (u32_from_be_bytes header) \<le> length (drop 4 (fst inc))"
      "body = take (unat (u32_from_be_bytes header)) (drop 4 (fst inc))" "unframe hmac secret body = Inr payload"
    unfolding read_reply_def
    by (auto simp: Let_def read_exact_Inr split: sum.splits if_splits prod.splits)
  have b: "length body = unat (u32_from_be_bytes header)" using h(4,5) by simp
  have u: "AUTH_TAG_LEN \<le> length body" "payload = drop AUTH_TAG_LEN body"
      "secret = None \<or> take AUTH_TAG_LEN body = tag_of hmac secret payload"
    using h(6) by (auto simp: unframe_def Let_def verify_payload_iff [OF assms] split: if_splits)
  have f: "header @ body = frame_with (take AUTH_TAG_LEN body) payload"
    unfolding u(2) using frame_with_cong [OF _ b u(1)] h(1,2) by simp
  have "fst inc = header @ body @ drop (length body) (drop 4 (fst inc))"
    using h(2,5) b by (metis append_assoc append_take_drop_id)
  then have "fst inc = frame_with (take AUTH_TAG_LEN body) payload @ drop (length body) (drop 4 (fst inc))"
    using f by (metis append_assoc)
  moreover have "AUTH_TAG_LEN + length payload \<le> MAX_FRAME_SIZE" using u(1,2) b h(3) by simp
  moreover have "case secret of None \<Rightarrow> True | Some _ \<Rightarrow> frame_with (take AUTH_TAG_LEN body) payload = write_frame hmac secret payload"
    using u(3) by (auto simp: write_frame_eq split: option.splits)
  moreover have "length (take AUTH_TAG_LEN body) = AUTH_TAG_LEN" using u(1) by simp
  ultimately show ?r by blast
qed

section \<open>A concrete channel\<close>

definition demo_hmac :: hmac where
  "demo_hmac s m = replicate 32 (of_nat (length s))"

lemma demo_hmac32: "hmac32 demo_hmac"
  by (simp add: hmac32_def demo_hmac_def)

theorem accepted_reply_is_authentic_witness:
  "read_reply demo_hmac (Some [1]) (write_frame demo_hmac (Some [1]) [5, 6], Stalled) = Inr [5, 6]"
proof -
  have t: "length (tag_of demo_hmac (Some [1]) [5, 6]) = AUTH_TAG_LEN"
    by (simp add: tag_length [OF demo_hmac32] AUTH_TAG_LEN_def)
  have "AUTH_TAG_LEN + length [5 :: u8, 6] \<le> MAX_FRAME_SIZE" by (simp add: AUTH_TAG_LEN_def MAX_FRAME_SIZE_def)
  with t show ?thesis
    using accepted_reply_is_authentic [OF demo_hmac32, of "Some [1]" "(write_frame demo_hmac (Some [1]) [5, 6], Stalled)" "[5, 6]"]
    by (auto simp: write_frame_eq)
qed

end
