(* ===== verification/Data_Service.thy ===== *)
theory Data_Service
  imports Framing Tokens Shielded_Pool "HOL-Library.Product_Lexorder"
begin

text \<open>
  The persistence layer: the data service's store with its write-through state file
  (\<^verbatim>\<open>data-service/src/store.rs\<close>), its request handlers (\<^verbatim>\<open>data-service/src/server.rs\<close>) and the
  client every role uses to reach it (\<^verbatim>\<open>DefaultDataProvider\<close> in \<^verbatim>\<open>src/data.rs\<close>), joined by the
  framed channel of the theory \<open>Framing\<close>.  The MessagePack and JSON codecs, the hex codec and
  SHA-256 are parameters; what the file system and the network do to a call is an argument.
\<close>

section \<open>The store\<close>

record persisted_entry =
  pe_partition :: string
  pe_key :: string
  pe_value :: string

text \<open>\<open>ds_disk\<close> is the content of the state file.\<close>

record data_store =
  ds_entries :: "((string \<times> bytes) \<times> bytes) list"
  ds_state_file :: "string option"
  ds_disk :: "bytes option"

record file_codec =
  json_of :: "persisted_entry list \<Rightarrow> io_error + bytes"
  json_parse :: "bytes \<Rightarrow> io_error + persisted_entry list"
  hex_encode :: "bytes \<Rightarrow> string"
  hex_decode :: "string \<Rightarrow> io_error + bytes"

definition store_empty :: data_store where
  "store_empty = \<lparr>ds_entries = [], ds_state_file = None, ds_disk = None\<rparr>"

fun load_entries :: "file_codec \<Rightarrow> persisted_entry list \<Rightarrow> ((string \<times> bytes) \<times> bytes) list \<Rightarrow>
    io_error + ((string \<times> bytes) \<times> bytes) list" where
  "load_entries fc [] m = Inr m"
| "load_entries fc (e # es) m =
     (case hex_decode fc (pe_key e) of
        Inl err \<Rightarrow> Inl err
      | Inr key \<Rightarrow>
          (case hex_decode fc (pe_value e) of
             Inl err \<Rightarrow> Inl err
           | Inr value \<Rightarrow> load_entries fc es (AList.update (pe_partition e, key) value m)))"

definition with_state_file :: "file_codec \<Rightarrow> string \<Rightarrow> bytes option \<Rightarrow> io_error + data_store" where
  "with_state_file fc path disk =
     (case disk of
        None \<Rightarrow> Inr \<lparr>ds_entries = [], ds_state_file = Some path, ds_disk = None\<rparr>
      | Some raw \<Rightarrow>
          (case json_parse fc raw of
             Inl err \<Rightarrow> Inl err
           | Inr es \<Rightarrow>
               (case load_entries fc es [] of
                  Inl err \<Rightarrow> Inl err
                | Inr m \<Rightarrow> Inr \<lparr>ds_entries = m, ds_state_file = Some path, ds_disk = Some raw\<rparr>)))"

definition store_lookup :: "data_store \<Rightarrow> string \<Rightarrow> bytes \<Rightarrow> bytes option" where
  "store_lookup st part key = map_of (ds_entries st) (part, key)"

definition snapshot_of :: "file_codec \<Rightarrow> ((string \<times> bytes) \<times> bytes) list \<Rightarrow> persisted_entry list" where
  "snapshot_of fc m =
     sort_key (\<lambda>e. (pe_partition e, pe_key e))
       (map (\<lambda>((part, key), value). \<lparr>pe_partition = part, pe_key = hex_encode fc key, pe_value = hex_encode fc value\<rparr>) m)"

text \<open>The write to a temporary file and the rename either both succeed or leave the old file.\<close>

definition persist :: "file_codec \<Rightarrow> bool \<Rightarrow> data_store \<Rightarrow> (io_error + unit) \<times> data_store" where
  "persist fc disk_ok st =
     (case ds_state_file st of
        None \<Rightarrow> (Inr (), st)
      | Some _ \<Rightarrow>
          (case json_of fc (snapshot_of fc (ds_entries st)) of
             Inl err \<Rightarrow> (Inl err, st)
           | Inr body \<Rightarrow>
               if disk_ok then (Inr (), st\<lparr>ds_disk := Some body\<rparr>) else (Inl ''write failed'', st)))"

definition store_put ::
    "file_codec \<Rightarrow> bool \<Rightarrow> string \<Rightarrow> bytes \<Rightarrow> bytes \<Rightarrow> data_store \<Rightarrow> (io_error + unit) \<times> data_store" where
  "store_put fc disk_ok part key value st =
     persist fc disk_ok (st\<lparr>ds_entries := AList.update (part, key) value (ds_entries st)\<rparr>)"

definition store_len :: "data_store \<Rightarrow> nat" where
  "store_len st = length (ds_entries st)"

definition store_is_empty :: "data_store \<Rightarrow> bool" where
  "store_is_empty st \<longleftrightarrow> store_len st = 0"

definition store_keys :: "data_store \<Rightarrow> (string \<times> bytes) list" where
  "store_keys st = sort (map fst (ds_entries st))"

section \<open>Requests\<close>

record stake_envelope =
  se_payload :: stake_set
  se_hash :: bytes
  se_epoch :: u64

record executor_envelope =
  xe_payload :: executor_set
  xe_hash :: bytes
  xe_epoch :: u64

datatype get_op = GetToken | GetData | GetUser | GetStakeSnapshot u64 | GetExecutorSet u64 | GetShieldedPool

datatype save_op =
    SaveToken token | SaveData bytes | SaveUser user | SaveStakeSnapshot stake_envelope
  | SaveExecutorSet executor_envelope | SaveShieldedPool pool_envelope

datatype data_op = OpGet get_op | OpSave save_op

record data_request =
  dr_key :: bytes
  dr_op :: data_op
  dr_partition :: string

text \<open>One encoder and one decoder per type that crosses the channel, and what the fingerprints use.\<close>

record data_codec =
  dc_request :: "data_request \<Rightarrow> io_error + bytes"
  dc_request_of :: "bytes \<Rightarrow> io_error + data_request"
  dc_token :: "token \<Rightarrow> io_error + bytes"
  dc_token_of :: "bytes \<Rightarrow> io_error + token"
  dc_data :: "bytes \<Rightarrow> io_error + bytes"
  dc_data_of :: "bytes \<Rightarrow> io_error + bytes"
  dc_user :: "user \<Rightarrow> io_error + bytes"
  dc_user_of :: "bytes \<Rightarrow> io_error + user"
  dc_stake :: "stake_envelope \<Rightarrow> io_error + bytes"
  dc_stake_of :: "bytes \<Rightarrow> io_error + stake_envelope"
  dc_executor :: "executor_envelope \<Rightarrow> io_error + bytes"
  dc_executor_of :: "bytes \<Rightarrow> io_error + executor_envelope"
  dc_pool :: "pool_envelope \<Rightarrow> io_error + bytes"
  dc_pool_of :: "bytes \<Rightarrow> io_error + pool_envelope"
  dc_stakes :: "(bytes \<times> u64) list \<Rightarrow> io_error + bytes"
  dc_pool_state :: "shielded_pool_state \<Rightarrow> io_error + bytes"
  dc_sha :: "bytes \<Rightarrow> bytes"

definition stake_envelope_new :: "data_codec \<Rightarrow> stake_set \<Rightarrow> u64 \<Rightarrow> stake_envelope" where
  "stake_envelope_new dc s e = \<lparr>se_payload = s, se_hash = fingerprint (dc_sha dc) (dc_stakes dc) s, se_epoch = e\<rparr>"

definition stake_envelope_verify :: "data_codec \<Rightarrow> stake_envelope \<Rightarrow> data_error + unit" where
  "stake_envelope_verify dc env =
     (if se_hash env \<noteq> fingerprint (dc_sha dc) (dc_stakes dc) (se_payload env)
      then Inl (SnapshotCorrupt ''stored hash != payload.fingerprint()'') else Inr ())"

definition executor_envelope_new :: "data_codec \<Rightarrow> executor_set \<Rightarrow> u64 \<Rightarrow> executor_envelope" where
  "executor_envelope_new dc s e = \<lparr>xe_payload = s, xe_hash = ex_fingerprint (dc_sha dc) (dc_stakes dc) s, xe_epoch = e\<rparr>"

definition executor_envelope_verify :: "data_codec \<Rightarrow> executor_envelope \<Rightarrow> data_error + unit" where
  "executor_envelope_verify dc env =
     (if xe_hash env \<noteq> ex_fingerprint (dc_sha dc) (dc_stakes dc) (xe_payload env)
      then Inl (SnapshotCorrupt ''stored hash != payload.fingerprint()'') else Inr ())"

section \<open>The service\<close>

definition handle_get :: "data_store \<Rightarrow> data_request \<Rightarrow> bytes" where
  "handle_get st req =
     (case dr_op req of
        OpGet _ \<Rightarrow> (case store_lookup st (dr_partition req) (dr_key req) of Some v \<Rightarrow> v | None \<Rightarrow> [])
      | OpSave _ \<Rightarrow> [])"

definition save_value :: "data_codec \<Rightarrow> save_op \<Rightarrow> io_error + bytes" where
  "save_value dc s =
     (case s of
        SaveToken t \<Rightarrow> dc_token dc t
      | SaveData d \<Rightarrow> dc_data dc d
      | SaveUser u \<Rightarrow> dc_user dc u
      | SaveStakeSnapshot env \<Rightarrow> dc_stake dc env
      | SaveExecutorSet env \<Rightarrow> dc_executor dc env
      | SaveShieldedPool env \<Rightarrow> dc_pool dc env)"

definition handle_save ::
    "data_codec \<Rightarrow> file_codec \<Rightarrow> bool \<Rightarrow> data_store \<Rightarrow> data_request \<Rightarrow> (io_error + bytes) \<times> data_store" where
  "handle_save dc fc disk_ok st req =
     (case dr_op req of
        OpGet _ \<Rightarrow> (Inr [], st)
      | OpSave s \<Rightarrow>
          (case save_value dc s of
             Inl err \<Rightarrow> (Inl err, st)
           | Inr value \<Rightarrow>
               (case store_put fc disk_ok (dr_partition req) (dr_key req) value st of
                  (Inl err, st') \<Rightarrow> (Inl err, st')
                | (Inr _, st') \<Rightarrow> (Inr [], st'))))"

definition dispatch :: "data_codec \<Rightarrow> file_codec \<Rightarrow> bool \<Rightarrow> bytes \<Rightarrow> data_store \<Rightarrow> bytes \<times> data_store" where
  "dispatch dc fc disk_ok payload st =
     (case dc_request_of dc payload of
        Inl _ \<Rightarrow> ([], st)
      | Inr req \<Rightarrow>
          (case dr_op req of
             OpGet _ \<Rightarrow> (handle_get st req, st)
           | OpSave _ \<Rightarrow>
               (case handle_save dc fc disk_ok st req of
                  (Inr body, st') \<Rightarrow> (body, st')
                | (Inl _, st') \<Rightarrow> ([], st'))))"

text \<open>One request per connection; the stream closes afterwards.\<close>

definition serve_connection ::
    "data_codec \<Rightarrow> file_codec \<Rightarrow> hmac \<Rightarrow> bytes option \<Rightarrow> bool \<Rightarrow> incoming \<Rightarrow> data_store \<Rightarrow> incoming \<times> data_store" where
  "serve_connection dc fc hmac secret disk_ok inc st =
     (case read_body inc of
        Inl _ \<Rightarrow> (([], Closed), st)
      | Inr None \<Rightarrow> (([], Closed), st)
      | Inr (Some body) \<Rightarrow>
          (let tag = take AUTH_TAG_LEN body; payload = drop AUTH_TAG_LEN body
           in if \<not> verify_payload hmac secret tag payload then (([], Closed), st)
              else (let (response, st') = dispatch dc fc disk_ok payload st
                    in ((write_body hmac secret response, Closed), st'))))"

section \<open>The client\<close>

text \<open>What one call depends on: the codecs, the two ends' secrets, whether a sender for the source
  exists, and what network and disk do to the call.\<close>

record data_wire =
  dw_codec :: data_codec
  dw_file :: file_codec
  dw_hmac :: hmac
  dw_secret :: "bytes option"
  dw_service_secret :: "bytes option"
  dw_sender_found :: bool
  dw_link :: link
  dw_disk_ok :: bool

definition conn_text :: "conn_error \<Rightarrow> string" where
  "conn_text e =
     (case e of
        ConnIO \<Rightarrow> ''IO'' | MalformedData m \<Rightarrow> ''MalformedData: '' @ m | WriteError _ \<Rightarrow> ''WriteError''
      | ReadError _ \<Rightarrow> ''ReadError'' | DecryptError \<Rightarrow> ''DecryptError'' | ConnTimeout \<Rightarrow> ''Timeout''
      | Unauthenticated \<Rightarrow> ''Unauthenticated'')"

definition conn_error_to_data_error :: "conn_error \<Rightarrow> data_error" where
  "conn_error_to_data_error e =
     (case e of
        ConnTimeout \<Rightarrow> Timeout (conn_text e)
      | Unauthenticated \<Rightarrow> PeerUnauthenticated (conn_text e)
      | _ \<Rightarrow> FromStore (conn_text e))"

definition serialize_request :: "data_codec \<Rightarrow> bytes \<Rightarrow> data_op \<Rightarrow> string \<Rightarrow> data_error + bytes" where
  "serialize_request dc key op part =
     (case dc_request dc \<lparr>dr_key = key, dr_op = op, dr_partition = part\<rparr> of
        Inr d \<Rightarrow> Inr d
      | Inl err \<Rightarrow> Inl (SerializationError err))"

definition exchange :: "data_wire \<Rightarrow> bytes \<Rightarrow> data_store \<Rightarrow> (conn_error + bytes) \<times> data_store" where
  "exchange w data st =
     get_response (dw_hmac w) (dw_secret w) (dw_link w)
       (serve_connection (dw_codec w) (dw_file w) (dw_hmac w) (dw_service_secret w) (dw_disk_ok w)) data st"

definition get_data_internal ::
    "data_wire \<Rightarrow> (bytes \<Rightarrow> io_error + 'a) \<Rightarrow> bytes \<Rightarrow> data_op \<Rightarrow> string \<Rightarrow> data_store \<Rightarrow> (data_error + 'a) \<times> data_store" where
  "get_data_internal w decode key op part st =
     (case op of
        OpSave _ \<Rightarrow> (Inl (InvalidOperation ''Save''), st)
      | OpGet _ \<Rightarrow>
          if \<not> dw_sender_found w then (Inl StoreNotFound, st)
          else case serialize_request (dw_codec w) key op part of
                 Inl e \<Rightarrow> (Inl e, st)
               | Inr data \<Rightarrow>
                   (case exchange w data st of
                      (Inl err, st') \<Rightarrow> (Inl (conn_error_to_data_error err), st')
                    | (Inr response, st') \<Rightarrow>
                        (case decode response of
                           Inr v \<Rightarrow> (Inr v, st')
                         | Inl err \<Rightarrow> (Inl (DeserializationError err), st'))))"

definition save_data_internal ::
    "data_wire \<Rightarrow> bytes \<Rightarrow> data_op \<Rightarrow> string \<Rightarrow> data_store \<Rightarrow> (data_error + unit) \<times> data_store" where
  "save_data_internal w key op part st =
     (case op of
        OpGet _ \<Rightarrow> (Inl (InvalidOperation ''Get''), st)
      | OpSave _ \<Rightarrow>
          if \<not> dw_sender_found w then (Inl StoreNotFound, st)
          else case serialize_request (dw_codec w) key op part of
                 Inl e \<Rightarrow> (Inl e, st)
               | Inr data \<Rightarrow>
                   (case exchange w data st of
                      (Inl err, st') \<Rightarrow> (Inl (conn_error_to_data_error err), st')
                    | (Inr _, st') \<Rightarrow> (Inr (), st')))"

definition dp_get_token :: "data_wire \<Rightarrow> bytes \<Rightarrow> string \<Rightarrow> data_store \<Rightarrow> (data_error + token) \<times> data_store" where
  "dp_get_token w key part = get_data_internal w (dc_token_of (dw_codec w)) key (OpGet GetToken) part"

definition dp_save_token :: "data_wire \<Rightarrow> bytes \<Rightarrow> token \<Rightarrow> string \<Rightarrow> data_store \<Rightarrow> (data_error + unit) \<times> data_store" where
  "dp_save_token w key t part = save_data_internal w key (OpSave (SaveToken t)) part"

definition dp_get_data :: "data_wire \<Rightarrow> bytes \<Rightarrow> string \<Rightarrow> data_store \<Rightarrow> (data_error + bytes) \<times> data_store" where
  "dp_get_data w key part = get_data_internal w (dc_data_of (dw_codec w)) key (OpGet GetData) part"

definition dp_save_data :: "data_wire \<Rightarrow> bytes \<Rightarrow> bytes \<Rightarrow> string \<Rightarrow> data_store \<Rightarrow> (data_error + unit) \<times> data_store" where
  "dp_save_data w key data part = save_data_internal w key (OpSave (SaveData data)) part"

definition dp_get_user :: "data_wire \<Rightarrow> bytes \<Rightarrow> string \<Rightarrow> data_store \<Rightarrow> (data_error + user) \<times> data_store" where
  "dp_get_user w key part = get_data_internal w (dc_user_of (dw_codec w)) key (OpGet GetUser) part"

definition dp_save_user :: "data_wire \<Rightarrow> bytes \<Rightarrow> user \<Rightarrow> string \<Rightarrow> data_store \<Rightarrow> (data_error + unit) \<times> data_store" where
  "dp_save_user w key u part = save_data_internal w key (OpSave (SaveUser u)) part"

definition dp_get_stake_snapshot :: "data_wire \<Rightarrow> u64 \<Rightarrow> string \<Rightarrow> data_store \<Rightarrow> (data_error + stake_set) \<times> data_store" where
  "dp_get_stake_snapshot w epoch part st =
     (case get_data_internal w (dc_stake_of (dw_codec w)) (to_be_bytes epoch) (OpGet (GetStakeSnapshot epoch)) part st of
        (Inl e, st') \<Rightarrow> (Inl e, st')
      | (Inr env, st') \<Rightarrow>
          (case stake_envelope_verify (dw_codec w) env of
             Inl e \<Rightarrow> (Inl e, st')
           | Inr _ \<Rightarrow> (Inr (se_payload env), st')))"

definition dp_save_stake_snapshot ::
    "data_wire \<Rightarrow> u64 \<Rightarrow> stake_set \<Rightarrow> string \<Rightarrow> data_store \<Rightarrow> (data_error + unit) \<times> data_store" where
  "dp_save_stake_snapshot w epoch s part =
     save_data_internal w (to_be_bytes epoch) (OpSave (SaveStakeSnapshot (stake_envelope_new (dw_codec w) s epoch))) part"

definition dp_get_executor_set :: "data_wire \<Rightarrow> u64 \<Rightarrow> string \<Rightarrow> data_store \<Rightarrow> (data_error + executor_set) \<times> data_store" where
  "dp_get_executor_set w epoch part st =
     (case get_data_internal w (dc_executor_of (dw_codec w)) (to_be_bytes epoch) (OpGet (GetExecutorSet epoch)) part st of
        (Inl e, st') \<Rightarrow> (Inl e, st')
      | (Inr env, st') \<Rightarrow>
          (case executor_envelope_verify (dw_codec w) env of
             Inl e \<Rightarrow> (Inl e, st')
           | Inr _ \<Rightarrow> (Inr (xe_payload env), st')))"

definition dp_save_executor_set ::
    "data_wire \<Rightarrow> u64 \<Rightarrow> executor_set \<Rightarrow> string \<Rightarrow> data_store \<Rightarrow> (data_error + unit) \<times> data_store" where
  "dp_save_executor_set w epoch s part =
     save_data_internal w (to_be_bytes epoch) (OpSave (SaveExecutorSet (executor_envelope_new (dw_codec w) s epoch))) part"

definition dp_get_shielded_pool ::
    "data_wire \<Rightarrow> string \<Rightarrow> data_store \<Rightarrow> (data_error + shielded_pool_state option) \<times> data_store" where
  "dp_get_shielded_pool w part st =
     (case get_data_internal w (dc_pool_of (dw_codec w)) (as_bytes ''shielded_pool'') (OpGet GetShieldedPool) part st of
        (Inl e, st') \<Rightarrow> (Inl e, st')
      | (Inr env, st') \<Rightarrow>
          (case envelope_verify (dc_pool_state (dw_codec w)) (dc_sha (dw_codec w)) env of
             Inl e \<Rightarrow> (Inl e, st')
           | Inr _ \<Rightarrow> (Inr (Some (env_payload env)), st')))"

definition dp_save_shielded_pool ::
    "data_wire \<Rightarrow> shielded_pool_state \<Rightarrow> string \<Rightarrow> data_store \<Rightarrow> (data_error + unit) \<times> data_store" where
  "dp_save_shielded_pool w s part =
     save_data_internal w (as_bytes ''shielded_pool'')
       (OpSave (SaveShieldedPool (envelope_new (dc_pool_state (dw_codec w)) (dc_sha (dw_codec w)) s))) part"

section \<open>The store as a map\<close>

text \<open>The interface the handlers rely on: a lookup sees the last value put under its partition and
  key and nothing else.\<close>

locale byte_store =
  fixes lookup :: "'s \<Rightarrow> string \<Rightarrow> bytes \<Rightarrow> bytes option"
    and put :: "string \<Rightarrow> bytes \<Rightarrow> bytes \<Rightarrow> 's \<Rightarrow> 's"
  assumes lookup_put: "lookup (put p k v s) q j = (if (q, j) = (p, k) then Some v else lookup s q j)"
begin

definition puts :: "((string \<times> bytes) \<times> bytes) list \<Rightarrow> 's \<Rightarrow> 's" where
  "puts ws s = fold (\<lambda>((p, k), v). put p k v) ws s"

lemma lookup_puts: "lookup (puts ws s) q j = (case map_of (rev ws) (q, j) of Some v \<Rightarrow> Some v | None \<Rightarrow> lookup s q j)"
proof (induction ws arbitrary: s)
  case (Cons w ws)
  obtain p k v where w: "w = ((p, k), v)" by (metis surj_pair)
  show ?case using Cons [of "put p k v s"]
    by (auto simp: puts_def w lookup_put map_add_def split: option.splits)
qed (simp add: puts_def)

lemma last_put_wins: "lookup (puts (ws @ ((p, k), v) # us) s) p k = Some v \<or> (p, k) \<in> fst ` set us"
  unfolding lookup_puts using map_of_eq_None_iff [of "rev us" "(p, k)"]
  by (auto simp: map_add_def split: option.splits)

end

lemma persist_entries [simp]: "ds_entries (snd (persist fc ok st)) = ds_entries st"
  by (simp add: persist_def split: option.splits sum.splits)

lemma persist_state_file [simp]: "ds_state_file (snd (persist fc ok st)) = ds_state_file st"
  by (simp add: persist_def split: option.splits sum.splits)

interpretation ds: byte_store store_lookup "\<lambda>p k v st. snd (store_put fc ok p k v st)"
  by unfold_locales (simp add: store_lookup_def store_put_def update_conv')

section \<open>Documented behaviour of the codecs\<close>

text \<open>A decoded value is the encoded one; a hash map may come back in another iteration order.\<close>

definition same_stake_env :: "stake_envelope \<Rightarrow> stake_envelope \<Rightarrow> bool" where
  "same_stake_env a b \<longleftrightarrow>
     (distinct (map fst (stakers (se_payload a))) \<longrightarrow> same_stakes (se_payload a) (se_payload b)) \<and>
     se_hash a = se_hash b \<and> se_epoch a = se_epoch b"

definition same_executor_env :: "executor_envelope \<Rightarrow> executor_envelope \<Rightarrow> bool" where
  "same_executor_env a b \<longleftrightarrow>
     (distinct (map fst (executors (xe_payload a))) \<longrightarrow> same_executors (xe_payload a) (xe_payload b)) \<and>
     xe_hash a = xe_hash b \<and> xe_epoch a = xe_epoch b"

definition same_token :: "token \<Rightarrow> token \<Rightarrow> bool" where
  "same_token t u \<longleftrightarrow>
     (distinct (map fst (tok_metadata t)) \<longrightarrow> same_map (tok_metadata t) (tok_metadata u)) \<and>
     t\<lparr>tok_metadata := []\<rparr> = u\<lparr>tok_metadata := []\<rparr>"

fun same_save :: "save_op \<Rightarrow> save_op \<Rightarrow> bool" where
  "same_save (SaveToken t) s = (case s of SaveToken t' \<Rightarrow> same_token t t' | _ \<Rightarrow> False)"
| "same_save (SaveStakeSnapshot e) s = (case s of SaveStakeSnapshot e' \<Rightarrow> same_stake_env e e' | _ \<Rightarrow> False)"
| "same_save (SaveExecutorSet e) s = (case s of SaveExecutorSet e' \<Rightarrow> same_executor_env e e' | _ \<Rightarrow> False)"
| "same_save (SaveData d) s = (s = SaveData d)"
| "same_save (SaveUser u) s = (s = SaveUser u)"
| "same_save (SaveShieldedPool e) s = (s = SaveShieldedPool e)"

definition same_request :: "data_request \<Rightarrow> data_request \<Rightarrow> bool" where
  "same_request r q \<longleftrightarrow>
     dr_key r = dr_key q \<and> dr_partition r = dr_partition q \<and>
     (case dr_op r of
        OpGet g \<Rightarrow> dr_op q = OpGet g
      | OpSave s \<Rightarrow> (case dr_op q of OpSave s' \<Rightarrow> same_save s s' | OpGet _ \<Rightarrow> False))"

text \<open>A wire on which nothing fails on the way; the disk may still refuse the write.\<close>

definition good_wire :: "data_wire \<Rightarrow> bool" where
  "good_wire w \<longleftrightarrow>
     hmac32 (dw_hmac w) \<and> dw_secret w = dw_service_secret w \<and> dw_sender_found w \<and>
     lk_connects (dw_link w) \<and> lk_write_fails (dw_link w) = None \<and> lk_reply_cut (dw_link w) = None"

definition frame_fits :: "bytes \<Rightarrow> bool" where
  "frame_fits b \<longleftrightarrow> AUTH_TAG_LEN + length b \<le> MAX_FRAME_SIZE"

text \<open>A request is carried when its encoding fits a frame and decodes to the same request, a value
  when every equal value encodes to something that fits a frame and decodes to the same value.\<close>

definition request_carried :: "data_wire \<Rightarrow> bytes \<Rightarrow> data_op \<Rightarrow> string \<Rightarrow> bool" where
  "request_carried w key op part \<longleftrightarrow>
     (case dc_request (dw_codec w) \<lparr>dr_key = key, dr_op = op, dr_partition = part\<rparr> of
        Inl _ \<Rightarrow> False
      | Inr data \<Rightarrow>
          frame_fits data \<and>
          (case dc_request_of (dw_codec w) data of
             Inl _ \<Rightarrow> False
           | Inr req \<Rightarrow> same_request \<lparr>dr_key = key, dr_op = op, dr_partition = part\<rparr> req))"

definition decodes_back :: "data_codec \<Rightarrow> save_op \<Rightarrow> bytes \<Rightarrow> bool" where
  "decodes_back dc s v =
     (case s of
        SaveToken t \<Rightarrow> (case dc_token_of dc v of Inl _ \<Rightarrow> False | Inr t' \<Rightarrow> same_token t t')
      | SaveData d \<Rightarrow> dc_data_of dc v = Inr d
      | SaveUser u \<Rightarrow> dc_user_of dc v = Inr u
      | SaveStakeSnapshot env \<Rightarrow> (case dc_stake_of dc v of Inl _ \<Rightarrow> False | Inr env' \<Rightarrow> same_stake_env env env')
      | SaveExecutorSet env \<Rightarrow> (case dc_executor_of dc v of Inl _ \<Rightarrow> False | Inr env' \<Rightarrow> same_executor_env env env')
      | SaveShieldedPool env \<Rightarrow> dc_pool_of dc v = Inr env)"

definition value_carried :: "data_codec \<Rightarrow> save_op \<Rightarrow> bool" where
  "value_carried dc s \<longleftrightarrow>
     (\<forall>s'. same_save s s' \<longrightarrow> (\<exists>v. save_value dc s' = Inr v \<and> frame_fits v \<and> decodes_back dc s' v))"

section \<open>One exchange\<close>

lemma serve_frame:
  assumes "hmac32 h" and "frame_fits data"
  shows "serve_connection dc fc h secret ok (write_frame h secret data, e) st =
     ((write_frame h secret (fst (dispatch dc fc ok data st)), Closed), snd (dispatch dc fc ok data st))"
  using read_frame_body(1) [of "tag_of h secret data" data "[]" e] assms tag_length [OF assms(1), of secret data]
    verify_tag [OF assms(1), of secret data]
  by (simp add: serve_connection_def frame_fits_def write_frame_eq write_body_eq AUTH_TAG_LEN_def Let_def split: prod.splits)

lemma exchange_good:
  assumes w: "good_wire w" and "frame_fits data"
    and "frame_fits (fst (dispatch (dw_codec w) (dw_file w) (dw_disk_ok w) data st))"
  shows "exchange w data st =
     (let (r, st') = dispatch (dw_codec w) (dw_file w) (dw_disk_ok w) data st in (Inr r, st'))"
proof -
  let ?r = "fst (dispatch (dw_codec w) (dw_file w) (dw_disk_ok w) data st)"
  have h: "hmac32 (dw_hmac w)" using w by (simp add: good_wire_def)
  have "read_reply (dw_hmac w) (dw_secret w) (write_frame (dw_hmac w) (dw_secret w) ?r, Closed) = Inr ?r"
    using read_frame_body(2) [of "tag_of (dw_hmac w) (dw_secret w) ?r" ?r "dw_hmac w" "dw_secret w" "[]" Closed]
      tag_length [OF h, of "dw_secret w" ?r] unframe_tag [OF h] assms(3)
    by (simp add: write_frame_eq frame_fits_def)
  then show ?thesis
    using serve_frame [OF h assms(2), of "dw_codec w" "dw_file w" "dw_secret w" "dw_disk_ok w" Stalled st] w
    by (simp add: exchange_def get_response_def good_wire_def Let_def split: prod.splits)
qed

lemma request_decodes:
  assumes "request_carried w key op part"
  obtains data req where "serialize_request (dw_codec w) key op part = Inr data" "frame_fits data"
    "dc_request_of (dw_codec w) data = Inr req" "dr_key req = key" "dr_partition req = part"
    "same_request \<lparr>dr_key = key, dr_op = op, dr_partition = part\<rparr> req"
proof -
  obtain b req where r: "dc_request (dw_codec w) \<lparr>dr_key = key, dr_op = op, dr_partition = part\<rparr> = Inr b" "frame_fits b"
      "dc_request_of (dw_codec w) b = Inr req" "same_request \<lparr>dr_key = key, dr_op = op, dr_partition = part\<rparr> req"
    using assms by (auto simp: request_carried_def split: sum.splits)
  show ?thesis
    by (rule that [of b req]) (use r in \<open>simp_all add: serialize_request_def same_request_def\<close>)
qed

lemma frame_fits_Nil [simp]: "frame_fits []"
  by (simp add: frame_fits_def AUTH_TAG_LEN_def MAX_FRAME_SIZE_def)

lemma get_on_good_wire:
  assumes w: "good_wire w" and f: "request_carried w key (OpGet g) part"
    and v: "frame_fits (case store_lookup st part key of Some v \<Rightarrow> v | None \<Rightarrow> [])"
  shows "get_data_internal w decode key (OpGet g) part st =
    (case decode (case store_lookup st part key of Some v \<Rightarrow> v | None \<Rightarrow> []) of
       Inr x \<Rightarrow> (Inr x, st) | Inl e \<Rightarrow> (Inl (DeserializationError e), st))"
proof -
  from request_decodes [OF f] obtain data req where
      q: "serialize_request (dw_codec w) key (OpGet g) part = Inr data" "frame_fits data"
      "dc_request_of (dw_codec w) data = Inr req" "dr_key req = key" "dr_partition req = part"
      "same_request \<lparr>dr_key = key, dr_op = OpGet g, dr_partition = part\<rparr> req" by blast
  have "dr_op req = OpGet g" using q(6) by (simp add: same_request_def)
  note r = q(1-5) this
  have d: "dispatch (dw_codec w) (dw_file w) (dw_disk_ok w) data st =
      (case store_lookup st part key of Some v \<Rightarrow> v | None \<Rightarrow> [], st)"
    by (simp add: dispatch_def r handle_get_def)
  have "exchange w data st = (Inr (case store_lookup st part key of Some v \<Rightarrow> v | None \<Rightarrow> []), st)"
    using exchange_good [OF w r(2), of st] v by (simp add: d)
  moreover have "dw_sender_found w" using w by (simp add: good_wire_def)
  ultimately show ?thesis by (simp add: get_data_internal_def r split: sum.splits)
qed

lemma save_on_good_wire:
  assumes w: "good_wire w" and f: "request_carried w key (OpSave s) part" and v: "value_carried (dw_codec w) s"
  obtains s' v where "same_save s s'" "save_value (dw_codec w) s' = Inr v" "frame_fits v" "decodes_back (dw_codec w) s' v"
    "save_data_internal w key (OpSave s) part st = (Inr (), snd (store_put (dw_file w) (dw_disk_ok w) part key v st))"
proof -
  from request_decodes [OF f] obtain data req where
      q: "serialize_request (dw_codec w) key (OpSave s) part = Inr data" "frame_fits data"
      "dc_request_of (dw_codec w) data = Inr req" "dr_key req = key" "dr_partition req = part"
      "same_request \<lparr>dr_key = key, dr_op = OpSave s, dr_partition = part\<rparr> req" by blast
  obtain s' where "dr_op req = OpSave s'" "same_save s s'"
    using q(6) by (cases "dr_op req") (simp_all add: same_request_def)
  note r = q(1-5) this
  obtain v where v: "save_value (dw_codec w) s' = Inr v" "frame_fits v" "decodes_back (dw_codec w) s' v"
    using v r(7) unfolding value_carried_def by blast
  have d: "dispatch (dw_codec w) (dw_file w) (dw_disk_ok w) data st = ([], snd (store_put (dw_file w) (dw_disk_ok w) part key v st))"
    by (simp add: dispatch_def r handle_save_def v split: prod.splits sum.splits)
  have "exchange w data st = (Inr [], snd (store_put (dw_file w) (dw_disk_ok w) part key v st))"
    using exchange_good [OF w r(2), of st] by (simp add: d)
  moreover have "dw_sender_found w" using w by (simp add: good_wire_def)
  ultimately show ?thesis using that [OF r(7) v] by (simp add: save_data_internal_def r)
qed

section \<open>A save followed by a lookup\<close>

definition roundtrip_carried :: "data_wire \<Rightarrow> bytes \<Rightarrow> save_op \<Rightarrow> get_op \<Rightarrow> string \<Rightarrow> bool" where
  "roundtrip_carried w key s g part \<longleftrightarrow>
     request_carried w key (OpSave s) part \<and> request_carried w key (OpGet g) part \<and> value_carried (dw_codec w) s"

lemma save_then_get:
  assumes w: "good_wire w" and c: "roundtrip_carried w key s g part"
  shows "\<exists>s' v st'. same_save s s' \<and> save_value (dw_codec w) s' = Inr v \<and> decodes_back (dw_codec w) s' v \<and>
    save_data_internal w key (OpSave s) part st = (Inr (), st') \<and>
    st' = snd (store_put (dw_file w) (dw_disk_ok w) part key v st) \<and>
    get_data_internal w decode key (OpGet g) part st' =
       (case decode v of Inr x \<Rightarrow> (Inr x, st') | Inl e \<Rightarrow> (Inl (DeserializationError e), st')) \<and>
    (\<forall>q j. (q, j) \<noteq> (part, key) \<longrightarrow> store_lookup st' q j = store_lookup st q j)"
proof -
  have f: "request_carried w key (OpSave s) part" and g: "request_carried w key (OpGet g) part" and v: "value_carried (dw_codec w) s"
    using c by (simp_all add: roundtrip_carried_def)
  obtain s' val where s: "same_save s s'" "save_value (dw_codec w) s' = Inr val" "frame_fits val" "decodes_back (dw_codec w) s' val"
      "save_data_internal w key (OpSave s) part st = (Inr (), snd (store_put (dw_file w) (dw_disk_ok w) part key val st))"
    using save_on_good_wire [OF w f v] by blast
  let ?st = "snd (store_put (dw_file w) (dw_disk_ok w) part key val st)"
  have l: "store_lookup ?st part key = Some val" by (simp add: ds.lookup_put)
  then have "get_data_internal w decode key (OpGet g) part ?st =
      (case decode val of Inr x \<Rightarrow> (Inr x, ?st) | Inl e \<Rightarrow> (Inl (DeserializationError e), ?st))"
    using get_on_good_wire [OF w g, of ?st decode] s(3) by simp
  moreover have "\<forall>q j. (q, j) \<noteq> (part, key) \<longrightarrow> store_lookup ?st q j = store_lookup st q j"
    by (auto simp: ds.lookup_put)
  ultimately show ?thesis using s by blast
qed

lemma same_stakes_fingerprint: "same_stakes a b \<Longrightarrow> fingerprint sha rmp a = fingerprint sha rmp b"
  by (simp add: fingerprint_def canonical_bytes_def same_stakes_def same_map_btree_of)

lemma same_executors_fingerprint: "same_executors a b \<Longrightarrow> ex_fingerprint sha rmp a = ex_fingerprint sha rmp b"
  by (simp add: ex_fingerprint_def ex_canonical_bytes_def same_executors_def same_map_btree_of)

lemma same_map_trans: "same_map a b \<Longrightarrow> same_map b c \<Longrightarrow> same_map a c"
  by (simp add: same_map_def)

lemma same_stake_env_chain:
  assumes "same_stake_env (stake_envelope_new dc s e) a" and "same_stake_env a b" and "distinct (map fst (stakers s))"
  shows "same_stakes s (se_payload b)" and "stake_envelope_verify dc b = Inr ()"
proof -
  have a: "same_stakes s (se_payload a)" using assms(1,3) by (simp add: same_stake_env_def stake_envelope_new_def)
  then have "distinct (map fst (stakers (se_payload a)))" using same_map_distinct by (auto simp: same_stakes_def)
  with assms(2) have "same_stakes (se_payload a) (se_payload b)" by (simp add: same_stake_env_def)
  with a show s: "same_stakes s (se_payload b)" unfolding same_stakes_def by (rule same_map_trans)
  have "se_hash b = fingerprint (dc_sha dc) (dc_stakes dc) s"
    using assms(1,2) by (simp add: same_stake_env_def stake_envelope_new_def)
  then show "stake_envelope_verify dc b = Inr ()"
    using same_stakes_fingerprint [OF s] by (simp add: stake_envelope_verify_def)
qed

lemma same_executor_env_chain:
  assumes "same_executor_env (executor_envelope_new dc s e) a" and "same_executor_env a b" and "distinct (map fst (executors s))"
  shows "same_executors s (xe_payload b)" and "executor_envelope_verify dc b = Inr ()"
proof -
  have a: "same_executors s (xe_payload a)" using assms(1,3) by (simp add: same_executor_env_def executor_envelope_new_def)
  then have "distinct (map fst (executors (xe_payload a)))" using same_map_distinct by (auto simp: same_executors_def)
  with assms(2) have "same_executors (xe_payload a) (xe_payload b)" by (simp add: same_executor_env_def)
  with a show s: "same_executors s (xe_payload b)" unfolding same_executors_def by (rule same_map_trans)
  have "xe_hash b = ex_fingerprint (dc_sha dc) (dc_stakes dc) s"
    using assms(1,2) by (simp add: same_executor_env_def executor_envelope_new_def)
  then show "executor_envelope_verify dc b = Inr ()"
    using same_executors_fingerprint [OF s] by (simp add: executor_envelope_verify_def)
qed

abbreviation snapshot_op :: "data_wire \<Rightarrow> u64 \<Rightarrow> stake_set \<Rightarrow> save_op" where
  "snapshot_op w e s \<equiv> SaveStakeSnapshot (stake_envelope_new (dw_codec w) s e)"

abbreviation executors_op :: "data_wire \<Rightarrow> u64 \<Rightarrow> executor_set \<Rightarrow> save_op" where
  "executors_op w e s \<equiv> SaveExecutorSet (executor_envelope_new (dw_codec w) s e)"

abbreviation pool_op :: "data_wire \<Rightarrow> shielded_pool_state \<Rightarrow> save_op" where
  "pool_op w s \<equiv> SaveShieldedPool (envelope_new (dc_pool_state (dw_codec w)) (dc_sha (dw_codec w)) s)"

text \<open>A stake snapshot saved over the channel comes back as the same stakes, integrity check
  included, and no other record of the store changes.\<close>

theorem stake_snapshot_roundtrip:
  assumes w: "good_wire w" and d: "distinct (map fst (stakers s))"
    and f: "roundtrip_carried w (to_be_bytes e) (snapshot_op w e s) (GetStakeSnapshot e) part"
  shows "\<exists>st' s'. dp_save_stake_snapshot w e s part st = (Inr (), st') \<and>
     dp_get_stake_snapshot w e part st' = (Inr s', st') \<and> same_stakes s s' \<and>
     (\<forall>q j. (q, j) \<noteq> (part, to_be_bytes e) \<longrightarrow> store_lookup st' q j = store_lookup st q j)"
proof -
  obtain s' v st' where r: "same_save (snapshot_op w e s) s'" "save_value (dw_codec w) s' = Inr v" "decodes_back (dw_codec w) s' v"
      "save_data_internal w (to_be_bytes e) (OpSave (snapshot_op w e s)) part st = (Inr (), st')"
      "get_data_internal w (dc_stake_of (dw_codec w)) (to_be_bytes e) (OpGet (GetStakeSnapshot e)) part st' =
         (case dc_stake_of (dw_codec w) v of Inr x \<Rightarrow> (Inr x, st') | Inl err \<Rightarrow> (Inl (DeserializationError err), st'))"
      "\<forall>q j. (q, j) \<noteq> (part, to_be_bytes e) \<longrightarrow> store_lookup st' q j = store_lookup st q j"
    using save_then_get [OF w f, of st "dc_stake_of (dw_codec w)"] by blast
  obtain a where a: "s' = SaveStakeSnapshot a" "same_stake_env (stake_envelope_new (dw_codec w) s e) a"
    using r(1) by (cases s') simp_all
  obtain b where b: "dc_stake_of (dw_codec w) v = Inr b" "same_stake_env a b"
    using r(3) a(1) by (auto simp: decodes_back_def split: sum.splits)
  have "dp_get_stake_snapshot w e part st' = (Inr (se_payload b), st')"
    using same_stake_env_chain(2) [OF a(2) b(2) d] by (simp add: dp_get_stake_snapshot_def r(5) b(1))
  moreover have "dp_save_stake_snapshot w e s part st = (Inr (), st')" by (simp add: dp_save_stake_snapshot_def r(4))
  ultimately show ?thesis using same_stake_env_chain(1) [OF a(2) b(2) d] r(6) by blast
qed

text \<open>Saved executor sets and pool states are read back the same way.\<close>

lemma executor_set_roundtrip:
  assumes w: "good_wire w" and d: "distinct (map fst (executors s))"
    and f: "roundtrip_carried w (to_be_bytes e) (executors_op w e s) (GetExecutorSet e) part"
  shows "\<exists>st' s'. dp_save_executor_set w e s part st = (Inr (), st') \<and>
     dp_get_executor_set w e part st' = (Inr s', st') \<and> same_executors s s'"
proof -
  obtain s' v st' where r: "same_save (executors_op w e s) s'" "save_value (dw_codec w) s' = Inr v" "decodes_back (dw_codec w) s' v"
      "save_data_internal w (to_be_bytes e) (OpSave (executors_op w e s)) part st = (Inr (), st')"
      "get_data_internal w (dc_executor_of (dw_codec w)) (to_be_bytes e) (OpGet (GetExecutorSet e)) part st' =
         (case dc_executor_of (dw_codec w) v of Inr x \<Rightarrow> (Inr x, st') | Inl err \<Rightarrow> (Inl (DeserializationError err), st'))"
    using save_then_get [OF w f, of st "dc_executor_of (dw_codec w)"] by blast
  obtain a where a: "s' = SaveExecutorSet a" "same_executor_env (executor_envelope_new (dw_codec w) s e) a"
    using r(1) by (cases s') simp_all
  obtain b where b: "dc_executor_of (dw_codec w) v = Inr b" "same_executor_env a b"
    using r(3) a(1) by (auto simp: decodes_back_def split: sum.splits)
  have "dp_get_executor_set w e part st' = (Inr (xe_payload b), st')"
    using same_executor_env_chain(2) [OF a(2) b(2) d] by (simp add: dp_get_executor_set_def r(5) b(1))
  moreover have "dp_save_executor_set w e s part st = (Inr (), st')" by (simp add: dp_save_executor_set_def r(4))
  ultimately show ?thesis using same_executor_env_chain(1) [OF a(2) b(2) d] by blast
qed

lemma pool_state_roundtrip:
  assumes w: "good_wire w" and f: "roundtrip_carried w (as_bytes ''shielded_pool'') (pool_op w s) GetShieldedPool part"
  shows "\<exists>st'. dp_save_shielded_pool w s part st = (Inr (), st') \<and> dp_get_shielded_pool w part st' = (Inr (Some s), st')"
proof -
  obtain s' v st' where r: "same_save (pool_op w s) s'" "save_value (dw_codec w) s' = Inr v" "decodes_back (dw_codec w) s' v"
      "save_data_internal w (as_bytes ''shielded_pool'') (OpSave (pool_op w s)) part st = (Inr (), st')"
      "get_data_internal w (dc_pool_of (dw_codec w)) (as_bytes ''shielded_pool'') (OpGet GetShieldedPool) part st' =
         (case dc_pool_of (dw_codec w) v of Inr x \<Rightarrow> (Inr x, st') | Inl err \<Rightarrow> (Inl (DeserializationError err), st'))"
    using save_then_get [OF w f, of st "dc_pool_of (dw_codec w)"] by blast
  have b: "dc_pool_of (dw_codec w) v = Inr (envelope_new (dc_pool_state (dw_codec w)) (dc_sha (dw_codec w)) s)"
    using r(1,3) by (auto simp: decodes_back_def)
  have "dp_get_shielded_pool w part st' = (Inr (Some s), st')"
    by (simp add: dp_get_shielded_pool_def r(5) b envelope_verify_def envelope_new_def)
  moreover have "dp_save_shielded_pool w s part st = (Inr (), st')" by (simp add: dp_save_shielded_pool_def r(4))
  ultimately show ?thesis by blast
qed

section \<open>The state file\<close>

text \<open>The JSON text of the snapshot parses back, and so does the hex text of every key and value.\<close>

definition file_carried :: "file_codec \<Rightarrow> ((string \<times> bytes) \<times> bytes) list \<Rightarrow> bool" where
  "file_carried fc m \<longleftrightarrow>
     (case json_of fc (snapshot_of fc m) of Inl _ \<Rightarrow> False | Inr b \<Rightarrow> json_parse fc b = Inr (snapshot_of fc m)) \<and>
     list_all (\<lambda>((part, key), value). hex_decode fc (hex_encode fc key) = Inr key \<and>
       hex_decode fc (hex_encode fc value) = Inr value) m"

definition entry_of :: "file_codec \<Rightarrow> (string \<times> bytes) \<times> bytes \<Rightarrow> persisted_entry" where
  "entry_of fc = (\<lambda>((part, key), value). \<lparr>pe_partition = part, pe_key = hex_encode fc key, pe_value = hex_encode fc value\<rparr>)"

lemma sort_key_of_map: "sort_key f (map g xs) = map g (sort_key (f \<circ> g) xs)"
proof (induction xs)
  case (Cons x xs)
  have "insort_key f (g x) (map g ys) = map g (insort_key (\<lambda>a. f (g a)) x ys)" for ys by (induction ys) simp_all
  with Cons show ?case by (simp add: comp_def)
qed simp

lemma load_entries_of:
  assumes "list_all (\<lambda>((part, key), value). hex_decode fc (hex_encode fc key) = Inr key \<and>
    hex_decode fc (hex_encode fc value) = Inr value) m"
  shows "load_entries fc (map (entry_of fc) m) acc = Inr (fold (\<lambda>(k, v). AList.update k v) m acc)"
  using assms by (induction m arbitrary: acc) (auto simp: entry_of_def)

lemma map_of_fold_update:
  "distinct (map fst m) \<Longrightarrow> map_of (fold (\<lambda>(k, v). AList.update k v) m acc) = map_of acc ++ map_of m"
proof (induction m arbitrary: acc)
  case (Cons e m)
  obtain k v where e: "e = (k, v)" by (rule prod.exhaust)
  have k: "map_of m k = None" using Cons.prems by (simp add: e map_of_eq_None_iff)
  have i: "map_of (fold (\<lambda>(k, v). AList.update k v) m (AList.update k v acc)) = map_of (AList.update k v acc) ++ map_of m"
    using Cons.prems by (intro Cons.IH) simp
  show ?case
  proof
    fix x
    show "map_of (fold (\<lambda>(k, v). AList.update k v) (e # m) acc) x = (map_of acc ++ map_of (e # m)) x"
      using k by (cases "x = k") (simp_all add: e i update_conv' map_add_def split: option.splits)
  qed
qed simp

lemma load_snapshot:
  assumes "file_carried fc m" and "distinct (map fst m)"
  shows "\<exists>m'. load_entries fc (snapshot_of fc m) [] = Inr m' \<and> map_of m' = map_of m"
proof -
  let ?n = "sort_key ((\<lambda>e. (pe_partition e, pe_key e)) \<circ> entry_of fc) m"
  have n: "snapshot_of fc m = map (entry_of fc) ?n"
    unfolding snapshot_of_def entry_of_def [symmetric] by (rule sort_key_of_map)
  have s: "same_map m ?n" using assms(2) by (simp add: same_map_def)
  then have "map_of (fold (\<lambda>(k, v). AList.update k v) ?n []) = map_of m"
    using map_of_fold_update [of ?n "[]"] same_map_distinct [OF s] same_map_map_of [OF s] by simp
  moreover have "load_entries fc (map (entry_of fc) ?n) [] = Inr (fold (\<lambda>(k, v). AList.update k v) ?n [])"
    using assms(1) by (intro load_entries_of) (simp add: file_carried_def list_all_iff)
  ultimately show ?thesis unfolding n by blast
qed


text \<open>A save is reported as done although nothing was written.  When the disk refuses the
  write, the service answers with the same empty body as for a success and the client, which
  takes any reply to a save as success, returns without an error; the state file still holds
  the old content, so a restart forgets the saved pool.\<close>

theorem failed_save_reported_as_done:
  assumes w: "good_wire w" and "\<not> dw_disk_ok w" and "ds_state_file st = Some path"
    and f: "request_carried w (as_bytes ''shielded_pool'') (OpSave (pool_op w s)) part"
    and v: "value_carried (dw_codec w) (pool_op w s)"
  shows "\<exists>st'. dp_save_shielded_pool w s part st = (Inr (), st') \<and> ds_disk st' = ds_disk st"
proof -
  obtain s' v where s: "save_data_internal w (as_bytes ''shielded_pool'') (OpSave (pool_op w s)) part st =
      (Inr (), snd (store_put (dw_file w) (dw_disk_ok w) part (as_bytes ''shielded_pool'') v st))"
    using save_on_good_wire [OF w f v] by blast
  moreover have "ds_disk (snd (store_put (dw_file w) (dw_disk_ok w) part (as_bytes ''shielded_pool'') v st)) = ds_disk st"
    using assms(2,3) by (simp add: store_put_def persist_def split: sum.splits)
  ultimately show ?thesis by (simp add: dp_save_shielded_pool_def)
qed

text \<open>The stake snapshot and the executor set of an epoch share one storage key.  Saving the
  snapshot and then the executor set, as an epoch advance does, leaves the store without the
  snapshot: reading it fails to decode, because the stored record is the executor set's.\<close>

theorem executor_set_overwrites_snapshot:
  assumes w: "good_wire w"
    and f: "request_carried w (to_be_bytes e) (OpSave (snapshot_op w e s)) part" "value_carried (dw_codec w) (snapshot_op w e s)"
    and g: "roundtrip_carried w (to_be_bytes e) (executors_op w e x) (GetStakeSnapshot e) part"
    and names: "\<forall>env b. dc_executor (dw_codec w) env = Inr b \<longrightarrow> (\<exists>err. dc_stake_of (dw_codec w) b = Inl err)"
  shows "\<exists>st1 st2 err. dp_save_stake_snapshot w e s part st = (Inr (), st1) \<and>
     dp_save_executor_set w e x part st1 = (Inr (), st2) \<and>
     dp_get_stake_snapshot w e part st2 = (Inl (DeserializationError err), st2)"
proof -
  obtain st1 where 1: "save_data_internal w (to_be_bytes e) (OpSave (snapshot_op w e s)) part st = (Inr (), st1)"
    using save_on_good_wire [OF w f] by metis
  obtain s' v st2 where r: "same_save (executors_op w e x) s'" "save_value (dw_codec w) s' = Inr v" "decodes_back (dw_codec w) s' v"
      "save_data_internal w (to_be_bytes e) (OpSave (executors_op w e x)) part st1 = (Inr (), st2)"
      "get_data_internal w (dc_stake_of (dw_codec w)) (to_be_bytes e) (OpGet (GetStakeSnapshot e)) part st2 =
         (case dc_stake_of (dw_codec w) v of Inr y \<Rightarrow> (Inr y, st2) | Inl err \<Rightarrow> (Inl (DeserializationError err), st2))"
    using save_then_get [OF w g, of st1 "dc_stake_of (dw_codec w)"] by blast
  obtain err where err: "dc_stake_of (dw_codec w) v = Inl err"
    using names r(1,2) by (cases s') (auto simp: save_value_def)
  have "dp_get_stake_snapshot w e part st2 = (Inl (DeserializationError err), st2)"
    by (simp add: dp_get_stake_snapshot_def r(5) err)
  then show ?thesis using 1 r(4) by (auto simp: dp_save_stake_snapshot_def dp_save_executor_set_def)
qed

section \<open>What changes the store\<close>

lemma dispatch_changes:
  "snd (dispatch dc fc ok payload st) = st \<or>
   (\<exists>req s v. dc_request_of dc payload = Inr req \<and> dr_op req = OpSave s \<and> save_value dc s = Inr v \<and>
      snd (dispatch dc fc ok payload st) = snd (store_put fc ok (dr_partition req) (dr_key req) v st))"
  by (auto simp: dispatch_def handle_save_def split: sum.splits data_op.splits prod.splits)

text \<open>C34: whatever bytes arrive on a connection, the store changes only by an authentic save: the
  bytes begin with a frame, under a shared secret the very frame a holder of the secret
  writes, the payload decodes to a save, and exactly the record it names takes the saved
  value.\<close>

theorem store_changes_only_by_authentic_save:
  assumes h: "hmac32 h" and s: "serve_connection dc fc h secret ok inc st = (out, st')"
  shows "st' = st \<or>
    (\<exists>tag payload rest req op v.
       fst inc = frame_with tag payload @ rest \<and> (secret = None \<or> frame_with tag payload = write_frame h secret payload) \<and>
       dc_request_of dc payload = Inr req \<and> dr_op req = OpSave op \<and> save_value dc op = Inr v \<and>
       store_lookup st' = (\<lambda>q j. if (q, j) = (dr_partition req, dr_key req) then Some v else store_lookup st q j))"
proof (cases "\<exists>body. read_body inc = Inr (Some body)")
  case False
  then show ?thesis using s by (auto simp: serve_connection_def split: sum.splits option.splits)
next
  case True
  then obtain body where b: "read_body inc = Inr (Some body)" by blast
  let ?t = "take AUTH_TAG_LEN body" and ?p = "drop AUTH_TAG_LEN body"
  obtain rest where rest: "fst inc = frame_with ?t ?p @ rest" using read_body_Some(2) [OF b] by blast
  show ?thesis
  proof (cases "verify_payload h secret ?t ?p")
    case False
    then show ?thesis using s b by (simp add: serve_connection_def Let_def)
  next
    case True
    then have auth: "secret = None \<or> frame_with ?t ?p = write_frame h secret ?p"
      by (auto simp: verify_payload_iff [OF h] write_frame_eq)
    have st: "st' = snd (dispatch dc fc ok ?p st)"
      using s b True by (auto simp: serve_connection_def Let_def split: prod.splits)
    from dispatch_changes [of dc fc ok ?p st] show ?thesis
    proof
      assume "\<exists>req s v. dc_request_of dc ?p = Inr req \<and> dr_op req = OpSave s \<and> save_value dc s = Inr v \<and>
        snd (dispatch dc fc ok ?p st) = snd (store_put fc ok (dr_partition req) (dr_key req) v st)"
      then obtain req s v where r: "dc_request_of dc ?p = Inr req" "dr_op req = OpSave s" "save_value dc s = Inr v"
          "st' = snd (store_put fc ok (dr_partition req) (dr_key req) v st)" using st by auto
      have "store_lookup st' = (\<lambda>q j. if (q, j) = (dr_partition req, dr_key req) then Some v else store_lookup st q j)"
        unfolding r(4) by (intro ext ds.lookup_put)
      then show ?thesis using rest auth r(1-3) by blast
    qed (simp add: st)
  qed
qed

section \<open>A concrete service\<close>

definition demo_stakes :: stake_set where
  "demo_stakes = \<lparr>stakers = [([3], 5)]\<rparr>"

definition demo_stake_env :: stake_envelope where
  "demo_stake_env = \<lparr>se_payload = demo_stakes, se_hash = replicate 32 0, se_epoch = 1\<rparr>"

definition demo_executor_env :: executor_envelope where
  "demo_executor_env = \<lparr>xe_payload = to_executor_set demo_stakes, xe_hash = replicate 32 0, xe_epoch = 1\<rparr>"

definition demo_pool_env :: pool_envelope where
  "demo_pool_env = envelope_new (\<lambda>_. Inr []) (\<lambda>_. []) (state_snapshot demo_field demo_pool)"

text \<open>A codec for these values only: one byte names the request or the record.\<close>

definition demo_requests :: "(bytes \<times> data_request) list" where
  "demo_requests =
     [([1], \<lparr>dr_key = to_be_bytes 1, dr_op = OpGet (GetStakeSnapshot 1), dr_partition = ''p''\<rparr>),
      ([2], \<lparr>dr_key = to_be_bytes 1, dr_op = OpSave (SaveStakeSnapshot demo_stake_env), dr_partition = ''p''\<rparr>),
      ([3], \<lparr>dr_key = to_be_bytes 1, dr_op = OpSave (SaveExecutorSet demo_executor_env), dr_partition = ''p''\<rparr>),
      ([4], \<lparr>dr_key = as_bytes ''shielded_pool'', dr_op = OpSave (SaveShieldedPool demo_pool_env), dr_partition = ''p''\<rparr>),
      ([5], \<lparr>dr_key = as_bytes ''shielded_pool'', dr_op = OpGet GetShieldedPool, dr_partition = ''p''\<rparr>)]"

definition demo_dc :: data_codec where
  "demo_dc =
     \<lparr>dc_request = (\<lambda>r. Inr (case dr_op r of OpGet (GetStakeSnapshot _) \<Rightarrow> [1] | OpSave (SaveStakeSnapshot _) \<Rightarrow> [2]
                             | OpSave (SaveExecutorSet _) \<Rightarrow> [3] | OpSave (SaveShieldedPool _) \<Rightarrow> [4] | _ \<Rightarrow> [5])),
      dc_request_of = (\<lambda>b. case map_of demo_requests b of Some r \<Rightarrow> Inr r | None \<Rightarrow> Inl ''request''),
      dc_token = (\<lambda>_. Inl ''token''), dc_token_of = (\<lambda>_. Inl ''token''),
      dc_data = (\<lambda>_. Inl ''data''), dc_data_of = (\<lambda>_. Inl ''data''),
      dc_user = (\<lambda>_. Inl ''user''), dc_user_of = (\<lambda>_. Inl ''user''),
      dc_stake = (\<lambda>_. Inr [7]), dc_stake_of = (\<lambda>b. if b = [7] then Inr demo_stake_env else Inl ''missing field''),
      dc_executor = (\<lambda>_. Inr [8]), dc_executor_of = (\<lambda>b. if b = [8] then Inr demo_executor_env else Inl ''missing field''),
      dc_pool = (\<lambda>_. Inr [9]), dc_pool_of = (\<lambda>b. if b = [9] then Inr demo_pool_env else Inl ''missing field''),
      dc_stakes = (\<lambda>_. Inr []), dc_pool_state = (\<lambda>_. Inr []), dc_sha = (\<lambda>_. [])\<rparr>"

text \<open>A file codec for a state file with one record.\<close>

definition demo_fc :: file_codec where
  "demo_fc =
     \<lparr>json_of = (\<lambda>_. Inr []),
      json_parse = (\<lambda>_. Inr [\<lparr>pe_partition = ''p'', pe_key = ''k'', pe_value = ''v''\<rparr>]),
      hex_encode = (\<lambda>b. if b = [1] then ''k'' else ''v''), hex_decode = (\<lambda>s. if s = ''k'' then Inr [1] else Inr [2])\<rparr>"

definition demo_wire :: "bool \<Rightarrow> data_wire" where
  "demo_wire ok =
     \<lparr>dw_codec = demo_dc,
      dw_file = demo_fc,
      dw_hmac = demo_hmac, dw_secret = Some [1], dw_service_secret = Some [1], dw_sender_found = True,
      dw_link = \<lparr>lk_connects = True, lk_write_fails = None, lk_reply_cut = None\<rparr>, dw_disk_ok = ok\<rparr>"

lemma demo_wire_good: "good_wire (demo_wire ok)"
  by (simp add: good_wire_def demo_wire_def demo_hmac32)

lemma demo_codec_of [simp]: "dw_codec (demo_wire ok) = demo_dc"
  by (simp add: demo_wire_def)

lemma demo_ops [simp]:
  "snapshot_op (demo_wire ok) 1 demo_stakes = SaveStakeSnapshot demo_stake_env"
  "executors_op (demo_wire ok) 1 (to_executor_set demo_stakes) = SaveExecutorSet demo_executor_env"
  "pool_op (demo_wire ok) (state_snapshot demo_field demo_pool) = SaveShieldedPool demo_pool_env"
  by (simp_all add: demo_dc_def stake_envelope_new_def demo_stake_env_def fingerprint_def array32_or_zero_def
      executor_envelope_new_def demo_executor_env_def ex_fingerprint_def demo_pool_env_def)

lemma same_map_single: "same_map [x] n \<longleftrightarrow> n = [x]"
  unfolding same_map_def by (metis mset_single_iff_right distinct_singleton list.simps(8,9) mset.simps(1,2))

lemma demo_stake_env_same: "same_stake_env demo_stake_env b \<longleftrightarrow> b = demo_stake_env"
  by (cases b) (auto simp: same_stake_env_def demo_stake_env_def demo_stakes_def same_stakes_def same_map_single)

lemma demo_executor_env_same: "same_executor_env demo_executor_env b \<longleftrightarrow> b = demo_executor_env"
  by (cases b) (auto simp: same_executor_env_def demo_executor_env_def demo_stakes_def to_executor_set_def same_executors_def
      same_map_single)

lemma demo_requests_carried:
  "request_carried (demo_wire ok) (to_be_bytes 1) (OpGet (GetStakeSnapshot 1)) ''p''"
  "request_carried (demo_wire ok) (to_be_bytes 1) (OpSave (SaveStakeSnapshot demo_stake_env)) ''p''"
  "request_carried (demo_wire ok) (to_be_bytes 1) (OpSave (SaveExecutorSet demo_executor_env)) ''p''"
  "request_carried (demo_wire ok) (as_bytes ''shielded_pool'') (OpSave (SaveShieldedPool demo_pool_env)) ''p''"
  by (simp_all add: request_carried_def demo_dc_def demo_requests_def same_request_def frame_fits_def AUTH_TAG_LEN_def
      MAX_FRAME_SIZE_def demo_stake_env_same demo_executor_env_same)

lemma demo_values_carried:
  "value_carried demo_dc (SaveStakeSnapshot demo_stake_env)"
  "value_carried demo_dc (SaveExecutorSet demo_executor_env)"
  "value_carried demo_dc (SaveShieldedPool demo_pool_env)"
  by (simp_all add: value_carried_def demo_stake_env_same demo_executor_env_same save_value_def decodes_back_def demo_dc_def
      frame_fits_def AUTH_TAG_LEN_def MAX_FRAME_SIZE_def split: save_op.splits)

lemma demo_roundtrips:
  "roundtrip_carried (demo_wire ok) (to_be_bytes 1) (SaveStakeSnapshot demo_stake_env) (GetStakeSnapshot 1) ''p''"
  "roundtrip_carried (demo_wire ok) (to_be_bytes 1) (SaveExecutorSet demo_executor_env) (GetStakeSnapshot 1) ''p''"
  by (simp_all add: roundtrip_carried_def demo_requests_carried demo_values_carried)

theorem stake_snapshot_roundtrip_witness:
  "\<exists>st' s'. dp_save_stake_snapshot (demo_wire True) 1 demo_stakes ''p'' store_empty = (Inr (), st') \<and>
     dp_get_stake_snapshot (demo_wire True) 1 ''p'' st' = (Inr s', st') \<and> same_stakes demo_stakes s'"
proof -
  have "distinct (map fst (stakers demo_stakes))" by (simp add: demo_stakes_def)
  moreover have "roundtrip_carried (demo_wire True) (to_be_bytes 1) (snapshot_op (demo_wire True) 1 demo_stakes)
      (GetStakeSnapshot 1) ''p''" unfolding demo_ops by (rule demo_roundtrips)
  ultimately show ?thesis
    using stake_snapshot_roundtrip [OF demo_wire_good, of demo_stakes True 1 "''p''" store_empty] by blast
qed


theorem failed_save_reported_as_done_witness:
  "\<exists>st'. dp_save_shielded_pool (demo_wire False) (state_snapshot demo_field demo_pool) ''p''
       (store_empty\<lparr>ds_state_file := Some ''f''\<rparr>) = (Inr (), st') \<and> ds_disk st' = None"
proof -
  have "request_carried (demo_wire False) (as_bytes ''shielded_pool'')
      (OpSave (pool_op (demo_wire False) (state_snapshot demo_field demo_pool))) ''p''"
    "value_carried (dw_codec (demo_wire False)) (pool_op (demo_wire False) (state_snapshot demo_field demo_pool))"
    unfolding demo_ops unfolding demo_codec_of by (rule demo_requests_carried demo_values_carried)+
  from failed_save_reported_as_done [OF demo_wire_good _ _ this, of "store_empty\<lparr>ds_state_file := Some ''f''\<rparr>" "''f''"]
  show ?thesis by (simp add: store_empty_def demo_wire_def)
qed

theorem executor_set_overwrites_snapshot_witness:
  "\<exists>st1 st2 err. dp_save_stake_snapshot (demo_wire True) 1 demo_stakes ''p'' store_empty = (Inr (), st1) \<and>
     dp_save_executor_set (demo_wire True) 1 (to_executor_set demo_stakes) ''p'' st1 = (Inr (), st2) \<and>
     dp_get_stake_snapshot (demo_wire True) 1 ''p'' st2 = (Inl (DeserializationError err), st2)"
proof (rule executor_set_overwrites_snapshot [OF demo_wire_good])
  show "request_carried (demo_wire True) (to_be_bytes 1) (OpSave (snapshot_op (demo_wire True) 1 demo_stakes)) ''p''"
    unfolding demo_ops by (rule demo_requests_carried)
  show "value_carried (dw_codec (demo_wire True)) (snapshot_op (demo_wire True) 1 demo_stakes)"
    unfolding demo_ops unfolding demo_codec_of by (rule demo_values_carried)
  show "roundtrip_carried (demo_wire True) (to_be_bytes 1) (executors_op (demo_wire True) 1 (to_executor_set demo_stakes))
      (GetStakeSnapshot 1) ''p''" unfolding demo_ops by (rule demo_roundtrips)
qed (simp add: demo_dc_def)

theorem store_changes_only_by_authentic_save_witness:
  "\<exists>tag payload rest. write_frame demo_hmac (Some [1]) [2] = frame_with tag payload @ rest \<and>
     frame_with tag payload = write_frame demo_hmac (Some [1]) payload"
proof -
  let ?st = "snd (serve_connection demo_dc demo_fc demo_hmac (Some [1]) True (write_frame demo_hmac (Some [1]) [2], Stalled) store_empty)"
  have f: "frame_fits [2]" by (simp add: frame_fits_def AUTH_TAG_LEN_def MAX_FRAME_SIZE_def)
  have "?st \<noteq> store_empty"
    unfolding serve_frame [OF demo_hmac32 f]
    by (simp add: dispatch_def demo_dc_def demo_requests_def handle_save_def save_value_def store_put_def persist_def store_empty_def)
  then show ?thesis
    using store_changes_only_by_authentic_save [OF demo_hmac32 surjective_pairing,
        of demo_dc demo_fc "Some [1]" True "(write_frame demo_hmac (Some [1]) [2], Stalled)" store_empty]
    by auto
qed

end
