(* ===== verification/Quorum.thy ===== *)
theory Quorum
  imports Stake_Sets Tokens Committer_Errors
begin

text \<open>
  The committer's stake-weighted confirmation of \<^verbatim>\<open>committer/quoruming.rs\<close>: votes are counted
  once per key with the stake of the block's declared set, votes that arrive before the set
  are buffered and replayed, and a peer's claim of a quorum only makes the node repeat its
  own arithmetic.  Messages sent are recorded in the state; the deserializers of message
  bodies are parameters.
\<close>

section \<open>State\<close>

record quorum_state =
  confirmation_votes :: "(bytes list \<times> u64) amap"
  stake_set_cache :: "stake_set amap"
  pending_confirmation_votes :: "bytes list amap"
  rejected_quorum_claims :: u64
  buffered_confirmation_votes :: u64
  quorum_broadcasts :: "bytes list"

definition quorum_new :: quorum_state where
  "quorum_new =
     \<lparr>confirmation_votes = [], stake_set_cache = [], pending_confirmation_votes = [],
      rejected_quorum_claims = 0, buffered_confirmation_votes = 0, quorum_broadcasts = []\<rparr>"

section \<open>Counting\<close>

definition accumulate_vote :: "bytes \<Rightarrow> bytes \<Rightarrow> quorum_state \<Rightarrow> u64 option \<times> quorum_state" where
  "accumulate_vote h voter q =
     (case map_of (stake_set_cache q) h of
        None \<Rightarrow> (None, q)
      | Some ss \<Rightarrow>
          (let voting_stake = get_stake ss voter;
               (voters, cumulative) = (case map_of (confirmation_votes q) h of Some e \<Rightarrow> e | None \<Rightarrow> ([], 0))
           in if voter \<in> set voters then (Some cumulative, q)
              else (let cumulative' = saturating_add cumulative voting_stake
                    in (Some cumulative',
                        q\<lparr>confirmation_votes := AList.update h (voter # voters, cumulative') (confirmation_votes q)\<rparr>))))"

definition cast_confirmation_vote :: "bytes \<Rightarrow> bytes \<Rightarrow> quorum_state \<Rightarrow> quorum_state" where
  "cast_confirmation_vote h voter q =
     (case accumulate_vote h voter q of
        (Some _, q') \<Rightarrow> q'
      | (None, q') \<Rightarrow>
          q'\<lparr>buffered_confirmation_votes := buffered_confirmation_votes q' + 1,
             pending_confirmation_votes :=
               AList.update h ((case map_of (pending_confirmation_votes q') h of Some vs \<Rightarrow> vs | None \<Rightarrow> []) @ [voter])
                 (pending_confirmation_votes q')\<rparr>)"

text \<open>A float cast to \<^verbatim>\<open>u128\<close> truncates and saturates.\<close>

fun f32_as_u128 :: "f64 \<Rightarrow> nat" where
  "f32_as_u128 (Fin x) = (if x \<le> 0 then 0 else min (nat \<lfloor>x\<rfloor>) (2 ^ 128 - 1))"
| "f32_as_u128 PInf = 2 ^ 128 - 1"
| "f32_as_u128 NInf = 0"
| "f32_as_u128 NaN = 0"

definition quorum_pct :: "f64 \<Rightarrow> nat" where
  "quorum_pct percentage = f32_as_u128 (f64_round_int percentage)"

definition local_quorum_reached :: "f64 \<Rightarrow> quorum_state \<Rightarrow> bytes \<Rightarrow> bool option" where
  "local_quorum_reached percentage q h =
     (case map_of (stake_set_cache q) h of
        None \<Rightarrow> None
      | Some ss \<Rightarrow>
          (let total = total_stake ss
           in if total = 0 then Some False
              else case map_of (confirmation_votes q) h of
                     None \<Rightarrow> None
                   | Some (_, cumulative) \<Rightarrow>
                       Some (unat cumulative * 100 \<ge> (unat total * quorum_pct percentage) mod 2 ^ 128)))"

definition announce_quorum_if_reached :: "f64 \<Rightarrow> bytes \<Rightarrow> quorum_state \<Rightarrow> quorum_state" where
  "announce_quorum_if_reached percentage h q =
     (if local_quorum_reached percentage q h = Some True
      then q\<lparr>quorum_broadcasts := quorum_broadcasts q @ [h]\<rparr> else q)"

fun replay_votes :: "bytes \<Rightarrow> bytes list \<Rightarrow> nat \<Rightarrow> quorum_state \<Rightarrow> nat \<times> quorum_state" where
  "replay_votes h [] replayed q = (replayed, q)"
| "replay_votes h (voter # voters) replayed q =
     (case accumulate_vote h voter q of
        (Some _, q') \<Rightarrow> replay_votes h voters (Suc replayed) q'
      | (None, q') \<Rightarrow> replay_votes h voters replayed q')"

definition replay_pending_votes :: "f64 \<Rightarrow> bytes \<Rightarrow> quorum_state \<Rightarrow> quorum_state" where
  "replay_pending_votes percentage h q =
     (case map_of (pending_confirmation_votes q) h of
        None \<Rightarrow> q
      | Some voters \<Rightarrow>
          (let (replayed, q') =
             replay_votes h voters 0 (q\<lparr>pending_confirmation_votes := AList.delete h (pending_confirmation_votes q)\<rparr>)
           in if replayed > 0 then announce_quorum_if_reached percentage h q' else q'))"

text \<open>The stake set of a finalized block's message is cached and the early votes are replayed.\<close>

definition cache_stake_set :: "f64 \<Rightarrow> bytes \<Rightarrow> stake_set option \<Rightarrow> quorum_state \<Rightarrow> quorum_state" where
  "cache_stake_set percentage h declared q =
     (case declared of
        None \<Rightarrow> q
      | Some ss \<Rightarrow> replay_pending_votes percentage h (q\<lparr>stake_set_cache := AList.update h ss (stake_set_cache q)\<rparr>))"

section \<open>Handlers\<close>

definition handle_block_confirmed_vote ::
    "(bytes \<Rightarrow> io_error + bytes \<times> bytes) \<Rightarrow> f64 \<Rightarrow> bytes \<Rightarrow> quorum_state \<Rightarrow> unit cres \<times> quorum_state" where
  "handle_block_confirmed_vote decode percentage body q =
     (case decode body of
        Inl e \<Rightarrow> (Inl (CeDeserialization e), q)
      | Inr (h, voter) \<Rightarrow> (Inr (), announce_quorum_if_reached percentage h (cast_confirmation_vote h voter q)))"

fun token_with_tip :: "bytes \<Rightarrow> token amap \<Rightarrow> bytes option" where
  "token_with_tip h [] = None"
| "token_with_tip h ((_, t) # ts) =
     (let count = get_count (tok_blockchain t)
      in if count = 0 then token_with_tip h ts
         else case get_block_at (tok_blockchain t) (count - 1) of
                Some tip \<Rightarrow> if current_hash tip = h then Some (tok_id t) else token_with_tip h ts
              | None \<Rightarrow> token_with_tip h ts)"

definition confirm_tip :: "bytes \<Rightarrow> token amap \<Rightarrow> unit cres \<times> token amap" where
  "confirm_tip h tokens =
     (case token_with_tip h tokens of
        None \<Rightarrow> (Inr (), tokens)
      | Some token_id \<Rightarrow>
          (case map_of tokens token_id of
             None \<Rightarrow> (Inl (CeTokenNotFound (bytes_to_hex token_id)), tokens)
           | Some t \<Rightarrow>
               (Inr (), AList.update token_id
                  (t\<lparr>tok_blockchain := snd (set_finality_status h Confirmed (tok_blockchain t))\<rparr>) tokens)))"

definition handle_block_quorum_reached ::
    "(bytes \<Rightarrow> io_error + bytes) \<Rightarrow> f64 \<Rightarrow> bytes \<Rightarrow> quorum_state \<times> token amap \<Rightarrow> unit cres \<times> quorum_state \<times> token amap" where
  "handle_block_quorum_reached decode percentage body =
     (\<lambda>(q, tokens).
        case decode body of
          Inl e \<Rightarrow> (Inl (CeDeserialization e), q, tokens)
        | Inr h \<Rightarrow>
            (case local_quorum_reached percentage q h of
               Some True \<Rightarrow> (let (r, tokens') = confirm_tip h tokens in (r, q, tokens'))
             | _ \<Rightarrow> (Inr (), q\<lparr>rejected_quorum_claims := rejected_quorum_claims q + 1\<rparr>, tokens)))"

definition rejected_quorum_claim_count :: "quorum_state \<Rightarrow> u64" where
  "rejected_quorum_claim_count q = rejected_quorum_claims q"

definition buffered_confirmation_vote_count :: "quorum_state \<Rightarrow> u64" where
  "buffered_confirmation_vote_count q = buffered_confirmation_votes q"

section \<open>Sequences of arrivals\<close>

datatype quorum_event = VoteArrives bytes bytes | StakesArrive bytes stake_set

fun quorum_step :: "f64 \<Rightarrow> quorum_event \<Rightarrow> quorum_state \<Rightarrow> quorum_state" where
  "quorum_step p (VoteArrives h voter) q = announce_quorum_if_reached p h (cast_confirmation_vote h voter q)"
| "quorum_step p (StakesArrive h ss) q = cache_stake_set p h (Some ss) q"

definition quorum_run :: "f64 \<Rightarrow> quorum_event list \<Rightarrow> quorum_state" where
  "quorum_run p evs = fold (quorum_step p) evs quorum_new"

fun votes_for :: "bytes \<Rightarrow> quorum_event list \<Rightarrow> bytes list" where
  "votes_for h [] = []"
| "votes_for h (VoteArrives g k # evs) = (if g = h then k # votes_for h evs else votes_for h evs)"
| "votes_for h (StakesArrive _ _ # evs) = votes_for h evs"

fun stakes_for :: "bytes \<Rightarrow> quorum_event list \<Rightarrow> stake_set list" where
  "stakes_for h [] = []"
| "stakes_for h (VoteArrives _ _ # evs) = stakes_for h evs"
| "stakes_for h (StakesArrive g ss # evs) = (if g = h then ss # stakes_for h evs else stakes_for h evs)"

text \<open>The stake behind a set of keys, and the specification of the running total.\<close>

definition stake_behind :: "stake_set \<Rightarrow> bytes set \<Rightarrow> nat" where
  "stake_behind ss ks = (\<Sum>k\<in>ks. unat (get_stake ss k))"

definition counted :: "stake_set \<Rightarrow> bytes list \<Rightarrow> bytes list \<times> u64 \<Rightarrow> bool" where
  "counted ss ks e \<longleftrightarrow>
     distinct (fst e) \<and> set (fst e) = set ks \<and> unat (snd e) = min (stake_behind ss (set ks)) (2 ^ 64 - 1)"

definition book_ok ::
    "stake_set option \<Rightarrow> bytes list \<Rightarrow> stake_set option \<Rightarrow> (bytes list \<times> u64) option \<Rightarrow> bytes list option \<Rightarrow> bool" where
  "book_ok declared ks cached votes pending \<longleftrightarrow>
     cached = declared \<and>
     (case declared of
        None \<Rightarrow> votes = None \<and> pending = (if ks = [] then None else Some ks)
      | Some ss \<Rightarrow> pending = None \<and> (case votes of None \<Rightarrow> ks = [] | Some e \<Rightarrow> ks \<noteq> [] \<and> counted ss ks e))"

definition vote_book_ok :: "bytes \<Rightarrow> stake_set option \<Rightarrow> bytes list \<Rightarrow> quorum_state \<Rightarrow> bool" where
  "vote_book_ok h declared ks q \<longleftrightarrow>
     book_ok declared ks (map_of (stake_set_cache q) h) (map_of (confirmation_votes q) h) (map_of (pending_confirmation_votes q) h)"

lemma book_None: "book_ok None ks c v p \<longleftrightarrow> c = None \<and> v = None \<and> p = (if ks = [] then None else Some ks)"
  by (auto simp: book_ok_def)

lemma book_Some:
  "book_ok (Some ss) ks c v p \<longleftrightarrow>
     c = Some ss \<and> p = None \<and> (case v of None \<Rightarrow> ks = [] | Some e \<Rightarrow> ks \<noteq> [] \<and> counted ss ks e)"
  by (auto simp: book_ok_def)

lemmas book_simps = vote_book_ok_def book_None book_Some update_conv' delete_conv'

lemma announce_simps [simp]:
  "stake_set_cache (announce_quorum_if_reached p h q) = stake_set_cache q"
  "confirmation_votes (announce_quorum_if_reached p h q) = confirmation_votes q"
  "pending_confirmation_votes (announce_quorum_if_reached p h q) = pending_confirmation_votes q"
  by (simp_all add: announce_quorum_if_reached_def)

lemma announce_book [simp]: "vote_book_ok h d ks (announce_quorum_if_reached p g q) = vote_book_ok h d ks q"
  by (simp add: vote_book_ok_def)

lemma stake_behind_insert:
  "finite ks \<Longrightarrow> k \<notin> ks \<Longrightarrow> stake_behind ss (insert k ks) = unat (get_stake ss k) + stake_behind ss ks"
  by (simp add: stake_behind_def)

lemma counted_insert:
  assumes "counted ss ks (vs, cum)" and "k \<notin> set vs"
  shows "counted ss (ks @ [k]) (k # vs, saturating_add cum (get_stake ss k))"
proof -
  have "k \<notin> set ks" using assms by (simp add: counted_def)
  then have "stake_behind ss (insert k (set ks)) = unat (get_stake ss k) + stake_behind ss (set ks)"
    by (simp add: stake_behind_insert)
  then show ?thesis using assms by (simp add: counted_def unat_saturating_add)
qed

lemma counted_same: "counted ss ks e \<Longrightarrow> k \<in> set (fst e) \<Longrightarrow> counted ss (ks @ [k]) e"
  by (simp add: counted_def insert_absorb)

lemma counted_first: "counted ss [k] ([k], saturating_add 0 (get_stake ss k))"
proof -
  have "unat (get_stake ss k) \<le> 2 ^ 64 - 1" using unsigned_less [of "get_stake ss k", where ?'a = nat] by simp
  then show ?thesis by (simp add: counted_def stake_behind_def unat_saturating_add)
qed

lemma accumulate_other:
  "g \<noteq> h \<Longrightarrow> vote_book_ok h d ks (snd (accumulate_vote g k q)) = vote_book_ok h d ks q"
  by (simp add: vote_book_ok_def accumulate_vote_def Let_def update_conv' split: option.splits prod.splits)

lemma accumulate_counts:
  assumes "vote_book_ok h (Some ss) ks q"
  shows "fst (accumulate_vote h k q) \<noteq> None \<and> vote_book_ok h (Some ss) (ks @ [k]) (snd (accumulate_vote h k q))"
proof -
  have c: "map_of (stake_set_cache q) h = Some ss" and p: "map_of (pending_confirmation_votes q) h = None"
    using assms by (simp_all add: book_simps)
  show ?thesis
  proof (cases "map_of (confirmation_votes q) h")
    case None
    then have "ks = []" using assms by (simp add: book_simps)
    with None c p show ?thesis
      using counted_first [of ss k] by (simp add: accumulate_vote_def book_simps Let_def)
  next
    case (Some e)
    obtain vs cum where e: "e = (vs, cum)" by (rule prod.exhaust)
    have cnt: "ks \<noteq> []" "counted ss ks (vs, cum)" using assms Some e by (simp_all add: book_simps)
    show ?thesis
    proof (cases "k \<in> set vs")
      case True
      then show ?thesis
        using counted_same [OF cnt(2)] c p Some e by (simp add: accumulate_vote_def book_simps Let_def)
    next
      case False
      then show ?thesis
        using counted_insert [OF cnt(2)] c p Some e by (simp add: accumulate_vote_def book_simps Let_def)
    qed
  qed
qed

lemma accumulate_Some:
  assumes "vote_book_ok h (Some ss) ks q"
  obtains x q' where "accumulate_vote h k q = (Some x, q')" "vote_book_ok h (Some ss) (ks @ [k]) q'"
  using accumulate_counts [OF assms, of k] by (cases "accumulate_vote h k q") auto

lemma accumulate_None: "map_of (stake_set_cache q) h = None \<Longrightarrow> accumulate_vote h k q = (None, q)"
  by (simp add: accumulate_vote_def)

lemma cast_other:
  assumes "g \<noteq> h"
  shows "vote_book_ok h d ks (cast_confirmation_vote g k q) = vote_book_ok h d ks q"
proof (cases "accumulate_vote g k q")
  case (Pair r q')
  have "vote_book_ok h d ks q' = vote_book_ok h d ks q" using accumulate_other [OF assms, of d ks k q] Pair by simp
  then show ?thesis using assms
    by (cases r) (simp_all add: cast_confirmation_vote_def Pair vote_book_ok_def update_conv')
qed

lemma cast_book:
  assumes "vote_book_ok h d ks q"
  shows "vote_book_ok h d (ks @ [k]) (cast_confirmation_vote h k q)"
proof (cases d)
  case None
  then show ?thesis
    using assms by (simp add: cast_confirmation_vote_def book_simps accumulate_None)
next
  case (Some ss)
  with assms have "vote_book_ok h (Some ss) ks q" by simp
  then obtain x q' where "accumulate_vote h k q = (Some x, q')" "vote_book_ok h (Some ss) (ks @ [k]) q'"
    by (rule accumulate_Some)
  then show ?thesis using Some by (simp add: cast_confirmation_vote_def)
qed

lemma replay_votes_book:
  "vote_book_ok h (Some ss) ks q \<Longrightarrow> vote_book_ok h (Some ss) (ks @ vs) (snd (replay_votes h vs n q))"
proof (induction vs arbitrary: ks n q)
  case (Cons v vs)
  from Cons.prems obtain x q' where a: "accumulate_vote h v q = (Some x, q')" "vote_book_ok h (Some ss) (ks @ [v]) q'"
    by (rule accumulate_Some)
  from Cons.IH [OF a(2), of "Suc n"] show ?case by (simp add: a)
qed simp

lemma replay_votes_other:
  "g \<noteq> h \<Longrightarrow> vote_book_ok h d ks (snd (replay_votes g vs n q)) = vote_book_ok h d ks q"
proof (induction vs arbitrary: n q)
  case (Cons v vs)
  show ?case
  proof (cases "accumulate_vote g v q")
    case (Pair r q')
    then have "vote_book_ok h d ks q' = vote_book_ok h d ks q" using accumulate_other [OF Cons.prems, of d ks v q] by simp
    then show ?thesis using Cons by (cases r) (simp_all add: Pair)
  qed
qed simp

lemma replay_pending_book:
  "vote_book_ok h d ks (replay_pending_votes p g q) \<longleftrightarrow>
     vote_book_ok h d ks (case map_of (pending_confirmation_votes q) g of
       None \<Rightarrow> q
     | Some voters \<Rightarrow>
         snd (replay_votes g voters 0 (q\<lparr>pending_confirmation_votes := AList.delete g (pending_confirmation_votes q)\<rparr>)))"
  by (simp add: replay_pending_votes_def split: option.splits prod.splits)

lemma stakes_other:
  assumes "g \<noteq> h"
  shows "vote_book_ok h d ks (cache_stake_set p g (Some ss) q) = vote_book_ok h d ks q"
  using assms by (cases "map_of (pending_confirmation_votes q) g")
    (simp_all add: cache_stake_set_def replay_pending_book replay_votes_other, simp_all add: vote_book_ok_def update_conv' delete_conv')

lemma stakes_book:
  assumes "vote_book_ok h d ks q" and "d = None \<or> d = Some ss"
  shows "vote_book_ok h (Some ss) ks (cache_stake_set p h (Some ss) q)"
proof (cases "map_of (pending_confirmation_votes q) h")
  case None
  show ?thesis
  proof (cases d)
    case None': None
    with assms(1) None have "ks = []" "map_of (confirmation_votes q) h = None" by (auto simp: book_simps split: if_splits)
    with None show ?thesis by (simp add: cache_stake_set_def replay_pending_book) (simp add: book_simps)
  next
    case (Some ss')
    with assms None show ?thesis by (simp add: cache_stake_set_def replay_pending_book) (simp add: book_simps)
  qed
next
  case (Some vs)
  then have "d \<noteq> Some ss" using assms(1) by (auto simp: book_simps)
  then have d: "d = None" using assms(2) by simp
  then have vs: "vs = ks" using assms(1) Some by (simp add: book_simps split: if_splits)
  let ?q = "q\<lparr>stake_set_cache := AList.update h ss (stake_set_cache q),
              pending_confirmation_votes := AList.delete h (pending_confirmation_votes q)\<rparr>"
  have "vote_book_ok h (Some ss) [] ?q"
    using assms(1) d by (simp add: book_simps)
  from replay_votes_book [OF this, of ks 0] show ?thesis
    using Some vs by (simp add: cache_stake_set_def replay_pending_book)
qed

lemma votes_for_append [simp]: "votes_for h (es @ fs) = votes_for h es @ votes_for h fs"
  by (induction h es rule: votes_for.induct) simp_all

lemma stakes_for_append [simp]: "stakes_for h (es @ fs) = stakes_for h es @ stakes_for h fs"
  by (induction h es rule: stakes_for.induct) simp_all

lemma quorum_run_snoc: "quorum_run p (evs @ [e]) = quorum_step p e (quorum_run p evs)"
  by (simp add: quorum_run_def)

lemma quorum_run_book:
  "(\<forall>s\<in>set (stakes_for h evs). s = ss) \<Longrightarrow>
   vote_book_ok h (if stakes_for h evs = [] then None else Some ss) (votes_for h evs) (quorum_run p evs)"
proof (induction evs rule: rev_induct)
  case Nil
  then show ?case by (simp add: quorum_run_def quorum_new_def book_simps)
next
  case (snoc e evs)
  have IH: "vote_book_ok h (if stakes_for h evs = [] then None else Some ss) (votes_for h evs) (quorum_run p evs)"
    using snoc by simp
  show ?case
  proof (cases e)
    case (VoteArrives g k)
    then show ?thesis using IH cast_book [OF IH, of k] by (cases "g = h") (simp_all add: quorum_run_snoc cast_other)
  next
    case (StakesArrive g s)
    then show ?thesis
      using IH stakes_book [OF IH, of ss p] snoc.prems by (cases "g = h") (auto simp: quorum_run_snoc stakes_other)
  qed
qed

section \<open>The verdict\<close>

text \<open>With the percentage in the validated range the product fits a \<^verbatim>\<open>u128\<close>.\<close>

lemma quorum_product_fits: "quorum_pct p \<le> 100 \<Longrightarrow> (unat (x :: u64) * quorum_pct p) mod 2 ^ 128 = unat x * quorum_pct p"
proof -
  assume p: "quorum_pct p \<le> 100"
  have "unat x < 2 ^ 64" using unsigned_less [of x, where ?'a = nat] by simp
  with p have "unat x * quorum_pct p \<le> 2 ^ 64 * 100" by (intro mult_mono) simp_all
  then show ?thesis by (intro mod_less) simp
qed

lemma verdict_of_book:
  assumes b: "vote_book_ok h d ks q" and pct: "quorum_pct p \<le> 100"
  shows "local_quorum_reached p q h =
    (case d of
       None \<Rightarrow> None
     | Some ss \<Rightarrow>
         if total_stake ss = 0 then Some False
         else if ks = [] then None
         else Some (unat (total_stake ss) * quorum_pct p \<le> 100 * min (stake_behind ss (set ks)) (2 ^ 64 - 1)))"
proof (cases d)
  case None
  then show ?thesis using b by (simp add: local_quorum_reached_def book_simps)
next
  case (Some ss)
  then have c: "map_of (stake_set_cache q) h = Some ss" using b by (simp add: book_simps)
  show ?thesis
  proof (cases "map_of (confirmation_votes q) h")
    case None
    then have "ks = []" using b Some by (simp add: book_simps)
    then show ?thesis using Some None c by (simp add: local_quorum_reached_def)
  next
    case (Some e)
    with b \<open>d = Some ss\<close> have v: "ks \<noteq> []" "unat (snd e) = min (stake_behind ss (set ks)) (2 ^ 64 - 1)"
      by (simp_all add: book_simps counted_def)
    obtain vs cum where e: "e = (vs, cum)" by (rule prod.exhaust)
    with v(2) have "unat cum * 100 = 100 * min (stake_behind ss (set ks)) (2 ^ 64 - 1)" by (simp add: mult.commute)
    then show ?thesis
      using Some c v(1) \<open>d = Some ss\<close> quorum_product_fits [OF pct, of "total_stake ss"]
      by (simp add: local_quorum_reached_def e mult.commute)
  qed
qed


lemma stake_behind_members:
  assumes "finite ks"
  shows "stake_behind ss ks = stake_behind ss (ks \<inter> fst ` set (stakers ss))"
proof -
  have "unat (get_stake ss k) = 0" if "k \<notin> fst ` set (stakers ss)" for k
    using that by (simp add: get_stake_def map_of_eq_None_iff [THEN iffD2])
  then show ?thesis unfolding stake_behind_def using assms by (intro sum.mono_neutral_right) auto
qed

lemma stake_behind_mono: "finite ls \<Longrightarrow> ks \<subseteq> ls \<Longrightarrow> stake_behind ss ks \<le> stake_behind ss ls"
  unfolding stake_behind_def by (intro sum_mono2) simp_all

text \<open>A quorum takes the declared stakes.  A block counts as confirmed here only when the
  voters in the declared set hold the required percentage of the set's stake; votes from
  outside the set cannot replace them, and later arrivals never undo the verdict.\<close>

theorem quorum_needs_declared_stake:
  assumes all: "\<forall>s\<in>set (stakes_for h (evs @ later)). s = ss" and pct: "quorum_pct p \<le> 100"
    and yes: "local_quorum_reached p (quorum_run p evs) h = Some True"
  shows "unat (total_stake ss) * quorum_pct p \<le>
           100 * stake_behind ss (set (votes_for h evs) \<inter> fst ` set (stakers ss)) \<and>
         local_quorum_reached p (quorum_run p (evs @ later)) h = Some True"
proof -
  have one: "\<forall>s\<in>set (stakes_for h evs). s = ss" using all by simp
  have v: "stakes_for h evs \<noteq> []" "total_stake ss \<noteq> 0" "votes_for h evs \<noteq> []"
      "unat (total_stake ss) * quorum_pct p \<le> 100 * min (stake_behind ss (set (votes_for h evs))) (2 ^ 64 - 1)"
    using verdict_of_book [OF quorum_run_book [OF one] pct] yes by (auto split: if_splits)
  have "min (stake_behind ss (set (votes_for h evs))) (2 ^ 64 - 1) \<le>
      min (stake_behind ss (set (votes_for h (evs @ later)))) (2 ^ 64 - 1)"
    by (intro min.mono stake_behind_mono) auto
  then have m: "unat (total_stake ss) * quorum_pct p \<le> 100 * min (stake_behind ss (set (votes_for h (evs @ later)))) (2 ^ 64 - 1)"
    using v(4) by (meson mult_le_mono2 order_trans)
  have "local_quorum_reached p (quorum_run p (evs @ later)) h = Some True"
    using verdict_of_book [OF quorum_run_book [OF all] pct] v(1-3) m by simp
  moreover have "unat (total_stake ss) * quorum_pct p \<le> 100 * stake_behind ss (set (votes_for h evs))"
    using v(4) by (rule order_trans) simp
  ultimately show ?thesis using stake_behind_members [of "set (votes_for h evs)" ss] by simp
qed

section \<open>Claims of a quorum\<close>

lemma token_with_tip_Cons:
  "token_with_tip h ((k, t) # ts) =
     (if chain (tok_blockchain t) \<noteq> [] \<and> cached_tip (tok_blockchain t) = h then Some (tok_id t) else token_with_tip h ts)"
  by (simp add: Let_def get_count_def get_block_at_def cached_tip_def last_block_def last_conv_nth)

lemma token_with_tip_Some:
  "token_with_tip h ts = Some i \<Longrightarrow>
   \<exists>k t. (k, t) \<in> set ts \<and> tok_id t = i \<and> chain (tok_blockchain t) \<noteq> [] \<and> cached_tip (tok_blockchain t) = h"
proof (induction ts)
  case (Cons kt ts)
  then show ?case by (cases kt) (auto simp: token_with_tip_Cons split: if_splits simp del: token_with_tip.simps)
qed simp

lemma token_with_tip_None:
  "token_with_tip h ts = None \<Longrightarrow> (k, t) \<in> set ts \<Longrightarrow> chain (tok_blockchain t) = [] \<or> cached_tip (tok_blockchain t) \<noteq> h"
proof (induction ts)
  case (Cons kt ts)
  then show ?case by (cases kt) (auto simp: token_with_tip_Cons split: if_splits simp del: token_with_tip.simps)
qed simp

text \<open>The cache stores every token under its own id.\<close>

definition tokens_ok :: "token amap \<Rightarrow> bool" where
  "tokens_ok tokens \<longleftrightarrow> distinct (map fst tokens) \<and> list_all (\<lambda>(i, t). tok_id t = i) tokens"

lemma tokens_okD: "tokens_ok tokens \<Longrightarrow> (i, t) \<in> set tokens \<Longrightarrow> map_of tokens i = Some t \<and> tok_id t = i"
  by (auto simp: tokens_ok_def list_all_iff)

lemma confirm_tip_cases:
  assumes "tokens_ok tokens"
  shows "confirm_tip h tokens = (Inr (), tokens) \<and>
      (\<forall>i t. map_of tokens i = Some t \<longrightarrow> chain (tok_blockchain t) = [] \<or> cached_tip (tok_blockchain t) \<noteq> h) \<or>
    (\<exists>i t. map_of tokens i = Some t \<and> chain (tok_blockchain t) \<noteq> [] \<and> cached_tip (tok_blockchain t) = h \<and>
       confirm_tip h tokens =
         (Inr (), AList.update i (t\<lparr>tok_blockchain := snd (set_finality_status h Confirmed (tok_blockchain t))\<rparr>) tokens))"
proof (cases "token_with_tip h tokens")
  case None
  then have "\<forall>i t. map_of tokens i = Some t \<longrightarrow> chain (tok_blockchain t) = [] \<or> cached_tip (tok_blockchain t) \<noteq> h"
    by (auto dest!: map_of_SomeD dest: token_with_tip_None)
  then show ?thesis using None by (simp add: confirm_tip_def)
next
  case (Some i)
  from token_with_tip_Some [OF this] obtain k t where
    t: "(k, t) \<in> set tokens" "tok_id t = i" "chain (tok_blockchain t) \<noteq> []" "cached_tip (tok_blockchain t) = h" by blast
  then have "map_of tokens i = Some t" using tokens_okD [OF assms t(1)] by simp
  with Some t(3,4) show ?thesis by (auto simp: confirm_tip_def)
qed

text \<open>A claim of a quorum authorises nothing.  It changes the cache only when this node's own
  count confirms the named block, and then only marks that block, the tip of one token,
  confirmed; a claim the node cannot verify is counted as rejected and changes nothing else.\<close>

theorem quorum_claim_never_authorises:
  assumes ok: "tokens_ok tokens"
    and r: "handle_block_quorum_reached decode p body (q, tokens) = (result, q', tokens')"
  shows "case decode body of
      Inl e \<Rightarrow> result = Inl (CeDeserialization e) \<and> q' = q \<and> tokens' = tokens
    | Inr h \<Rightarrow>
        result = Inr () \<and>
        (if local_quorum_reached p q h = Some True
         then q' = q \<and>
           (if list_ex (\<lambda>(i, t). chain (tok_blockchain t) \<noteq> [] \<and> cached_tip (tok_blockchain t) = h) tokens
            then \<exists>i t. map_of tokens i = Some t \<and> cached_tip (tok_blockchain t) = h \<and>
              tokens' = AList.update i (t\<lparr>tok_blockchain := snd (set_finality_status h Confirmed (tok_blockchain t))\<rparr>) tokens
            else tokens' = tokens)
         else q' = q\<lparr>rejected_quorum_claims := rejected_quorum_claims q + 1\<rparr> \<and> tokens' = tokens)"
proof (cases "decode body")
  case (Inl e)
  then show ?thesis using r by (simp add: handle_block_quorum_reached_def)
next
  case (Inr h)
  show ?thesis
  proof (cases "local_quorum_reached p q h = Some True")
    case False
    then show ?thesis
      using r Inr by (auto simp: handle_block_quorum_reached_def split: option.splits bool.splits)
  next
    case True
    then have c: "confirm_tip h tokens = (result, tokens')" "q' = q"
      using r Inr by (auto simp: handle_block_quorum_reached_def split: prod.splits)
    from confirm_tip_cases [OF ok, of h] show ?thesis
    proof
      assume "confirm_tip h tokens = (Inr (), tokens) \<and>
        (\<forall>i t. map_of tokens i = Some t \<longrightarrow> chain (tok_blockchain t) = [] \<or> cached_tip (tok_blockchain t) \<noteq> h)"
      moreover from this have "\<not> list_ex (\<lambda>(i, t). chain (tok_blockchain t) \<noteq> [] \<and> cached_tip (tok_blockchain t) = h) tokens"
        using tokens_okD [OF ok] by (fastforce simp: list_ex_iff)
      ultimately show ?thesis using Inr True c by simp
    next
      assume "\<exists>i t. map_of tokens i = Some t \<and> chain (tok_blockchain t) \<noteq> [] \<and> cached_tip (tok_blockchain t) = h \<and>
        confirm_tip h tokens =
          (Inr (), AList.update i (t\<lparr>tok_blockchain := snd (set_finality_status h Confirmed (tok_blockchain t))\<rparr>) tokens)"
      then obtain i t where t: "map_of tokens i = Some t" "chain (tok_blockchain t) \<noteq> []" "cached_tip (tok_blockchain t) = h"
        "result = Inr ()" "tokens' = AList.update i (t\<lparr>tok_blockchain := snd (set_finality_status h Confirmed (tok_blockchain t))\<rparr>) tokens"
        using c(1) by auto
      moreover have "list_ex (\<lambda>(i, t). chain (tok_blockchain t) \<noteq> [] \<and> cached_tip (tok_blockchain t) = h) tokens"
        using map_of_SomeD [OF t(1)] t(2,3) by (fastforce simp: list_ex_iff)
      ultimately show ?thesis using Inr True c(2) by auto
    qed
  qed
qed

section \<open>Concrete votes\<close>

definition three_stakers :: stake_set where
  "three_stakers = \<lparr>stakers = [([1], 10), ([2], 10), ([3], 10)]\<rparr>"

text \<open>Two early votes, one of them repeated, one from outside, the set, and the third voter.\<close>

definition three_votes :: "quorum_event list" where
  "three_votes = [VoteArrives [9] [1], VoteArrives [9] [2], VoteArrives [9] [1], VoteArrives [9] [7],
     StakesArrive [9] three_stakers, VoteArrives [9] [3]]"

lemma pct67: "quorum_pct (Fin 67) = 67"
proof -
  have "\<lfloor>135 / 2 :: rat\<rfloor> = 67" by (simp add: floor_eq_iff)
  then show ?thesis by (simp add: quorum_pct_def)
qed

lemma three_total: "unat (total_stake three_stakers) = 30"
  by (simp add: unat_total_stake three_stakers_def)

lemma three_reached: "local_quorum_reached (Fin 67) (quorum_run (Fin 67) three_votes) [9] = Some True"
proof -
  have "set (votes_for [9] three_votes) = {[1], [2], [7], [3]}" by (auto simp: three_votes_def)
  then have "stake_behind three_stakers (set (votes_for [9] three_votes)) = 30"
    by (simp add: stake_behind_def three_stakers_def get_stake_def)
  moreover have "vote_book_ok [9] (Some three_stakers) (votes_for [9] three_votes) (quorum_run (Fin 67) three_votes)"
    using quorum_run_book [of "[9]" three_votes three_stakers "Fin 67"] by (simp add: three_votes_def)
  moreover have "total_stake three_stakers \<noteq> 0" using three_total by auto
  moreover have "votes_for [9] three_votes \<noteq> []" by (simp add: three_votes_def)
  ultimately show ?thesis
    using verdict_of_book [of "[9]" "Some three_stakers" "votes_for [9] three_votes" "quorum_run (Fin 67) three_votes" "Fin 67"]
    by (simp add: pct67 three_total)
qed


theorem quorum_needs_declared_stake_witness:
  "30 * 67 \<le> 100 * stake_behind three_stakers ({[1], [2], [7], [3]} \<inter> {[1], [2], [3]}) \<and>
   local_quorum_reached (Fin 67) (quorum_run (Fin 67) (three_votes @ [VoteArrives [9] [8]])) [9] = Some True"
proof -
  have v: "set (votes_for [9] three_votes) = {[1], [2], [7], [3]}" by (auto simp: three_votes_def)
  have "\<forall>s\<in>set (stakes_for [9] (three_votes @ [VoteArrives [9] [8]])). s = three_stakers" by (simp add: three_votes_def)
  then show ?thesis
    using quorum_needs_declared_stake [of "[9]" three_votes "[VoteArrives [9] [8]]" three_stakers "Fin 67"] three_reached
    unfolding v three_total pct67 by (simp add: three_stakers_def)
qed

theorem quorum_claim_never_authorises_witness:
  "\<exists>i t. handle_block_quorum_reached (\<lambda>_. Inr [9]) (Fin 67) [] (quorum_run (Fin 67) three_votes, []) =
     (Inr (), quorum_run (Fin 67) three_votes, []) \<and>
   handle_block_quorum_reached (\<lambda>_. Inr [9]) (Fin 67) [] (quorum_new, [(i, t)]) =
     (Inr (), quorum_new\<lparr>rejected_quorum_claims := 1\<rparr>, [(i, t)])"
proof -
  have n: "local_quorum_reached (Fin 67) quorum_new [9] = None" by (simp add: local_quorum_reached_def quorum_new_def)
  obtain r1 a1 b1 where 1: "handle_block_quorum_reached (\<lambda>_. Inr [9]) (Fin 67) [] (quorum_run (Fin 67) three_votes, []) = (r1, a1, b1)"
    by (metis prod_cases3)
  obtain r2 a2 b2 where 2: "handle_block_quorum_reached (\<lambda>_. Inr [9]) (Fin 67) [] (quorum_new, [([], token_new)]) = (r2, a2, b2)"
    by (metis prod_cases3)
  have ok: "tokens_ok []" "tokens_ok [([], token_new)]" by (simp_all add: tokens_ok_def token_new_def)
  have "r1 = Inr () \<and> a1 = quorum_run (Fin 67) three_votes \<and> b1 = []"
    using quorum_claim_never_authorises [OF ok(1) 1] three_reached by simp
  moreover have "r2 = Inr () \<and> a2 = quorum_new\<lparr>rejected_quorum_claims := 1\<rparr> \<and> b2 = [([], token_new)]"
    using quorum_claim_never_authorises [OF ok(2) 2] n by (simp add: quorum_new_def)
  ultimately show ?thesis using 1 2 by blast
qed

end
