(* ===== verification/Node_Registry.thy ===== *)
theory Node_Registry
  imports Tokens
begin

text \<open>
  The directory of connected nodes: role lookup, registration under stake and capacity, the
  register acknowledgement, directory queries and responses, heartbeats and eviction
  (\<^verbatim>\<open>node/registry.rs\<close> and \<^verbatim>\<open>registration.rs\<close>, \<^verbatim>\<open>heartbeat.rs\<close>, \<^verbatim>\<open>peering.rs\<close> and
  \<^verbatim>\<open>self_delivery.rs\<close> under it), with the binding signatures of \<^verbatim>\<open>rns/identity.rs\<close> and the
  envelope check of \<^verbatim>\<open>auth.rs\<close>.  The encoders, the signature scheme and the transport are
  parameters; a transmission is recorded in the state; the clock is an argument, in seconds.
\<close>

section \<open>Data\<close>

record registry_node =
  rn_rhash :: bytes
  rn_last_seen :: nat
  rn_signature :: bytes
  rn_requested :: node_registry_type
  rn_types :: "node_registry_type list"

definition node_new :: "nat \<Rightarrow> bytes \<Rightarrow> registry_node" where
  "node_new now rhash =
     \<lparr>rn_rhash = rhash, rn_last_seen = now, rn_signature = [], rn_requested = Archiver, rn_types = []\<rparr>"

definition node_with_binding ::
    "nat \<Rightarrow> bytes \<Rightarrow> bytes \<Rightarrow> node_registry_type \<Rightarrow> node_registry_type list \<Rightarrow> registry_node" where
  "node_with_binding now rhash sig requested types =
     (node_new now rhash)\<lparr>rn_signature := sig, rn_requested := requested, rn_types := types\<rparr>"

datatype node_request_type =
    RegisterRequest | DirectoryRequest | HeartbeatRequest
  | RegisterAck bool node_registry_type bytes string

record node_request =
  nq_key :: bytes
  nq_rhash :: bytes
  nq_request :: node_request_type
  nq_types :: "node_registry_type list"
  nq_requested :: node_registry_type
  nq_binding :: bytes
  nq_target :: "bytes option"
  nq_nonce :: "bytes option"

record registry_entry =
  re_key :: bytes
  re_rhash :: bytes
  re_signature :: bytes
  re_requested :: node_registry_type
  re_types :: "node_registry_type list"

record registry_response =
  rr_key :: bytes
  rr_rhash :: bytes
  rr_type :: node_registry_type
  rr_entries :: "registry_entry list"
  rr_signature :: bytes

datatype packet = ControlPacket node_request | DataPacket registry_response

definition is_consensus_role :: "node_registry_type \<Rightarrow> bool" where
  "is_consensus_role t \<longleftrightarrow> t \<noteq> Archiver"

text \<open>What the registry takes from outside: its configuration, the encoders of the signed tuples,
  the signature scheme, the stake gate and the transport's route table.\<close>

record registry_env =
  rg_public_key :: bytes
  rg_rhash :: bytes
  rg_max_node_number :: "node_registry_type \<Rightarrow> nat"
  rg_directory_observer :: bool
  rg_network :: bool
  rg_has_route :: "bytes \<Rightarrow> bool"
  rg_stake_check :: "bytes \<Rightarrow> node_registry_type \<Rightarrow> bool"
  rg_crypto :: crypto_provider
  rg_binding :: "bytes \<times> node_registry_type \<times> node_registry_type list \<Rightarrow> io_error + bytes"
  rg_query :: "bytes \<times> bytes \<times> bytes \<times> node_registry_type \<times> node_registry_type list \<Rightarrow> io_error + bytes"
  rg_directory :: "registry_entry list \<times> node_registry_type \<times> bytes \<Rightarrow> io_error + bytes"
  rg_response :: "registry_response \<Rightarrow> io_error + bytes"

record node_registry =
  committers :: "registry_node amap"
  sentinels :: "registry_node amap"
  executors_of :: "registry_node amap"
  finalizers :: "registry_node amap"
  archivers :: "registry_node amap"
  query_nonces :: "((bytes \<times> bytes) \<times> nat) list"
  declared_roles :: "node_registry_type list"
  self_delivery :: "node_registry_type list option"
  sent_packets :: "(bytes \<times> packet) list"

definition registry_init :: "node_registry_type list \<Rightarrow> node_registry" where
  "registry_init types =
     \<lparr>committers = [], sentinels = [], executors_of = [], finalizers = [], archivers = [], query_nonces = [],
      declared_roles = types, self_delivery = None, sent_packets = []\<rparr>"

definition get_nodes :: "node_registry \<Rightarrow> node_registry_type \<Rightarrow> registry_node amap" where
  "get_nodes r t =
     (case t of
        Committer \<Rightarrow> committers r | Sentinel \<Rightarrow> sentinels r | Executor \<Rightarrow> executors_of r
      | Finalizer \<Rightarrow> finalizers r | Archiver \<Rightarrow> archivers r)"

definition put_nodes :: "node_registry_type \<Rightarrow> registry_node amap \<Rightarrow> node_registry \<Rightarrow> node_registry" where
  "put_nodes t m r =
     (case t of
        Committer \<Rightarrow> r\<lparr>committers := m\<rparr> | Sentinel \<Rightarrow> r\<lparr>sentinels := m\<rparr> | Executor \<Rightarrow> r\<lparr>executors_of := m\<rparr>
      | Finalizer \<Rightarrow> r\<lparr>finalizers := m\<rparr> | Archiver \<Rightarrow> r\<lparr>archivers := m\<rparr>)"

definition send_packet :: "registry_env \<Rightarrow> bytes \<Rightarrow> packet \<Rightarrow> node_registry \<Rightarrow> node_registry" where
  "send_packet E rhash p r = (if rg_network E then r\<lparr>sent_packets := sent_packets r @ [(rhash, p)]\<rparr> else r)"

section \<open>Signatures\<close>

definition verify_binding ::
    "registry_env \<Rightarrow> bytes \<Rightarrow> bytes \<Rightarrow> node_registry_type \<Rightarrow> node_registry_type list \<Rightarrow> bytes \<Rightarrow> bool" where
  "verify_binding E key rhash requested types sig =
     (case rg_binding E (rhash, requested, types) of
        Inl _ \<Rightarrow> False
      | Inr payload \<Rightarrow> (case check_signature (rg_crypto E) sig key payload of Inr b \<Rightarrow> b | Inl _ \<Rightarrow> False))"

definition sign_binding ::
    "registry_env \<Rightarrow> node_registry_type \<Rightarrow> node_registry_type list \<Rightarrow> bytes res" where
  "sign_binding E requested types =
     (case rg_binding E (rg_rhash E, requested, types) of
        Inl e \<Rightarrow> Inl (Encoding e)
      | Inr payload \<Rightarrow> sign_data (rg_crypto E) payload)"

definition verify_query ::
    "registry_env \<Rightarrow> bytes \<Rightarrow> bytes \<Rightarrow> bytes \<Rightarrow> bytes \<Rightarrow> node_registry_type \<Rightarrow> node_registry_type list \<Rightarrow> bytes \<Rightarrow> bool" where
  "verify_query E key rhash target nonce requested types sig =
     (case rg_query E (rhash, target, nonce, requested, types) of
        Inl _ \<Rightarrow> False
      | Inr payload \<Rightarrow> (case check_signature (rg_crypto E) sig key payload of Inr b \<Rightarrow> b | Inl _ \<Rightarrow> False))"

section \<open>Roles\<close>

definition all_types :: "node_registry_type list" where
  "all_types = [Committer, Sentinel, Executor, Finalizer, Archiver]"

fun type_position :: "node_registry_type \<Rightarrow> nat" where
  "type_position Committer = 0"
| "type_position Sentinel = 1"
| "type_position Executor = 2"
| "type_position Finalizer = 3"
| "type_position Archiver = 4"

definition node_is_already_registered :: "node_registry \<Rightarrow> bytes \<Rightarrow> node_registry_type \<Rightarrow> bool" where
  "node_is_already_registered r key t \<longleftrightarrow> map_of (get_nodes r t) key \<noteq> None"

definition self_delivery_roles :: "node_registry \<Rightarrow> node_registry_type list" where
  "self_delivery_roles r = (case self_delivery r of Some roles \<Rightarrow> roles | None \<Rightarrow> [])"

definition roles_of_key :: "registry_env \<Rightarrow> node_registry \<Rightarrow> bytes \<Rightarrow> node_registry_type list" where
  "roles_of_key E r key =
     (let roles = filter (\<lambda>t. map_of (get_nodes r t) key \<noteq> None) all_types;
          roles' = (if key = rg_public_key E
                    then fold (\<lambda>role acc. if role \<in> set acc then acc else acc @ [role]) (self_delivery_roles r) roles
                    else roles)
      in sort_key type_position roles')"

definition find_node_types_by_public_key :: "registry_env \<Rightarrow> node_registry \<Rightarrow> bytes \<Rightarrow> node_registry_type list" where
  "find_node_types_by_public_key E r key = roles_of_key E r key"

definition find_node_type_by_public_key :: "registry_env \<Rightarrow> node_registry \<Rightarrow> bytes \<Rightarrow> node_registry_type option" where
  "find_node_type_by_public_key E r key = (case roles_of_key E r key of [] \<Rightarrow> None | t # _ \<Rightarrow> Some t)"

definition node_may_send_action :: "registry_env \<Rightarrow> node_registry \<Rightarrow> bytes \<Rightarrow> node_registry_type list \<Rightarrow> bool" where
  "node_may_send_action E r key allowed =
     (let roles = find_node_types_by_public_key E r key
      in roles \<noteq> [] \<and> list_ex (\<lambda>role. role \<in> set allowed) roles)"

definition set_declared_roles :: "node_registry_type list \<Rightarrow> node_registry \<Rightarrow> node_registry" where
  "set_declared_roles roles r = r\<lparr>declared_roles := roles\<rparr>"

definition install_self_delivery :: "node_registry_type list \<Rightarrow> node_registry \<Rightarrow> node_registry" where
  "install_self_delivery roles r = r\<lparr>self_delivery := Some roles\<rparr>"

definition serves_locally :: "node_registry \<Rightarrow> node_registry_type \<Rightarrow> bool" where
  "serves_locally r t \<longleftrightarrow> t \<in> set (self_delivery_roles r)"

datatype envelope_auth_error = SignatureError bytes "string option" | Unregistered bytes

definition authenticate_envelope ::
    "crypto_provider \<Rightarrow> registry_env \<Rightarrow> node_registry \<Rightarrow> bytes \<Rightarrow> bytes \<Rightarrow> bytes \<Rightarrow> envelope_auth_error + node_registry_type list" where
  "authenticate_envelope crypto E r sig key body =
     (case check_signature crypto sig key body of
        Inl _ \<Rightarrow> Inl (SignatureError key (Some ''provider error''))
      | Inr verified \<Rightarrow>
          if \<not> verified then Inl (SignatureError key None)
          else (let roles = find_node_types_by_public_key E r key
                in if roles = [] then Inl (Unregistered key) else Inr roles))"

section \<open>Registration\<close>

definition type_is_maxed_out :: "registry_env \<Rightarrow> node_registry \<Rightarrow> node_registry_type \<Rightarrow> bool" where
  "type_is_maxed_out E r t \<longleftrightarrow> length (get_nodes r t) \<ge> rg_max_node_number E t"

text \<open>The three ways to place a peer share their shape: an existing entry is updated in place, a
  new one needs room.\<close>

definition upsert_node ::
    "registry_env \<Rightarrow> bytes \<Rightarrow> node_registry_type \<Rightarrow> (registry_node \<Rightarrow> registry_node) \<Rightarrow> registry_node \<Rightarrow> node_registry \<Rightarrow>
     bool \<times> node_registry" where
  "upsert_node E key t refresh fresh r =
     (case map_of (get_nodes r t) key of
        Some n \<Rightarrow> (True, put_nodes t (AList.update key (refresh n) (get_nodes r t)) r)
      | None \<Rightarrow>
          if length (get_nodes r t) \<ge> rg_max_node_number E t then (False, r)
          else (True, put_nodes t (AList.update key fresh (get_nodes r t)) r))"

definition register_peer ::
    "registry_env \<Rightarrow> nat \<Rightarrow> bytes \<Rightarrow> bytes \<Rightarrow> node_registry_type \<Rightarrow> node_registry \<Rightarrow> bool \<times> node_registry" where
  "register_peer E now key rhash t r =
     upsert_node E key t (\<lambda>n. n\<lparr>rn_rhash := rhash, rn_last_seen := now\<rparr>) (node_new now rhash) r"

definition register_peer_with_binding ::
    "registry_env \<Rightarrow> nat \<Rightarrow> bytes \<Rightarrow> bytes \<Rightarrow> node_registry_type \<Rightarrow> node_request \<Rightarrow> node_registry \<Rightarrow> bool \<times> node_registry" where
  "register_peer_with_binding E now key rhash t q r =
     upsert_node E key t
       (\<lambda>n. n\<lparr>rn_rhash := rhash, rn_last_seen := now, rn_signature := nq_binding q, rn_requested := nq_requested q,
             rn_types := nq_types q\<rparr>)
       (node_with_binding now rhash (nq_binding q) (nq_requested q) (nq_types q)) r"

definition register_directory_peer ::
    "registry_env \<Rightarrow> nat \<Rightarrow> bytes \<Rightarrow> bytes \<Rightarrow> node_registry_type \<Rightarrow> node_registry \<Rightarrow> bool \<times> node_registry" where
  "register_directory_peer E now key rhash t r =
     upsert_node E key t (\<lambda>n. n\<lparr>rn_last_seen := now\<rparr>) (node_new now rhash) r"

definition priority_types :: "node_registry_type list" where
  "priority_types = [Finalizer, Executor, Sentinel, Committer]"

definition select_registration_node_types :: "registry_env \<Rightarrow> node_registry \<Rightarrow> node_request \<Rightarrow> node_registry_type list" where
  "select_registration_node_types E r q =
     filter (\<lambda>t. t \<in> set (nq_types q) \<and> \<not> type_is_maxed_out E r t) priority_types"

definition select_registration_node_type :: "registry_env \<Rightarrow> node_registry \<Rightarrow> node_request \<Rightarrow> node_registry_type option" where
  "select_registration_node_type E r q =
     (case select_registration_node_types E r q of [] \<Rightarrow> None | t # _ \<Rightarrow> Some t)"

definition primary_registry_type :: "node_registry_type list \<Rightarrow> node_registry_type option" where
  "primary_registry_type roles = List.find (\<lambda>t. t \<in> set roles) priority_types"

definition refresh_last_seen :: "nat \<Rightarrow> bytes \<Rightarrow> node_registry_type \<Rightarrow> node_registry \<Rightarrow> node_registry" where
  "refresh_last_seen now key t r =
     (case map_of (get_nodes r t) key of
        Some n \<Rightarrow> put_nodes t (AList.update key (n\<lparr>rn_last_seen := now\<rparr>) (get_nodes r t)) r
      | None \<Rightarrow> r)"

definition admit_node_under_type ::
    "registry_env \<Rightarrow> nat \<Rightarrow> bytes \<Rightarrow> bytes \<Rightarrow> node_registry_type \<Rightarrow> node_request \<Rightarrow> node_registry \<Rightarrow> bool \<times> node_registry" where
  "admit_node_under_type E now key rhash t q r =
     (if node_is_already_registered r key t then (True, r)
      else if \<not> rg_stake_check E key t then (False, r)
      else if length (get_nodes r t) \<ge> rg_max_node_number E t then (False, r)
      else (True, put_nodes t (AList.update key (node_with_binding now rhash (nq_binding q) (nq_requested q) (nq_types q))
              (get_nodes r t)) r))"

text \<open>The loop over the qualifying types, with its three local variables.\<close>

fun admit_types ::
    "registry_env \<Rightarrow> nat \<Rightarrow> node_request \<Rightarrow> node_registry_type list \<Rightarrow>
     node_registry_type list \<times> bool \<times> bool \<times> node_registry \<Rightarrow> node_registry_type list \<times> bool \<times> bool \<times> node_registry" where
  "admit_types E now q [] s = s"
| "admit_types E now q (t # ts) (registered, accepted, failed, r) =
     (if t \<in> set registered then admit_types E now q ts (registered, True, failed, r)
      else case admit_node_under_type E now (nq_key q) (nq_rhash q) t q r of
             (True, r') \<Rightarrow> admit_types E now q ts (registered @ [t], True, failed, r')
           | (False, r') \<Rightarrow> admit_types E now q ts (registered, accepted, True, r'))"

definition build_register_ack ::
    "registry_env \<Rightarrow> bool \<Rightarrow> node_registry_type \<Rightarrow> string \<Rightarrow> node_registry \<Rightarrow> node_request option" where
  "build_register_ack E accepted t reason r =
     (let responder_key = (if accepted then rg_public_key E else []); declared = declared_roles r
      in case sign_binding E t declared of
           Inl _ \<Rightarrow> None
         | Inr binding \<Rightarrow>
             Some \<lparr>nq_key = rg_public_key E, nq_rhash = rg_rhash E, nq_request = RegisterAck accepted t responder_key reason,
                   nq_types = declared, nq_requested = t, nq_binding = binding, nq_target = None, nq_nonce = None\<rparr>)"

definition reply_register_ack ::
    "registry_env \<Rightarrow> bytes \<Rightarrow> bool \<Rightarrow> node_registry_type \<Rightarrow> string \<Rightarrow> node_registry \<Rightarrow> node_registry" where
  "reply_register_ack E peer accepted t reason r =
     (case build_register_ack E accepted t reason r of
        None \<Rightarrow> r
      | Some ack \<Rightarrow> send_packet E peer (ControlPacket ack) r)"

definition handle_register :: "registry_env \<Rightarrow> nat \<Rightarrow> node_request \<Rightarrow> node_registry \<Rightarrow> node_registry" where
  "handle_register E now q r =
     (if \<not> verify_binding E (nq_key q) (nq_rhash q) (nq_requested q) (nq_types q) (nq_binding q)
      then reply_register_ack E (nq_rhash q) False (nq_requested q) ''invalid binding signature'' r
      else
        (let qualifying = select_registration_node_types E r q;
             already = find_node_types_by_public_key E r (nq_key q);
             r1 = fold (refresh_last_seen now (nq_key q)) already r;
             (registered, accepted, failed, r2) = admit_types E now q qualifying (already, already \<noteq> [], False, r1)
         in if accepted
            then reply_register_ack E (nq_rhash q) True
                   (case primary_registry_type registered of Some t \<Rightarrow> t | None \<Rightarrow> nq_requested q) '''' r2
            else reply_register_ack E (nq_rhash q) False (nq_requested q)
                   (if failed then ''insufficient stake'' else ''no registry type available'') r2))"

definition handle_register_ack ::
    "registry_env \<Rightarrow> nat \<Rightarrow> node_request \<Rightarrow> bool \<Rightarrow> node_registry_type \<Rightarrow> bytes \<Rightarrow> node_registry \<Rightarrow> node_registry" where
  "handle_register_ack E now q accepted t responder_key r =
     (if \<not> accepted then r
      else if responder_key = [] then r
      else if \<not> verify_binding E responder_key (nq_rhash q) t (nq_types q) (nq_binding q) then r
      else (let install = (if nq_types q = [] then [t] else nq_types q)
            in fold (\<lambda>it r. snd (register_peer_with_binding E now responder_key (nq_rhash q) it q r)) install r))"

section \<open>Heartbeats and eviction\<close>

definition handle_heartbeat :: "registry_env \<Rightarrow> nat \<Rightarrow> node_request \<Rightarrow> node_registry \<Rightarrow> node_registry" where
  "handle_heartbeat E now q r =
     (if \<not> verify_binding E (nq_key q) (nq_rhash q) (nq_requested q) (nq_types q) (nq_binding q) then r
      else case find_node_type_by_public_key E r (nq_key q) of
             Some t \<Rightarrow> refresh_last_seen now (nq_key q) t r
           | None \<Rightarrow> r)"

text \<open>An entry is evicted when it was last seen before the cutoff of thirty seconds.\<close>

definition evict_nodes :: "nat \<Rightarrow> node_registry_type \<Rightarrow> node_registry \<Rightarrow> node_registry" where
  "evict_nodes now t r = put_nodes t (filter (\<lambda>kn. \<not> rn_last_seen (snd kn) + 30 < now) (get_nodes r t)) r"

definition evict_expired :: "nat \<Rightarrow> node_registry \<Rightarrow> node_registry" where
  "evict_expired now r = fold (evict_nodes now) all_types r"

section \<open>Directory queries and responses\<close>

definition QUERY_NONCE_WINDOW :: nat where "QUERY_NONCE_WINDOW = 120"

definition peer_is_reachable :: "registry_env \<Rightarrow> bytes \<Rightarrow> bool" where
  "peer_is_reachable E rhash \<longleftrightarrow> rg_network E \<and> rg_has_route E rhash"

definition admit_directory_query :: "registry_env \<Rightarrow> nat \<Rightarrow> node_request \<Rightarrow> node_registry \<Rightarrow> bool \<times> node_registry" where
  "admit_directory_query E now q r =
     (case (nq_target q, nq_nonce q) of
        (Some target, Some nonce) \<Rightarrow>
          if target \<noteq> rg_rhash E then (False, r)
          else if \<not> verify_query E (nq_key q) (nq_rhash q) target nonce (nq_requested q) (nq_types q) (nq_binding q)
          then (False, r)
          else if find_node_type_by_public_key E r (nq_key q) = None \<and> \<not> peer_is_reachable E (nq_rhash q) then (False, r)
          else (let live = filter (\<lambda>kv. now - snd kv < QUERY_NONCE_WINDOW) (query_nonces r);
                    seen = map_of live (nq_rhash q, nonce) \<noteq> None
                in (\<not> seen, r\<lparr>query_nonces := AList.update (nq_rhash q, nonce) now live\<rparr>))
      | _ \<Rightarrow>
          if \<not> verify_binding E (nq_key q) (nq_rhash q) (nq_requested q) (nq_types q) (nq_binding q) then (False, r)
          else if find_node_type_by_public_key E r (nq_key q) = None then (False, r)
          else (True, r))"

definition directory_entries :: "registry_node amap \<Rightarrow> registry_entry list" where
  "directory_entries m =
     map (\<lambda>(key, n). \<lparr>re_key = key, re_rhash = rn_rhash n, re_signature = rn_signature n, re_requested = rn_requested n,
                      re_types = rn_types n\<rparr>)
       (filter (\<lambda>(key, n). rn_signature n \<noteq> []) m)"

definition build_directory_response ::
    "registry_env \<Rightarrow> nat \<Rightarrow> node_request \<Rightarrow> node_registry \<Rightarrow> registry_response option \<times> node_registry" where
  "build_directory_response E now q r =
     (case admit_directory_query E now q r of
        (False, r') \<Rightarrow> (None, r')
      | (True, r') \<Rightarrow>
          (let entries = directory_entries (get_nodes r' (nq_requested q))
           in case rg_directory E (entries, nq_requested q, rg_rhash E) of
                Inl _ \<Rightarrow> (None, r')
              | Inr payload \<Rightarrow>
                  (case sign_data (rg_crypto E) payload of
                     Inl _ \<Rightarrow> (None, r')
                   | Inr sig \<Rightarrow>
                       (Some \<lparr>rr_key = rg_public_key E, rr_rhash = rg_rhash E, rr_type = nq_requested q, rr_entries = entries,
                              rr_signature = sig\<rparr>, r'))))"

definition handle_request :: "registry_env \<Rightarrow> nat \<Rightarrow> node_request \<Rightarrow> node_registry \<Rightarrow> node_registry" where
  "handle_request E now q r =
     (case build_directory_response E now q r of
        (None, r') \<Rightarrow> r'
      | (Some response, r') \<Rightarrow>
          if \<not> rg_network E then r'
          else case rg_response E response of
                 Inl _ \<Rightarrow> r'
               | Inr _ \<Rightarrow> send_packet E (nq_rhash q) (DataPacket response) r')"

definition may_trust_unregistered_directory_responder :: "registry_env \<Rightarrow> node_registry \<Rightarrow> registry_response \<Rightarrow> bool" where
  "may_trust_unregistered_directory_responder E r resp =
     (if \<not> rg_directory_observer E then False
      else if list_ex is_consensus_role (declared_roles r) then False
      else peer_is_reachable E (rr_rhash resp))"

definition entry_verifies :: "registry_env \<Rightarrow> registry_entry \<Rightarrow> bool" where
  "entry_verifies E e = verify_binding E (re_key e) (re_rhash e) (re_requested e) (re_types e) (re_signature e)"

definition install_entry :: "registry_env \<Rightarrow> nat \<Rightarrow> node_registry_type \<Rightarrow> registry_entry \<Rightarrow> node_registry \<Rightarrow> node_registry" where
  "install_entry E now t e r =
     (if re_rhash e = rg_rhash E \<or> re_key e = rg_public_key E then r
      else snd (register_directory_peer E now (re_key e) (re_rhash e) t r))"

definition handle_directory_response ::
    "registry_env \<Rightarrow> nat \<Rightarrow> registry_response \<Rightarrow> node_registry \<Rightarrow> unit res \<times> node_registry" where
  "handle_directory_response E now resp r =
     (if find_node_type_by_public_key E r (rr_key resp) = None \<and> \<not> may_trust_unregistered_directory_responder E r resp
      then (Inl (Registry ''directory response from unregistered node''), r)
      else case rg_directory E (rr_entries resp, rr_type resp, rr_rhash resp) of
             Inl e \<Rightarrow> (Inl (Encoding e), r)
           | Inr payload \<Rightarrow>
               if check_signature (rg_crypto E) (rr_signature resp) (rr_key resp) payload \<noteq> Inr True
               then (Inl (Registry ''directory response signature invalid''), r)
               else if \<not> list_all (entry_verifies E) (rr_entries resp)
               then (Inl (Registry ''directory response entry signature invalid''), r)
               else (Inr (), fold (install_entry E now (rr_type resp)) (rr_entries resp) r))"

definition handle_control :: "registry_env \<Rightarrow> nat \<Rightarrow> node_request \<Rightarrow> node_registry \<Rightarrow> node_registry" where
  "handle_control E now q r =
     (case nq_request q of
        RegisterRequest \<Rightarrow> handle_register E now q r
      | RegisterAck accepted t responder_key reason \<Rightarrow> handle_register_ack E now q accepted t responder_key r
      | DirectoryRequest \<Rightarrow> handle_request E now q r
      | HeartbeatRequest \<Rightarrow> handle_heartbeat E now q r)"

section \<open>Buckets\<close>

lemma get_put [simp]: "get_nodes (put_nodes t m r) u = (if u = t then m else get_nodes r u)"
  by (cases t; cases u) (simp_all add: get_nodes_def put_nodes_def)

lemma put_get [simp]: "put_nodes t (get_nodes r t) r = r"
  by (cases t) (simp_all add: get_nodes_def put_nodes_def)

lemma put_fields [simp]:
  "query_nonces (put_nodes t m r) = query_nonces r" "declared_roles (put_nodes t m r) = declared_roles r"
  "self_delivery (put_nodes t m r) = self_delivery r" "sent_packets (put_nodes t m r) = sent_packets r"
  by (cases t; simp add: put_nodes_def)+

lemma get_nodes_updates [simp]:
  "get_nodes (r\<lparr>query_nonces := x\<rparr>) t = get_nodes r t" "get_nodes (r\<lparr>declared_roles := y\<rparr>) t = get_nodes r t"
  "get_nodes (r\<lparr>self_delivery := z\<rparr>) t = get_nodes r t" "get_nodes (r\<lparr>sent_packets := w\<rparr>) t = get_nodes r t"
  by (cases t; simp add: get_nodes_def)+

lemma get_send_packet [simp]: "get_nodes (send_packet E h p r) t = get_nodes r t"
  by (simp add: send_packet_def)

lemma get_reply_ack [simp]: "get_nodes (reply_register_ack E h a t s r) u = get_nodes r u"
  by (simp add: reply_register_ack_def split: option.splits)

lemma in_all_types [simp]: "t \<in> set all_types"
  by (cases t) (simp_all add: all_types_def)

lemma priority_types_set: "t \<in> set priority_types \<longleftrightarrow> t \<noteq> Archiver"
  by (cases t) (simp_all add: priority_types_def)

lemma set_add_missing: "set (fold (\<lambda>x acc. if x \<in> set acc then acc else acc @ [x]) xs acc) = set acc \<union> set xs"
  by (induction xs arbitrary: acc) auto

lemma roles_of_key_iff:
  "t \<in> set (roles_of_key E r key) \<longleftrightarrow>
     map_of (get_nodes r t) key \<noteq> None \<or> key = rg_public_key E \<and> t \<in> set (self_delivery_roles r)"
  by (auto simp: roles_of_key_def Let_def set_add_missing)

section \<open>Capacity\<close>

definition bucket_ok :: "nat \<Rightarrow> registry_node amap \<Rightarrow> bool" where
  "bucket_ok n m \<longleftrightarrow> distinct (map fst m) \<and> length m \<le> n"

definition registry_ok :: "registry_env \<Rightarrow> node_registry \<Rightarrow> bool" where
  "registry_ok E r \<longleftrightarrow> list_all (\<lambda>t. bucket_ok (rg_max_node_number E t) (get_nodes r t)) all_types"

lemma registry_ok_iff: "registry_ok E r \<longleftrightarrow> (\<forall>t. bucket_ok (rg_max_node_number E t) (get_nodes r t))"
  by (auto simp: registry_ok_def list_all_iff)

lemma length_update: "length (AList.update k v m) = (if map_of m k = None then Suc (length m) else length m)"
  by (induction m) auto

lemma bucket_update_old: "bucket_ok n m \<Longrightarrow> map_of m k \<noteq> None \<Longrightarrow> bucket_ok n (AList.update k v m)"
  by (cases "map_of m k") (simp_all add: bucket_ok_def distinct_update length_update)

lemma bucket_update_new: "bucket_ok n m \<Longrightarrow> length m < n \<Longrightarrow> bucket_ok n (AList.update k v m)"
  by (simp add: bucket_ok_def distinct_update length_update)

lemma upsert_ok [invs]: "registry_ok E r \<Longrightarrow> registry_ok E (snd (upsert_node E key t f n r))"
  unfolding registry_ok_iff
  by (auto simp: upsert_node_def bucket_update_old bucket_update_new not_le split: option.splits)

lemma admit_ok [invs]: "registry_ok E r \<Longrightarrow> registry_ok E (snd (admit_node_under_type E now key h t q r))"
  unfolding registry_ok_iff by (auto simp: admit_node_under_type_def bucket_update_new not_le)

lemma refresh_ok [invs]: "registry_ok E r \<Longrightarrow> registry_ok E (refresh_last_seen now key t r)"
  unfolding registry_ok_iff by (auto simp: refresh_last_seen_def bucket_update_old split: option.splits)

lemma evict_nodes_ok [invs]: "registry_ok E r \<Longrightarrow> registry_ok E (evict_nodes now t r)"
  unfolding registry_ok_iff
  by (auto simp: evict_nodes_def bucket_ok_def distinct_map_filter intro: le_trans [OF length_filter_le])

lemma fold_ok:
  assumes "\<And>x r. registry_ok E r \<Longrightarrow> registry_ok E (f x r)"
  shows "registry_ok E r \<Longrightarrow> registry_ok E (fold f xs r)"
  by (induction xs arbitrary: r) (simp_all add: assms)

lemma admit_types_ok [invs]:
  "registry_ok E r \<Longrightarrow> admit_types E now q ts (reg, acc, failed, r) = (reg', acc', failed', r') \<Longrightarrow> registry_ok E r'"
proof (induction ts arbitrary: reg acc failed r)
  case (Cons t ts)
  show ?case
  proof (cases "t \<in> set reg")
    case True
    then show ?thesis using Cons.IH [OF Cons.prems(1)] Cons.prems(2) by simp
  next
    case False
    obtain b r1 where a: "admit_node_under_type E now (nq_key q) (nq_rhash q) t q r = (b, r1)" by (rule prod.exhaust)
    then have "registry_ok E r1" using admit_ok [OF Cons.prems(1), of now "nq_key q" "nq_rhash q" t q] by simp
    then show ?thesis using Cons.IH [of r1] Cons.prems(2) False a by (cases b) auto
  qed
qed simp

lemma registry_ok_cong: "(\<And>t. get_nodes r' t = get_nodes r t) \<Longrightarrow> registry_ok E r' = registry_ok E r"
  by (simp add: registry_ok_iff)

lemma handle_register_ok [invs]: "registry_ok E r \<Longrightarrow> registry_ok E (handle_register E now q r)"
proof (cases "verify_binding E (nq_key q) (nq_rhash q) (nq_requested q) (nq_types q) (nq_binding q)")
  case False
  assume "registry_ok E r"
  with False show ?thesis by (simp add: handle_register_def registry_ok_iff)
next
  case True
  assume ok: "registry_ok E r"
  let ?already = "find_node_types_by_public_key E r (nq_key q)"
  let ?r1 = "fold (refresh_last_seen now (nq_key q)) ?already r"
  obtain reg acc failed r2 where a:
    "admit_types E now q (select_registration_node_types E r q) (?already, ?already \<noteq> [], False, ?r1) = (reg, acc, failed, r2)"
    by (metis prod_cases4)
  have "registry_ok E ?r1" using ok by (intro fold_ok refresh_ok)
  from admit_types_ok [OF this a] show ?thesis
    using True a by (simp add: handle_register_def registry_ok_iff Let_def)
qed

lemma handle_register_ack_ok [invs]: "registry_ok E r \<Longrightarrow> registry_ok E (handle_register_ack E now q a t key r)"
  by (simp add: handle_register_ack_def Let_def register_peer_with_binding_def fold_ok upsert_ok)

lemma handle_heartbeat_ok [invs]: "registry_ok E r \<Longrightarrow> registry_ok E (handle_heartbeat E now q r)"
  by (simp add: handle_heartbeat_def refresh_ok split: option.splits)

lemma admit_query_nodes: "get_nodes (snd (admit_directory_query E now q r)) t = get_nodes r t"
  by (auto simp: admit_directory_query_def Let_def split: option.splits)

lemma build_response_nodes: "get_nodes (snd (build_directory_response E now q r)) t = get_nodes r t"
  using admit_query_nodes [of E now q r t]
  by (cases "admit_directory_query E now q r")
    (auto simp: build_directory_response_def Let_def split: bool.splits sum.splits)

lemma handle_request_nodes: "get_nodes (handle_request E now q r) t = get_nodes r t"
  using build_response_nodes [of E now q r t]
  by (cases "build_directory_response E now q r") (auto simp: handle_request_def split: option.splits sum.splits)

lemma handle_control_ok [invs]: "registry_ok E r \<Longrightarrow> registry_ok E (handle_control E now q r)"
  by (cases "nq_request q")
    (simp_all add: handle_control_def handle_register_ok handle_register_ack_ok handle_heartbeat_ok
      registry_ok_cong [OF handle_request_nodes])

lemma install_entry_ok: "registry_ok E r \<Longrightarrow> registry_ok E (install_entry E now t e r)"
  by (simp add: install_entry_def register_directory_peer_def upsert_ok)

lemma directory_response_ok [invs]: "registry_ok E r \<Longrightarrow> registry_ok E (snd (handle_directory_response E now resp r))"
  by (simp add: handle_directory_response_def fold_ok install_entry_ok split: sum.splits)

lemma evict_expired_ok [invs]: "registry_ok E r \<Longrightarrow> registry_ok E (evict_expired now r)"
  by (simp add: evict_expired_def fold_ok evict_nodes_ok)

text \<open>Every life of a registry.\<close>

inductive registry_run :: "registry_env \<Rightarrow> node_registry \<Rightarrow> bool" for E where
  init: "registry_run E (registry_init types)"
| control: "registry_run E r \<Longrightarrow> registry_run E (handle_control E now q r)"
| response: "registry_run E r \<Longrightarrow> registry_run E (snd (handle_directory_response E now resp r))"
| peer: "registry_run E r \<Longrightarrow> registry_run E (snd (register_peer E now key rhash t r))"
| evict: "registry_run E r \<Longrightarrow> registry_run E (evict_expired now r)"
| roles: "registry_run E r \<Longrightarrow> registry_run E (set_declared_roles roles r)"
| self: "registry_run E r \<Longrightarrow> registry_run E (install_self_delivery roles r)"

lemma registry_run_ok: "registry_run E r \<Longrightarrow> registry_ok E r"
proof (induction rule: registry_run.induct)
  case (init types)
  show ?case unfolding registry_ok_iff
  proof
    fix t
    show "bucket_ok (rg_max_node_number E t) (get_nodes (registry_init types) t)"
      by (cases t) (simp_all add: registry_init_def bucket_ok_def get_nodes_def)
  qed
qed (simp_all add: invs register_peer_def set_declared_roles_def install_self_delivery_def registry_ok_iff [of E "_\<lparr>declared_roles := _\<rparr>"]
    registry_ok_iff [of E "_\<lparr>self_delivery := _\<rparr>"] flip: registry_ok_iff)

section \<open>What a registration does\<close>

lemma refresh_nodes:
  "get_nodes (refresh_last_seen now key t r) u =
     (if u = t then (case map_of (get_nodes r t) key of
        Some n \<Rightarrow> AList.update key (n\<lparr>rn_last_seen := now\<rparr>) (get_nodes r t) | None \<Rightarrow> get_nodes r t) else get_nodes r u)"
  by (simp add: refresh_last_seen_def split: option.splits)

lemma refresh_fields [simp]:
  "self_delivery (refresh_last_seen now key t r) = self_delivery r"
  "declared_roles (refresh_last_seen now key t r) = declared_roles r"
  by (simp_all add: refresh_last_seen_def split: option.splits)

lemma fold_refresh_nodes:
  "distinct ts \<Longrightarrow> get_nodes (fold (refresh_last_seen now key) ts r) u =
     (if u \<in> set ts then get_nodes (refresh_last_seen now key u r) u else get_nodes r u)"
proof (induction ts arbitrary: r)
  case (Cons t ts)
  then show ?case by (simp add: refresh_nodes split: option.splits)
qed simp

lemma distinct_roles: "distinct (roles_of_key E r key)"
proof -
  have d: "distinct (fold (\<lambda>x acc. if x \<in> set acc then acc else acc @ [x]) xs acc)"
    if "distinct acc" for xs acc :: "node_registry_type list" using that by (induction xs arbitrary: acc) auto
  have "distinct all_types" by (simp add: all_types_def)
  then show ?thesis by (simp add: roles_of_key_def Let_def d)
qed

definition admitted :: "registry_env \<Rightarrow> nat \<Rightarrow> node_request \<Rightarrow> node_registry_type \<Rightarrow> registry_node amap \<Rightarrow> registry_node amap" where
  "admitted E now q t m =
     (if map_of m (nq_key q) = None \<and> rg_stake_check E (nq_key q) t \<and> length m < rg_max_node_number E t
      then AList.update (nq_key q) (node_with_binding now (nq_rhash q) (nq_binding q) (nq_requested q) (nq_types q)) m else m)"

lemma admit_nodes:
  "get_nodes (snd (admit_node_under_type E now (nq_key q) (nq_rhash q) t q r)) u =
     (if u = t then admitted E now q t (get_nodes r t) else get_nodes r u)"
  by (auto simp: admit_node_under_type_def admitted_def node_is_already_registered_def)

lemma admit_types_nodes:
  "distinct ts \<Longrightarrow> admit_types E now q ts (reg, acc, failed, r) = (reg', acc', failed', r') \<Longrightarrow>
   get_nodes r' u = (if u \<in> set ts - set reg then admitted E now q u (get_nodes r u) else get_nodes r u)"
proof (induction ts arbitrary: reg acc failed r)
  case (Cons t ts)
  show ?case
  proof (cases "t \<in> set reg")
    case True
    then show ?thesis using Cons.IH [of reg True failed r] Cons.prems by auto
  next
    case False
    obtain b r1 where a: "admit_node_under_type E now (nq_key q) (nq_rhash q) t q r = (b, r1)" by (rule prod.exhaust)
    then have n: "get_nodes r1 v = (if v = t then admitted E now q t (get_nodes r t) else get_nodes r v)" for v
      using admit_nodes [of E now q t r v] by simp
    show ?thesis
    proof (cases b)
      case True
      then show ?thesis using Cons.IH [of "reg @ [t]" True failed r1] Cons.prems False a n by auto
    next
      case b: False
      then show ?thesis using Cons.IH [of reg acc True r1] Cons.prems False a n by auto
    qed
  qed
qed simp

lemma qualifying_iff:
  "t \<in> set (select_registration_node_types E r q) \<longleftrightarrow>
     t \<in> set (nq_types q) \<and> t \<noteq> Archiver \<and> length (get_nodes r t) < rg_max_node_number E t"
  by (auto simp: select_registration_node_types_def priority_types_set type_is_maxed_out_def)

lemma distinct_qualifying: "distinct (select_registration_node_types E r q)"
  by (simp add: select_registration_node_types_def priority_types_def)

lemma handle_register_nodes:
  assumes "verify_binding E (nq_key q) (nq_rhash q) (nq_requested q) (nq_types q) (nq_binding q)"
  shows "get_nodes (handle_register E now q r) t =
     (if t \<in> set (roles_of_key E r (nq_key q)) then get_nodes (refresh_last_seen now (nq_key q) t r) t
      else if t \<in> set (select_registration_node_types E r q) then admitted E now q t (get_nodes r t)
      else get_nodes r t)"
proof -
  let ?already = "find_node_types_by_public_key E r (nq_key q)"
  let ?r1 = "fold (refresh_last_seen now (nq_key q)) ?already r"
  obtain reg acc failed r2 where a:
    "admit_types E now q (select_registration_node_types E r q) (?already, ?already \<noteq> [], False, ?r1) = (reg, acc, failed, r2)"
    by (metis prod_cases4)
  have "get_nodes (handle_register E now q r) t = get_nodes r2 t"
    using assms a by (simp add: handle_register_def Let_def)
  also have "\<dots> = (if t \<in> set (select_registration_node_types E r q) - set ?already
                  then admitted E now q t (get_nodes ?r1 t) else get_nodes ?r1 t)"
    by (rule admit_types_nodes [OF distinct_qualifying a])
  finally show ?thesis
    by (simp add: find_node_types_by_public_key_def fold_refresh_nodes [OF distinct_roles])
qed

text \<open>The effect of a register request on every bucket, exactly. A request whose binding
  signature does not verify changes nothing. Otherwise the bucket of a role the sender already
  holds has its entry's last-seen time renewed and nothing else; a role it does not hold gains one
  entry, carrying the request's address and binding, precisely when the role was declared in the
  request, is not the archiver's, is not one this node serves for itself under the same key, has
  room, and the stake check admits the sender; every other bucket is left as it was.\<close>

theorem register_exact:
  "get_nodes (handle_register E now q r) t =
     (let m = get_nodes r t; key = nq_key q in
      if \<not> verify_binding E key (nq_rhash q) (nq_requested q) (nq_types q) (nq_binding q) then m
      else case map_of m key of
             Some n \<Rightarrow> AList.update key (n\<lparr>rn_last_seen := now\<rparr>) m
           | None \<Rightarrow>
               if t \<in> set (nq_types q) \<and> t \<noteq> Archiver \<and> length m < rg_max_node_number E t \<and> rg_stake_check E key t \<and>
                  \<not> (key = rg_public_key E \<and> t \<in> set (self_delivery_roles r))
               then AList.update key (node_with_binding now (nq_rhash q) (nq_binding q) (nq_requested q) (nq_types q)) m
               else m)"
proof (cases "verify_binding E (nq_key q) (nq_rhash q) (nq_requested q) (nq_types q) (nq_binding q)")
  case False
  then show ?thesis by (simp add: handle_register_def Let_def)
next
  case True
  show ?thesis
    by (cases "map_of (get_nodes r t) (nq_key q)")
      (auto simp: True handle_register_nodes [OF True] roles_of_key_iff refresh_nodes qualifying_iff admitted_def Let_def)
qed


section \<open>Directory responses and replayed queries\<close>

lemma upsert_nodes:
  "get_nodes (snd (upsert_node E key t f fresh r)) u =
     (if u = t then
        (case map_of (get_nodes r t) key of
           Some n \<Rightarrow> AList.update key (f n) (get_nodes r t)
         | None \<Rightarrow> if rg_max_node_number E t \<le> length (get_nodes r t) then get_nodes r t
                   else AList.update key fresh (get_nodes r t))
      else get_nodes r u)"
  by (simp add: upsert_node_def split: option.splits)

definition renewed :: "nat \<Rightarrow> registry_node \<Rightarrow> registry_node \<Rightarrow> bool" where
  "renewed now n n' \<longleftrightarrow> n' = n \<or> n' = n\<lparr>rn_last_seen := now\<rparr>"

lemma renewed_trans: "renewed now a b \<Longrightarrow> renewed now b c \<Longrightarrow> renewed now a c"
  by (auto simp: renewed_def)

lemma renewed_fresh: "renewed now (node_new now h) n \<Longrightarrow> n = node_new now h"
  by (simp add: renewed_def node_new_def)

lemma install_keeps:
  "map_of (get_nodes r t) k = Some n \<Longrightarrow>
   \<exists>n'. map_of (get_nodes (install_entry E now u e r) t) k = Some n' \<and> renewed now n n'"
  by (auto simp: install_entry_def register_directory_peer_def upsert_nodes update_conv' renewed_def split: option.splits)

lemma install_adds:
  "map_of (get_nodes r t) k = None \<Longrightarrow> map_of (get_nodes (install_entry E now u e r) t) k = Some n \<Longrightarrow>
   t = u \<and> re_key e = k \<and> n = node_new now (re_rhash e) \<and> k \<noteq> rg_public_key E \<and> re_rhash e \<noteq> rg_rhash E"
  by (auto simp: install_entry_def register_directory_peer_def upsert_nodes update_conv' split: if_splits option.splits)

lemma install_all_keeps:
  "map_of (get_nodes r t) k = Some n \<Longrightarrow>
   \<exists>n'. map_of (get_nodes (fold (install_entry E now u) es r) t) k = Some n' \<and> renewed now n n'"
proof (induction es arbitrary: r n)
  case Nil
  then show ?case by (simp add: renewed_def)
next
  case (Cons e es)
  obtain n1 where n1: "map_of (get_nodes (install_entry E now u e r) t) k = Some n1" "renewed now n n1"
    using install_keeps [OF Cons.prems] by blast
  then show ?case using Cons.IH [OF n1(1)] renewed_trans [OF n1(2)] by fastforce
qed

lemma install_all_adds:
  "map_of (get_nodes r t) k = None \<Longrightarrow> map_of (get_nodes (fold (install_entry E now u) es r) t) k = Some n \<Longrightarrow>
   t = u \<and> k \<noteq> rg_public_key E \<and> (\<exists>e \<in> set es. re_key e = k \<and> re_rhash e \<noteq> rg_rhash E \<and> n = node_new now (re_rhash e))"
proof (induction es arbitrary: r)
  case (Cons e es)
  show ?case
  proof (cases "map_of (get_nodes (install_entry E now u e r) t) k")
    case None
    from Cons.IH [OF this] Cons.prems(2) show ?thesis by auto
  next
    case (Some n1)
    note a = install_adds [OF Cons.prems(1) Some]
    obtain n2 where "map_of (get_nodes (fold (install_entry E now u) es (install_entry E now u e r)) t) k = Some n2"
      "renewed now n1 n2" using install_all_keeps [OF Some] by blast
    then have "n = n1" using Cons.prems(2) a renewed_fresh by simp
    then show ?thesis using a by auto
  qed
qed simp

lemma directory_response_state:
  "snd (handle_directory_response E now resp r) = r \<or>
   list_all (entry_verifies E) (rr_entries resp) \<and>
   snd (handle_directory_response E now resp r) = fold (install_entry E now (rr_type resp)) (rr_entries resp) r"
  by (simp add: handle_directory_response_def split: sum.splits)

text \<open>C36: a directory response can never redirect a peer that is already known. Whatever a response
  carries and whoever sent it, an entry held before is held afterwards with the address, binding
  and roles it had, at most its last-seen time renewed; and an entry that is new was announced by
  the response for exactly that bucket, under a binding signature of the listed node itself that
  verifies, and is neither this node's key nor this node's address.\<close>

theorem directory_response_cannot_redirect:
  assumes "map_of (get_nodes (snd (handle_directory_response E now resp r)) t) k = Some n'"
  shows "case map_of (get_nodes r t) k of
           Some n \<Rightarrow> n' = n \<or> n' = n\<lparr>rn_last_seen := now\<rparr>
         | None \<Rightarrow> t = rr_type resp \<and> k \<noteq> rg_public_key E \<and>
             (\<exists>e \<in> set (rr_entries resp). re_key e = k \<and> re_rhash e \<noteq> rg_rhash E \<and> entry_verifies E e \<and>
                n' = node_new now (re_rhash e))"
proof (cases "snd (handle_directory_response E now resp r) = r")
  case True
  with assms show ?thesis by simp
next
  case False
  then have v: "list_all (entry_verifies E) (rr_entries resp)"
    and f: "snd (handle_directory_response E now resp r) = fold (install_entry E now (rr_type resp)) (rr_entries resp) r"
    using directory_response_state [of E now resp r] by auto
  show ?thesis
  proof (cases "map_of (get_nodes r t) k")
    case None
    from install_all_adds [OF None assms [unfolded f]] v None show ?thesis by (auto simp: list_all_iff)
  next
    case (Some n)
    with install_all_keeps [OF Some, of E now "rr_type resp" "rr_entries resp"] assms f show ?thesis
      by (auto simp: renewed_def)
  qed
qed

lemma map_of_filter_live: "map_of m k = Some v \<Longrightarrow> P (k, v) \<Longrightarrow> map_of (filter P m) k = Some v"
  by (induction m) (auto split: if_splits)

lemma nonces_put_fold:
  assumes "\<And>x r. query_nonces (f x r) = query_nonces r"
  shows "query_nonces (fold f xs r) = query_nonces r"
  by (induction xs arbitrary: r) (simp_all add: assms)

lemma nonces_upsert [simp]: "query_nonces (snd (upsert_node E k t f n r)) = query_nonces r"
  by (simp add: upsert_node_def split: option.splits)

lemma nonces_refresh [simp]: "query_nonces (refresh_last_seen now k t r) = query_nonces r"
  by (simp add: refresh_last_seen_def split: option.splits)

lemma nonces_admit [simp]: "query_nonces (snd (admit_node_under_type E now k h t q r)) = query_nonces r"
  by (simp add: admit_node_under_type_def)

lemma nonces_send [simp]: "query_nonces (send_packet E h p r) = query_nonces r"
  by (simp add: send_packet_def)

lemma nonces_reply [simp]: "query_nonces (reply_register_ack E h a t s r) = query_nonces r"
  by (simp add: reply_register_ack_def split: option.splits)

lemma nonces_admit_types:
  "admit_types E now q ts (reg, acc, failed, r) = (reg', acc', failed', r') \<Longrightarrow> query_nonces r' = query_nonces r"
proof (induction ts arbitrary: reg acc failed r)
  case (Cons t ts)
  obtain b r1 where a: "admit_node_under_type E now (nq_key q) (nq_rhash q) t q r = (b, r1)" by (rule prod.exhaust)
  have "query_nonces r1 = query_nonces r" using nonces_admit [of E now "nq_key q" "nq_rhash q" t q r] a by simp
  then show ?case using Cons.IH Cons.prems a by (cases b) (auto split: if_splits)
qed simp

lemma nonces_register [simp]: "query_nonces (handle_register E now q r) = query_nonces r"
proof (cases "verify_binding E (nq_key q) (nq_rhash q) (nq_requested q) (nq_types q) (nq_binding q)")
  case True
  let ?already = "find_node_types_by_public_key E r (nq_key q)"
  let ?r1 = "fold (refresh_last_seen now (nq_key q)) ?already r"
  obtain reg acc failed r2 where a:
    "admit_types E now q (select_registration_node_types E r q) (?already, ?already \<noteq> [], False, ?r1) = (reg, acc, failed, r2)"
    by (metis prod_cases4)
  with True nonces_admit_types [OF a] show ?thesis by (simp add: handle_register_def Let_def nonces_put_fold)
qed (simp add: handle_register_def)

lemma nonces_ack [simp]: "query_nonces (handle_register_ack E now q a t k r) = query_nonces r"
  by (simp add: handle_register_ack_def Let_def register_peer_with_binding_def nonces_put_fold)

lemma nonces_heartbeat [simp]: "query_nonces (handle_heartbeat E now q r) = query_nonces r"
  by (simp add: handle_heartbeat_def split: option.splits)

lemma nonces_request [simp]: "query_nonces (handle_request E now q r) = query_nonces (snd (admit_directory_query E now q r))"
  by (cases "admit_directory_query E now q r")
    (auto simp: handle_request_def build_directory_response_def Let_def split: bool.splits sum.splits option.splits)

definition nonce_live :: "nat \<Rightarrow> bytes \<times> bytes \<Rightarrow> node_registry \<Rightarrow> bool" where
  "nonce_live t0 kn r \<longleftrightarrow> (\<exists>v. t0 \<le> v \<and> map_of (query_nonces r) kn = Some v)"

lemma nonce_live_query:
  assumes "nonce_live t0 kn r" "now < t0 + QUERY_NONCE_WINDOW" "t0 \<le> now"
  shows "nonce_live t0 kn (snd (admit_directory_query E now q r))"
proof -
  obtain v where v: "t0 \<le> v" "map_of (query_nonces r) kn = Some v" using assms(1) by (auto simp: nonce_live_def)
  have "map_of (filter (\<lambda>kv. now - snd kv < QUERY_NONCE_WINDOW) (query_nonces r)) kn = Some v"
    using v assms by (intro map_of_filter_live) (auto simp: QUERY_NONCE_WINDOW_def)
  then show ?thesis using v assms(3)
    by (auto simp: admit_directory_query_def Let_def nonce_live_def update_conv' split: option.splits)
qed

lemma nonce_live_control:
  assumes "nonce_live t0 kn r" "now < t0 + QUERY_NONCE_WINDOW" "t0 \<le> now"
  shows "nonce_live t0 kn (handle_control E now q r)"
  using nonce_live_query [OF assms, of E q] assms(1)
  by (cases "nq_request q") (simp_all add: handle_control_def nonce_live_def)

lemma nonce_live_controls:
  "nonce_live t0 kn r \<Longrightarrow> list_all (\<lambda>(now, q). t0 \<le> now \<and> now < t0 + QUERY_NONCE_WINDOW) qs \<Longrightarrow>
   nonce_live t0 kn (fold (\<lambda>(now, q). handle_control E now q) qs r)"
  by (induction qs arbitrary: r) (auto simp: nonce_live_control)

lemma nonce_live_refuses:
  assumes "nonce_live t0 (nq_rhash q, nonce) r" "nq_nonce q = Some nonce" "nq_target q = Some target"
    "now < t0 + QUERY_NONCE_WINDOW"
  shows "fst (admit_directory_query E now q r) = False"
proof -
  obtain v where v: "t0 \<le> v" "map_of (query_nonces r) (nq_rhash q, nonce) = Some v"
    using assms(1) by (auto simp: nonce_live_def)
  have "map_of (filter (\<lambda>kv. now - snd kv < QUERY_NONCE_WINDOW) (query_nonces r)) (nq_rhash q, nonce) = Some v"
    using v assms(4) by (intro map_of_filter_live) (auto simp: QUERY_NONCE_WINDOW_def)
  then show ?thesis using assms by (auto simp: admit_directory_query_def Let_def)
qed

text \<open>C37: a directory query is answered once. After a nonce-carrying query has been admitted, any
  query from the same address with the same nonce is refused for the whole nonce window, whatever
  control packets - further queries, registrations, heartbeats, from anyone - are handled in
  between.\<close>

theorem replayed_query_refused:
  assumes "fst (admit_directory_query E t0 q0 r)" "nq_request q0 = DirectoryRequest"
    and "nq_target q0 = Some target0" "nq_nonce q0 = Some nonce"
    and "list_all (\<lambda>(now, q). t0 \<le> now \<and> now < t0 + QUERY_NONCE_WINDOW) qs"
    and "nq_rhash q = nq_rhash q0" "nq_nonce q = Some nonce" "nq_target q = Some target"
    and "now < t0 + QUERY_NONCE_WINDOW"
  shows "build_directory_response E now q (fold (\<lambda>(now, q). handle_control E now q) qs (handle_control E t0 q0 r)) =
         (None, snd (admit_directory_query E now q (fold (\<lambda>(now, q). handle_control E now q) qs (handle_control E t0 q0 r))))"
proof -
  have "nonce_live t0 (nq_rhash q0, nonce) (handle_control E t0 q0 r)"
    using assms(1-4)
    by (auto simp: handle_control_def nonce_live_def admit_directory_query_def Let_def update_conv' split: if_splits)
  from nonce_live_controls [OF this assms(5), of E]
  have "fst (admit_directory_query E now q
      (fold (\<lambda>(now, q). handle_control E now q) qs (handle_control E t0 q0 r))) = False"
    using nonce_live_refuses [OF _ assms(7) assms(8) assms(9)] assms(6) by simp
  then show ?thesis
    by (cases "admit_directory_query E now q (fold (\<lambda>(now, q). handle_control E now q) qs (handle_control E t0 q0 r))")
      (simp add: build_directory_response_def)
qed

section \<open>Acknowledgements and heartbeats\<close>

lemma ack_upsert_present:
  assumes "map_of (get_nodes r t) key \<noteq> None \<or> length (get_nodes r t) < rg_max_node_number E t"
  shows "\<exists>n. map_of (get_nodes (snd (register_peer_with_binding E now key h t q r)) t) key = Some n \<and> rn_rhash n = h"
  using assms
  by (cases "map_of (get_nodes r t) key")
    (auto simp: register_peer_with_binding_def upsert_nodes update_conv' node_with_binding_def node_new_def)

lemma ack_upsert_keeps:
  assumes "\<exists>n. map_of (get_nodes r t) key = Some n \<and> rn_rhash n = h"
  shows "\<exists>n. map_of (get_nodes (snd (register_peer_with_binding E now key h u q r)) t) key = Some n \<and> rn_rhash n = h"
  using assms by (auto simp: register_peer_with_binding_def upsert_nodes update_conv' split: option.splits)

lemma ack_upsert_other: "u \<noteq> t \<Longrightarrow> get_nodes (snd (register_peer_with_binding E now key h t q r)) u = get_nodes r u"
  by (simp add: register_peer_with_binding_def upsert_nodes)

lemma ack_fold_keeps:
  "\<exists>n. map_of (get_nodes r t) key = Some n \<and> rn_rhash n = h \<Longrightarrow>
   \<exists>n. map_of (get_nodes (fold (\<lambda>it r. snd (register_peer_with_binding E now key h it q r)) ts r) t) key = Some n \<and> rn_rhash n = h"
proof (induction ts arbitrary: r)
  case (Cons u ts)
  from Cons.IH [OF ack_upsert_keeps [OF Cons.prems]] show ?case by simp
qed simp

lemma ack_fold_present:
  "t \<in> set ts \<Longrightarrow> map_of (get_nodes r t) key \<noteq> None \<or> length (get_nodes r t) < rg_max_node_number E t \<Longrightarrow>
   \<exists>n. map_of (get_nodes (fold (\<lambda>it r. snd (register_peer_with_binding E now key h it q r)) ts r) t) key = Some n \<and> rn_rhash n = h"
proof (induction ts arbitrary: r)
  case (Cons u ts)
  show ?case
  proof (cases "u = t")
    case True
    from ack_fold_keeps [OF ack_upsert_present [OF Cons.prems(2)]] True show ?thesis by simp
  next
    case False
    then show ?thesis
      using Cons.IH [of "snd (register_peer_with_binding E now key h u q r)"] Cons.prems by (simp add: ack_upsert_other)
  qed
qed simp

text \<open>An acknowledgement admits its sender without a stake check and without having been asked
  for. In any state of the registry, an accepting acknowledgement that names a key and carries
  that key's own binding signature puts the key, at the address the packet gives, into the bucket
  of every role the packet declares that has room or already holds it; nothing consults the stake
  gate or any record of a registration this node sent. The key may then send the actions reserved
  for the role.\<close>

theorem ack_admits_unstaked:
  assumes "responder_key \<noteq> []"
    and "verify_binding E responder_key (nq_rhash q) t0 (nq_types q) (nq_binding q)"
    and "t \<in> set (nq_types q)"
    and "map_of (get_nodes r t) responder_key \<noteq> None \<or> length (get_nodes r t) < rg_max_node_number E t"
    and "t \<in> set allowed"
  shows "(\<exists>n. map_of (get_nodes (handle_register_ack E now q True t0 responder_key r) t) responder_key = Some n \<and>
            rn_rhash n = nq_rhash q) \<and>
         node_may_send_action E (handle_register_ack E now q True t0 responder_key r) responder_key allowed"
proof -
  let ?r = "handle_register_ack E now q True t0 responder_key r"
  have "?r = fold (\<lambda>it r. snd (register_peer_with_binding E now responder_key (nq_rhash q) it q r)) (nq_types q) r"
    using assms(1-3) by (auto simp: handle_register_ack_def Let_def)
  then have p: "\<exists>n. map_of (get_nodes ?r t) responder_key = Some n \<and> rn_rhash n = nq_rhash q"
    using ack_fold_present [OF assms(3,4)] by simp
  then have "t \<in> set (roles_of_key E ?r responder_key)" by (auto simp: roles_of_key_iff)
  then have "node_may_send_action E ?r responder_key allowed"
    using assms(5) by (auto simp: node_may_send_action_def find_node_types_by_public_key_def Let_def list_ex_iff)
  with p show ?thesis by blast
qed

lemma evict_nodes_of: "get_nodes (evict_expired now r) t = filter (\<lambda>kn. \<not> rn_last_seen (snd kn) + 30 < now) (get_nodes r t)"
  by (cases t) (simp_all add: evict_expired_def all_types_def evict_nodes_def)

lemma map_of_filter_dead:
  "distinct (map fst m) \<Longrightarrow> map_of m k = Some v \<Longrightarrow> \<not> P (k, v) \<Longrightarrow> map_of (filter P m) k = None"
  by (induction m) (auto simp: map_of_eq_None_iff rev_image_eqI split: if_splits)

text \<open>A heartbeat keeps only one role of a composite node alive. After a verified heartbeat the
  bucket of every role of the sender except its first one is exactly what it was, so that the
  sender's entry there is evicted as soon as thirty seconds have passed since it was last seen,
  however many heartbeats it sends.\<close>

theorem heartbeat_renews_first_role_only:
  assumes "registry_ok E r" "roles_of_key E r (nq_key q) = first # rest" "t \<in> set rest"
    and "map_of (get_nodes r t) (nq_key q) = Some n" "rn_last_seen n + 30 < now'"
  shows "get_nodes (handle_heartbeat E now q r) t = get_nodes r t \<and>
         map_of (get_nodes (evict_expired now' (handle_heartbeat E now q r)) t) (nq_key q) = None"
proof -
  have "t \<noteq> first" using distinct_roles [of E r "nq_key q"] assms(2,3) by auto
  then have g: "get_nodes (handle_heartbeat E now q r) t = get_nodes r t"
    using assms(2) by (simp add: handle_heartbeat_def find_node_type_by_public_key_def refresh_nodes)
  moreover have "distinct (map fst (get_nodes r t))" using assms(1) by (simp add: registry_ok_iff bucket_ok_def)
  ultimately show ?thesis using assms(4,5) by (simp add: evict_nodes_of map_of_filter_dead)
qed

lemma may_send_iff:
  "node_may_send_action E r key allowed \<longleftrightarrow>
     (\<exists>t \<in> set allowed. map_of (get_nodes r t) key \<noteq> None \<or> key = rg_public_key E \<and> t \<in> set (self_delivery_roles r))"
proof -
  have "node_may_send_action E r key allowed \<longleftrightarrow> (\<exists>t \<in> set allowed. t \<in> set (roles_of_key E r key))"
    by (auto simp: node_may_send_action_def find_node_types_by_public_key_def Let_def list_ex_iff)
  then show ?thesis by (simp add: roles_of_key_iff)
qed

section \<open>A concrete registry\<close>

definition demo_env :: registry_env where
  "demo_env =
     \<lparr>rg_public_key = [7], rg_rhash = [70], rg_max_node_number = (\<lambda>t. if t = Archiver then 0 else 2),
      rg_directory_observer = False, rg_network = False, rg_has_route = (\<lambda>_. False), rg_stake_check = (\<lambda>_ _. False),
      rg_crypto = \<lparr>check_signature = (\<lambda>s k d. Inr (s = k @ d)), sign_data = (\<lambda>d. Inr ([7] @ d)), public_key = Inr [7]\<rparr>,
      rg_binding = (\<lambda>(h, t, ts). Inr h), rg_query = (\<lambda>(h, g, n, t, ts). Inr (h @ g @ n)),
      rg_directory = (\<lambda>(es, t, h). Inr h), rg_response = (\<lambda>_. Inr [])\<rparr>"

definition demo_ack :: node_request where
  "demo_ack =
     \<lparr>nq_key = [8], nq_rhash = [80], nq_request = RegisterAck True Committer [8] [], nq_types = [Finalizer, Executor],
      nq_requested = Committer, nq_binding = [8, 80], nq_target = None, nq_nonce = None\<rparr>"

definition demo_query :: node_request where
  "demo_query =
     demo_ack\<lparr>nq_request := DirectoryRequest, nq_binding := [8, 80, 70, 1], nq_target := Some [70], nq_nonce := Some [1]\<rparr>"

definition demo_acked :: node_registry where
  "demo_acked = handle_register_ack demo_env 100 demo_ack True Committer [8] (registry_init [Committer])"

definition demo_response :: registry_response where
  "demo_response =
     \<lparr>rr_key = [8], rr_rhash = [80], rr_type = Committer,
      rr_entries = [\<lparr>re_key = [6], re_rhash = [60], re_signature = [6, 60], re_requested = Committer, re_types = [Committer]\<rparr>],
      rr_signature = [8, 80]\<rparr>"

lemmas demo_registry =
  demo_env_def demo_ack_def demo_query_def demo_acked_def demo_response_def registry_init_def get_nodes_def put_nodes_def
  handle_register_ack_def verify_binding_def verify_query_def register_peer_with_binding_def upsert_node_def
  node_with_binding_def node_new_def roles_of_key_def all_types_def self_delivery_roles_def
  find_node_type_by_public_key_def

lemma demo_acked_eval:
  "finalizers demo_acked = [([8], node_with_binding 100 [80] [8, 80] Committer [Finalizer, Executor])]"
  "executors_of demo_acked = [([8], node_with_binding 100 [80] [8, 80] Committer [Finalizer, Executor])]"
  "committers demo_acked = []" "sentinels demo_acked = []" "archivers demo_acked = []"
  "query_nonces demo_acked = []" "self_delivery demo_acked = None" "declared_roles demo_acked = [Committer]"
  by (simp_all add: demo_registry)

lemma demo_roles: "roles_of_key demo_env demo_acked [8] = [Executor, Finalizer]"
  by (simp add: roles_of_key_def all_types_def get_nodes_def demo_acked_eval demo_env_def)

theorem ack_admits_unstaked_witness:
  "\<not> rg_stake_check demo_env [8] Finalizer \<and> node_may_send_action demo_env demo_acked [8] [Finalizer]"
proof
  show "\<not> rg_stake_check demo_env [8] Finalizer" by (simp add: demo_env_def)
  show "node_may_send_action demo_env demo_acked [8] [Finalizer]"
    unfolding demo_acked_def
    by (rule ack_admits_unstaked [where t = Finalizer, THEN conjunct2]) (simp_all add: demo_registry)
qed

lemma demo_acked_ok: "registry_ok demo_env demo_acked"
  by (simp add: registry_ok_def all_types_def bucket_ok_def get_nodes_def demo_acked_eval demo_env_def)

theorem heartbeat_renews_first_role_only_witness:
  "map_of (get_nodes (evict_expired 131 (handle_heartbeat demo_env 130 demo_ack demo_acked)) Finalizer) [8] = None"
proof -
  have k: "nq_key demo_ack = [8]" by (simp add: demo_ack_def)
  have "map_of (get_nodes demo_acked Finalizer) [8] = Some (node_with_binding 100 [80] [8, 80] Committer [Finalizer, Executor])"
    by (simp add: get_nodes_def demo_acked_eval)
  then show ?thesis
    using heartbeat_renews_first_role_only [OF demo_acked_ok, of demo_ack Executor "[Finalizer]" Finalizer _ 131 130, unfolded k, OF demo_roles]
    by (simp add: node_with_binding_def node_new_def)
qed


theorem replayed_query_refused_witness:
  "fst (admit_directory_query demo_env 101 demo_query demo_acked) \<and>
   fst (build_directory_response demo_env 220 demo_query
     (handle_control demo_env 150 demo_ack (handle_control demo_env 101 demo_query demo_acked))) = None"
proof
  have f: "find_node_type_by_public_key demo_env demo_acked [8] = Some Executor"
    by (simp add: find_node_type_by_public_key_def demo_roles)
  show a: "fst (admit_directory_query demo_env 101 demo_query demo_acked)"
    using f by (simp add: admit_directory_query_def Let_def demo_query_def demo_ack_def demo_env_def verify_query_def demo_acked_eval)
  show "fst (build_directory_response demo_env 220 demo_query
     (handle_control demo_env 150 demo_ack (handle_control demo_env 101 demo_query demo_acked))) = None"
    using replayed_query_refused [OF a, of "[70]" "[1]" "[(150, demo_ack)]" demo_query "[70]" 220]
    by (simp add: demo_query_def demo_ack_def QUERY_NONCE_WINDOW_def)
qed

theorem directory_response_cannot_redirect_witness:
  "map_of (get_nodes (snd (handle_directory_response demo_env 102 demo_response demo_acked)) Committer) [6] = Some (node_new 102 [60])"
proof -
  have f: "find_node_type_by_public_key demo_env demo_acked [8] = Some Executor"
    by (simp add: find_node_type_by_public_key_def demo_roles)
  then obtain n where n: "map_of (get_nodes (snd (handle_directory_response demo_env 102 demo_response demo_acked)) Committer) [6] = Some n"
    by (auto simp: handle_directory_response_def demo_response_def demo_env_def entry_verifies_def verify_binding_def
        install_entry_def register_directory_peer_def upsert_node_def get_nodes_def put_nodes_def demo_acked_eval)
  then show ?thesis
    using directory_response_cannot_redirect [OF n] by (simp add: get_nodes_def demo_acked_eval demo_response_def)
qed

end
