(* ===== verification/Contracts.thy ===== *)
theory Contracts
  imports Tokens
begin

text \<open>
  The contract substrate of \<^verbatim>\<open>src/contracts.rs\<close> and \<^verbatim>\<open>src/contracts/\<close>: the transfer engine, the
  instruction machine of the \<^verbatim>\<open>Spec\<close> engine with its gas meter, cross-contract calls with their
  depth cap (\<^verbatim>\<open>call.rs\<close>), engine selection, the deploy-time scanner (\<^verbatim>\<open>scan.rs\<close>) and the storage
  delta of a result.  The MessagePack decoders, the provider that resolves a call target and
  every engine that is not one of the two built-in ones are parameters.
\<close>

section \<open>Contracts, inputs and results\<close>

record smart_contract =
  sc_name :: string
  sc_bytecode :: bytes
  sc_version :: string
  sc_storage :: "bytes amap"
  sc_owners :: "bytes list"
  sc_threshold :: u32

datatype contract_error =
    UnknownEngine string | GasExhausted | BadBytecode string | Reverted string
  | EngineNotImplemented string | InvalidInput string

definition failure_reason :: "contract_error \<Rightarrow> validation_failure_reason" where
  "failure_reason e =
     (case e of
        UnknownEngine _ \<Rightarrow> ContractNotFound
      | GasExhausted \<Rightarrow> GasLimitExceeded
      | BadBytecode _ \<Rightarrow> ContractExecutionFailed
      | Reverted _ \<Rightarrow> ContractExecutionFailed
      | EngineNotImplemented _ \<Rightarrow> ContractExecutionFailed
      | InvalidInput _ \<Rightarrow> ContractExecutionFailed)"

definition to_failure_reasons :: "contract_error \<Rightarrow> validation_failure_reason list" where
  "to_failure_reasons e = [failure_reason e]"

text \<open>The \<^verbatim>\<open>Display\<close> texts, which a failed call carries.\<close>

definition quoted :: "string \<Rightarrow> string" where
  "quoted s = [CHR 0x22] @ s @ [CHR 0x22]"

definition contract_error_text :: "contract_error \<Rightarrow> string" where
  "contract_error_text e =
     (case e of
        UnknownEngine n \<Rightarrow> ''unknown contract engine '' @ quoted n
      | GasExhausted \<Rightarrow> ''gas exhausted''
      | BadBytecode m \<Rightarrow> ''bad bytecode: '' @ m
      | Reverted m \<Rightarrow> ''contract reverted: '' @ m
      | EngineNotImplemented n \<Rightarrow> ''engine '' @ quoted n @ '' not implemented yet''
      | InvalidInput m \<Rightarrow> ''invalid execution input: '' @ m)"

text \<open>The call context of an input is the nesting depth of its frame; its provider and registry
  are those of the surrounding \<open>world\<close>.\<close>

record exec_input =
  ei_tx :: transaction
  ei_contract :: smart_contract
  ei_sender :: user
  ei_token :: token
  ei_gas_limit :: u64
  ei_storage :: "bytes amap"
  ei_depth :: "nat option"

record exec_output =
  eo_result :: bytes
  eo_gas :: u64

record transfer_delta =
  td_token :: bytes
  td_sender :: bytes
  td_receiver :: bytes
  td_amount :: u64
  td_seq :: nat

record snapshot_ref =
  ref_height :: u64
  ref_hash :: bytes

datatype op =
    LoadTx string | LoadConst u64 | OpAdd | OpSub | OpMul | OpMod | OpCmp | OpSelect | OpEmit | OpHalt
  | OpCall bytes string bytes u64 bytes

record instruction_program =
  prog_version :: u32
  prog_ops :: "op list"

datatype call_failure =
    DepthExceeded | TargetUnresolvable string | CalleeUnknownEngine string | BReverted string | BGasExhausted
  | BBadBytecode string | BInvalidInput string | BEngineNotImplemented string

datatype call_outcome = CallSuccess bytes u64 | CallFailure call_failure u64

definition b_gas_used :: "call_outcome \<Rightarrow> u64" where
  "b_gas_used out = (case out of CallSuccess _ g \<Rightarrow> g | CallFailure _ g \<Rightarrow> g)"

definition call_is_success :: "call_outcome \<Rightarrow> bool" where
  "call_is_success out = (case out of CallSuccess _ _ \<Rightarrow> True | CallFailure _ _ \<Rightarrow> False)"

record pinned_target =
  pin_token :: token
  pin_contract :: smart_contract
  pin_sender :: user
  pin_ref :: snapshot_ref

datatype engine = TransferEngine | SpecEngine | HostEngine string

type_synonym call_fn = "transaction \<Rightarrow> bytes \<Rightarrow> string \<Rightarrow> bytes \<Rightarrow> snapshot_ref \<Rightarrow> u64 \<Rightarrow> call_outcome"

text \<open>A host engine is given the call function of its frame, if the frame has one.\<close>

record world =
  cw_registry :: "(string \<times> engine) list"
  cw_resolve :: "bytes \<Rightarrow> snapshot_ref \<Rightarrow> bytes \<Rightarrow> contract_error + pinned_target"
  cw_host :: "string \<Rightarrow> call_fn option \<Rightarrow> exec_input \<Rightarrow> contract_error + exec_output"
  cw_program :: "bytes \<Rightarrow> io_error + instruction_program"
  cw_transfer :: "transfer_delta \<Rightarrow> io_error + bytes"

section \<open>The transfer engine\<close>

definition TRANSFER_BASE_COST :: u64 where "TRANSFER_BASE_COST = 21000"

definition transfer_execute :: "world \<Rightarrow> exec_input \<Rightarrow> contract_error + exec_output" where
  "transfer_execute W inp =
     (if ei_gas_limit inp > 0 \<and> TRANSFER_BASE_COST > ei_gas_limit inp then Inl GasExhausted
      else case tx_amount (ei_tx inp) of
             None \<Rightarrow> Inl (InvalidInput ''transfer requires an amount'')
           | Some amount \<Rightarrow>
               if amount = 0 then Inl (InvalidInput ''transfer amount must be non-zero'')
               else (case cw_transfer W
                            \<lparr>td_token = tx_token (ei_tx inp), td_sender = tx_sender (ei_tx inp),
                             td_receiver = tx_receiver (ei_tx inp), td_amount = amount, td_seq = tx_seq (ei_tx inp)\<rparr> of
                       Inl _ \<Rightarrow> Inl (InvalidInput ''canonical encode failed'')
                     | Inr data \<Rightarrow> Inr \<lparr>eo_result = data, eo_gas = TRANSFER_BASE_COST\<rparr>))"

section \<open>The instruction machine\<close>

definition checked_mul :: "'a::len word \<Rightarrow> 'a word \<Rightarrow> 'a word option" where
  "checked_mul a b = (if unat a * unat b < 2 ^ LENGTH('a) then Some (a * b) else None)"

definition from_be_bytes :: "bytes \<Rightarrow> u64" where
  "from_be_bytes bs = fold (\<lambda>b acc. acc * 256 + ucast b) bs 0"

definition to_le_bytes :: "u64 \<Rightarrow> bytes" where
  "to_le_bytes x = rev (to_be_bytes x)"

definition bytes_to_u64 :: "bytes \<Rightarrow> u64" where
  "bytes_to_u64 bs = (let n = min 8 (length bs) in from_be_bytes (replicate (8 - n) 0 @ take n bs))"

definition load_tx_field :: "exec_input \<Rightarrow> string \<Rightarrow> contract_error + u64" where
  "load_tx_field inp field =
     (let tx = ei_tx inp in
      if field = ''amount'' then
        (case tx_amount tx of Some a \<Rightarrow> Inr a | None \<Rightarrow> Inl (Reverted ''load_tx: amount is not set''))
      else if field = ''sequence_number'' then Inr (of_nat (tx_seq tx))
      else if field = ''gas_limit'' then Inr (ei_gas_limit inp)
      else if field = ''sender'' then Inr (bytes_to_u64 (tx_sender tx))
      else if field = ''receiver'' then Inr (bytes_to_u64 (tx_receiver tx))
      else if field = ''token_id'' then Inr (bytes_to_u64 (tx_token tx))
      else if field = ''payload'' then Inr (bytes_to_u64 (tx_payload tx))
      else Inl (Reverted ''load_tx: undeclared field''))"

text \<open>The stack is a list with its top first.\<close>

fun pop_one :: "u64 list \<Rightarrow> contract_error + u64 \<times> u64 list" where
  "pop_one [] = Inl (Reverted ''stack underflow'')"
| "pop_one (x # st) = Inr (x, st)"

definition pop_two :: "u64 list \<Rightarrow> contract_error + (u64 \<times> u64) \<times> u64 list" where
  "pop_two st =
     (case pop_one st of
        Inl e \<Rightarrow> Inl e
      | Inr (a, st1) \<Rightarrow> (case pop_one st1 of Inl e \<Rightarrow> Inl e | Inr (b, st2) \<Rightarrow> Inr ((a, b), st2)))"

definition binary_op :: "(u64 \<Rightarrow> u64 \<Rightarrow> contract_error + u64) \<Rightarrow> u64 list \<Rightarrow> contract_error + u64 list" where
  "binary_op f st =
     (case pop_two st of
        Inl e \<Rightarrow> Inl e
      | Inr ((a, b), st') \<Rightarrow> (case f a b of Inl e \<Rightarrow> Inl e | Inr v \<Rightarrow> Inr (v # st')))"

definition or_revert :: "string \<Rightarrow> 'a option \<Rightarrow> contract_error + 'a" where
  "or_revert msg r = (case r of None \<Rightarrow> Inl (Reverted msg) | Some v \<Rightarrow> Inr v)"

definition cmp_value :: "u64 \<Rightarrow> u64 \<Rightarrow> u64" where
  "cmp_value a b = (if b > a then 1 else if b = a then 2 else 3)"

definition select_op :: "u64 list \<Rightarrow> contract_error + u64 list" where
  "select_op st =
     (case pop_one st of
        Inl e \<Rightarrow> Inl e
      | Inr (cond, st1) \<Rightarrow>
          (case pop_two st1 of
             Inl e \<Rightarrow> Inl e
           | Inr ((b, a), st2) \<Rightarrow> Inr ((if cond \<noteq> 0 then a else b) # st2)))"

definition XCALL_CALL_BASE_SPEC :: u64 where "XCALL_CALL_BASE_SPEC = 10"

record machine =
  ms_stack :: "u64 list"
  ms_result :: bytes
  ms_gas :: u64

definition call_op :: "call_fn option \<Rightarrow> exec_input \<Rightarrow> bytes \<Rightarrow> string \<Rightarrow> bytes \<Rightarrow> u64 \<Rightarrow> bytes \<Rightarrow> machine \<Rightarrow> contract_error + machine" where
  "call_op call inp target entry payload height rhash m =
     (case call of
        None \<Rightarrow> Inl (Reverted ''call: no call context'')
      | Some f \<Rightarrow>
          (let remaining = (if ei_gas_limit inp > 0 then saturating_sub (ei_gas_limit inp) (ms_gas m) else u64_max);
               sub = saturating_sub remaining XCALL_CALL_BASE_SPEC;
               outcome = f (ei_tx inp) target entry payload \<lparr>ref_height = height, ref_hash = rhash\<rparr> sub;
               gas = saturating_add (ms_gas m) (XCALL_CALL_BASE_SPEC + b_gas_used outcome)
           in if ei_gas_limit inp > 0 \<and> gas > ei_gas_limit inp then Inl GasExhausted
              else Inr (m\<lparr>ms_gas := gas, ms_stack := (if call_is_success outcome then 1 else 0) # ms_stack m\<rparr>)))"

definition on_stack :: "(u64 list \<Rightarrow> contract_error + u64 list) \<Rightarrow> machine \<Rightarrow> contract_error + machine" where
  "on_stack f m = (case f (ms_stack m) of Inl e \<Rightarrow> Inl e | Inr st \<Rightarrow> Inr (m\<lparr>ms_stack := st\<rparr>))"

text \<open>One instruction other than \<^verbatim>\<open>Halt\<close>, after it was charged.\<close>

fun exec_op :: "call_fn option \<Rightarrow> exec_input \<Rightarrow> op \<Rightarrow> machine \<Rightarrow> contract_error + machine" where
  "exec_op call inp (LoadTx field) m =
     on_stack (\<lambda>st. case load_tx_field inp field of Inl e \<Rightarrow> Inl e | Inr v \<Rightarrow> Inr (v # st)) m"
| "exec_op call inp (LoadConst n) m = on_stack (\<lambda>st. Inr (n # st)) m"
| "exec_op call inp OpAdd m = on_stack (binary_op (\<lambda>a b. or_revert ''addition overflow'' (checked_add b a))) m"
| "exec_op call inp OpSub m = on_stack (binary_op (\<lambda>a b. or_revert ''subtraction underflow'' (checked_sub b a))) m"
| "exec_op call inp OpMul m = on_stack (binary_op (\<lambda>a b. or_revert ''multiplication overflow'' (checked_mul b a))) m"
| "exec_op call inp OpMod m =
     on_stack (binary_op (\<lambda>a b. if a = 0 then Inl (Reverted ''modulo by zero'') else Inr (b mod a))) m"
| "exec_op call inp OpCmp m = on_stack (binary_op (\<lambda>a b. Inr (cmp_value a b))) m"
| "exec_op call inp OpSelect m = on_stack select_op m"
| "exec_op call inp OpEmit m =
     (case pop_one (ms_stack m) of
        Inl e \<Rightarrow> Inl e
      | Inr (v, st) \<Rightarrow> Inr (m\<lparr>ms_stack := st, ms_result := to_le_bytes v\<rparr>))"
| "exec_op call inp OpHalt m = Inr m"
| "exec_op call inp (OpCall target entry payload height rhash) m = call_op call inp target entry payload height rhash m"

fun spec_loop :: "call_fn option \<Rightarrow> exec_input \<Rightarrow> op list \<Rightarrow> machine \<Rightarrow> contract_error + machine" where
  "spec_loop call inp [] m = Inr m"
| "spec_loop call inp (i # is) m =
     (if ei_gas_limit inp > 0 \<and> ms_gas m \<ge> ei_gas_limit inp then Inl GasExhausted
      else let m1 = m\<lparr>ms_gas := ms_gas m + 1\<rparr>
           in if i = OpHalt then Inr m1
              else case exec_op call inp i m1 of Inl e \<Rightarrow> Inl e | Inr m2 \<Rightarrow> spec_loop call inp is m2)"

definition machine_init :: machine where
  "machine_init = \<lparr>ms_stack = [], ms_result = [], ms_gas = 0\<rparr>"

definition spec_execute :: "world \<Rightarrow> call_fn option \<Rightarrow> exec_input \<Rightarrow> contract_error + exec_output" where
  "spec_execute W call inp =
     (case cw_program W (sc_bytecode (ei_contract inp)) of
        Inl _ \<Rightarrow> Inl (BadBytecode ''undecodable AST'')
      | Inr prog \<Rightarrow>
          if prog_version prog \<noteq> 1 then Inl (BadBytecode ''unsupported program version'')
          else (case spec_loop call inp (prog_ops prog) machine_init of
                  Inl e \<Rightarrow> Inl e
                | Inr m \<Rightarrow> Inr \<lparr>eo_result = ms_result m, eo_gas = ms_gas m\<rparr>))"

section \<open>Engine selection and calls\<close>

definition engine_name :: "engine \<Rightarrow> string" where
  "engine_name e = (case e of TransferEngine \<Rightarrow> ''Transfer'' | SpecEngine \<Rightarrow> ''Spec'' | HostEngine n \<Rightarrow> n)"

definition register_engine :: "engine \<Rightarrow> (string \<times> engine) list \<Rightarrow> (string \<times> engine) list" where
  "register_engine e r = AList.update (engine_name e) e r"

definition register_defaults :: "(string \<times> engine) list \<Rightarrow> (string \<times> engine) list" where
  "register_defaults r = register_engine SpecEngine (register_engine TransferEngine r)"

definition registry_names :: "(string \<times> engine) list \<Rightarrow> string list" where
  "registry_names r = sort (map fst r)"

definition select_engine :: "(string \<times> engine) list \<Rightarrow> token \<Rightarrow> contract_error + engine" where
  "select_engine r t =
     (let is_contract_token = (map_of (tok_metadata t) ''token_type'' = Some ''contract'')
      in case map_of (tok_metadata t) ''contract_engine'' of
           None \<Rightarrow>
             if is_contract_token then Inl (UnknownEngine ''contract token must declare an engine'')
             else (case map_of r ''Transfer'' of Some e \<Rightarrow> Inr e | None \<Rightarrow> Inl (UnknownEngine ''Transfer''))
         | Some name \<Rightarrow> (case map_of r name of Some e \<Rightarrow> Inr e | None \<Rightarrow> Inl (UnknownEngine name)))"

definition validate_snapshot_ref :: "blockchain \<Rightarrow> snapshot_ref \<Rightarrow> string + unit" where
  "validate_snapshot_ref bc r =
     (case get_block_at bc (unat (ref_height r)) of
        None \<Rightarrow> Inl ''snapshot ref height out of range''
      | Some b \<Rightarrow> if current_hash b \<noteq> ref_hash r then Inl ''snapshot ref hash mismatch'' else Inr ())"

definition MAX_CALL_DEPTH :: nat where "MAX_CALL_DEPTH = 8"

definition nibble_hex :: "bytes \<Rightarrow> string" where
  "nibble_hex bs = concat (map (\<lambda>b. [''0123456789abcdef'' ! unat (drop_bit 4 b), ''0123456789abcdef'' ! unat (take_bit 4 b)]) bs)"

definition synthesize_call_tx :: "transaction \<Rightarrow> bytes \<Rightarrow> string \<Rightarrow> bytes \<Rightarrow> u64 \<Rightarrow> transaction" where
  "synthesize_call_tx a_tx target entry payload sub =
     \<lparr>tx_id = ''xcall/'' @ tx_id a_tx @ ''/'' @ nibble_hex target, tx_action = entry, tx_token = target, tx_bid = None,
      tx_seq = tx_seq a_tx, tx_sender = tx_sender a_tx, tx_receiver = tx_receiver a_tx, tx_amount = None,
      tx_timestamp = tx_timestamp a_tx, tx_result_hash = [], tx_sender_signature = [], tx_payload = payload,
      tx_gas_limit = sub, tx_result_data = [], tx_selection = None\<rparr>"

definition fold_outcome :: "contract_error + exec_output \<Rightarrow> call_outcome" where
  "fold_outcome r =
     (case r of
        Inr out \<Rightarrow> CallSuccess (eo_result out) (eo_gas out)
      | Inl e \<Rightarrow>
          CallFailure
            (case e of
               Reverted m \<Rightarrow> BReverted m
             | GasExhausted \<Rightarrow> BGasExhausted
             | BadBytecode m \<Rightarrow> BBadBytecode m
             | InvalidInput m \<Rightarrow> BInvalidInput m
             | UnknownEngine m \<Rightarrow> CalleeUnknownEngine m
             | EngineNotImplemented m \<Rightarrow> BEngineNotImplemented m) 0)"

text \<open>\<^verbatim>\<open>execute_call\<close> after its depth check, with the nested engine's run and the child's depth as
  arguments.\<close>

definition call_body ::
    "world \<Rightarrow> (engine \<Rightarrow> exec_input \<Rightarrow> contract_error + exec_output) \<Rightarrow> nat \<Rightarrow> call_fn" where
  "call_body W run child_depth a_tx target entry payload r sub =
     (case cw_resolve W target r (tx_sender a_tx) of
        Inl e \<Rightarrow> CallFailure (TargetUnresolvable (contract_error_text e)) 0
      | Inr pinned \<Rightarrow>
          (case select_engine (cw_registry W) (pin_token pinned) of
             Inl e \<Rightarrow> CallFailure (CalleeUnknownEngine (contract_error_text e)) 0
           | Inr eng \<Rightarrow>
               fold_outcome (run eng
                 \<lparr>ei_tx = synthesize_call_tx a_tx target entry payload sub, ei_contract = pin_contract pinned,
                  ei_sender = pin_sender pinned, ei_token = pin_token pinned, ei_gas_limit = sub,
                  ei_storage = sc_storage (pin_contract pinned), ei_depth = Some child_depth\<rparr>)))"

definition engine_run :: "world \<Rightarrow> call_fn option \<Rightarrow> engine \<Rightarrow> exec_input \<Rightarrow> contract_error + exec_output" where
  "engine_run W call e inp =
     (case e of
        TransferEngine \<Rightarrow> transfer_execute W inp
      | SpecEngine \<Rightarrow> spec_execute W call inp
      | HostEngine n \<Rightarrow> cw_host W n call inp)"

text \<open>The recursion of calls runs over the depth that is left; \<open>execute_call_eq\<close> below is the
  source's own equation.\<close>

primrec call_left :: "world \<Rightarrow> nat \<Rightarrow> call_fn" where
  "call_left W 0 = (\<lambda>a_tx target entry payload r sub. CallFailure DepthExceeded 0)"
| "call_left W (Suc n) = call_body W (engine_run W (Some (call_left W n))) (MAX_CALL_DEPTH - n)"

definition execute_call :: "world \<Rightarrow> nat \<Rightarrow> call_fn" where
  "execute_call W depth = call_left W (MAX_CALL_DEPTH - depth)"

definition engine_execute :: "world \<Rightarrow> engine \<Rightarrow> exec_input \<Rightarrow> contract_error + exec_output" where
  "engine_execute W e inp = engine_run W (map_option (execute_call W) (ei_depth inp)) e inp"

section \<open>Storage deltas\<close>

text \<open>A \<^verbatim>\<open>BTreeMap\<close> is kept in key order.\<close>

definition btree_insert :: "'k::linorder \<Rightarrow> 'v \<Rightarrow> ('k \<times> 'v) list \<Rightarrow> ('k \<times> 'v) list" where
  "btree_insert k v m = btree_of (AList.update k v m)"

type_synonym storage_delta = "(bytes \<times> bytes option) list"

record wasm_result =
  wr_module_output :: bytes
  wr_storage_delta :: storage_delta

definition apply_delta_to :: "storage_delta \<Rightarrow> bytes amap \<Rightarrow> bytes amap" where
  "apply_delta_to delta base =
     fold (\<lambda>(k, v) m. case v of Some val \<Rightarrow> btree_insert k val m | None \<Rightarrow> AList.delete k m) delta base"

definition post_apply_size :: "wasm_result \<Rightarrow> bytes amap \<Rightarrow> nat" where
  "post_apply_size w base = sum_list (map (\<lambda>(k, v). length k + length v) (apply_delta_to (wr_storage_delta w) base))"

section \<open>The deploy-time scanner\<close>

datatype severity = Reject | Warn

datatype scan_code =
    SpecBadBytecode | SpecBadVersion | SpecUnknownLoadTx | SpecStackUnderflow | SpecTooManyInstructions
  | WasmParseFailed | WasmBadImport | WasmFloatOpcode | WasmExtraExport | WasmMemoryGrowth | WasmUnboundedLoop
  | WasmLargeData | WasmLargeCustom | WasmObfuscated
  | CanaryEngineMissing | CanaryGasExhausted | CanaryOutputOverflow

type_synonym scan_finding = "scan_code \<times> severity"

definition CANARY_FUEL_BUDGET :: u64 where "CANARY_FUEL_BUDGET = 1000000"
definition CANARY_MAX_OUTPUT :: nat where "CANARY_MAX_OUTPUT = 4 * 1024"
definition SPEC_MAX_INSTRUCTIONS :: nat where "SPEC_MAX_INSTRUCTIONS = 1000"
definition WASM_MAX_MEMORY_GROW :: u32 where "WASM_MAX_MEMORY_GROW = 64"
definition WASM_MAX_DATA_BYTES :: u64 where "WASM_MAX_DATA_BYTES = 64 * 1024"
definition WASM_MAX_CUSTOM_BYTES :: u64 where "WASM_MAX_CUSTOM_BYTES = 16 * 1024"
definition WASM_MAX_LOOP_NESTING :: u32 where "WASM_MAX_LOOP_NESTING = 2"
definition OBFUSCATE_MAX_OPCODES :: u64 where "OBFUSCATE_MAX_OPCODES = 500000"
definition OBFUSCATE_MAX_FUNCTIONS :: u32 where "OBFUSCATE_MAX_FUNCTIONS = 2000"

definition ALLOWED_ENV_IMPORTS :: "string list" where
  "ALLOWED_ENV_IMPORTS =
     [''tx_amount'', ''tx_sequence'', ''sender_fuel'', ''tx_payload_len'', ''tx_payload'', ''revert'', ''sload'', ''sstore'',
      ''sdelete'', ''call'']"

definition KNOWN_LOADTX_FIELDS :: "string list" where
  "KNOWN_LOADTX_FIELDS =
     [''amount'', ''sequence_number'', ''gas_limit'', ''sender'', ''receiver'', ''token_id'', ''payload'']"

fun op_effect :: "op \<Rightarrow> nat \<times> nat" where
  "op_effect (LoadTx _) = (0, 1)"
| "op_effect (LoadConst _) = (0, 1)"
| "op_effect OpAdd = (2, 1)"
| "op_effect OpSub = (2, 1)"
| "op_effect OpMul = (2, 1)"
| "op_effect OpMod = (2, 1)"
| "op_effect OpCmp = (2, 1)"
| "op_effect OpSelect = (3, 1)"
| "op_effect OpEmit = (1, 0)"
| "op_effect OpHalt = (0, 0)"
| "op_effect (OpCall _ _ _ _ _) = (0, 1)"

fun unknown_field :: "op \<Rightarrow> bool" where
  "unknown_field (LoadTx field) \<longleftrightarrow> field \<notin> set KNOWN_LOADTX_FIELDS"
| "unknown_field _ \<longleftrightarrow> False"

text \<open>The depth walk: the findings pushed on the way and whether it met an underflow.\<close>

fun depth_walk :: "nat \<Rightarrow> op list \<Rightarrow> scan_finding list \<times> bool" where
  "depth_walk depth [] = ([], False)"
| "depth_walk depth (i # is) =
     (if i = OpHalt then ([], False)
      else let (pops, pushes) = op_effect i
           in if depth < pops then ([], True)
              else let (fs, under) = depth_walk (depth - pops + pushes) is
                   in ((if unknown_field i then [(SpecUnknownLoadTx, Warn)] else []) @ fs, under))"

definition scan_spec :: "world \<Rightarrow> bytes \<Rightarrow> scan_finding list" where
  "scan_spec W bytecode =
     (case cw_program W bytecode of
        Inl _ \<Rightarrow> [(SpecBadBytecode, Reject)]
      | Inr prog \<Rightarrow>
          (let (fs, under) = depth_walk 0 (prog_ops prog)
           in (if prog_version prog \<noteq> 1 then [(SpecBadVersion, Reject)] else []) @
              (if length (prog_ops prog) > SPEC_MAX_INSTRUCTIONS then [(SpecTooManyInstructions, Reject)] else []) @
              fs @ (if under then [(SpecStackUnderflow, Warn)] else [])))"

text \<open>A parsed module is the list of payloads the binary parser yields up to its end, with the
  operators the walk tells apart; \<^verbatim>\<open>block\<close> and \<^verbatim>\<open>if\<close> also open a scope that an \<^verbatim>\<open>end\<close> closes.\<close>

datatype wasm_operator = MemoryGrow | WLoop | WBlock | WEnd | WFloat | WOther

datatype wasm_payload =
    ImportSection "(string \<times> string) list" | ExportSection "string list"
  | CodeSectionEntry "wasm_operator list option" | DataSection "nat list" | CustomSection nat | OtherPayload

record wasm_walk =
  ww_bad_import :: bool
  ww_float_op :: bool
  ww_extra_export :: bool
  ww_memory_grow :: u32
  ww_data_bytes :: u64
  ww_custom_bytes :: u64
  ww_total_functions :: u32
  ww_total_opcodes :: u64
  ww_max_loop_nesting :: u32

definition walk_init :: wasm_walk where
  "walk_init =
     \<lparr>ww_bad_import = False, ww_float_op = False, ww_extra_export = False, ww_memory_grow = 0, ww_data_bytes = 0,
      ww_custom_bytes = 0, ww_total_functions = 0, ww_total_opcodes = 0, ww_max_loop_nesting = 0\<rparr>"

definition walk_operator :: "wasm_operator \<Rightarrow> u32 \<times> wasm_walk \<Rightarrow> u32 \<times> wasm_walk" where
  "walk_operator oper s =
     (let (nesting, w) = s;
          w1 = w\<lparr>ww_total_opcodes := ww_total_opcodes w + 1, ww_float_op := (ww_float_op w \<or> oper = WFloat)\<rparr>
      in case oper of
           MemoryGrow \<Rightarrow> (nesting, w1\<lparr>ww_memory_grow := ww_memory_grow w1 + 1\<rparr>)
         | WLoop \<Rightarrow>
             (nesting + 1,
              if nesting + 1 > ww_max_loop_nesting w1 then w1\<lparr>ww_max_loop_nesting := nesting + 1\<rparr> else w1)
         | WEnd \<Rightarrow> (if nesting > 0 then nesting - 1 else nesting, w1)
         | _ \<Rightarrow> (nesting, w1))"

definition walk_function_body :: "wasm_operator list option \<Rightarrow> wasm_walk \<Rightarrow> wasm_walk" where
  "walk_function_body body w =
     (let w1 = w\<lparr>ww_total_functions := ww_total_functions w + 1\<rparr>
      in case body of None \<Rightarrow> w1 | Some opers \<Rightarrow> snd (fold walk_operator opers (0, w1)))"

definition walk_payload :: "wasm_payload \<Rightarrow> wasm_walk \<Rightarrow> wasm_walk" where
  "walk_payload p w =
     (case p of
        ImportSection imports \<Rightarrow>
          w\<lparr>ww_bad_import := (ww_bad_import w \<or> list_ex (\<lambda>(m, n). m \<noteq> ''env'' \<or> n \<notin> set ALLOWED_ENV_IMPORTS) imports)\<rparr>
      | ExportSection exports \<Rightarrow>
          w\<lparr>ww_extra_export := (ww_extra_export w \<or> list_ex (\<lambda>n. n \<noteq> ''__alloc'' \<and> n \<noteq> ''execute'') exports)\<rparr>
      | CodeSectionEntry body \<Rightarrow> walk_function_body body w
      | DataSection lens \<Rightarrow> w\<lparr>ww_data_bytes := fold (\<lambda>n acc. acc + of_nat n) lens (ww_data_bytes w)\<rparr>
      | CustomSection n \<Rightarrow> w\<lparr>ww_custom_bytes := ww_custom_bytes w + of_nat n\<rparr>
      | OtherPayload \<Rightarrow> w)"

definition into_findings :: "wasm_walk \<Rightarrow> scan_finding list" where
  "into_findings w =
     (if ww_bad_import w then [(WasmBadImport, Reject)] else []) @
     (if ww_float_op w then [(WasmFloatOpcode, Reject)] else []) @
     (if ww_extra_export w then [(WasmExtraExport, Warn)] else []) @
     (if ww_memory_grow w > WASM_MAX_MEMORY_GROW then [(WasmMemoryGrowth, Warn)] else []) @
     (if ww_data_bytes w > WASM_MAX_DATA_BYTES then [(WasmLargeData, Warn)] else []) @
     (if ww_custom_bytes w > WASM_MAX_CUSTOM_BYTES then [(WasmLargeCustom, Warn)] else []) @
     (if ww_max_loop_nesting w \<ge> WASM_MAX_LOOP_NESTING then [(WasmUnboundedLoop, Warn)] else []) @
     (if ww_total_opcodes w > OBFUSCATE_MAX_OPCODES \<or> ww_total_functions w > OBFUSCATE_MAX_FUNCTIONS
      then [(WasmObfuscated, Warn)] else [])"

definition scan_wasm :: "(bytes \<Rightarrow> wasm_payload list option) \<Rightarrow> bytes \<Rightarrow> scan_finding list" where
  "scan_wasm parse bytecode =
     (case parse bytecode of
        None \<Rightarrow> [(WasmParseFailed, Reject)]
      | Some payloads \<Rightarrow> into_findings (fold walk_payload payloads walk_init))"

definition canary_input :: "string \<Rightarrow> bytes \<Rightarrow> exec_input" where
  "canary_input name bytecode =
     \<lparr>ei_tx =
        \<lparr>tx_id = ''canary'', tx_action = ''ContractCall'', tx_token = replicate 32 0, tx_bid = None, tx_seq = 0,
         tx_sender = replicate 32 0, tx_receiver = [], tx_amount = Some 0, tx_timestamp = 0, tx_result_hash = [],
         tx_sender_signature = [], tx_payload = [], tx_gas_limit = CANARY_FUEL_BUDGET, tx_result_data = [],
         tx_selection = None\<rparr>,
      ei_contract =
        \<lparr>sc_name = ''canary'', sc_bytecode = bytecode, sc_version = ''1'', sc_storage = [], sc_owners = [], sc_threshold = 0\<rparr>,
      ei_sender =
        \<lparr>user_public_key = replicate 32 0, fuel_balance = CANARY_FUEL_BUDGET, user_stake = 0, user_nonce = 0\<rparr>,
      ei_token =
        set_metadata ''contract_engine'' name (set_metadata ''token_type'' ''contract'' (token_new\<lparr>tok_id := replicate 32 0\<rparr>)),
      ei_gas_limit = CANARY_FUEL_BUDGET, ei_storage = [], ei_depth = None\<rparr>"

definition canary_run :: "world \<Rightarrow> string \<Rightarrow> bytes \<Rightarrow> scan_finding list" where
  "canary_run W name bytecode =
     (case map_of (cw_registry W) name of
        None \<Rightarrow> [(CanaryEngineMissing, Reject)]
      | Some eng \<Rightarrow>
          (case engine_execute W eng (canary_input name bytecode) of
             Inl GasExhausted \<Rightarrow> [(CanaryGasExhausted, Reject)]
           | Inl _ \<Rightarrow> []
           | Inr out \<Rightarrow> if length (eo_result out) > CANARY_MAX_OUTPUT then [(CanaryOutputOverflow, Reject)] else []))"

definition scan_contract ::
    "world \<Rightarrow> (bytes \<Rightarrow> wasm_payload list option) \<Rightarrow> string \<Rightarrow> bytes \<Rightarrow> scan_finding list" where
  "scan_contract W parse name bytecode =
     (if name = ''Spec'' then scan_spec W bytecode @ canary_run W name bytecode
      else if name = ''Wasm'' then scan_wasm parse bytecode @ canary_run W name bytecode
      else [])"

section \<open>The recursion of calls\<close>

lemma execute_call_eq:
  "execute_call W depth a_tx target entry payload r sub =
     (if depth \<ge> MAX_CALL_DEPTH then CallFailure DepthExceeded 0
      else call_body W (engine_execute W) (depth + 1) a_tx target entry payload r sub)"
proof (cases "depth \<ge> MAX_CALL_DEPTH")
  case True
  then show ?thesis by (simp add: execute_call_def)
next
  case False
  then have left: "MAX_CALL_DEPTH - depth = Suc (MAX_CALL_DEPTH - Suc depth)"
    and child: "MAX_CALL_DEPTH - (MAX_CALL_DEPTH - Suc depth) = Suc depth" by simp_all
  show ?thesis
    using False
    by (simp add: execute_call_def left child call_body_def engine_execute_def split: sum.splits)
qed

section \<open>Gas\<close>

text \<open>The only instructions that are charged more than one unit are calls.\<close>

lemma on_stack_gas: "on_stack f m = Inr m' \<Longrightarrow> ms_gas m' = ms_gas m \<and> ms_result m' = ms_result m"
  by (auto simp: on_stack_def split: sum.splits)

lemma exec_op_result: "exec_op call inp i m = Inr m' \<Longrightarrow> ms_result m' = ms_result m \<or> length (ms_result m') = 8"
proof (cases i)
  case OpEmit
  moreover assume "exec_op call inp i m = Inr m'"
  ultimately show ?thesis by (auto simp: to_le_bytes_def to_be_bytes_def split: sum.splits)
qed (auto dest!: on_stack_gas simp: call_op_def Let_def split: option.splits if_splits)

lemma exec_op_gas:
  "exec_op call inp i m = Inr m' \<Longrightarrow> ei_gas_limit inp > 0 \<Longrightarrow> ms_gas m \<le> ei_gas_limit inp \<Longrightarrow> ms_gas m' \<le> ei_gas_limit inp"
proof (cases i)
  case OpEmit
  moreover assume "exec_op call inp i m = Inr m'" "ms_gas m \<le> ei_gas_limit inp"
  ultimately show ?thesis by (auto split: sum.splits)
qed (auto dest!: on_stack_gas simp: call_op_def Let_def split: option.splits if_splits)

lemma charge_within: "\<not> limit \<le> (g :: u64) \<Longrightarrow> g + 1 \<le> limit"
  by (simp add: inc_le not_le)

lemma spec_loop_gas:
  "spec_loop call inp is m = Inr m' \<Longrightarrow> ei_gas_limit inp > 0 \<Longrightarrow> ms_gas m \<le> ei_gas_limit inp \<Longrightarrow> ms_gas m' \<le> ei_gas_limit inp"
proof (induction "is" arbitrary: m)
  case (Cons i "is")
  let ?m1 = "m\<lparr>ms_gas := ms_gas m + 1\<rparr>"
  from Cons.prems have c: "\<not> ei_gas_limit inp \<le> ms_gas m" by (auto split: if_splits)
  then have g: "ms_gas ?m1 \<le> ei_gas_limit inp" by (simp add: charge_within)
  show ?case
  proof (cases "i = OpHalt")
    case True
    then show ?thesis using Cons.prems(1) c g by auto
  next
    case False
    then obtain m2 where "exec_op call inp i ?m1 = Inr m2" "spec_loop call inp is m2 = Inr m'"
      using Cons.prems(1) c by (auto split: sum.splits)
    then show ?thesis using Cons.IH Cons.prems(2) exec_op_gas g by blast
  qed
qed simp

lemma spec_loop_result:
  "spec_loop call inp is m = Inr m' \<Longrightarrow> length (ms_result m) \<in> {0, 8} \<Longrightarrow> length (ms_result m') \<in> {0, 8}"
proof (induction "is" arbitrary: m)
  case (Cons i "is")
  let ?m1 = "m\<lparr>ms_gas := ms_gas m + 1\<rparr>"
  show ?case
  proof (cases "i = OpHalt")
    case True
    then show ?thesis using Cons.prems by (auto split: if_splits)
  next
    case False
    then obtain m2 where e: "exec_op call inp i ?m1 = Inr m2" "spec_loop call inp is m2 = Inr m'"
      using Cons.prems(1) by (auto split: sum.splits if_splits)
    have "length (ms_result m2) \<in> {0, 8}" using exec_op_result [OF e(1)] Cons.prems(2) by auto
    then show ?thesis using Cons.IH e(2) by blast
  qed
qed simp

lemma spec_execute_Inr:
  "spec_execute W call inp = Inr out \<Longrightarrow>
   \<exists>prog m. cw_program W (sc_bytecode (ei_contract inp)) = Inr prog \<and> prog_version prog = 1 \<and>
     spec_loop call inp (prog_ops prog) machine_init = Inr m \<and> eo_result out = ms_result m \<and> eo_gas out = ms_gas m"
  by (auto simp: spec_execute_def split: if_splits sum.splits)

text \<open>A contract that declares a cap never reports more gas than the cap, whatever the engine:
  the transfer engine charges its base cost only within the cap, and the instruction machine -
  nested calls into any other contract included, however those are metered - ends with an error
  rather than with a charge beyond the cap. What the machine returns is empty or the eight bytes
  of the last value it emitted.\<close>

theorem gas_within_cap:
  assumes "ei_gas_limit inp > 0" "e = TransferEngine \<or> e = SpecEngine" "engine_execute W e inp = Inr out"
  shows "eo_gas out \<le> ei_gas_limit inp \<and> (e = TransferEngine \<or> length (eo_result out) \<in> {0, 8})"
proof (cases e)
  case TransferEngine
  then show ?thesis
    using assms by (auto simp: engine_execute_def engine_run_def transfer_execute_def split: if_splits option.splits sum.splits)
next
  case SpecEngine
  then have "spec_execute W (map_option (execute_call W) (ei_depth inp)) inp = Inr out"
    using assms(3) by (simp add: engine_execute_def engine_run_def)
  from spec_execute_Inr [OF this] obtain m and prog :: instruction_program where
    "spec_loop (map_option (execute_call W) (ei_depth inp)) inp (prog_ops prog) machine_init = Inr m"
    "eo_result out = ms_result m" "eo_gas out = ms_gas m" by blast
  then show ?thesis
    using spec_loop_gas [OF _ assms(1)] spec_loop_result by (simp add: machine_init_def)
qed (use assms(2) in simp)

section \<open>What the scanner promises\<close>

definition malformed :: "contract_error \<Rightarrow> bool" where
  "malformed e \<longleftrightarrow>
     e = Reverted ''stack underflow'' \<or> e = Reverted ''load_tx: undeclared field'' \<or> (\<exists>msg. e = BadBytecode msg)"

lemma binary_op_depth:
  assumes "2 \<le> length st" "\<And>a b e. f a b = Inl e \<Longrightarrow> \<not> malformed e"
  shows "(\<forall>e. binary_op f st = Inl e \<longrightarrow> \<not> malformed e) \<and> (\<forall>st'. binary_op f st = Inr st' \<longrightarrow> length st' = length st - 1)"
proof -
  obtain a b st2 where st: "st = a # b # st2"
    using assms(1) by (metis Suc_le_length_iff numeral_2_eq_2)
  show ?thesis using assms(2) by (auto simp: binary_op_def pop_two_def st split: sum.splits)
qed

lemma binary_op_short: "length st < 2 \<Longrightarrow> binary_op f st = Inl (Reverted ''stack underflow'')"
  by (cases st; cases "tl st") (auto simp: binary_op_def pop_two_def)

lemma select_op_depth:
  "3 \<le> length st \<Longrightarrow> \<exists>st'. select_op st = Inr st' \<and> length st' = length st - 2"
  by (cases st; cases "tl st"; cases "tl (tl st)") (auto simp: select_op_def pop_two_def)

lemma select_op_short: "length st < 3 \<Longrightarrow> select_op st = Inl (Reverted ''stack underflow'')"
  by (cases st; cases "tl st"; cases "tl (tl st)") (auto simp: select_op_def pop_two_def)

lemma load_known:
  "\<not> unknown_field (LoadTx field) \<Longrightarrow> load_tx_field inp field = Inl e \<Longrightarrow> \<not> malformed e"
  by (auto simp: load_tx_field_def KNOWN_LOADTX_FIELDS_def Let_def malformed_def split: if_splits option.splits)

lemma or_revert_ok: "or_revert msg r = Inl e \<Longrightarrow> msg \<noteq> ''stack underflow'' \<Longrightarrow> msg \<noteq> ''load_tx: undeclared field'' \<Longrightarrow> \<not> malformed e"
  by (auto simp: or_revert_def malformed_def split: option.splits)

lemma on_stack_binary:
  assumes "2 \<le> length (ms_stack m)" "\<forall>a b e. f a b = Inl e \<longrightarrow> \<not> malformed e"
  shows "(\<forall>e. on_stack (binary_op f) m = Inl e \<longrightarrow> \<not> malformed e) \<and>
    (\<forall>m'. on_stack (binary_op f) m = Inr m' \<longrightarrow> length (ms_stack m') = length (ms_stack m) - 2 + 1)"
proof -
  have "length (ms_stack m) - 1 = length (ms_stack m) - 2 + 1" using assms(1) by simp
  moreover have "(\<forall>e. binary_op f (ms_stack m) = Inl e \<longrightarrow> \<not> malformed e) \<and>
      (\<forall>st'. binary_op f (ms_stack m) = Inr st' \<longrightarrow> length st' = length (ms_stack m) - 1)"
    using assms(2) by (intro binary_op_depth [OF assms(1)]) blast
  ultimately show ?thesis by (cases "binary_op f (ms_stack m)") (auto simp: on_stack_def)
qed

lemma checked_ok:
  fixes g :: "u64 \<Rightarrow> u64 \<Rightarrow> u64"
  shows "\<forall>a b e. or_revert ''addition overflow'' (f a b) = Inl e \<longrightarrow> \<not> malformed e"
  "\<forall>a b e. or_revert ''subtraction underflow'' (f a b) = Inl e \<longrightarrow> \<not> malformed e"
  "\<forall>a b e. or_revert ''multiplication overflow'' (f a b) = Inl e \<longrightarrow> \<not> malformed e"
  "\<forall>a b e. (if a = 0 then Inl (Reverted ''modulo by zero'') else Inr (g a b)) = Inl e \<longrightarrow> \<not> malformed e"
  "\<forall>a b e. Inr (g a b) = Inl e \<longrightarrow> \<not> malformed e"
proof -
  show "\<forall>a b e. (if a = 0 then Inl (Reverted ''modulo by zero'') else Inr (g a b)) = Inl e \<longrightarrow> \<not> malformed e"
    by (simp add: malformed_def)
qed (auto dest: or_revert_ok)

lemma exec_op_depth:
  assumes "i \<noteq> OpHalt" "fst (op_effect i) \<le> length (ms_stack m)" "\<not> unknown_field i"
  shows "(\<forall>e. exec_op call inp i m = Inl e \<longrightarrow> \<not> malformed e) \<and>
    (\<forall>m'. exec_op call inp i m = Inr m' \<longrightarrow>
       length (ms_stack m') = length (ms_stack m) - fst (op_effect i) + snd (op_effect i))"
proof (cases i)
  case (LoadTx field)
  then show ?thesis using load_known [of field inp] assms(3) by (auto simp: on_stack_def split: sum.splits)
next
  case OpAdd
  then show ?thesis using assms(2) on_stack_binary [OF _ checked_ok(1)] by simp
next
  case OpSub
  then show ?thesis using assms(2) on_stack_binary [OF _ checked_ok(2)] by simp
next
  case OpMul
  then show ?thesis using assms(2) on_stack_binary [OF _ checked_ok(3)] by simp
next
  case OpMod
  then show ?thesis
    using assms(2) on_stack_binary [OF _ checked_ok(4)] by simp
next
  case OpCmp
  then show ?thesis using assms(2) on_stack_binary [OF _ checked_ok(5)] by simp
next
  case OpSelect
  then show ?thesis using assms(2) select_op_depth [of "ms_stack m"] by (auto simp: on_stack_def)
next
  case OpEmit
  then show ?thesis using assms(2) by (cases "ms_stack m") auto
next
  case (OpCall target entry payload height rhash)
  then show ?thesis by (auto simp: call_op_def Let_def malformed_def split: option.splits if_splits)
qed (use assms(1) in \<open>auto simp: on_stack_def\<close>)

lemma exec_op_short:
  assumes "length (ms_stack m) < fst (op_effect i)"
  shows "exec_op call inp i m = Inl (Reverted ''stack underflow'')"
  using assms
  by (cases i) (auto simp: on_stack_def binary_op_short select_op_short)

lemma exec_op_unknown: "unknown_field i \<Longrightarrow> exec_op call inp i m = Inl (Reverted ''load_tx: undeclared field'')"
  by (cases i) (auto simp: on_stack_def load_tx_field_def KNOWN_LOADTX_FIELDS_def Let_def)

lemma depth_walk_sound:
  "depth_walk (length (ms_stack m)) is = ([], False) \<Longrightarrow> spec_loop call inp is m = Inl e \<Longrightarrow> \<not> malformed e"
proof (induction "is" arbitrary: m)
  case (Cons i "is")
  show ?case
  proof (cases "i = OpHalt")
    case True
    then show ?thesis using Cons.prems(2) by (auto simp: malformed_def split: if_splits)
  next
    case False
    let ?m1 = "m\<lparr>ms_gas := ms_gas m + 1\<rparr>"
    have w: "fst (op_effect i) \<le> length (ms_stack ?m1)" "\<not> unknown_field i"
      "depth_walk (length (ms_stack ?m1) - fst (op_effect i) + snd (op_effect i)) is = ([], False)"
      using Cons.prems(1) False by (auto simp: Let_def split: prod.splits if_splits)
    show ?thesis
    proof (cases "exec_op call inp i ?m1")
      case (Inl e')
      then show ?thesis using Cons.prems(2) False exec_op_depth [OF False w(1,2), of call inp]
        by (auto simp: malformed_def split: if_splits)
    next
      case (Inr m2)
      then have "depth_walk (length (ms_stack m2)) is = ([], False)"
        using exec_op_depth [OF False w(1,2), of call inp] w(3) by auto
      from Cons.IH [OF this] show ?thesis using Inr Cons.prems(2) False by (auto simp: malformed_def split: if_splits)
    qed
  qed
qed simp

lemma depth_walk_complete:
  "depth_walk (length (ms_stack m)) is = (fs, True) \<Longrightarrow> spec_loop call inp is m \<noteq> Inr m'"
proof (induction "is" arbitrary: m fs)
  case (Cons i "is")
  have halt: "i \<noteq> OpHalt" using Cons.prems by auto
  let ?m1 = "m\<lparr>ms_gas := ms_gas m + 1\<rparr>"
  show ?case
  proof (cases "length (ms_stack ?m1) < fst (op_effect i)")
    case True
    then show ?thesis using exec_op_short [OF True, of call inp] halt by auto
  next
    case False
    have d: "length (ms_stack m2) = length (ms_stack ?m1) - fst (op_effect i) + snd (op_effect i)"
      if "exec_op call inp i ?m1 = Inr m2" for m2
      using exec_op_depth [OF halt, of ?m1 call inp] exec_op_unknown [of i call inp ?m1] False that by (cases "unknown_field i") auto
    obtain fs' where "depth_walk (length (ms_stack ?m1) - fst (op_effect i) + snd (op_effect i)) is = (fs', True)"
      using Cons.prems halt False by (auto simp: Let_def split: prod.splits if_splits)
    then show ?thesis using Cons.IH d halt by (auto split: sum.splits)
  qed
qed simp

lemma depth_walk_warns: "set (fst (depth_walk d is)) \<subseteq> {(SpecUnknownLoadTx, Warn)}"
proof (induction "is" arbitrary: d)
  case (Cons i "is")
  then show ?case by (simp add: Let_def split_beta) blast
qed simp

text \<open>The scan of an instruction program decides its well-formedness. A program the scanner has
  nothing to say about decodes, and no run of it - on any input, with any callee behind its calls
  - ends in a stack underflow, an unknown field or a bytecode error. And the underflow warning is
  exact: a program that gets it never completes on any input.\<close>

theorem scan_spec_decides_wellformedness:
  "(scan_spec W (sc_bytecode (ei_contract inp)) = [] \<longrightarrow> spec_execute W call inp = Inl e \<longrightarrow> \<not> malformed e) \<and>
   ((SpecStackUnderflow, Warn) \<in> set (scan_spec W (sc_bytecode (ei_contract inp))) \<longrightarrow> spec_execute W call inp \<noteq> Inr out)"
proof (cases "cw_program W (sc_bytecode (ei_contract inp))")
  case (Inl err)
  then show ?thesis by (simp add: scan_spec_def spec_execute_def)
next
  case (Inr prog)
  obtain fs under where w: "depth_walk 0 (prog_ops prog) = (fs, under)" by (rule prod.exhaust)
  have warns: "set fs \<subseteq> {(SpecUnknownLoadTx, Warn)}" using depth_walk_warns [of 0 "prog_ops prog"] w by simp
  have "\<not> malformed e" if "scan_spec W (sc_bytecode (ei_contract inp)) = []" "spec_execute W call inp = Inl e"
  proof -
    have "prog_version prog = 1" "fs = []" "\<not> under"
      using that(1) Inr w by (auto simp: scan_spec_def split: if_splits)
    then show ?thesis
      using that(2) Inr w depth_walk_sound [of machine_init "prog_ops prog" call inp e]
      by (auto simp: spec_execute_def machine_init_def split: sum.splits)
  qed
  moreover have "spec_execute W call inp \<noteq> Inr out"
    if "(SpecStackUnderflow, Warn) \<in> set (scan_spec W (sc_bytecode (ei_contract inp)))"
  proof -
    have under using that Inr w warns by (auto simp: scan_spec_def split: if_splits)
    then have "spec_loop call inp (prog_ops prog) machine_init \<noteq> Inr m'" for m'
      using depth_walk_complete [of machine_init "prog_ops prog" fs call inp m'] w by (simp add: machine_init_def)
    then show ?thesis using Inr by (auto simp: spec_execute_def split: sum.splits)
  qed
  ultimately show ?thesis by blast
qed

definition is_call :: "op \<Rightarrow> bool" where
  "is_call i = (case i of OpCall _ _ _ _ _ \<Rightarrow> True | _ \<Rightarrow> False)"

lemma exec_op_no_call_gas: "exec_op call inp i m = Inr m' \<Longrightarrow> \<not> is_call i \<Longrightarrow> ms_gas m' = ms_gas m"
  by (cases i) (auto dest!: on_stack_gas simp: is_call_def split: sum.splits)

lemma spec_loop_no_call_gas:
  "spec_loop call inp is m = Inr m' \<Longrightarrow> \<not> list_ex is_call is \<Longrightarrow> unat (ms_gas m) + length is < 2 ^ 64 \<Longrightarrow>
   unat (ms_gas m') \<le> unat (ms_gas m) + length is"
proof (induction "is" arbitrary: m)
  case (Cons i "is")
  let ?m1 = "m\<lparr>ms_gas := ms_gas m + 1\<rparr>"
  have u: "unat (ms_gas m + 1) = unat (ms_gas m) + 1"
    using Cons.prems(3) unat_add_lem [of "ms_gas m" 1] by simp
  show ?case
  proof (cases "i = OpHalt")
    case True
    then show ?thesis using Cons.prems(1) u by (auto split: if_splits)
  next
    case False
    then obtain m2 where e: "exec_op call inp i ?m1 = Inr m2" "spec_loop call inp is m2 = Inr m'"
      using Cons.prems(1) by (auto split: sum.splits if_splits)
    have "ms_gas m2 = ms_gas m + 1" using exec_op_no_call_gas [OF e(1)] Cons.prems(2) by simp
    then show ?thesis using Cons.IH [OF e(2)] Cons.prems(2,3) u by simp
  qed
qed simp

text \<open>For a program without calls the instruction count is a gas bound: a program the scanner
  accepts then never charges more than the scanner's limit of one thousand instructions, declared
  cap or not.\<close>

theorem scanned_gas_bound:
  assumes "cw_program W (sc_bytecode (ei_contract inp)) = Inr prog" "\<not> list_ex is_call (prog_ops prog)"
    and "list_all (\<lambda>f. snd f \<noteq> Reject) (scan_spec W (sc_bytecode (ei_contract inp)))"
    and "spec_execute W call inp = Inr out"
  shows "unat (eo_gas out) \<le> length (prog_ops prog) \<and> length (prog_ops prog) \<le> SPEC_MAX_INSTRUCTIONS"
proof -
  have len: "length (prog_ops prog) \<le> SPEC_MAX_INSTRUCTIONS"
    using assms(1,3) by (auto simp: scan_spec_def not_less split: prod.splits if_splits)
  obtain m where m: "spec_loop call inp (prog_ops prog) machine_init = Inr m" "eo_gas out = ms_gas m"
    using spec_execute_Inr [OF assms(4)] assms(1) by auto
  show ?thesis
    using spec_loop_no_call_gas [OF m(1) assms(2)] m(2) len by (simp add: machine_init_def SPEC_MAX_INSTRUCTIONS_def)
qed

lemma uncapped_never_exhausts: "ei_gas_limit inp = 0 \<Longrightarrow> spec_loop call inp is m \<noteq> Inl GasExhausted"
proof (induction "is" arbitrary: m)
  case (Cons i "is")
  have "exec_op call inp i m1 \<noteq> Inl GasExhausted" for m1
    using Cons.prems
    by (cases i; cases "ms_stack m1"; cases "tl (ms_stack m1)"; cases "tl (tl (ms_stack m1))")
      (auto simp: on_stack_def binary_op_def pop_two_def or_revert_def select_op_def call_op_def load_tx_field_def Let_def
        split: option.splits if_splits)
  then show ?case using Cons by (auto simp: Let_def split: sum.splits)
qed simp

text \<open>A caller that is almost out of gas runs its callee without a cap. When no more than the base
  cost of a call is left, the sub-budget passed down is zero; zero means no cap to every engine,
  so the instruction machine executes the callee to its end however long it is, and only
  afterwards is the caller refused for the gas it never had.\<close>

theorem starved_call_is_uncapped:
  assumes "ei_gas_limit inp > 0" "ms_gas m \<le> ei_gas_limit inp" "ei_gas_limit inp - ms_gas m \<le> XCALL_CALL_BASE_SPEC"
    and "depth < MAX_CALL_DEPTH" "cw_resolve W target \<lparr>ref_height = height, ref_hash = rhash\<rparr> (tx_sender (ei_tx inp)) = Inr pinned"
    and "select_engine (cw_registry W) (pin_token pinned) = Inr SpecEngine"
  shows "\<exists>b_inp. ei_gas_limit b_inp = 0 \<and> ei_contract b_inp = pin_contract pinned \<and>
     spec_execute W (Some (execute_call W (depth + 1))) b_inp \<noteq> Inl GasExhausted \<and>
     call_op (Some (execute_call W depth)) inp target entry payload height rhash m =
       (let outcome = fold_outcome (spec_execute W (Some (execute_call W (depth + 1))) b_inp);
            gas = saturating_add (ms_gas m) (XCALL_CALL_BASE_SPEC + b_gas_used outcome)
        in if gas > ei_gas_limit inp then Inl GasExhausted
           else Inr (m\<lparr>ms_gas := gas, ms_stack := (if call_is_success outcome then 1 else 0) # ms_stack m\<rparr>))"
proof -
  let ?b = "\<lparr>ei_tx = synthesize_call_tx (ei_tx inp) target entry payload 0, ei_contract = pin_contract pinned,
    ei_sender = pin_sender pinned, ei_token = pin_token pinned, ei_gas_limit = 0,
    ei_storage = sc_storage (pin_contract pinned), ei_depth = Some (depth + 1)\<rparr>"
  have sub: "saturating_sub (saturating_sub (ei_gas_limit inp) (ms_gas m)) XCALL_CALL_BASE_SPEC = 0"
    using assms(2,3) by (simp add: saturating_sub_def)
  have "spec_execute W (Some (execute_call W (depth + 1))) ?b \<noteq> Inl GasExhausted"
    using uncapped_never_exhausts [of ?b] by (auto simp: spec_execute_def split: sum.splits)
  moreover have "call_op (Some (execute_call W depth)) inp target entry payload height rhash m =
       (let outcome = fold_outcome (spec_execute W (Some (execute_call W (depth + 1))) ?b);
            gas = saturating_add (ms_gas m) (XCALL_CALL_BASE_SPEC + b_gas_used outcome)
        in if gas > ei_gas_limit inp then Inl GasExhausted
           else Inr (m\<lparr>ms_gas := gas, ms_stack := (if call_is_success outcome then 1 else 0) # ms_stack m\<rparr>))"
    using assms(1,4-6) sub
    by (simp add: call_op_def execute_call_eq call_body_def engine_execute_def engine_run_def)
  ultimately show ?thesis by (intro exI [of _ ?b]) simp
qed

section \<open>Snapshot references\<close>

text \<open>A snapshot reference does not survive the trimming of the chain it points into. A reference
  counts blocks from the oldest one that is kept, so once the target's chain has reached its
  security level and a commit drops its oldest block, a reference that was valid before - for
  any block but only by its hash - is refused, as every later block has moved down by one.\<close>

theorem snapshot_ref_lost_by_trimming:
  assumes "validate_snapshot_ref bc r = Inr ()" "distinct (map current_hash (chain bc))"
  shows "validate_snapshot_ref (snd (remove_oldest bc)) r \<noteq> Inr ()"
proof -
  let ?i = "unat (ref_height r)"
  have i: "?i < length (chain bc)" "current_hash (chain bc ! ?i) = ref_hash r"
    using assms(1) by (auto simp: validate_snapshot_ref_def get_block_at_def split: if_splits option.splits)
  obtain b bs where c: "chain bc = b # bs" using i(1) by (cases "chain bc") auto
  have tail: "chain (snd (remove_oldest bc)) = bs" by (simp add: remove_oldest_def c)
  show ?thesis
  proof (cases "?i < length bs")
    case True
    then have "Suc ?i < length (chain bc)" using c by simp
    then have "current_hash (chain bc ! Suc ?i) \<noteq> current_hash (chain bc ! ?i)"
      using nth_eq_iff_index_eq [OF assms(2), of "Suc ?i" ?i] by simp
    moreover have "current_hash (bs ! ?i) = current_hash (chain bc ! Suc ?i)" using c by simp
    ultimately show ?thesis using i(2) True tail by (simp add: validate_snapshot_ref_def get_block_at_def)
  next
    case False
    then show ?thesis using tail by (simp add: validate_snapshot_ref_def get_block_at_def)
  qed
qed

section \<open>Loop nesting\<close>

text \<open>The nesting of loops as the binary format has it: every \<^verbatim>\<open>loop\<close> and \<^verbatim>\<open>block\<close> opens a scope and an
  \<^verbatim>\<open>end\<close> closes the innermost one.\<close>

fun loop_nesting :: "bool list \<Rightarrow> wasm_operator list \<Rightarrow> nat" where
  "loop_nesting scopes [] = 0"
| "loop_nesting scopes (WLoop # os) = max (Suc (length (filter id scopes))) (loop_nesting (True # scopes) os)"
| "loop_nesting scopes (WBlock # os) = loop_nesting (False # scopes) os"
| "loop_nesting scopes (WEnd # os) = loop_nesting (tl scopes) os"
| "loop_nesting scopes (_ # os) = loop_nesting scopes os"

text \<open>A body whose loops nest, with an empty block between the loop heads.\<close>

definition hidden_loops :: "nat \<Rightarrow> wasm_operator list" where
  "hidden_loops n = concat (replicate n [WLoop, WBlock, WEnd]) @ replicate (Suc n) WEnd"

lemma hidden_heads:
  "ww_max_loop_nesting w \<le> 1 \<Longrightarrow>
   fst (fold walk_operator (concat (replicate n [WLoop, WBlock, WEnd])) (0, w)) = 0 \<and>
   ww_max_loop_nesting (snd (fold walk_operator (concat (replicate n [WLoop, WBlock, WEnd])) (0, w))) \<le> 1"
proof (induction n arbitrary: w)
  case (Suc n)
  obtain w' where step: "walk_operator WEnd (walk_operator WBlock (walk_operator WLoop (0, w))) = (0, w')"
    "ww_max_loop_nesting w' \<le> 1"
    using Suc.prems by (simp add: walk_operator_def Let_def)
  from Suc.IH [OF step(2)] show ?case using step(1) by simp
qed simp

lemma ends_keep: "ww_max_loop_nesting (snd (fold walk_operator (replicate n WEnd) (k, w))) = ww_max_loop_nesting w"
  by (induction n arbitrary: k w) (simp_all add: walk_operator_def)

lemma nesting_ends: "loop_nesting scopes (replicate n WEnd) = 0"
  by (induction n arbitrary: scopes) simp_all

lemma nesting_hidden:
  "loop_nesting scopes (concat (replicate n [WLoop, WBlock, WEnd]) @ replicate k WEnd) =
   (if n = 0 then 0 else length (filter id scopes) + n)"
  by (induction n arbitrary: scopes) (simp_all add: nesting_ends)

text \<open>The walk undercounts nested loops. It counts a loop as left at the next end of any scope, so
  an empty block inside each loop hides the nesting: for every number there is a function body
  whose loops nest that deep and for which the walk records a nesting of at most one, below the
  threshold of the unbounded-loop warning.\<close>

theorem loop_nesting_undercounted:
  "loop_nesting [] (hidden_loops n) = n \<and>
   ww_max_loop_nesting (walk_function_body (Some (hidden_loops n)) walk_init) < WASM_MAX_LOOP_NESTING"
proof -
  let ?w = "walk_init\<lparr>ww_total_functions := ww_total_functions walk_init + 1\<rparr>"
  obtain w where w: "fold walk_operator (concat (replicate n [WLoop, WBlock, WEnd])) (0, ?w) = (0, w)"
    "ww_max_loop_nesting w \<le> 1"
    using hidden_heads [of ?w n] by (simp add: walk_init_def) (metis prod.collapse)
  have "ww_max_loop_nesting (walk_function_body (Some (hidden_loops n)) walk_init) = ww_max_loop_nesting w"
    using w(1) ends_keep [of "Suc n" 0 w]
    by (simp del: replicate.simps add: walk_function_body_def hidden_loops_def Let_def)
  moreover have "(1 :: u32) < WASM_MAX_LOOP_NESTING" by (simp add: WASM_MAX_LOOP_NESTING_def)
  ultimately have "ww_max_loop_nesting (walk_function_body (Some (hidden_loops n)) walk_init) < WASM_MAX_LOOP_NESTING"
    using w(2) by (simp add: order_le_less_trans)
  moreover have "loop_nesting [] (hidden_loops n) = n"
    using nesting_hidden [of "[]" n "Suc n"] by (simp add: hidden_loops_def)
  ultimately show ?thesis by blast
qed

section \<open>A concrete machine\<close>

definition sum_program :: instruction_program where
  "sum_program = \<lparr>prog_version = 1, prog_ops = [LoadConst 2, LoadConst 3, OpAdd, OpEmit]\<rparr>"

definition short_program :: instruction_program where
  "short_program = \<lparr>prog_version = 1, prog_ops = [LoadConst 2, OpAdd]\<rparr>"

definition demo_contract :: "bytes \<Rightarrow> smart_contract" where
  "demo_contract code =
     \<lparr>sc_name = ''demo'', sc_bytecode = code, sc_version = ''1'', sc_storage = [], sc_owners = [], sc_threshold = 0\<rparr>"

definition spec_token :: token where
  "spec_token = token_new\<lparr>tok_metadata := [(''contract_engine'', ''Spec'')]\<rparr>"

definition demo_world :: world where
  "demo_world =
     \<lparr>cw_registry = register_defaults [],
      cw_resolve = (\<lambda>target r key. Inr \<lparr>pin_token = spec_token, pin_contract = demo_contract [1], pin_sender = user_new key, pin_ref = r\<rparr>),
      cw_host = (\<lambda>n call inp. Inl (EngineNotImplemented n)),
      cw_program = (\<lambda>code. if code = [1] then Inr sum_program else if code = [2] then Inr short_program else Inl ''bad''),
      cw_transfer = (\<lambda>d. Inr [])\<rparr>"

definition demo_exec :: "bytes \<Rightarrow> u64 \<Rightarrow> exec_input" where
  "demo_exec code limit = (canary_input ''Spec'' code)\<lparr>ei_gas_limit := limit\<rparr>"

lemmas machine_eval =
  demo_world_def demo_exec_def canary_input_def sum_program_def short_program_def engine_execute_def engine_run_def
  spec_execute_def machine_init_def on_stack_def binary_op_def pop_two_def or_revert_def checked_add_def
  scan_spec_def SPEC_MAX_INSTRUCTIONS_def

lemma sum_runs:
  "spec_execute demo_world call (demo_exec [1] 4) = Inr \<lparr>eo_result = to_le_bytes 5, eo_gas = 4\<rparr>"
  by (simp add: machine_eval Let_def word_le_nat_alt)

theorem gas_within_cap_witness:
  "\<exists>out. engine_execute demo_world SpecEngine (demo_exec [1] 4) = Inr out \<and> eo_gas out \<le> 4"
proof -
  have r: "engine_execute demo_world SpecEngine (demo_exec [1] 4) = Inr \<lparr>eo_result = to_le_bytes 5, eo_gas = 4\<rparr>"
    using sum_runs by (simp add: engine_execute_def engine_run_def)
  have "eo_gas \<lparr>eo_result = to_le_bytes 5, eo_gas = 4\<rparr> \<le> ei_gas_limit (demo_exec [1] 4)"
    using gas_within_cap [OF _ _ r] by (simp add: demo_exec_def)
  with r show ?thesis by (simp add: demo_exec_def)
qed

theorem scan_spec_decides_wellformedness_witness:
  "scan_spec demo_world [1] = [] \<and> (SpecStackUnderflow, Warn) \<in> set (scan_spec demo_world [2]) \<and>
   (\<forall>out. spec_execute demo_world None (demo_exec [2] 9) \<noteq> Inr out)"
proof -
  have a: "scan_spec demo_world [1] = []" by (simp add: machine_eval)
  have b: "(SpecStackUnderflow, Warn) \<in> set (scan_spec demo_world [2])" by (simp add: machine_eval)
  have "spec_execute demo_world None (demo_exec [2] 9) \<noteq> Inr out" for out
    using scan_spec_decides_wellformedness [of demo_world "demo_exec [2] 9"] b by (simp add: demo_exec_def canary_input_def)
  with a b show ?thesis by blast
qed

theorem scanned_gas_bound_witness:
  "\<exists>out. spec_execute demo_world None (demo_exec [1] 4) = Inr out \<and> unat (eo_gas out) \<le> 4"
proof -
  have "unat (eo_gas \<lparr>eo_result = to_le_bytes 5, eo_gas = 4\<rparr>) \<le> length (prog_ops sum_program)"
    using scanned_gas_bound [OF _ _ _ sum_runs, of sum_program] by (simp add: machine_eval is_call_def)
  then show ?thesis using sum_runs by (simp add: sum_program_def)
qed

theorem starved_call_is_uncapped_witness:
  "\<exists>b_inp. ei_gas_limit b_inp = 0 \<and> ei_contract b_inp = demo_contract [1] \<and>
     spec_execute demo_world (Some (execute_call demo_world 1)) b_inp \<noteq> Inl GasExhausted"
proof -
  let ?m = "\<lparr>ms_stack = [], ms_result = [], ms_gas = 5\<rparr>"
  let ?p = "\<lparr>pin_token = spec_token, pin_contract = demo_contract [1], pin_sender = user_new (replicate 32 0),
    pin_ref = \<lparr>ref_height = 0, ref_hash = []\<rparr>\<rparr>"
  have "cw_resolve demo_world [7] \<lparr>ref_height = 0, ref_hash = []\<rparr> (tx_sender (ei_tx (demo_exec [2] 9))) = Inr ?p"
    by (simp add: demo_world_def demo_exec_def canary_input_def)
  moreover have "select_engine (cw_registry demo_world) (pin_token ?p) = Inr SpecEngine"
    by (simp add: demo_world_def select_engine_def spec_token_def register_defaults_def register_engine_def engine_name_def Let_def)
  ultimately show ?thesis
    using starved_call_is_uncapped [of "demo_exec [2] 9" ?m 0 demo_world "[7]" 0 "[]" ?p "[]" "[]"]
    by (auto simp: demo_exec_def XCALL_CALL_BASE_SPEC_def MAX_CALL_DEPTH_def)
qed

theorem snapshot_ref_lost_by_trimming_witness:
  "validate_snapshot_ref (snd (remove_oldest demo_chain)) \<lparr>ref_height = 0, ref_hash = current_hash (chain demo_chain ! 0)\<rparr> \<noteq> Inr ()"
proof (rule snapshot_ref_lost_by_trimming)
  show "validate_snapshot_ref demo_chain \<lparr>ref_height = 0, ref_hash = current_hash (chain demo_chain ! 0)\<rparr> = Inr ()"
    by (simp add: validate_snapshot_ref_def get_block_at_def demo_chain_def add_block_def)
  show "distinct (map current_hash (chain demo_chain))" by (simp add: demo_chain_def add_block_def blockchain_new_def)
qed

end
