(* ===== verification/Contract_Governance.thy ===== *)
theory Contract_Governance
  imports Contracts
begin

text \<open>
  Deploying and upgrading contracts: the deterministic token id and the token a deploy creates
  (\<^verbatim>\<open>src/contracts/deploy.rs\<close>), the owners' quorum, the timelock and the replacement of an asset
  (\<^verbatim>\<open>src/contracts/upgrade.rs\<close>).  The encoders are the record \<open>governance_codec\<close>; those the source
  calls with \<^verbatim>\<open>expect\<close> are total.
\<close>

section \<open>Deployment\<close>

record deploy_params =
  dpl_name :: string
  dpl_engine :: string
  dpl_bytecode :: bytes
  dpl_metadata :: "(string \<times> string) list"
  dpl_owners :: "bytes list"
  dpl_threshold :: u32

record create_token_delta =
  ctd_token_id :: bytes
  ctd_name :: string
  ctd_engine :: string
  ctd_bytecode :: bytes
  ctd_metadata :: "(string \<times> string) list"
  ctd_owners :: "bytes list"
  ctd_threshold :: u32

record upgrade_params =
  up_new_bytecode :: bytes
  up_new_owners :: "bytes list"
  up_new_threshold :: u32
  up_proposal_epoch :: u64
  up_owner_signatures :: "bytes list"

record replace_asset_delta =
  rad_token_id :: bytes
  rad_new_bytecode :: bytes
  rad_new_owners :: "bytes list"
  rad_new_threshold :: u32
  rad_proposal_epoch :: u64

record governance_codec =
  gc_id_payload :: "bytes \<times> u64 \<times> bytes \<times> string \<Rightarrow> bytes"
  gc_digest_input :: "bytes \<times> bytes \<times> bytes list \<times> u32 \<times> u64 \<Rightarrow> bytes"
  gc_contract :: "smart_contract \<Rightarrow> io_error + bytes"
  gc_un_contract :: "bytes \<Rightarrow> io_error + smart_contract"
  gc_un_deploy :: "bytes \<Rightarrow> io_error + deploy_params"
  gc_create :: "create_token_delta \<Rightarrow> io_error + bytes"
  gc_un_upgrade :: "bytes \<Rightarrow> io_error + upgrade_params"
  gc_replace :: "replace_asset_delta \<Rightarrow> io_error + bytes"
  gc_un_wasm :: "bytes \<Rightarrow> io_error + wasm_result"

definition DEPLOY_DOMAIN :: bytes where "DEPLOY_DOMAIN = as_bytes ''PNEUMATIC/DEPLOY/v1''"
definition UPGRADE_DOMAIN :: bytes where "UPGRADE_DOMAIN = as_bytes ''PNEUMATIC/UPGRADE/v1''"
definition DEPLOY_GAS_BASE :: u64 where "DEPLOY_GAS_BASE = 50000"
definition DEPLOY_GAS_PER_BYTE :: u64 where "DEPLOY_GAS_PER_BYTE = 10"
definition SPEC_MAX_BYTECODE :: nat where "SPEC_MAX_BYTECODE = 64 * 1024"
definition UPGRADE_GAS_BASE :: u64 where "UPGRADE_GAS_BASE = 50000"
definition UPGRADE_GAS_PER_BYTE :: u64 where "UPGRADE_GAS_PER_BYTE = 10"
definition TIMELOCK_EPOCHS :: u64 where "TIMELOCK_EPOCHS = 1"

definition deploy_gas :: "nat \<Rightarrow> u64" where
  "deploy_gas bytecode_len = DEPLOY_GAS_BASE + DEPLOY_GAS_PER_BYTE * of_nat bytecode_len"

definition derive_token_id :: "governance_codec \<Rightarrow> (bytes \<Rightarrow> bytes) \<Rightarrow> bytes \<Rightarrow> u64 \<Rightarrow> bytes \<Rightarrow> string \<Rightarrow> bytes" where
  "derive_token_id G hash deployer nonce bytecode name =
     hash (DEPLOY_DOMAIN @ gc_id_payload G (deployer, nonce, hash bytecode, name))"

definition deploy_contract ::
    "governance_codec \<Rightarrow> (bytes \<Rightarrow> bytes) \<Rightarrow> bytes \<Rightarrow> u64 \<Rightarrow> deploy_params \<Rightarrow> contract_error + create_token_delta" where
  "deploy_contract G hash deployer nonce p =
     (if dpl_name p = [] then Inl (InvalidInput ''contract name is empty'')
      else if dpl_engine p = [] then Inl (InvalidInput ''engine name is empty'')
      else Inr \<lparr>ctd_token_id = derive_token_id G hash deployer nonce (dpl_bytecode p) (dpl_name p), ctd_name = dpl_name p,
                ctd_engine = dpl_engine p, ctd_bytecode = dpl_bytecode p, ctd_metadata = dpl_metadata p,
                ctd_owners = dpl_owners p, ctd_threshold = dpl_threshold p\<rparr>)"

definition to_token :: "governance_codec \<Rightarrow> create_token_delta \<Rightarrow> string \<Rightarrow> contract_error + token" where
  "to_token G d env_id =
     (case from_asset (gc_contract G)
             \<lparr>sc_name = ctd_name d, sc_bytecode = ctd_bytecode d, sc_version = ''1'', sc_storage = [],
              sc_owners = ctd_owners d, sc_threshold = ctd_threshold d\<rparr> of
        Inl e \<Rightarrow> Inl (InvalidInput (''from_asset: '' @ e))
      | Inr t \<Rightarrow>
          (let metadata = fold (\<lambda>(k, v) m. AList.update k v m) (ctd_metadata d) [];
               m1 = AList.update ''token_type'' ''contract'' metadata;
               m2 = AList.update ''contract_engine'' (ctd_engine d) m1;
               m3 = AList.update ''name'' (ctd_name d) m2
           in Inr (t\<lparr>tok_id := ctd_token_id d, tok_metadata := m3, tok_environment_id := env_id\<rparr>)))"

section \<open>Upgrades\<close>

definition upgrade_gas :: "nat \<Rightarrow> u64" where
  "upgrade_gas bytecode_len = UPGRADE_GAS_BASE + UPGRADE_GAS_PER_BYTE * of_nat bytecode_len"

definition upgrade_digest ::
    "governance_codec \<Rightarrow> (bytes \<Rightarrow> bytes) \<Rightarrow> bytes \<Rightarrow> bytes \<Rightarrow> bytes list \<Rightarrow> u32 \<Rightarrow> u64 \<Rightarrow> bytes" where
  "upgrade_digest G hash token_id new_bytecode new_owners new_threshold proposal_epoch =
     hash (UPGRADE_DOMAIN @ gc_digest_input G (token_id, hash new_bytecode, new_owners, new_threshold, proposal_epoch))"

definition owner_signed :: "crypto_provider \<Rightarrow> bytes list \<Rightarrow> bytes \<Rightarrow> bytes \<Rightarrow> bool" where
  "owner_signed crypto signatures digest owner =
     list_ex (\<lambda>sig. case check_signature crypto sig owner digest of Inr b \<Rightarrow> b | Inl _ \<Rightarrow> False) signatures"

text \<open>The loop over the owners with its early return; \<^verbatim>\<open>verified\<close> is a \<^verbatim>\<open>usize\<close> compared as a \<^verbatim>\<open>u32\<close>.\<close>

fun count_owners :: "(bytes \<Rightarrow> bool) \<Rightarrow> u32 \<Rightarrow> bytes list \<Rightarrow> nat \<Rightarrow> bool" where
  "count_owners has_signed threshold [] verified = False"
| "count_owners has_signed threshold (owner # owners) verified =
     (if has_signed owner
      then if of_nat (verified + 1) \<ge> threshold then True else count_owners has_signed threshold owners (verified + 1)
      else count_owners has_signed threshold owners verified)"

definition verify_quorum ::
    "governance_codec \<Rightarrow> (bytes \<Rightarrow> bytes) \<Rightarrow> crypto_provider \<Rightarrow> bytes \<Rightarrow> upgrade_params \<Rightarrow> bytes list \<Rightarrow> u32 \<Rightarrow>
     contract_error + bool" where
  "verify_quorum G hash crypto token_id p current_owners threshold =
     (if threshold = 0 then Inr False
      else let digest = upgrade_digest G hash token_id (up_new_bytecode p) (up_new_owners p) (up_new_threshold p) (up_proposal_epoch p)
           in Inr (count_owners (owner_signed crypto (up_owner_signatures p) digest) threshold current_owners 0))"

definition timelock_satisfied :: "u64 \<Rightarrow> u64 \<Rightarrow> bool" where
  "timelock_satisfied proposal_epoch current_epoch \<longleftrightarrow> current_epoch \<ge> saturating_add proposal_epoch TIMELOCK_EPOCHS"

definition replaced_asset :: "replace_asset_delta \<Rightarrow> smart_contract \<Rightarrow> smart_contract" where
  "replaced_asset d sc =
     sc\<lparr>sc_bytecode := rad_new_bytecode d, sc_owners := rad_new_owners d, sc_threshold := rad_new_threshold d\<rparr>"

definition apply_replace_asset ::
    "governance_codec \<Rightarrow> replace_asset_delta \<Rightarrow> token \<Rightarrow> (contract_error + smart_contract) \<times> token" where
  "apply_replace_asset G d t =
     (case update_asset (gc_un_contract G) (gc_contract G) (replaced_asset d) t of
        (None, t') \<Rightarrow> (Inl (BadBytecode ''target token has no contract asset''), t')
      | (Some sc, t') \<Rightarrow> (Inr sc, t'))"

section \<open>The quorum counts every entry of the owner list\<close>

lemma count_owners_iff:
  assumes "verified + length owners < 2 ^ 32" and "verified < unat threshold"
  shows "count_owners has_signed threshold owners verified \<longleftrightarrow> unat threshold \<le> verified + length (filter has_signed owners)"
  using assms
proof (induction owners arbitrary: verified)
  case Nil
  then show ?case by simp
next
  case (Cons owner owners)
  have "unat (of_nat (verified + 1) :: u32) = verified + 1"
    using Cons.prems(1) by (simp only: unat_of_nat take_bit_nat_eq_self length_Cons) simp
  then have reached: "of_nat (verified + 1) \<ge> threshold \<longleftrightarrow> unat threshold \<le> verified + 1"
    by (simp only: word_le_nat_alt)
  show ?case
    using Cons.IH [of verified] Cons.IH [of "verified + 1"] Cons.prems reached by (cases "unat threshold \<le> verified + 1") auto
qed

abbreviation upgrade_digest_of :: "governance_codec \<Rightarrow> (bytes \<Rightarrow> bytes) \<Rightarrow> bytes \<Rightarrow> upgrade_params \<Rightarrow> bytes" where
  "upgrade_digest_of G hash token_id p \<equiv>
     upgrade_digest G hash token_id (up_new_bytecode p) (up_new_owners p) (up_new_threshold p) (up_proposal_epoch p)"

lemma quorum_length:
  assumes "length owners < 2 ^ 32"
  shows "verify_quorum G hash crypto token_id p owners threshold =
           Inr (threshold \<noteq> 0 \<and>
                unat threshold \<le> length (filter (owner_signed crypto (up_owner_signatures p) (upgrade_digest_of G hash token_id p)) owners))"
proof (cases "threshold = 0")
  case False
  then have "0 < unat threshold" by (simp add: unat_gt_0)
  with assms False show ?thesis
    using count_owners_iff [of 0 owners threshold] by (simp add: verify_quorum_def Let_def)
qed (simp add: verify_quorum_def)

lemma quorum_distinct:
  assumes "length owners < 2 ^ 32" and "distinct owners"
  shows "verify_quorum G hash crypto token_id p owners threshold =
           Inr (threshold \<noteq> 0 \<and>
                unat threshold \<le>
                  card {k \<in> set owners. owner_signed crypto (up_owner_signatures p) (upgrade_digest_of G hash token_id p) k})"
proof -
  have "card {k \<in> set owners. f k} = length (filter f owners)" for f
    using assms(2) distinct_card [of "filter f owners"] by simp
  then show ?thesis using assms(1) by (simp add: quorum_length)
qed

text \<open>An upgrade is authorised exactly when the threshold is positive and at least that many of the
  current owners have a verifying signature over the digest of this very upgrade, for an owner list
  without repetitions.
\<close>

theorem verify_quorum_exact:
  assumes "length owners < 2 ^ 32" and "distinct owners"
  shows "verify_quorum G hash crypto token_id p owners threshold =
           Inr (threshold \<noteq> 0 \<and>
                unat threshold \<le>
                  card {k \<in> set owners. owner_signed crypto (up_owner_signatures p) (upgrade_digest_of G hash token_id p) k})"
  using assms by (rule quorum_distinct)

text \<open>The owners are counted by position, so one signature of a key listed \<open>n\<close> times meets every
  threshold up to \<open>n\<close>.
\<close>

theorem repeated_owner_meets_quorum:
  assumes "n < 2 ^ 32" and "0 < threshold" and "unat threshold \<le> n"
    and "owner_signed crypto (up_owner_signatures p) (upgrade_digest_of G hash token_id p) k"
  shows "verify_quorum G hash crypto token_id p (replicate n k) threshold = Inr True"
  using assms by (simp add: quorum_length)

section \<open>What an upgrade leaves alone\<close>

lemma apply_replace_asset_cases:
  "apply_replace_asset G d t = (r, t') \<Longrightarrow>
     (\<exists>e. r = Inl e \<and> t' = t) \<or>
     (\<exists>data sc new. asset_data t = Some data \<and> gc_un_contract G data = Inr sc \<and> gc_contract G (replaced_asset d sc) = Inr new \<and>
        r = Inr (replaced_asset d sc) \<and> t' = t\<lparr>asset_data := Some new\<rparr>)"
  by (auto simp: apply_replace_asset_def update_asset_def split: option.splits sum.splits)

lemma replaced_asset_idem: "replaced_asset d (replaced_asset d sc) = replaced_asset d sc"
  by (simp add: replaced_asset_def)

text \<open>An applied upgrade replaces the code, the owners and the threshold of the contract and nothing
  else: its name, version and storage carry over, the token differs in its asset only, the new asset
  is what the token holds afterwards, and applying the same delta again changes nothing; an upgrade
  that is refused leaves the token as it was.
\<close>

theorem upgrade_preserves_state:
  assumes "apply_replace_asset G d t = (r, t')"
    and "\<And>sc data. gc_contract G sc = Inr data \<Longrightarrow> gc_un_contract G data = Inr sc"
  shows "case r of
           Inl _ \<Rightarrow> t' = t
         | Inr sc' \<Rightarrow>
             (\<exists>sc. get_asset (gc_un_contract G) t = Some sc \<and>
                sc_name sc' = sc_name sc \<and> sc_version sc' = sc_version sc \<and> sc_storage sc' = sc_storage sc \<and>
                sc_bytecode sc' = rad_new_bytecode d \<and> sc_owners sc' = rad_new_owners d \<and> sc_threshold sc' = rad_new_threshold d) \<and>
             t' = t\<lparr>asset_data := asset_data t'\<rparr> \<and>
             get_asset (gc_un_contract G) t' = Some sc' \<and>
             apply_replace_asset G d t' = (Inr sc', t')"
proof (cases r)
  case (Inl e)
  then show ?thesis using apply_replace_asset_cases [OF assms(1)] by simp
next
  case (Inr sc')
  then obtain data sc new where
    old: "asset_data t = Some data" "gc_un_contract G data = Inr sc"
    and new: "gc_contract G (replaced_asset d sc) = Inr new"
    and result: "sc' = replaced_asset d sc" "t' = t\<lparr>asset_data := Some new\<rparr>"
    using apply_replace_asset_cases [OF assms(1)] by auto
  from assms(2) [OF new] have "gc_un_contract G new = Inr (replaced_asset d sc)" .
  with old new result Inr show ?thesis
    by (simp add: get_asset_def apply_replace_asset_def update_asset_def replaced_asset_idem)
      (simp add: replaced_asset_def)
qed

section \<open>What a deploy fixes\<close>

lemma to_token_ok:
  assumes "to_token G d env = Inr t"
  obtains data where "gc_contract G \<lparr>sc_name = ctd_name d, sc_bytecode = ctd_bytecode d, sc_version = ''1'', sc_storage = [],
                                     sc_owners = ctd_owners d, sc_threshold = ctd_threshold d\<rparr> = Inr data"
    and "t = token_new\<lparr>asset_data := Some data, tok_id := ctd_token_id d, tok_environment_id := env,
                        tok_metadata := AList.update ''name'' (ctd_name d)
                          (AList.update ''contract_engine'' (ctd_engine d)
                            (AList.update ''token_type'' ''contract''
                              (fold (\<lambda>(k, v) m. AList.update k v m) (ctd_metadata d) [])))\<rparr>"
  using assms by (auto simp: to_token_def from_asset_def Let_def split: sum.splits)

text \<open>Whatever metadata a deployer sends, the token a deploy creates is marked a contract of the
  engine and the name that went into the delta; it carries the derived id, an empty chain, empty
  storage and the owners and threshold of the delta.
\<close>

theorem deployed_token_unforgeable:
  assumes "deploy_contract G hash deployer nonce p = Inr d" and "to_token G d env = Inr t"
    and "\<And>sc data. gc_contract G sc = Inr data \<Longrightarrow> gc_un_contract G data = Inr sc"
  shows "tok_id t = derive_token_id G hash deployer nonce (dpl_bytecode p) (dpl_name p) \<and>
         map_of (tok_metadata t) ''token_type'' = Some ''contract'' \<and>
         map_of (tok_metadata t) ''contract_engine'' = Some (dpl_engine p) \<and>
         map_of (tok_metadata t) ''name'' = Some (dpl_name p) \<and>
         tok_environment_id t = env \<and> tok_blockchain t = blockchain_new \<and>
         get_asset (gc_un_contract G) t =
           Some \<lparr>sc_name = dpl_name p, sc_bytecode = dpl_bytecode p, sc_version = ''1'', sc_storage = [],
                 sc_owners = dpl_owners p, sc_threshold = dpl_threshold p\<rparr>"
proof -
  have d: "d = \<lparr>ctd_token_id = derive_token_id G hash deployer nonce (dpl_bytecode p) (dpl_name p), ctd_name = dpl_name p,
                ctd_engine = dpl_engine p, ctd_bytecode = dpl_bytecode p, ctd_metadata = dpl_metadata p,
                ctd_owners = dpl_owners p, ctd_threshold = dpl_threshold p\<rparr>"
    using assms(1) by (simp add: deploy_contract_def split: if_splits)
  show ?thesis using assms(2)
  proof (rule to_token_ok)
    fix data
    assume data: "gc_contract G \<lparr>sc_name = ctd_name d, sc_bytecode = ctd_bytecode d, sc_version = ''1'', sc_storage = [],
                                  sc_owners = ctd_owners d, sc_threshold = ctd_threshold d\<rparr> = Inr data"
      and t: "t = token_new\<lparr>asset_data := Some data, tok_id := ctd_token_id d, tok_environment_id := env,
                        tok_metadata := AList.update ''name'' (ctd_name d)
                          (AList.update ''contract_engine'' (ctd_engine d)
                            (AList.update ''token_type'' ''contract''
                              (fold (\<lambda>(k, v) m. AList.update k v m) (ctd_metadata d) [])))\<rparr>"
    show ?thesis
      using assms(3) [OF data] by (simp add: t d get_asset_def update_conv' token_new_def)
  qed
qed

lemma timelock_iff:
  "timelock_satisfied proposal_epoch current_epoch \<longleftrightarrow>
     (if unat proposal_epoch = 2 ^ 64 - 1 then unat current_epoch = 2 ^ 64 - 1 else unat proposal_epoch < unat current_epoch)"
proof -
  have "unat e < 2 ^ 64" for e :: u64 using unsigned_less [of e, where 'a = nat] by simp
  from this [of current_epoch] this [of proposal_epoch] show ?thesis
    by (auto simp: timelock_satisfied_def TIMELOCK_EPOCHS_def word_le_nat_alt unat_saturating_add)
qed

section \<open>Concrete instances\<close>

definition demo_delta :: replace_asset_delta where
  "demo_delta = \<lparr>rad_token_id = [7], rad_new_bytecode = [2], rad_new_owners = [[5]], rad_new_threshold = 1, rad_proposal_epoch = 0\<rparr>"

definition demo_governance :: governance_codec where
  "demo_governance =
     \<lparr>gc_id_payload = (\<lambda>(k, n, h, name). k @ h), gc_digest_input = (\<lambda>(i, h, owners, m, e). i @ h),
      gc_contract =
        (\<lambda>sc. if sc = demo_contract [1] then Inr [1] else if sc = replaced_asset demo_delta (demo_contract [1]) then Inr [2] else Inl []),
      gc_un_contract =
        (\<lambda>data. if data = [1] then Inr (demo_contract [1])
                else if data = [2] then Inr (replaced_asset demo_delta (demo_contract [1])) else Inl []),
      gc_un_deploy = (\<lambda>_. Inl []), gc_create = (\<lambda>_. Inl []), gc_un_upgrade = (\<lambda>_. Inl []), gc_replace = (\<lambda>_. Inl []),
      gc_un_wasm = (\<lambda>_. Inl [])\<rparr>"

lemma demo_governance_roundtrip: "gc_contract demo_governance sc = Inr data \<Longrightarrow> gc_un_contract demo_governance data = Inr sc"
  by (auto simp: demo_governance_def split: if_splits)

definition demo_upgrade :: upgrade_params where
  "demo_upgrade =
     \<lparr>up_new_bytecode = [2], up_new_owners = [[5]], up_new_threshold = 1, up_proposal_epoch = 0, up_owner_signatures = [[9]]\<rparr>"

text \<open>A provider under which a signature is one byte more than the key.\<close>

definition demo_owner_crypto :: crypto_provider where
  "demo_owner_crypto = demo_crypto\<lparr>check_signature := (\<lambda>sig key msg. Inr (sig = map (\<lambda>b. b + 1) key))\<rparr>"

theorem verify_quorum_exact_witness:
  "verify_quorum demo_governance id demo_owner_crypto [7] demo_upgrade [[8], [4]] 1 = Inr True"
proof -
  have "{k \<in> set [[8], [4 :: u8]]. owner_signed demo_owner_crypto (up_owner_signatures demo_upgrade)
          (upgrade_digest_of demo_governance id [7] demo_upgrade) k} = {[8]}"
    by (auto simp: owner_signed_def demo_owner_crypto_def demo_upgrade_def)
  then show ?thesis
    using verify_quorum_exact [of "[[8], [4]]" demo_governance id demo_owner_crypto "[7]" demo_upgrade 1] by simp
qed

theorem repeated_owner_meets_quorum_witness:
  "verify_quorum demo_governance id demo_owner_crypto [7] demo_upgrade (replicate 3 [8]) 3 = Inr True"
  by (rule repeated_owner_meets_quorum) (simp_all add: owner_signed_def demo_owner_crypto_def demo_upgrade_def word_less_nat_alt)

definition demo_contract_token :: token where
  "demo_contract_token = token_new\<lparr>asset_data := Some [1]\<rparr>"

theorem upgrade_preserves_state_witness:
  "\<exists>sc t'. apply_replace_asset demo_governance demo_delta demo_contract_token = (Inr sc, t') \<and>
     sc_storage sc = sc_storage (demo_contract [1]) \<and> apply_replace_asset demo_governance demo_delta t' = (Inr sc, t')"
proof -
  let ?sc = "replaced_asset demo_delta (demo_contract [1])"
  have eq: "apply_replace_asset demo_governance demo_delta demo_contract_token = (Inr ?sc, demo_contract_token\<lparr>asset_data := Some [2]\<rparr>)"
    by (simp add: apply_replace_asset_def update_asset_def demo_contract_token_def demo_governance_def)
      (simp add: replaced_asset_def demo_delta_def demo_contract_def)
  have "get_asset (gc_un_contract demo_governance) demo_contract_token = Some (demo_contract [1])"
    by (simp add: get_asset_def demo_contract_token_def demo_governance_def)
  with upgrade_preserves_state [OF eq demo_governance_roundtrip]
  have "sc_storage ?sc = sc_storage (demo_contract [1])"
    and "apply_replace_asset demo_governance demo_delta (demo_contract_token\<lparr>asset_data := Some [2]\<rparr>) =
         (Inr ?sc, demo_contract_token\<lparr>asset_data := Some [2]\<rparr>)" by auto
  with eq show ?thesis by blast
qed

definition demo_deploy :: deploy_params where
  "demo_deploy =
     \<lparr>dpl_name = sc_name (demo_contract [1]), dpl_engine = ''Spec'', dpl_bytecode = [1],
      dpl_metadata = [(''token_type'', ''coin''), (''owner'', ''00'')], dpl_owners = sc_owners (demo_contract [1]),
      dpl_threshold = sc_threshold (demo_contract [1])\<rparr>"

theorem deployed_token_unforgeable_witness:
  "\<exists>d t. deploy_contract demo_governance id [3] 4 demo_deploy = Inr d \<and> to_token demo_governance d ''main'' = Inr t \<and>
     map_of (tok_metadata t) ''token_type'' = Some ''contract''"
proof -
  obtain d where d: "deploy_contract demo_governance id [3] 4 demo_deploy = Inr d"
    and fields: "ctd_name d = sc_name (demo_contract [1])" "ctd_bytecode d = [1]" "ctd_owners d = sc_owners (demo_contract [1])"
      "ctd_threshold d = sc_threshold (demo_contract [1])"
    by (simp add: deploy_contract_def demo_deploy_def demo_contract_def)
  then obtain t where t: "to_token demo_governance d ''main'' = Inr t"
    by (simp add: to_token_def from_asset_def demo_governance_def demo_contract_def Let_def)
  show ?thesis using deployed_token_unforgeable [OF d t demo_governance_roundtrip] d t by blast
qed

end
