(* ===== verification/Wasm_Host.thy ===== *)
theory Wasm_Host
  imports Contracts "HOL-Library.Sublist"
begin

text \<open>
  The host side of the WebAssembly engine (\<^verbatim>\<open>src/contracts/wasm.rs\<close>): the module checks, the linear
  memory accesses, every \<^verbatim>\<open>env\<close> import, and the run of a contract from the instantiation to the
  result envelope.  The interpreter itself is a library: a record \<open>interpreter\<close> says what a module
  does next, which is to finish, to trap or to call an import, and how it goes on with the answer.
  A slice out of range panics in the host; the model keeps that outcome apart from traps and errors.
  Error texts keep the fixed part of a formatted message.
\<close>

section \<open>Module checks\<close>

definition WASM_MAX_MODULE_BYTES :: nat where "WASM_MAX_MODULE_BYTES = 1 * 1024 * 1024"
definition WASM_MAX_MEMORY_BYTES :: nat where "WASM_MAX_MEMORY_BYTES = 512 * 64 * 1024"
definition WASM_OUTPUT_CAP :: u32 where "WASM_OUTPUT_CAP = 16 * 1024"
definition UNLIMITED_FUEL :: u64 where "UNLIMITED_FUEL = u64_max"
definition WASM_SLOAD_GAS :: u64 where "WASM_SLOAD_GAS = 100"
definition WASM_SSTORE_NEW_GAS :: u64 where "WASM_SSTORE_NEW_GAS = 20000"
definition WASM_SSTORE_REWRITE_GAS :: u64 where "WASM_SSTORE_REWRITE_GAS = 5000"
definition WASM_SDELETE_GAS :: u64 where "WASM_SDELETE_GAS = 5000"
definition WASM_STORAGE_CAP :: nat where "WASM_STORAGE_CAP = 1 * 1024 * 1024"
definition XCALL_CALL_BASE_WASM :: u64 where "XCALL_CALL_BASE_WASM = 100"

datatype val_type = VI32 | VI64 | VF32 | VF64 | VOther

datatype extern_type = EFunc "val_type list" "val_type list" | EGlobal val_type | EMemory | ETable

record wasm_module =
  wm_exports :: "(string \<times> extern_type) list"
  wm_imports :: "(string \<times> string) list"

definition extern_type_has_float :: "extern_type \<Rightarrow> bool" where
  "extern_type_has_float t =
     (case t of
        EFunc params results \<Rightarrow> list_ex (\<lambda>v. v = VF32 \<or> v = VF64) (params @ results)
      | EGlobal v \<Rightarrow> v = VF32 \<or> v = VF64
      | EMemory \<Rightarrow> False
      | ETable \<Rightarrow> False)"

definition import_refused :: "string \<times> string \<Rightarrow> bool" where
  "import_refused i \<longleftrightarrow> fst i \<noteq> ''env'' \<or> snd i \<notin> set ALLOWED_ENV_IMPORTS"

definition validate_abi :: "wasm_module \<Rightarrow> contract_error + unit" where
  "validate_abi m =
     (case find (extern_type_has_float \<circ> snd) (wm_exports m) of
        Some (name, _) \<Rightarrow> Inl (BadBytecode (''export '' @ quoted name @ '' uses f32/f64 (integer-only ABI)''))
      | None \<Rightarrow>
          if ''__alloc'' \<notin> fst ` set (wm_exports m) then Inl (BadBytecode ''missing __alloc export'')
          else if ''execute'' \<notin> fst ` set (wm_exports m) then Inl (BadBytecode ''missing execute export'')
          else (case find import_refused (wm_imports m) of
                  Some (ns, name) \<Rightarrow>
                    Inl (BadBytecode
                      (if ns \<noteq> ''env'' then ''disallowed import namespace '' @ quoted ns @ '' (only '' @ quoted ''env'' @ '' is permitted)''
                       else ''disallowed import '' @ quoted (''env.'' @ name)))
                | None \<Rightarrow> Inr ()))"

text \<open>\<open>compile\<close> is the library's parser and validator.\<close>

definition validate_wasm_module :: "(bytes \<Rightarrow> string + wasm_module) \<Rightarrow> bytes \<Rightarrow> contract_error + wasm_module" where
  "validate_wasm_module compile bytecode =
     (if length bytecode > WASM_MAX_MODULE_BYTES then Inl (BadBytecode ''module size exceeds the byte cap'')
      else case compile bytecode of
             Inl e \<Rightarrow> Inl (BadBytecode (''invalid module: '' @ e))
           | Inr m \<Rightarrow> (case validate_abi m of Inl e \<Rightarrow> Inl e | Inr _ \<Rightarrow> Inr m))"

section \<open>Linear memory\<close>

text \<open>\<^verbatim>\<open>i32 as usize\<close> extends the sign.  \<open>HostErr\<close> is an error the interpreter turns into a trap.\<close>

type_synonym i32 = "32 word"

datatype 'a host = HostOk 'a | HostErr string | HostPanic

definition as_usize :: "i32 \<Rightarrow> nat" where
  "as_usize x = unat (scast x :: 64 word)"

definition read_mem :: "bytes option \<Rightarrow> i32 \<Rightarrow> i32 \<Rightarrow> bytes host" where
  "read_mem memory ptr len =
     (case memory of
        None \<Rightarrow> HostErr ''no linear memory''
      | Some data \<Rightarrow>
          (let start = as_usize ptr; n = min (as_usize len) (length data - start)
           in if start + n > length data then HostPanic else HostOk (take n (drop start data))))"

definition overwrite :: "bytes \<Rightarrow> nat \<Rightarrow> bytes \<Rightarrow> bytes" where
  "overwrite data start bs = take start data @ bs @ drop (start + length bs) data"

definition write_mem :: "bytes option \<Rightarrow> i32 \<Rightarrow> bytes \<Rightarrow> bytes host" where
  "write_mem memory ptr bs =
     (case memory of
        None \<Rightarrow> HostErr ''no linear memory''
      | Some data \<Rightarrow>
          (let start = as_usize ptr; n = min (length bs) (length data - start)
           in if start + n > length data then HostPanic else HostOk (overwrite data start (take n bs))))"

section \<open>The imports\<close>

record wasm_env =
  we_tx :: transaction
  we_tx_amount :: i64
  we_tx_sequence :: i64
  we_sender_fuel :: i64
  we_payload :: bytes
  we_storage :: "bytes amap"
  we_delta :: storage_delta
  we_storage_gas :: u64
  we_call :: "call_fn option"
  we_call_gas :: u64

datatype wasm_value = I32 i32 | I64 i64 | NoValue

datatype wasm_trap = OutOfFuel | RevertSignal | OtherTrap string

text \<open>The answer of an import, the memory and the environment it leaves; or a trap, or a panic.\<close>

datatype host_effect = Reply wasm_value "bytes option" wasm_env | Trap wasm_trap | Panic

definition after_host :: "'a host \<Rightarrow> ('a \<Rightarrow> host_effect) \<Rightarrow> host_effect" where
  "after_host r k = (case r of HostOk x \<Rightarrow> k x | HostErr m \<Rightarrow> Trap (OtherTrap m) | HostPanic \<Rightarrow> Panic)"

definition env_tx_payload :: "i32 \<Rightarrow> i32 \<Rightarrow> bytes option \<Rightarrow> wasm_env \<Rightarrow> host_effect" where
  "env_tx_payload ptr len memory env =
     (let n = min (as_usize len) (length (we_payload env))
      in case memory of
           None \<Rightarrow> Reply NoValue memory env
         | Some data \<Rightarrow>
             if as_usize ptr + n > length data then Panic
             else Reply NoValue (Some (overwrite data (as_usize ptr) (take n (we_payload env)))) env)"

definition storage_lookup :: "wasm_env \<Rightarrow> bytes \<Rightarrow> bytes" where
  "storage_lookup env key =
     (case map_of (we_delta env) key of
        Some (Some v) \<Rightarrow> v
      | Some None \<Rightarrow> []
      | None \<Rightarrow> (case map_of (we_storage env) key of Some v \<Rightarrow> v | None \<Rightarrow> []))"

definition env_sload :: "i32 \<Rightarrow> i32 \<Rightarrow> i32 \<Rightarrow> bytes option \<Rightarrow> wasm_env \<Rightarrow> host_effect" where
  "env_sload key_ptr key_len out_ptr memory env =
     after_host (read_mem memory key_ptr key_len) (\<lambda>key.
       let env1 = env\<lparr>we_storage_gas := saturating_add (we_storage_gas env) WASM_SLOAD_GAS\<rparr>;
           value = storage_lookup env1 key
       in after_host (write_mem memory out_ptr value) (\<lambda>data. Reply (I32 (of_nat (length value))) (Some data) env1))"

definition env_sstore :: "i32 \<Rightarrow> i32 \<Rightarrow> i32 \<Rightarrow> i32 \<Rightarrow> bytes option \<Rightarrow> wasm_env \<Rightarrow> host_effect" where
  "env_sstore key_ptr key_len value_ptr value_len memory env =
     after_host (read_mem memory key_ptr key_len) (\<lambda>key.
       after_host (read_mem memory value_ptr value_len) (\<lambda>value.
         let is_new = (map_of (we_storage env) key = None \<and> map_of (we_delta env) key = None);
             gas = (if is_new then WASM_SSTORE_NEW_GAS else WASM_SSTORE_REWRITE_GAS)
         in Reply NoValue memory
              (env\<lparr>we_storage_gas := saturating_add (we_storage_gas env) gas, we_delta := btree_insert key (Some value) (we_delta env)\<rparr>)))"

definition env_sdelete :: "i32 \<Rightarrow> i32 \<Rightarrow> bytes option \<Rightarrow> wasm_env \<Rightarrow> host_effect" where
  "env_sdelete key_ptr key_len memory env =
     after_host (read_mem memory key_ptr key_len) (\<lambda>key.
       Reply NoValue memory
         (env\<lparr>we_storage_gas := saturating_add (we_storage_gas env) WASM_SDELETE_GAS, we_delta := btree_insert key None (we_delta env)\<rparr>))"

text \<open>\<^verbatim>\<open>String::from_utf8\<close>: the well-formed byte sequences of the Unicode standard.\<close>

definition continuation :: "u8 \<Rightarrow> bool" where
  "continuation b \<longleftrightarrow> 0x80 \<le> b \<and> b \<le> 0xBF"

fun utf8_valid :: "bytes \<Rightarrow> bool" where
  "utf8_valid [] = True"
| "utf8_valid (b # bs) =
     (if b < 0x80 then utf8_valid bs
      else if 0xC2 \<le> b \<and> b \<le> 0xDF
      then (case bs of c # r \<Rightarrow> continuation c \<and> utf8_valid r | _ \<Rightarrow> False)
      else if 0xE0 \<le> b \<and> b \<le> 0xEF
      then (case bs of
              c # d # r \<Rightarrow> continuation c \<and> (b = 0xE0 \<longrightarrow> 0xA0 \<le> c) \<and> (b = 0xED \<longrightarrow> c \<le> 0x9F) \<and> continuation d \<and> utf8_valid r
            | _ \<Rightarrow> False)
      else if 0xF0 \<le> b \<and> b \<le> 0xF4
      then (case bs of
              c # d # e # r \<Rightarrow>
                continuation c \<and> (b = 0xF0 \<longrightarrow> 0x90 \<le> c) \<and> (b = 0xF4 \<longrightarrow> c \<le> 0x8F) \<and> continuation d \<and> continuation e \<and> utf8_valid r
            | _ \<Rightarrow> False)
      else False)"

definition from_utf8 :: "bytes \<Rightarrow> string option" where
  "from_utf8 bs = (if utf8_valid bs then Some (map (\<lambda>b. char_of (unat b)) bs) else None)"

record call_args =
  ca_target :: "i32 \<times> i32"
  ca_entry :: "i32 \<times> i32"
  ca_payload :: "i32 \<times> i32"
  ca_ref_height :: i32
  ca_ref_hash :: "i32 \<times> i32"
  ca_out_ptr :: i32
  ca_out_cap :: i32

definition perform_call :: "call_args \<Rightarrow> bytes \<Rightarrow> string \<Rightarrow> bytes \<Rightarrow> bytes \<Rightarrow> call_fn \<Rightarrow> u64 \<Rightarrow> bytes option \<Rightarrow> wasm_env \<Rightarrow> host_effect" where
  "perform_call a target entry payload rhash call fuel memory env =
     (let sub = saturating_sub fuel XCALL_CALL_BASE_WASM;
          outcome = call (we_tx env) target entry payload \<lparr>ref_height = scast (ca_ref_height a), ref_hash = rhash\<rparr> sub;
          env1 = env\<lparr>we_call_gas := saturating_add (we_call_gas env) (XCALL_CALL_BASE_WASM + b_gas_used outcome)\<rparr>
      in case outcome of
           CallFailure _ _ \<Rightarrow> Reply (I32 0) memory env1
         | CallSuccess result _ \<Rightarrow>
             if length result > as_usize (ca_out_cap a) then Reply (I32 0) memory env1
             else (case write_mem memory (ca_out_ptr a) result of
                     HostErr _ \<Rightarrow> Reply (I32 0) memory env1
                   | HostPanic \<Rightarrow> Panic
                   | HostOk data \<Rightarrow> Reply (I32 (of_nat (length result))) (Some data) env1))"

definition env_call :: "call_args \<Rightarrow> u64 \<Rightarrow> bytes option \<Rightarrow> wasm_env \<Rightarrow> host_effect" where
  "env_call a fuel memory env =
     (let read = (\<lambda>(p, n). read_mem memory p n);
          t = read (ca_target a); e = read (ca_entry a); p = read (ca_payload a); r = read (ca_ref_hash a)
      in if t = HostPanic \<or> e = HostPanic \<or> p = HostPanic \<or> r = HostPanic then Panic
         else case (t, e, p, r) of
                (HostOk target, HostOk entry_bytes, HostOk payload, HostOk rhash) \<Rightarrow>
                  (case from_utf8 entry_bytes of
                     None \<Rightarrow> Reply (I32 0) memory env
                   | Some entry \<Rightarrow>
                       if ca_ref_height a <s 0 then Reply (I32 0) memory env
                       else (case we_call env of
                               None \<Rightarrow> Reply (I32 0) memory env
                             | Some call \<Rightarrow> perform_call a target entry payload rhash call fuel memory env))
              | _ \<Rightarrow> Reply (I32 0) memory env)"

datatype host_call =
    TxAmount | TxSequence | SenderFuel | TxPayloadLen | TxPayload i32 i32 | RevertCall | Sload i32 i32 i32
  | Sstore i32 i32 i32 i32 | Sdelete i32 i32 | HostCall call_args

definition link_env :: "host_call \<Rightarrow> u64 \<Rightarrow> bytes option \<Rightarrow> wasm_env \<Rightarrow> host_effect" where
  "link_env h fuel memory env =
     (case h of
        TxAmount \<Rightarrow> Reply (I64 (we_tx_amount env)) memory env
      | TxSequence \<Rightarrow> Reply (I64 (we_tx_sequence env)) memory env
      | SenderFuel \<Rightarrow> Reply (I64 (we_sender_fuel env)) memory env
      | TxPayloadLen \<Rightarrow> Reply (I32 (of_nat (length (we_payload env)))) memory env
      | TxPayload ptr len \<Rightarrow> env_tx_payload ptr len memory env
      | RevertCall \<Rightarrow> Trap RevertSignal
      | Sload kp kl op \<Rightarrow> env_sload kp kl op memory env
      | Sstore kp kl vp vl \<Rightarrow> env_sstore kp kl vp vl memory env
      | Sdelete kp kl \<Rightarrow> env_sdelete kp kl memory env
      | HostCall a \<Rightarrow> env_call a fuel memory env)"

section \<open>A run\<close>

text \<open>
  An instance is its exported memory, the fuel it has left and the interpreter's own state; entering
  or resuming it gives the next event.
\<close>

datatype guest_event = Finished wasm_value | Trapped wasm_trap | Calls host_call

record 's wasm_instance =
  wi_memory :: "bytes option"
  wi_fuel :: u64
  wi_state :: 's

record 's interpreter =
  in_compile :: "bytes \<Rightarrow> string + wasm_module"
  in_start :: "bytes \<Rightarrow> u64 \<Rightarrow> guest_event \<times> 's wasm_instance"
  in_typed :: "string \<Rightarrow> 's wasm_instance \<Rightarrow> bool"
  in_invoke :: "string \<Rightarrow> i32 list \<Rightarrow> 's wasm_instance \<Rightarrow> guest_event \<times> 's wasm_instance"
  in_resume :: "wasm_value \<Rightarrow> 's wasm_instance \<Rightarrow> guest_event \<times> 's wasm_instance"

datatype guest_end = GuestReturned wasm_value | GuestTrapped wasm_trap | GuestPanicked

partial_function (option) guest_loop ::
    "'s interpreter \<Rightarrow> wasm_env \<Rightarrow> guest_event \<Rightarrow> 's wasm_instance \<Rightarrow> (guest_end \<times> wasm_env \<times> 's wasm_instance) option" where
  "guest_loop I env ev inst =
     (case ev of
        Finished v \<Rightarrow> Some (GuestReturned v, env, inst)
      | Trapped t \<Rightarrow> Some (GuestTrapped t, env, inst)
      | Calls h \<Rightarrow>
          (case link_env h (wi_fuel inst) (wi_memory inst) env of
             Panic \<Rightarrow> Some (GuestPanicked, env, inst)
           | Trap t \<Rightarrow> Some (GuestTrapped t, env, inst)
           | Reply v memory env' \<Rightarrow>
               (let (ev', inst') = in_resume I v (inst\<lparr>wi_memory := memory\<rparr>) in guest_loop I env' ev' inst')))"

definition map_runtime_err :: "wasm_trap \<Rightarrow> contract_error" where
  "map_runtime_err t =
     (case t of
        OutOfFuel \<Rightarrow> GasExhausted
      | RevertSignal \<Rightarrow> Reverted ''guest called env.revert()''
      | OtherTrap m \<Rightarrow> Reverted (''wasm trap: '' @ m))"

datatype wasm_outcome = WasmReturns "contract_error + exec_output" | WasmPanics

definition enter :: "'s interpreter \<Rightarrow> wasm_env \<Rightarrow> guest_event \<times> 's wasm_instance \<Rightarrow>
    (wasm_value \<Rightarrow> wasm_env \<Rightarrow> 's wasm_instance \<Rightarrow> wasm_outcome option) \<Rightarrow> wasm_outcome option" where
  "enter I env start k =
     (case guest_loop I env (fst start) (snd start) of
        None \<Rightarrow> None
      | Some (GuestPanicked, _, _) \<Rightarrow> Some WasmPanics
      | Some (GuestTrapped t, _, _) \<Rightarrow> Some (WasmReturns (Inl (map_runtime_err t)))
      | Some (GuestReturned v, env', inst') \<Rightarrow> k v env' inst')"

definition i32_of :: "wasm_value \<Rightarrow> i32" where
  "i32_of v = (case v of I32 x \<Rightarrow> x | I64 x \<Rightarrow> ucast x | NoValue \<Rightarrow> 0)"

definition wasm_env_of :: "call_fn option \<Rightarrow> exec_input \<Rightarrow> wasm_env" where
  "wasm_env_of call inp =
     \<lparr>we_tx = ei_tx inp, we_tx_amount = (case tx_amount (ei_tx inp) of Some a \<Rightarrow> a | None \<Rightarrow> 0),
      we_tx_sequence = of_nat (tx_seq (ei_tx inp)), we_sender_fuel = fuel_balance (ei_sender inp),
      we_payload = tx_payload (ei_tx inp), we_storage = ei_storage inp, we_delta = [], we_storage_gas = 0,
      we_call = call, we_call_gas = 0\<rparr>"

text \<open>The steps after \<^verbatim>\<open>execute\<close> returned: the output slice, the storage cap, the envelope, the gas
  and the memory cap.\<close>

definition wasm_finish ::
    "(wasm_result \<Rightarrow> io_error + bytes) \<Rightarrow> exec_input \<Rightarrow> u64 \<Rightarrow> bytes \<Rightarrow> wasm_env \<Rightarrow> nat \<Rightarrow> u64 \<Rightarrow> contract_error + exec_output" where
  "wasm_finish ser inp budget module_output env mem_size remaining =
     (let w = \<lparr>wr_module_output = module_output, wr_storage_delta = we_delta env\<rparr>
      in if post_apply_size w (ei_storage inp) > WASM_STORAGE_CAP then Inl (Reverted ''storage size exceeds the byte cap'')
         else case ser w of
                Inl e \<Rightarrow> Inl (InvalidInput (''serialize WasmResult: '' @ e))
              | Inr result \<Rightarrow>
                  (let fuel_used = saturating_sub budget remaining;
                       gas = saturating_add (saturating_add fuel_used (we_storage_gas env)) (we_call_gas env)
                   in if ei_gas_limit inp > 0 \<and> gas > ei_gas_limit inp then Inl GasExhausted
                      else if mem_size > WASM_MAX_MEMORY_BYTES then Inl (BadBytecode ''linear memory exceeds the byte cap'')
                      else Inr \<lparr>eo_result = result, eo_gas = gas\<rparr>))"

record 's wasm_host =
  wh_interpreter :: "'s interpreter"
  wh_canonical :: "exec_input \<Rightarrow> io_error + bytes"
  wh_result :: "wasm_result \<Rightarrow> io_error + bytes"

text \<open>
  The exchange with the module, step by step: the input is written to a buffer the module allocated,
  \<^verbatim>\<open>execute\<close> runs on it and on an output buffer, and the output is read back.  The memory handle is
  taken once; a module keeps the memory it exports.
\<close>

definition wasm_read_output ::
    "'s wasm_host \<Rightarrow> exec_input \<Rightarrow> u64 \<Rightarrow> i32 \<Rightarrow> wasm_value \<Rightarrow> wasm_env \<Rightarrow> 's wasm_instance \<Rightarrow> wasm_outcome option" where
  "wasm_read_output H inp budget out_ptr v env inst =
     (let out_len = i32_of v; start = as_usize out_ptr
      in if (scast out_len :: u64) > ucast WASM_OUTPUT_CAP
         then Some (WasmReturns (Inl (Reverted ''output length exceeds the byte cap'')))
         else case wi_memory inst of
                None \<Rightarrow> Some WasmPanics
              | Some data \<Rightarrow>
                  if start + as_usize out_len > length data then Some WasmPanics
                  else Some (WasmReturns (wasm_finish (wh_result H) inp budget
                         (take (as_usize out_len) (drop start data)) env (length data) (wi_fuel inst))))"

definition wasm_call_execute ::
    "'s wasm_host \<Rightarrow> exec_input \<Rightarrow> u64 \<Rightarrow> i32 \<Rightarrow> i32 \<Rightarrow> wasm_value \<Rightarrow> wasm_env \<Rightarrow> 's wasm_instance \<Rightarrow> wasm_outcome option" where
  "wasm_call_execute H inp budget in_ptr in_len v env inst =
     (let I = wh_interpreter H; out_ptr = i32_of v
      in if \<not> in_typed I ''execute'' inst then Some (WasmReturns (Inl (BadBytecode ''execute'')))
         else enter I env (in_invoke I ''execute'' [in_ptr, in_len, out_ptr, ucast WASM_OUTPUT_CAP] inst)
                (wasm_read_output H inp budget out_ptr))"

definition wasm_write_input ::
    "'s wasm_host \<Rightarrow> exec_input \<Rightarrow> u64 \<Rightarrow> bytes \<Rightarrow> wasm_value \<Rightarrow> wasm_env \<Rightarrow> 's wasm_instance \<Rightarrow> wasm_outcome option" where
  "wasm_write_input H inp budget in_bytes v env inst =
     (let I = wh_interpreter H; in_ptr = i32_of v
      in case wi_memory inst of
           None \<Rightarrow> Some WasmPanics
         | Some data \<Rightarrow>
             if as_usize in_ptr + length in_bytes > length data then Some WasmPanics
             else enter I env
                    (in_invoke I ''__alloc'' [ucast WASM_OUTPUT_CAP] (inst\<lparr>wi_memory := Some (overwrite data (as_usize in_ptr) in_bytes)\<rparr>))
                    (wasm_call_execute H inp budget in_ptr (of_nat (length in_bytes))))"

definition wasm_exchange ::
    "'s wasm_host \<Rightarrow> exec_input \<Rightarrow> u64 \<Rightarrow> wasm_value \<Rightarrow> wasm_env \<Rightarrow> 's wasm_instance \<Rightarrow> wasm_outcome option" where
  "wasm_exchange H inp budget v env inst =
     (let I = wh_interpreter H
      in case wh_canonical H inp of
           Inl e \<Rightarrow> Some (WasmReturns (Inl (InvalidInput e)))
         | Inr in_bytes \<Rightarrow>
             if \<not> in_typed I ''__alloc'' inst then Some (WasmReturns (Inl (BadBytecode ''__alloc'')))
             else if wi_memory inst = None then Some (WasmReturns (Inl (BadBytecode ''module has no linear memory'')))
             else enter I env (in_invoke I ''__alloc'' [of_nat (length in_bytes)] inst) (wasm_write_input H inp budget in_bytes))"

definition wasm_execute :: "'s wasm_host \<Rightarrow> call_fn option \<Rightarrow> exec_input \<Rightarrow> wasm_outcome option" where
  "wasm_execute H call inp =
     (let I = wh_interpreter H; bytecode = sc_bytecode (ei_contract inp)
      in case validate_wasm_module (in_compile I) bytecode of
           Inl e \<Rightarrow> Some (WasmReturns (Inl e))
         | Inr _ \<Rightarrow>
             (let budget = (if ei_gas_limit inp = 0 then UNLIMITED_FUEL else ei_gas_limit inp)
              in enter I (wasm_env_of call inp) (in_start I bytecode budget) (wasm_exchange H inp budget)))"

section \<open>The write set is an overlay of the base state\<close>

lemma map_of_btree_of: "distinct (map fst m) \<Longrightarrow> map_of (btree_of m) = map_of m"
  by (subst map_of_inject_set) (simp_all add: btree_of_def distinct_map)

lemma btree_insert_keys: "distinct (map fst m) \<Longrightarrow> distinct (map fst (btree_insert k v m))"
  using distinct_update [of m k v] by (simp add: btree_insert_def btree_of_def distinct_map)

lemma map_of_btree_insert [simp]: "distinct (map fst m) \<Longrightarrow> map_of (btree_insert k v m) = (map_of m)(k \<mapsto> v)"
  by (simp add: btree_insert_def map_of_btree_of distinct_update update_conv')

lemma apply_delta_overlay:
  assumes "distinct (map fst base)" and "distinct (map fst delta)"
  shows "distinct (map fst (apply_delta_to delta base)) \<and>
         map_of (apply_delta_to delta base) k = (case map_of delta k of None \<Rightarrow> map_of base k | Some v \<Rightarrow> v)"
  using assms
proof (induction delta arbitrary: base)
  case Nil
  then show ?case by (simp add: apply_delta_to_def)
next
  case (Cons entry delta)
  obtain j v where entry: "entry = (j, v)" by (cases entry)
  let ?base = "case v of Some val \<Rightarrow> btree_insert j val base | None \<Rightarrow> AList.delete j base"
  have step: "apply_delta_to ((j, v) # delta) base = apply_delta_to delta ?base"
    by (simp add: apply_delta_to_def)
  have base: "distinct (map fst ?base)"
    using Cons.prems(1) by (simp add: btree_insert_keys distinct_delete split: option.split)
  have lookup: "map_of ?base k = (if k = j then v else map_of base k)"
    using Cons.prems(1) by (simp add: delete_conv' split: option.split)
  have fresh: "map_of delta j = None" using Cons.prems(2) by (simp add: entry map_of_eq_None_iff)
  show ?case
    using Cons.IH [OF base] Cons.prems(2) lookup fresh
    by (cases "map_of delta k"; cases "k = j") (simp_all add: entry step)
qed

definition storage_ok :: "wasm_env \<Rightarrow> bool" where
  "storage_ok env \<longleftrightarrow> distinct (map fst (we_storage env)) \<and> distinct (map fst (we_delta env))"

definition storage_view :: "wasm_env \<Rightarrow> bytes \<Rightarrow> bytes option" where
  "storage_view env = map_of (apply_delta_to (we_delta env) (we_storage env))"

lemma storage_view_eq:
  "storage_ok env \<Longrightarrow> storage_view env k = (case map_of (we_delta env) k of None \<Rightarrow> map_of (we_storage env) k | Some v \<Rightarrow> v)"
  by (simp add: storage_ok_def storage_view_def apply_delta_overlay)

lemma storage_lookup_view: "storage_ok env \<Longrightarrow> storage_lookup env k = (case storage_view env k of Some v \<Rightarrow> v | None \<Rightarrow> [])"
  by (simp add: storage_view_eq storage_lookup_def split: option.splits)

lemma storage_insert:
  assumes "storage_ok env"
  shows "storage_ok (env\<lparr>we_storage_gas := g, we_delta := btree_insert k v (we_delta env)\<rparr>)"
    and "storage_view (env\<lparr>we_storage_gas := g, we_delta := btree_insert k v (we_delta env)\<rparr>) = (storage_view env)(k := v)"
proof -
  show ok: "storage_ok (env\<lparr>we_storage_gas := g, we_delta := btree_insert k v (we_delta env)\<rparr>)"
    using assms by (simp add: storage_ok_def btree_insert_keys)
  show "storage_view (env\<lparr>we_storage_gas := g, we_delta := btree_insert k v (we_delta env)\<rparr>) = (storage_view env)(k := v)"
  proof (rule ext)
    fix j
    show "storage_view (env\<lparr>we_storage_gas := g, we_delta := btree_insert k v (we_delta env)\<rparr>) j = ((storage_view env)(k := v)) j"
      using assms
      by (cases "map_of (we_delta env) j") (simp_all add: storage_view_eq [OF ok] storage_view_eq [OF assms] storage_ok_def)
  qed
qed

lemma storage_gas_only:
  "storage_ok (env\<lparr>we_storage_gas := g\<rparr>) = storage_ok env" "storage_view (env\<lparr>we_storage_gas := g\<rparr>) = storage_view env"
  "storage_ok (env\<lparr>we_call_gas := g\<rparr>) = storage_ok env" "storage_view (env\<lparr>we_call_gas := g\<rparr>) = storage_view env"
  by (simp_all add: storage_ok_def storage_view_def)

lemma after_host_reply:
  "after_host r k = Reply v m env \<longleftrightarrow> (\<exists>x. r = HostOk x \<and> k x = Reply v m env)"
  by (cases r) (simp_all add: after_host_def)

text \<open>What an import does to the contract's state as a finite map.\<close>

definition storage_step :: "host_call \<Rightarrow> bytes option \<Rightarrow> (bytes \<Rightarrow> bytes option) \<Rightarrow> (bytes \<Rightarrow> bytes option) \<Rightarrow> bool" where
  "storage_step h memory s s' =
     (case h of
        Sstore kp kl vp vl \<Rightarrow>
          (case (read_mem memory kp kl, read_mem memory vp vl) of
             (HostOk key, HostOk value) \<Rightarrow> s' = s(key \<mapsto> value)
           | _ \<Rightarrow> False)
      | Sdelete kp kl \<Rightarrow> (case read_mem memory kp kl of HostOk key \<Rightarrow> s' = s(key := None) | _ \<Rightarrow> False)
      | _ \<Rightarrow> s' = s)"

lemma perform_call_env:
  assumes "perform_call a t e p r call fuel memory env = Reply v memory' env'"
  shows "\<exists>g. env' = env\<lparr>we_call_gas := g\<rparr>"
proof -
  define sub where "sub = saturating_sub fuel XCALL_CALL_BASE_WASM"
  define out where "out = call (we_tx env) t e p \<lparr>ref_height = scast (ca_ref_height a), ref_hash = r\<rparr> sub"
  have "env' = env\<lparr>we_call_gas := saturating_add (we_call_gas env) (XCALL_CALL_BASE_WASM + b_gas_used out)\<rparr>"
    using assms unfolding perform_call_def Let_def sub_def [symmetric] out_def [symmetric]
    by (cases out) (simp_all split: if_splits host.splits)
  then show ?thesis by blast
qed

lemma env_call_env:
  assumes "env_call a fuel memory env = Reply v memory' env'"
  shows "env' = env \<or> (\<exists>t e p r call. perform_call a t e p r call fuel memory env = Reply v memory' env')"
proof -
  define read where "read = (\<lambda>(p, n). read_mem memory p n)"
  have eq: "env_call a fuel memory env =
      (if read (ca_target a) = HostPanic \<or> read (ca_entry a) = HostPanic \<or> read (ca_payload a) = HostPanic \<or> read (ca_ref_hash a) = HostPanic
       then Panic
       else case (read (ca_target a), read (ca_entry a), read (ca_payload a), read (ca_ref_hash a)) of
              (HostOk target, HostOk entry_bytes, HostOk payload, HostOk rhash) \<Rightarrow>
                (case from_utf8 entry_bytes of
                   None \<Rightarrow> Reply (I32 0) memory env
                 | Some entry \<Rightarrow>
                     if ca_ref_height a <s 0 then Reply (I32 0) memory env
                     else (case we_call env of
                             None \<Rightarrow> Reply (I32 0) memory env
                           | Some call \<Rightarrow> perform_call a target entry payload rhash call fuel memory env))
            | _ \<Rightarrow> Reply (I32 0) memory env)"
    by (simp only: env_call_def Let_def read_def)
  show ?thesis
  proof (cases "\<exists>t e p r. read (ca_target a) = HostOk t \<and> read (ca_entry a) = HostOk e \<and> read (ca_payload a) = HostOk p \<and> read (ca_ref_hash a) = HostOk r")
    case True
    then obtain t e p r where reads: "read (ca_target a) = HostOk t" "read (ca_entry a) = HostOk e" "read (ca_payload a) = HostOk p"
      "read (ca_ref_hash a) = HostOk r" by blast
    show ?thesis
      using assms unfolding eq reads by (cases "from_utf8 e"; cases "we_call env") (simp_all split: if_splits, blast)
  next
    case False
    then have "env_call a fuel memory env = Panic \<or> env_call a fuel memory env = Reply (I32 0) memory env"
      unfolding eq
      by (cases "read (ca_target a)"; cases "read (ca_entry a)"; cases "read (ca_payload a)"; cases "read (ca_ref_hash a)") simp_all
    with assms show ?thesis by auto
  qed
qed

lemma env_call_storage:
  assumes "env_call a fuel memory env = Reply v memory' env'"
  shows "\<exists>g. env' = env\<lparr>we_call_gas := g\<rparr>"
  using env_call_env [OF assms]
proof
  assume "env' = env"
  then have "env' = env\<lparr>we_call_gas := we_call_gas env\<rparr>" by simp
  then show ?thesis by blast
qed (use perform_call_env in blast)


section \<open>Bounds of a run that returns\<close>

lemma enter_ok:
  assumes "enter I env start k = Some (WasmReturns (Inr out))"
  obtains v env' inst where "k v env' inst = Some (WasmReturns (Inr out))"
proof (cases "guest_loop I env (fst start) (snd start)")
  case None
  with assms show ?thesis by (simp add: enter_def)
next
  case (Some r)
  obtain e env' inst where r: "r = (e, env', inst)" by (cases r)
  from assms Some r that show ?thesis by (cases e) (simp_all add: enter_def)
qed

lemma wasm_finish_ok:
  assumes "wasm_finish ser inp budget output env mem_size remaining = Inr out"
  shows "post_apply_size \<lparr>wr_module_output = output, wr_storage_delta = we_delta env\<rparr> (ei_storage inp) \<le> WASM_STORAGE_CAP \<and>
         ser \<lparr>wr_module_output = output, wr_storage_delta = we_delta env\<rparr> = Inr (eo_result out) \<and>
         (ei_gas_limit inp = 0 \<or> eo_gas out \<le> ei_gas_limit inp) \<and> mem_size \<le> WASM_MAX_MEMORY_BYTES"
  using assms by (auto simp: wasm_finish_def Let_def word_gt_0 split: if_splits sum.splits)

lemma output_len_cap:
  assumes "\<not> ucast WASM_OUTPUT_CAP < (scast x :: u64)"
  shows "as_usize x \<le> unat WASM_OUTPUT_CAP"
proof -
  have "unat (ucast WASM_OUTPUT_CAP :: u64) = unat WASM_OUTPUT_CAP" by (simp add: WASM_OUTPUT_CAP_def)
  with assms show ?thesis by (simp add: as_usize_def word_less_nat_alt)
qed

lemma wasm_read_output_ok:
  assumes "wasm_read_output H inp budget out_ptr v env inst = Some (WasmReturns (Inr out))"
  shows "\<exists>output mem_size.
           length output \<le> unat WASM_OUTPUT_CAP \<and> wasm_finish (wh_result H) inp budget output env mem_size (wi_fuel inst) = Inr out"
proof -
  obtain data where cap: "\<not> ucast WASM_OUTPUT_CAP < (scast (i32_of v) :: u64)"
    and fin: "wasm_finish (wh_result H) inp budget (take (as_usize (i32_of v)) (drop (as_usize out_ptr) data)) env (length data)
            (wi_fuel inst) = Inr out"
    using assms by (auto simp: wasm_read_output_def Let_def split: option.splits if_splits)
  have "length (take (as_usize (i32_of v)) (drop (as_usize out_ptr) data)) \<le> unat WASM_OUTPUT_CAP"
    using output_len_cap [OF cap] by simp
  with fin show ?thesis by blast
qed

lemma wasm_exchange_ok:
  assumes "wasm_exchange H inp budget v env inst = Some (WasmReturns (Inr out))"
  shows "\<exists>output env' mem_size remaining.
           length output \<le> unat WASM_OUTPUT_CAP \<and> wasm_finish (wh_result H) inp budget output env' mem_size remaining = Inr out"
proof -
  obtain in_bytes where "enter (wh_interpreter H) env
      (in_invoke (wh_interpreter H) ''__alloc'' [of_nat (length in_bytes)] inst) (wasm_write_input H inp budget in_bytes) =
      Some (WasmReturns (Inr out))"
    using assms by (auto simp: wasm_exchange_def Let_def split: sum.splits if_splits)
  then obtain v1 env1 inst1 where written: "wasm_write_input H inp budget in_bytes v1 env1 inst1 = Some (WasmReturns (Inr out))"
    by (rule enter_ok)
  then obtain data where "wi_memory inst1 = Some data" "as_usize (i32_of v1) + length in_bytes \<le> length data"
    by (cases "wi_memory inst1") (auto simp: wasm_write_input_def Let_def split: if_splits)
  with written have "enter (wh_interpreter H) env1
      (in_invoke (wh_interpreter H) ''__alloc'' [ucast WASM_OUTPUT_CAP]
         (inst1\<lparr>wi_memory := Some (overwrite data (as_usize (i32_of v1)) in_bytes)\<rparr>))
      (wasm_call_execute H inp budget (i32_of v1) (of_nat (length in_bytes))) = Some (WasmReturns (Inr out))"
    by (simp add: wasm_write_input_def Let_def)
  then obtain v2 env2 inst2 where
    "wasm_call_execute H inp budget (i32_of v1) (of_nat (length in_bytes)) v2 env2 inst2 = Some (WasmReturns (Inr out))"
    by (rule enter_ok)
  then have "enter (wh_interpreter H) env2
      (in_invoke (wh_interpreter H) ''execute'' [i32_of v1, of_nat (length in_bytes), i32_of v2, ucast WASM_OUTPUT_CAP] inst2)
      (wasm_read_output H inp budget (i32_of v2)) = Some (WasmReturns (Inr out))"
    by (simp add: wasm_call_execute_def Let_def split: if_splits)
  then obtain v3 env3 inst3 where "wasm_read_output H inp budget (i32_of v2) v3 env3 inst3 = Some (WasmReturns (Inr out))"
    by (rule enter_ok)
  then show ?thesis using wasm_read_output_ok by blast
qed

text \<open>A WebAssembly run that returns a result returns the encoding of an envelope whose module output
  fits the 16 KiB buffer and whose delta leaves at most 1 MiB of contract state, and charges no more
  than the declared gas limit, unless the limit is zero.
\<close>

theorem wasm_result_bounded:
  assumes "wasm_execute H call inp = Some (WasmReturns (Inr out))"
  shows "\<exists>w. wh_result H w = Inr (eo_result out) \<and> length (wr_module_output w) \<le> 16384 \<and>
             post_apply_size w (ei_storage inp) \<le> 1048576 \<and>
             (ei_gas_limit inp = 0 \<or> eo_gas out \<le> ei_gas_limit inp)"
proof -
  let ?budget = "if ei_gas_limit inp = 0 then UNLIMITED_FUEL else ei_gas_limit inp"
  have "enter (wh_interpreter H) (wasm_env_of call inp) (in_start (wh_interpreter H) (sc_bytecode (ei_contract inp)) ?budget)
          (wasm_exchange H inp ?budget) = Some (WasmReturns (Inr out))"
    using assms unfolding wasm_execute_def Let_def by (simp split: sum.splits split del: if_split)
  then obtain v env inst where "wasm_exchange H inp ?budget v env inst = Some (WasmReturns (Inr out))" by (rule enter_ok)
  then obtain o_bytes env' mem_size remaining where
    "length o_bytes \<le> unat WASM_OUTPUT_CAP" "wasm_finish (wh_result H) inp ?budget o_bytes env' mem_size remaining = Inr out"
    using wasm_exchange_ok by blast
  then show ?thesis
    using wasm_finish_ok [of "wh_result H" inp ?budget o_bytes env' mem_size remaining out]
    by (intro exI [of _ "\<lparr>wr_module_output = o_bytes, wr_storage_delta = we_delta env'\<rparr>"])
      (simp add: WASM_OUTPUT_CAP_def WASM_STORAGE_CAP_def)
qed

section \<open>Termination\<close>

text \<open>Fuel metering as documented: a module that reaches another import has burnt fuel.\<close>

definition metered :: "'s interpreter \<Rightarrow> bool" where
  "metered I \<longleftrightarrow> (\<forall>v inst. case in_resume I v inst of (Calls _, inst') \<Rightarrow> wi_fuel inst' < wi_fuel inst | _ \<Rightarrow> True)"

lemma guest_loop_terminates:
  assumes "metered I"
  shows "\<exists>r. guest_loop I env ev inst = Some r"
proof (induction "unat (wi_fuel inst)" arbitrary: env ev inst rule: less_induct)
  case less
  show ?case
  proof (cases ev)
    case (Calls h)
    show ?thesis
    proof (cases "link_env h (wi_fuel inst) (wi_memory inst) env")
      case (Reply v memory env')
      obtain ev' inst' where resume: "in_resume I v (inst\<lparr>wi_memory := memory\<rparr>) = (ev', inst')" by fastforce
      have "\<exists>r. guest_loop I env' ev' inst' = Some r"
      proof (cases ev')
        case Calls
        then have "wi_fuel inst' < wi_fuel (inst\<lparr>wi_memory := memory\<rparr>)"
          using assms resume unfolding metered_def by (metis (no_types, lifting) case_prod_conv guest_event.simps(12))
        then show ?thesis using less by (simp add: word_less_nat_alt)
      qed (subst guest_loop.simps, simp)+
      with Calls Reply resume show ?thesis by (subst guest_loop.simps) simp
    qed (use Calls in \<open>subst guest_loop.simps, simp\<close>)+
  qed (subst guest_loop.simps, simp)+
qed

lemma enter_terminates:
  assumes "metered I" and "\<And>v env' inst. \<exists>r. k v env' inst = Some r"
  shows "\<exists>r. enter I env start k = Some r"
proof -
  obtain e env' inst where loop: "guest_loop I env (fst start) (snd start) = Some (e, env', inst)"
    using guest_loop_terminates [OF assms(1)] by (metis prod_cases3)
  show ?thesis using assms(2) by (cases e) (simp_all add: enter_def loop)
qed


section \<open>A pointer out of range panics in the host\<close>

lemma read_mem_past_end: "length data < as_usize ptr \<Longrightarrow> read_mem (Some data) ptr len = HostPanic"
  by (simp add: read_mem_def Let_def)

lemma as_usize_negative:
  assumes "x <s 0"
  shows "2 ^ 63 \<le> as_usize x"
proof -
  have neg: "sint x < 0" using assms by (simp add: word_sless_alt)
  have lb: "- (2 ^ 31) \<le> sint x" using sint_greater_eq [of x] by simp
  have "uint (scast x :: 64 word) = sint x mod 2 ^ 64"
    by (simp only: scast_eq unsigned_of_int take_bit_eq_mod) simp
  also have "\<dots> = (sint x + 2 ^ 64) mod 2 ^ 64" by simp
  also have "\<dots> = sint x + 2 ^ 64" using neg lb by (intro mod_pos_pos_trivial) simp_all
  finally have "2 ^ 63 \<le> uint (scast x :: 64 word)" using lb by simp
  then have "nat (2 ^ 63) \<le> nat (uint (scast x :: 64 word))" by (rule nat_mono)
  then show ?thesis by (simp add: as_usize_def)
qed

lemma out_of_range_panics:
  assumes "length data < as_usize ptr"
  shows "link_env (Sload ptr kl op) fuel (Some data) env = Panic"
    and "link_env (Sstore ptr kl vp vl) fuel (Some data) env = Panic"
    and "link_env (Sdelete ptr kl) fuel (Some data) env = Panic"
    and "ca_target a = (ptr, n) \<Longrightarrow> link_env (HostCall a) fuel (Some data) env = Panic"
  using read_mem_past_end [OF assms]
  by (simp_all add: link_env_def env_sload_def env_sstore_def env_sdelete_def after_host_def env_call_def Let_def)

text \<open>A module whose start code hands \<^verbatim>\<open>sdelete\<close> a negative pointer brings the executing host
  down with a slice panic, whatever the gas limit: the bound the memory helpers compute clamps the
  length of the slice but not its start.
\<close>

theorem negative_pointer_panics:
  assumes "validate_wasm_module (in_compile (wh_interpreter H)) (sc_bytecode (ei_contract inp)) = Inr m"
    and "in_start (wh_interpreter H) (sc_bytecode (ei_contract inp)) (if ei_gas_limit inp = 0 then UNLIMITED_FUEL else ei_gas_limit inp) =
           (Calls (Sdelete ptr len), inst)"
    and "wi_memory inst = Some data" and "length data \<le> WASM_MAX_MEMORY_BYTES" and "ptr <s 0"
  shows "wasm_execute H call inp = Some WasmPanics"
proof -
  have "length data < as_usize ptr"
    using as_usize_negative [OF assms(5)] assms(4) by (simp add: WASM_MAX_MEMORY_BYTES_def)
  then have "link_env (Sdelete ptr len) (wi_fuel inst) (wi_memory inst) (wasm_env_of call inp) = Panic"
    by (simp add: assms(3) out_of_range_panics)
  then have "guest_loop (wh_interpreter H) (wasm_env_of call inp) (Calls (Sdelete ptr len)) inst = Some (GuestPanicked, wasm_env_of call inp, inst)"
    by (subst guest_loop.simps) simp
  with assms(1,2) show ?thesis by (simp add: wasm_execute_def Let_def enter_def split del: if_split)
qed

section \<open>Concrete instances\<close>

definition demo_module :: wasm_module where
  "demo_module = \<lparr>wm_exports = [(''__alloc'', EFunc [VI32] [VI32]), (''execute'', EFunc [VI32, VI32, VI32, VI32] [VI32])], wm_imports = []\<rparr>"

lemma demo_module_valid: "validate_wasm_module (\<lambda>_. Inr demo_module) [0] = Inr demo_module"
  by (simp add: validate_wasm_module_def WASM_MAX_MODULE_BYTES_def validate_abi_def demo_module_def extern_type_has_float_def)

definition demo_instance :: "unit wasm_instance" where
  "demo_instance = \<lparr>wi_memory = Some [5], wi_fuel = 9, wi_state = ()\<rparr>"

definition demo_host :: "guest_event \<Rightarrow> unit wasm_host" where
  "demo_host ev =
     \<lparr>wh_interpreter =
        \<lparr>in_compile = (\<lambda>_. Inr demo_module), in_start = (\<lambda>_ _. (ev, demo_instance)), in_typed = (\<lambda>_ _. True),
         in_invoke = (\<lambda>name _ inst. (Finished (I32 (if name = ''execute'' then 1 else 0)), inst)),
         in_resume = (\<lambda>_ inst. (Trapped OutOfFuel, inst))\<rparr>,
      wh_canonical = (\<lambda>_. Inr []), wh_result = (\<lambda>w. Inr (wr_module_output w))\<rparr>"

lemma demo_returns:
  "wasm_execute (demo_host (Finished NoValue)) None (demo_exec [0] 20) = Some (WasmReturns (Inr \<lparr>eo_result = [5], eo_gas = 11\<rparr>))"
proof -
  have loop: "guest_loop I env (Finished v) inst = Some (GuestReturned v, env, inst)" for I :: "unit interpreter" and env v inst
    by (subst guest_loop.simps) simp
  have in_range: "\<not> ucast WASM_OUTPUT_CAP < (scast (1 :: i32) :: u64)" "as_usize 0 = 0" "as_usize 1 = 1"
    by (simp_all add: WASM_OUTPUT_CAP_def as_usize_def)
  have input: "sc_bytecode (ei_contract (demo_exec [0] 20)) = [0]" "ei_gas_limit (demo_exec [0] 20) = 20" "ei_storage (demo_exec [0] 20) = []"
    by (simp_all add: demo_exec_def canary_input_def)
  show ?thesis
    by (simp add: Let_def WASM_OUTPUT_CAP_def wasm_execute_def demo_module_valid demo_host_def input enter_def loop wasm_exchange_def demo_instance_def
        wasm_write_input_def wasm_call_execute_def wasm_read_output_def i32_of_def in_range overwrite_def wasm_finish_def
        post_apply_size_def apply_delta_to_def wasm_env_of_def saturating_sub_def saturating_add_def WASM_STORAGE_CAP_def
        WASM_MAX_MEMORY_BYTES_def)
qed

theorem wasm_result_bounded_witness:
  "\<exists>w. wh_result (demo_host (Finished NoValue)) w = Inr [5] \<and> length (wr_module_output w) \<le> 16384 \<and>
     post_apply_size w (ei_storage (demo_exec [0] 20)) \<le> 1048576"
  using wasm_result_bounded [OF demo_returns] by auto


theorem negative_pointer_panics_witness:
  "wasm_execute (demo_host (Calls (Sdelete (- 1) 4))) None (demo_exec [0] 20) = Some WasmPanics"
  by (rule negative_pointer_panics [where m = demo_module and data = "[5]" and inst = demo_instance and ptr = "- 1" and len = 4])
    (simp_all add: demo_host_def demo_instance_def demo_exec_def canary_input_def demo_module_valid WASM_MAX_MEMORY_BYTES_def
      word_sless_alt)


end
