(* ===== verification/Validation_Specs.thy ===== *)
theory Validation_Specs
  imports Contract_Governance Wasm_Host Shielded_Validation
begin

text \<open>
  The validation specs beside the shielded one: self-signed and executed transactions and blocks,
  deploys and upgrades (\<^verbatim>\<open>src/validation/\<close>), the registries that hold them, and the sentinel's
  dispatch to them (\<^verbatim>\<open>sentinel/src/transaction_validator.rs\<close>).  A spec is the function its
  \<^verbatim>\<open>validate\<close> method is; logging is left out.
\<close>

section \<open>The specs\<close>

type_synonym tx_spec = "transaction \<Rightarrow> token \<Rightarrow> validation_result res"

record validation_env =
  ve_max_risk :: f64
  ve_environment_id :: string
  ve_crypto :: crypto_provider

text \<open>\<^verbatim>\<open>str::contains\<close>.\<close>

definition str_contains :: "string \<Rightarrow> string \<Rightarrow> bool" where
  "str_contains needle hay = list_ex (prefix needle) (suffixes hay)"

definition ordinary_risk :: "transaction \<Rightarrow> transaction_risk_factor" where
  "ordinary_risk tx =
     \<lparr>affected_parties = (if tx_receiver tx \<noteq> [] then 2 else 1), risk_amount = (case tx_amount tx of Some a \<Rightarrow> a | None \<Rightarrow> 0),
      is_contract = str_contains ''Contract'' (tx_action tx), is_multi_party = False\<rparr>"

definition contract_risk :: "transaction \<Rightarrow> transaction_risk_factor" where
  "contract_risk tx =
     \<lparr>affected_parties = 1, risk_amount = (case tx_amount tx of Some a \<Rightarrow> a | None \<Rightarrow> 0), is_contract = True, is_multi_party = False\<rparr>"

definition risk_gate :: "validation_env \<Rightarrow> transaction_risk_factor \<Rightarrow> validation_result res" where
  "risk_gate E r =
     (if f64_less (ve_max_risk E) (Fin (risk_score r)) then Inl (Validation [RiskExceedsThreshold])
      else Inr (validation_valid [] r))"

definition validate_self_signed :: "(string \<Rightarrow> bytes option) \<Rightarrow> tx_spec" where
  "validate_self_signed hex_decode tx t =
     (case map_of (tok_metadata t) ''owner'' of
        None \<Rightarrow> Inl (Validation [NotTokenOwner])
      | Some hex_owner \<Rightarrow>
          (case hex_decode hex_owner of
             None \<Rightarrow> Inl (Validation [NotTokenOwner])
           | Some owner \<Rightarrow>
               if tx_sender tx \<noteq> owner then Inl (Validation [NotTokenOwner])
               else Inr (validation_valid [] (ordinary_risk tx))))"

definition validate_executed :: "validation_env \<Rightarrow> tx_spec" where
  "validate_executed E tx t =
     (let failures =
            (if tx_sender tx = [] then [SenderMissing] else []) @
            (if tx_amount tx = None \<or> tx_amount tx = Some 0 then [InvalidAmount] else []) @
            (if tx_seq tx = 0 then [InvalidNonce] else [])
      in if failures \<noteq> [] then Inl (Validation failures) else risk_gate E (ordinary_risk tx))"

text \<open>What the two contract specs are constructed with.\<close>

record contract_gate =
  cg_world :: world
  cg_parse :: "bytes \<Rightarrow> wasm_payload list option"
  cg_compile :: "bytes \<Rightarrow> string + wasm_module"
  cg_codec :: governance_codec
  cg_hash :: "bytes \<Rightarrow> bytes"

text \<open>The bytecode checks that both contract specs run: the size cap, the module check, the scanner.\<close>

definition bytecode_gate :: "contract_gate \<Rightarrow> string \<Rightarrow> bytes \<Rightarrow> validation_failure_reason \<Rightarrow> unit res" where
  "bytecode_gate K name bytecode failed =
     (let is_wasm = (name = ''Wasm''); cap = (if is_wasm then WASM_MAX_MODULE_BYTES else SPEC_MAX_BYTECODE)
      in if length bytecode > cap then Inl (Validation [failed])
         else if is_wasm \<and> isl (validate_wasm_module (cg_compile K) bytecode)
         then Inl (Validation [failed])
         else if list_ex (\<lambda>f. snd f = Reject) (scan_contract (cg_world K) (cg_parse K) name bytecode)
         then Inl (Validation [ContractScanFailed])
         else Inr ())"

definition validate_deploy :: "contract_gate \<Rightarrow> (bytes \<Rightarrow> string \<Rightarrow> user res) \<Rightarrow> validation_env \<Rightarrow> tx_spec" where
  "validate_deploy K get_user E tx t =
     (let deploy_failed = Inl (Validation [ContractDeployFailed])
      in case gc_un_deploy (cg_codec K) (tx_payload tx) of
           Inl _ \<Rightarrow> deploy_failed
         | Inr p \<Rightarrow>
             if dpl_name p = [] \<or> length (dpl_name p) > 64 then deploy_failed
             else if map_of (cw_registry (cg_world K)) (dpl_engine p) = None then deploy_failed
             else (case bytecode_gate K (dpl_engine p) (dpl_bytecode p) ContractDeployFailed of
                     Inl e \<Rightarrow> Inl e
                   | Inr _ \<Rightarrow>
                       (case get_user (tx_sender tx) (ve_environment_id E) of
                          Inl _ \<Rightarrow> deploy_failed
                        | Inr u \<Rightarrow>
                            if user_nonce u \<noteq> tx_seq tx then Inl (Validation [InvalidNonce])
                            else risk_gate E (contract_risk tx))))"

definition validate_upgrade :: "contract_gate \<Rightarrow> validation_env \<Rightarrow> tx_spec" where
  "validate_upgrade K E tx t =
     (let failed = Inl (Validation [ContractUpgradeFailed])
      in case gc_un_upgrade (cg_codec K) (tx_payload tx) of
           Inl _ \<Rightarrow> failed
         | Inr p \<Rightarrow>
             if map_of (tok_metadata t) ''token_type'' \<noteq> Some ''contract'' then failed
             else (case get_asset (gc_un_contract (cg_codec K)) t of
                     None \<Rightarrow> failed
                   | Some current \<Rightarrow>
                       if sc_threshold current = 0 then failed
                       else (case verify_quorum (cg_codec K) (cg_hash K) (ve_crypto E) (tx_token tx) p (sc_owners current)
                                    (sc_threshold current) of
                               Inl _ \<Rightarrow> failed
                             | Inr quorum \<Rightarrow>
                                 if \<not> quorum then failed
                                 else (let name = (case map_of (tok_metadata t) ''contract_engine'' of Some n \<Rightarrow> n | None \<Rightarrow> [])
                                       in case bytecode_gate K name (up_new_bytecode p) ContractUpgradeFailed of
                                            Inl e \<Rightarrow> Inl e
                                          | Inr _ \<Rightarrow> risk_gate E (contract_risk tx)))))"

section \<open>Block specs and the registries\<close>

definition validate_self_signed_block :: "codec \<Rightarrow> (bytes \<Rightarrow> bytes) \<Rightarrow> block \<Rightarrow> token \<Rightarrow> spec_result res" where
  "validate_self_signed_block c hash b t =
     (if \<not> validate_next_block c hash (tok_blockchain t) b then Inl (Validation [NotSelfVerified])
      else if \<not> is_self_verified t then Inl (Validation [NotSelfVerified])
      else Inr SpecValid)"

definition validate_executed_block :: "block \<Rightarrow> token \<Rightarrow> spec_result res" where
  "validate_executed_block b t =
     (if tx_result_hash (sx_transaction (signed_trans b)) = [] then Inl (Validation [MissingResultHash])
      else if sx_executor_sigs (signed_trans b) = [] then Inl (Validation [MissingExecutorSignatures])
      else if sig_signature (sx_finalizer_sig (signed_trans b)) = [] then Inl (Validation [MissingFinalizerSignature])
      else Inr SpecValid)"

definition register_block_spec :: "string \<Rightarrow> (block \<Rightarrow> token \<Rightarrow> spec_result res) \<Rightarrow> block_specs \<Rightarrow> block_specs" where
  "register_block_spec name spec specs = AList.update name spec specs"

definition default_block_specs :: "codec \<Rightarrow> (bytes \<Rightarrow> bytes) \<Rightarrow> block_specs" where
  "default_block_specs c hash =
     register_block_spec ''Executed'' validate_executed_block
       (register_block_spec ''SelfSigned'' (validate_self_signed_block c hash) [])"

type_synonym tx_specs = "(string \<times> tx_spec) list"

definition register_tx_spec :: "string \<Rightarrow> tx_spec \<Rightarrow> tx_specs \<Rightarrow> tx_specs" where
  "register_tx_spec name spec specs = AList.update name spec specs"

definition default_tx_specs :: "(string \<Rightarrow> bytes option) \<Rightarrow> validation_env \<Rightarrow> tx_specs \<Rightarrow> tx_specs" where
  "default_tx_specs hex_decode E specs =
     register_tx_spec ''Executed'' (validate_executed E) (register_tx_spec ''SelfSigned'' (validate_self_signed hex_decode) specs)"

definition register_deploy :: "contract_gate \<Rightarrow> (bytes \<Rightarrow> string \<Rightarrow> user res) \<Rightarrow> validation_env \<Rightarrow> tx_specs \<Rightarrow> tx_specs" where
  "register_deploy K get_user E specs = register_tx_spec ''DeployContract'' (validate_deploy K get_user E) specs"

definition register_upgrade :: "contract_gate \<Rightarrow> validation_env \<Rightarrow> tx_specs \<Rightarrow> tx_specs" where
  "register_upgrade K E specs = register_tx_spec ''UpgradeContract'' (validate_upgrade K E) specs"

section \<open>The sentinel's dispatch\<close>

definition spec_for :: "tx_specs \<Rightarrow> transaction \<Rightarrow> token \<Rightarrow> tx_spec option" where
  "spec_for specs tx t =
     (if is_self_verified t then map_of specs ''SelfSigned''
      else if tx_action tx \<noteq> []
      then (case map_of specs (tx_action tx) of Some s \<Rightarrow> Some s | None \<Rightarrow> map_of specs ''Executed'')
      else None)"

definition validate_transaction :: "tx_specs \<Rightarrow> (bytes \<Rightarrow> token res) \<Rightarrow> transaction \<Rightarrow> unit res" where
  "validate_transaction specs get_token tx =
     (case get_token (tx_token tx) of
        Inl _ \<Rightarrow> Inl (Validation [TokenNotFound])
      | Inr t \<Rightarrow>
          (case spec_for specs tx t of
             None \<Rightarrow> Inl (Validation [UnsupportedAction])
           | Some spec \<Rightarrow>
               (case spec tx t of
                  Inl e \<Rightarrow> Inl e
                | Inr r \<Rightarrow> if \<not> is_valid r then Inl (Validation (failure_reasons r)) else Inr ())))"

definition route_finalizers :: "transaction_risk_factor \<Rightarrow> nat" where
  "route_finalizers r =
     (let score = risk_score r
      in if 0 \<le> score \<and> score \<le> f32_round (3 / 10) then 1
         else if f32_round (3 / 10) \<le> score \<and> score \<le> f32_round (6 / 10) then 2 else 3)"

section \<open>What the specs accept\<close>

lemma risk_gate_ok:
  "risk_gate E r = Inr v \<longleftrightarrow> v = validation_valid [] r \<and> \<not> f64_less (ve_max_risk E) (Fin (risk_score r))"
  by (auto simp: risk_gate_def)

lemma bytecode_gate_ok:
  "bytecode_gate K name code failed = Inr u \<longleftrightarrow>
     length code \<le> (if name = ''Wasm'' then WASM_MAX_MODULE_BYTES else SPEC_MAX_BYTECODE) \<and>
     (name = ''Wasm'' \<longrightarrow> (\<exists>m. validate_wasm_module (cg_compile K) code = Inr m)) \<and>
     (\<forall>f \<in> set (scan_contract (cg_world K) (cg_parse K) name code). snd f \<noteq> Reject)"
  by (auto simp: bytecode_gate_def Let_def list_ex_iff isl_def split: if_splits sum.splits) (metis sum.exhaust)+

text \<open>An executed transaction passes exactly when it names a sender, carries a positive amount and a
  positive sequence number and its composite risk is within the environment's threshold; when it is
  refused for its fields, every offending field is reported, in order.
\<close>

theorem validate_executed_exact:
  "(validate_executed E tx t = Inr v \<longleftrightarrow>
      tx_sender tx \<noteq> [] \<and> (\<exists>a. tx_amount tx = Some a \<and> 0 < a) \<and> 0 < tx_seq tx \<and>
      \<not> f64_less (ve_max_risk E) (Fin (risk_score (ordinary_risk tx))) \<and> v = validation_valid [] (ordinary_risk tx)) \<and>
   (validate_executed E tx t = Inl e \<longleftrightarrow>
      e = Validation
            ((if tx_sender tx = [] then [SenderMissing] else []) @
             (if tx_amount tx \<in> {None, Some 0} then [InvalidAmount] else []) @
             (if tx_seq tx = 0 then [InvalidNonce] else [])) \<and>
      (tx_sender tx = [] \<or> tx_amount tx \<in> {None, Some 0} \<or> tx_seq tx = 0) \<or>
      e = Validation [RiskExceedsThreshold] \<and> tx_sender tx \<noteq> [] \<and> tx_amount tx \<notin> {None, Some 0} \<and> tx_seq tx \<noteq> 0 \<and>
      f64_less (ve_max_risk E) (Fin (risk_score (ordinary_risk tx))))"
  by (cases "tx_amount tx") (auto simp: validate_executed_def risk_gate_def Let_def word_gt_0)


text \<open>A deploy that the spec admits can be carried out: its parameters decode, the executor's
  derivation succeeds on them under the sender's current nonce, and a \<^verbatim>\<open>Spec\<close> program decodes, has
  version 1 and at most 1000 instructions.
\<close>

theorem admitted_deploy_derivable:
  assumes "validate_deploy K get_user E tx t = Inr v" and "map_of (cw_registry (cg_world K)) [] = None"
  shows "\<exists>p d u. gc_un_deploy (cg_codec K) (tx_payload tx) = Inr p \<and>
           get_user (tx_sender tx) (ve_environment_id E) = Inr u \<and> user_nonce u = tx_seq tx \<and>
           deploy_contract (cg_codec K) (cg_hash K) (tx_sender tx) (of_nat (tx_seq tx)) p = Inr d \<and>
           (dpl_engine p = ''Spec'' \<longrightarrow>
              (\<exists>prog. cw_program (cg_world K) (dpl_bytecode p) = Inr prog \<and> prog_version prog = 1 \<and> length (prog_ops prog) \<le> 1000))"
proof -
  obtain p where p: "gc_un_deploy (cg_codec K) (tx_payload tx) = Inr p" and name: "dpl_name p \<noteq> []"
    and eng: "map_of (cw_registry (cg_world K)) (dpl_engine p) \<noteq> None"
    and code: "bytecode_gate K (dpl_engine p) (dpl_bytecode p) ContractDeployFailed = Inr ()"
    using assms(1) by (auto simp: validate_deploy_def Let_def split: sum.splits if_splits)
  obtain u where u: "get_user (tx_sender tx) (ve_environment_id E) = Inr u" "user_nonce u = tx_seq tx"
    using assms(1) p name eng code by (auto simp: validate_deploy_def Let_def split: sum.splits if_splits)
  have "dpl_engine p \<noteq> []" using eng assms(2) by metis
  then have derived: "\<exists>d. deploy_contract (cg_codec K) (cg_hash K) (tx_sender tx) (of_nat (tx_seq tx)) p = Inr d"
    using name by (simp add: deploy_contract_def)
  have "\<exists>prog. cw_program (cg_world K) (dpl_bytecode p) = Inr prog \<and> prog_version prog = 1 \<and> length (prog_ops prog) \<le> 1000"
    if spec: "dpl_engine p = ''Spec''"
  proof -
    have no_reject: "\<forall>f \<in> set (scan_spec (cg_world K) (dpl_bytecode p)). snd f \<noteq> Reject"
      using code spec by (simp add: bytecode_gate_ok scan_contract_def)
    then obtain prog where prog: "cw_program (cg_world K) (dpl_bytecode p) = Inr prog"
      by (cases "cw_program (cg_world K) (dpl_bytecode p)") (simp_all add: scan_spec_def)
    obtain fs under where "depth_walk 0 (prog_ops prog) = (fs, under)" by (rule prod.exhaust)
    moreover have "(SpecBadVersion, Reject) \<notin> set (scan_spec (cg_world K) (dpl_bytecode p))"
      and "(SpecTooManyInstructions, Reject) \<notin> set (scan_spec (cg_world K) (dpl_bytecode p))"
      using no_reject by auto
    ultimately show ?thesis using prog by (auto simp: scan_spec_def SPEC_MAX_INSTRUCTIONS_def)
  qed
  with p u derived show ?thesis by blast
qed

section \<open>Deployed contracts and the default block specs\<close>

lemma default_self_signed: "map_of (default_block_specs c hash) ''SelfSigned'' = Some (validate_self_signed_block c hash)"
  by (simp add: default_block_specs_def register_block_spec_def update_conv')

lemma self_signed_refuses:
  assumes "\<not> is_self_verified t" and "validator_name_of t = ''SelfSigned''" and "chain (tok_blockchain t) = []"
  shows "\<exists>e. commit_block c hash (default_block_specs c hash) b archiver rb t = (Inl e, t)"
proof (cases "create_hash c hash b")
  case (Inl x)
  then show ?thesis by (simp add: commit_block_def)
next
  case (Inr h)
  have removed: "rollback_tip rb t = (None, t)"
    using assms(3) by (auto simp: rollback_tip_def remove_block_def split: option.split)
  have "\<exists>e. validate_block c hash (default_block_specs c hash) t (b\<lparr>current_hash := h\<rparr>) = Inl e"
    using assms(1,2) by (simp add: validate_block_def default_self_signed validate_self_signed_block_def)
  with Inr removed show ?thesis by (auto simp: commit_block_def restore_tip_def Let_def)
qed

text \<open>No block can ever be committed to a contract token created by a deploy under the default block
  specs: the token keeps the self-signed spec of a new token, which refuses every block of a token
  that is not self-verified.
\<close>

theorem deployed_contract_cannot_commit:
  assumes "to_token G d env = Inr t"
  shows "\<exists>e. commit_block c hash (default_block_specs c hash) b archiver rb t = (Inl e, t)"
  using assms
proof (rule to_token_ok)
  fix data
  assume "t = token_new\<lparr>asset_data := Some data, tok_id := ctd_token_id d, tok_environment_id := env,
                        tok_metadata := AList.update ''name'' (ctd_name d)
                          (AList.update ''contract_engine'' (ctd_engine d)
                            (AList.update ''token_type'' ''contract''
                              (fold (\<lambda>(k, v) m. AList.update k v m) (ctd_metadata d) [])))\<rparr>"
  then show ?thesis
    by (intro self_signed_refuses) (simp_all add: token_new_def validator_name_of_def blockchain_new_def)
qed

text \<open>The gas of a module of the largest size, which a comment of the source puts at about 150 000.\<close>

lemma deploy_gas_max_module: "deploy_gas WASM_MAX_MODULE_BYTES = 10535760"
  by (simp add: deploy_gas_def DEPLOY_GAS_BASE_def DEPLOY_GAS_PER_BYTE_def WASM_MAX_MODULE_BYTES_def)

section \<open>Dispatch\<close>

text \<open>For a token that verifies itself the sentinel's only gate is that the sender is the owner named
  in its metadata: amount, sequence number, action and risk are not looked at.
\<close>

theorem self_verified_owner_only:
  assumes "get_token (tx_token tx) = Inr t" and "is_self_verified t"
  shows "validate_transaction (default_tx_specs hex_decode E specs) get_token tx = Inr () \<longleftrightarrow>
         (\<exists>h. map_of (tok_metadata t) ''owner'' = Some h \<and> hex_decode h = Some (tx_sender tx))"
proof -
  have "spec_for (default_tx_specs hex_decode E specs) tx t = Some (validate_self_signed hex_decode)"
    using assms(2) by (simp add: spec_for_def default_tx_specs_def register_tx_spec_def update_conv')
  then show ?thesis
    using assms(1) by (auto simp: validate_transaction_def validate_self_signed_def validation_valid_def split: option.splits)
qed

section \<open>Concrete instances\<close>

definition demo_gate :: contract_gate where
  "demo_gate =
     \<lparr>cg_world = demo_world, cg_parse = (\<lambda>_. None), cg_compile = (\<lambda>_. Inl []),
      cg_codec = demo_governance\<lparr>gc_un_deploy := (\<lambda>_. Inr demo_deploy), gc_un_upgrade := (\<lambda>_. Inr demo_upgrade),
                                 gc_un_contract := (\<lambda>_. Inr ((demo_contract [1])\<lparr>sc_owners := [[8]], sc_threshold := 1\<rparr>))\<rparr>,
      cg_hash = id\<rparr>"

definition demo_venv :: validation_env where
  "demo_venv = \<lparr>ve_max_risk = PInf, ve_environment_id = ''main'', ve_crypto = demo_owner_crypto\<rparr>"

definition demo_deploy_tx :: transaction where
  "demo_deploy_tx = demo_tx\<lparr>tx_seq := 3\<rparr>"

definition demo_get_user :: "bytes \<Rightarrow> string \<Rightarrow> user res" where
  "demo_get_user key env = Inr ((user_new key)\<lparr>user_nonce := 3\<rparr>)"

lemma demo_canary: "canary_run demo_world ''Spec'' [1] = []"
proof -
  have "map_of (cw_registry demo_world) ''Spec'' = Some SpecEngine"
    by (simp add: demo_world_def register_defaults_def register_engine_def engine_name_def update_conv')
  moreover have "engine_execute demo_world SpecEngine (canary_input ''Spec'' [1]) = Inr \<lparr>eo_result = to_le_bytes 5, eo_gas = 4\<rparr>"
    by (simp add: machine_eval Let_def word_le_nat_alt CANARY_FUEL_BUDGET_def)
  moreover have "length (to_le_bytes 5) \<le> CANARY_MAX_OUTPUT"
    by (simp add: to_le_bytes_def CANARY_MAX_OUTPUT_def to_be_bytes_def)
  ultimately show ?thesis by (simp add: canary_run_def)
qed

lemma demo_spec_gate: "bytecode_gate demo_gate ''Spec'' [1] r = Inr ()"
  using demo_canary by (simp add: bytecode_gate_ok SPEC_MAX_BYTECODE_def scan_contract_def demo_gate_def) (simp add: machine_eval)

lemma demo_deploy_admitted:
  "validate_deploy demo_gate demo_get_user demo_venv demo_deploy_tx token_new = Inr (validation_valid [] (contract_risk demo_deploy_tx))"
proof -
  have "gc_un_deploy (cg_codec demo_gate) (tx_payload demo_deploy_tx) = Inr demo_deploy" by (simp add: demo_gate_def)
  moreover have "dpl_name demo_deploy = ''demo''" "dpl_engine demo_deploy = ''Spec''" "dpl_bytecode demo_deploy = [1]"
    by (simp_all add: demo_deploy_def demo_contract_def)
  moreover have "map_of (cw_registry (cg_world demo_gate)) ''Spec'' = Some SpecEngine"
    by (simp add: demo_gate_def demo_world_def register_defaults_def register_engine_def engine_name_def update_conv')
  ultimately show ?thesis
    by (simp add: validate_deploy_def demo_spec_gate demo_get_user_def demo_deploy_tx_def risk_gate_def demo_venv_def user_new_def)
qed

theorem admitted_deploy_derivable_witness:
  "\<exists>p d. deploy_contract (cg_codec demo_gate) (cg_hash demo_gate) (tx_sender demo_deploy_tx) (of_nat 3) p = Inr d"
proof -
  have "map_of (cw_registry (cg_world demo_gate)) [] = None"
    by (simp add: demo_gate_def demo_world_def register_defaults_def register_engine_def engine_name_def)
  from admitted_deploy_derivable [OF demo_deploy_admitted this] show ?thesis by (auto simp: demo_deploy_tx_def)
qed

definition demo_upgradable :: token where
  "demo_upgradable = token_new\<lparr>asset_data := Some [1], tok_metadata := [(''token_type'', ''contract''), (''contract_engine'', ''Native'')]\<rparr>"

lemma demo_upgradable_asset:
  "get_asset (gc_un_contract (cg_codec demo_gate)) demo_upgradable = Some ((demo_contract [1])\<lparr>sc_owners := [[8]], sc_threshold := 1\<rparr>)"
  by (simp add: get_asset_def demo_upgradable_def demo_gate_def)

lemma demo_upgrade_admitted:
  "validate_upgrade demo_gate demo_venv demo_tx demo_upgradable = Inr (validation_valid [] (contract_risk demo_tx))"
proof -
  have "gc_un_upgrade (cg_codec demo_gate) (tx_payload demo_tx) = Inr demo_upgrade" by (simp add: demo_gate_def)
  moreover have "verify_quorum (cg_codec demo_gate) (cg_hash demo_gate) (ve_crypto demo_venv) (tx_token demo_tx) demo_upgrade [[8]] 1 = Inr True"
    by (simp add: verify_quorum_def Let_def owner_signed_def demo_venv_def demo_owner_crypto_def demo_upgrade_def)
  moreover have "bytecode_gate demo_gate ''Native'' (up_new_bytecode demo_upgrade) ContractUpgradeFailed = Inr ()"
    by (simp add: bytecode_gate_ok scan_contract_def SPEC_MAX_BYTECODE_def demo_upgrade_def)
  ultimately show ?thesis
    by (simp add: validate_upgrade_def demo_upgradable_asset Let_def demo_venv_def) (simp add: demo_upgradable_def risk_gate_def)
qed


theorem deployed_contract_cannot_commit_witness:
  "\<exists>d t e. to_token demo_governance d ''main'' = Inr t \<and>
     commit_block demo_codec length_hash (default_block_specs demo_codec length_hash) demo_next False None t = (Inl e, t)"
proof -
  let ?d = "\<lparr>ctd_token_id = [3], ctd_name = ''demo'', ctd_engine = ''Spec'', ctd_bytecode = [1], ctd_metadata = [], ctd_owners = [],
             ctd_threshold = 0\<rparr>"
  obtain t where t: "to_token demo_governance ?d ''main'' = Inr t"
    by (simp add: to_token_def from_asset_def demo_governance_def demo_contract_def Let_def)
  with deployed_contract_cannot_commit [OF t] show ?thesis by blast
qed

definition owned_token :: token where
  "owned_token = token_new\<lparr>is_self_verified := True, tok_metadata := [(''owner'', ''ab'')]\<rparr>"

theorem self_verified_owner_only_witness:
  "validate_transaction (default_tx_specs (\<lambda>_. Some (tx_sender demo_tx)) demo_venv []) (\<lambda>_. Inr owned_token)
     (demo_tx\<lparr>tx_amount := None, tx_seq := 0\<rparr>) = Inr ()"
  using self_verified_owner_only [of "\<lambda>_. Inr owned_token" "demo_tx\<lparr>tx_amount := None, tx_seq := 0\<rparr>" owned_token "\<lambda>_. Some (tx_sender demo_tx)"
      demo_venv "[]"]
  by (simp add: owned_token_def)

end
