(* ===== verification/Actions.thy ===== *)
theory Actions
  imports Prelude
begin

text \<open>
  Operations that read and change a state and may fail: a function from the state to a result and the
  state it leaves, also when it fails.  The locale holds what a handler built from such operations
  keeps, when every operation keeps it.
\<close>

section \<open>Operations that may fail\<close>

type_synonym ('e, 's, 'a) action = "'s \<Rightarrow> ('e + 'a) \<times> 's"

definition ret :: "'a \<Rightarrow> ('e, 's, 'a) action" where
  "ret x = (\<lambda>s. (Inr x, s))"

definition raise :: "'e \<Rightarrow> ('e, 's, 'a) action" where
  "raise e = (\<lambda>s. (Inl e, s))"

definition bind_act :: "('e, 's, 'a) action \<Rightarrow> ('a \<Rightarrow> ('e, 's, 'b) action) \<Rightarrow> ('e, 's, 'b) action" where
  "bind_act m k = (\<lambda>s. case m s of (Inl e, s') \<Rightarrow> (Inl e, s') | (Inr x, s') \<Rightarrow> k x s')"

definition lift_res :: "'e + 'a \<Rightarrow> ('e, 's, 'a) action" where
  "lift_res r = (\<lambda>s. (r, s))"

definition alter :: "('s \<Rightarrow> 's) \<Rightarrow> ('e, 's, unit) action" where
  "alter f = (\<lambda>s. (Inr (), f s))"

text \<open>A step whose failure is dropped, as \<^verbatim>\<open>let _ = \<dots>\<close> does.\<close>

definition ignored :: "('e, 's, 'a) action \<Rightarrow> ('e2, 's, unit) action" where
  "ignored m = (\<lambda>s. (Inr (), snd (m s)))"

lemma bind_act_Inr: "bind_act m k s = (Inr y, u) \<Longrightarrow> \<exists>x t. m s = (Inr x, t) \<and> k x t = (Inr y, u)"
  by (auto simp: bind_act_def split: prod.splits sum.splits)

lemma bind_act_unit: "bind_act m (\<lambda>_. k) s = (Inr y, u) \<Longrightarrow> \<exists>t. m s = (Inr (), t) \<and> k t = (Inr y, u)"
  using bind_act_Inr [of m "\<lambda>_. k"] by fastforce

lemma bind_act_assoc: "bind_act (bind_act m k) l = bind_act m (\<lambda>x. bind_act (k x) l)"
  by (rule ext) (simp add: bind_act_def split: prod.splits sum.splits)

lemma action_simps [simp]:
  "lift_res r s = (r, s)" "ret x s = (Inr x, s)" "raise e s = (Inl e, s)" "alter f s = (Inr (), f s)"
  "ignored m s = (Inr (), snd (m s))"
  by (simp_all add: lift_res_def ret_def raise_def alter_def ignored_def)

lemma bind_lift: "bind_act (lift_res r) k s = (case r of Inl e \<Rightarrow> (Inl e, s) | Inr x \<Rightarrow> k x s)"
  by (simp add: bind_act_def split: sum.split)

lemma bind_alter: "bind_act (alter f) k s = k () (f s)"
  by (simp add: bind_act_def)

lemma bind_ok: "m s = (Inr x, t) \<Longrightarrow> bind_act m k s = k x t"
  by (simp add: bind_act_def)

lemma bind_err: "m s = (Inl e, t) \<Longrightarrow> bind_act m k s = (Inl e, t)"
  by (simp add: bind_act_def)

section \<open>Relations that actions respect\<close>

locale action_order =
  fixes R :: "'s \<Rightarrow> 's \<Rightarrow> bool"
  assumes unchanged: "R s s" and chained: "R s t \<Longrightarrow> R t u \<Longrightarrow> R s u"
begin

lemma bound_at:
  assumes "R s (snd (m s))" and "\<And>x t. m s = (Inr x, t) \<Longrightarrow> R t (snd (k x t))"
  shows "R s (snd (bind_act m k s))"
proof -
  obtain r t where m: "m s = (r, t)" by fastforce
  have st: "R s t" using assms(1) m by simp
  show ?thesis
  proof (cases r)
    case (Inl e)
    then show ?thesis using m st by (simp add: bind_act_def)
  next
    case (Inr x)
    then show ?thesis using m chained [OF st assms(2) [of x t]] by (simp add: bind_act_def)
  qed
qed

lemma bound:
  assumes "\<And>s. R s (snd (m s))" and "\<And>x s. R s (snd (k x s))"
  shows "R s (snd (bind_act m k s))"
  using assms by (rule bound_at)

lemma bound_lift:
  assumes "\<And>x. r = Inr x \<Longrightarrow> R s (snd (k x s))"
  shows "R s (snd (bind_act (lift_res r) k s))"
  using assms by (intro bound_at) (simp_all add: unchanged)

lemma lifted: "R s (snd (lift_res r s))"
  by (simp add: lift_res_def unchanged)

lemma folded:
  assumes "\<And>x s. R s (f x s)"
  shows "R s (fold f xs s)"
  by (induction xs arbitrary: s) (auto simp: unchanged intro: chained [OF assms])

lemma iterated:
  assumes "\<And>s t. step s t \<Longrightarrow> R s t" and "step\<^sup>*\<^sup>* s t"
  shows "R s t"
  using assms(2) by (induction rule: rtranclp_induct) (auto simp: unchanged intro: chained assms(1))

end

end
