(* ===== verification/Gossip.thy ===== *)
theory Gossip
  imports Node_Registry Stake_Sets
begin

text \<open>
  The wire message of \<^verbatim>\<open>src/messages.rs\<close> and the gossip layer of \<^verbatim>\<open>src/gossiper.rs\<close>: signature
  check, deduplication over the sender's key and the body, and the fan-out to the handlers.  The
  decoder, the hash, the signature scheme and the eviction of the bounded cache are parameters; a
  call of a handler is recorded in the state; the clock is an argument, in seconds.
\<close>

section \<open>Messages\<close>

record message =
  msg_chain_id :: string
  msg_action :: string
  msg_body :: bytes
  msg_signature :: bytes
  msg_public_key :: bytes
  msg_stake_set :: "stake_set option"

definition message_signed ::
    "crypto_provider \<Rightarrow> string \<Rightarrow> string \<Rightarrow> bytes \<Rightarrow> stake_set option \<Rightarrow> message res" where
  "message_signed identity chain_id action body stakes =
     (case sign_data identity body of
        Inl e \<Rightarrow> Inl e
      | Inr sig \<Rightarrow>
          (case public_key identity of
             Inl e \<Rightarrow> Inl e
           | Inr key \<Rightarrow> Inr \<lparr>msg_chain_id = chain_id, msg_action = action, msg_body = body, msg_signature = sig,
                             msg_public_key = key, msg_stake_set = stakes\<rparr>))"

definition acknowledge :: bytes where
  "acknowledge = as_bytes ''ack''"

section \<open>The gossiper\<close>

record gossip_env =
  ge_decode :: "bytes \<Rightarrow> io_error + message"
  ge_crypto :: crypto_provider
  ge_sha :: "bytes \<Rightarrow> bytes"
  ge_ttl :: nat
  ge_evict :: "(bytes \<times> nat) list \<Rightarrow> (bytes \<times> nat) list"

record gossiper =
  gs_cache :: "(bytes \<times> nat) list"
  gs_handlers :: nat
  gs_calls :: "(nat \<times> bytes) list"

definition gossiper_new :: gossiper where
  "gossiper_new = \<lparr>gs_cache = [], gs_handlers = 0, gs_calls = []\<rparr>"

definition add_handler :: "gossiper \<Rightarrow> gossiper" where
  "add_handler g = g\<lparr>gs_handlers := gs_handlers g + 1\<rparr>"

text \<open>The entry of a key is served until its time to live has passed.\<close>

definition cache_hit :: "gossip_env \<Rightarrow> nat \<Rightarrow> bytes \<Rightarrow> gossiper \<Rightarrow> bool" where
  "cache_hit E now k g = (case map_of (gs_cache g) k of None \<Rightarrow> False | Some t \<Rightarrow> now < t + ge_ttl E)"

definition dedup_key :: "gossip_env \<Rightarrow> bytes \<Rightarrow> bytes \<Rightarrow> bytes" where
  "dedup_key E key body = ge_sha E key @ ge_sha E body"

definition gossip_message :: "gossip_env \<Rightarrow> nat \<Rightarrow> bytes \<Rightarrow> gossiper \<Rightarrow> (data_error + unit) \<times> gossiper" where
  "gossip_message E now raw g =
     (case ge_decode E raw of
        Inl e \<Rightarrow> (Inl (DeserializationError e), g)
      | Inr m \<Rightarrow>
          (case check_signature (ge_crypto E) (msg_signature m) (msg_public_key m) (msg_body m) of
             Inl e \<Rightarrow> (Inl (DataCryptoError ''signature check''), g)
           | Inr verified \<Rightarrow>
               if \<not> verified then (Inl DataInvalidSignature, g)
               else
                 (let k = dedup_key E (msg_public_key m) (msg_body m)
                  in if cache_hit E now k g then (Inr (), g)
                     else (Inr (), g\<lparr>gs_cache := ge_evict E (AList.update k now (gs_cache g)),
                                     gs_calls := gs_calls g @ map (\<lambda>i. (i, raw)) [0..<gs_handlers g]\<rparr>))))"

text \<open>\<^verbatim>\<open>send_to_type\<close>: one send per node of a bucket, in the order of the bucket, up to the first failure.\<close>

fun send_each :: "(registry_node \<Rightarrow> bytes \<Rightarrow> string + bytes) \<Rightarrow> bytes \<Rightarrow> registry_node list \<Rightarrow> (data_error + unit) \<times> bytes list" where
  "send_each sender payload [] = (Inr (), [])"
| "send_each sender payload (n # ns) =
     (case sender n payload of
        Inl e \<Rightarrow> (Inl (FromStore e), [])
      | Inr _ \<Rightarrow> (case send_each sender payload ns of (r, reached) \<Rightarrow> (r, rn_rhash n # reached)))"

definition send_to_type ::
    "node_registry \<Rightarrow> node_registry_type \<Rightarrow> (registry_node \<Rightarrow> bytes \<Rightarrow> string + bytes) \<Rightarrow> bytes \<Rightarrow>
     (data_error + unit) \<times> bytes list" where
  "send_to_type r t sender payload = send_each sender payload (map snd (get_nodes r t))"

section \<open>What the handlers see\<close>

text \<open>A message that was accepted: it decodes and its signature covers its body.\<close>

definition authentic :: "gossip_env \<Rightarrow> bytes \<Rightarrow> bool" where
  "authentic E raw \<longleftrightarrow>
     (case ge_decode E raw of
        Inl _ \<Rightarrow> False
      | Inr m \<Rightarrow> check_signature (ge_crypto E) (msg_signature m) (msg_public_key m) (msg_body m) = Inr True)"

definition dedup_of :: "gossip_env \<Rightarrow> bytes \<Rightarrow> bytes" where
  "dedup_of E raw = (case ge_decode E raw of Inl _ \<Rightarrow> [] | Inr m \<Rightarrow> dedup_key E (msg_public_key m) (msg_body m))"

lemma gossip_message_eq:
  "gossip_message E now raw g =
     (if authentic E raw
      then (Inr (), if cache_hit E now (dedup_of E raw) g then g
                    else g\<lparr>gs_cache := ge_evict E (AList.update (dedup_of E raw) now (gs_cache g)),
                           gs_calls := gs_calls g @ map (\<lambda>i. (i, raw)) [0..<gs_handlers g]\<rparr>)
      else (fst (gossip_message E now raw g), g))"
  by (auto simp: gossip_message_def authentic_def dedup_of_def Let_def split: sum.splits)

text \<open>A history of arrivals, each with the time it is handled at.\<close>

definition gossip_run :: "gossip_env \<Rightarrow> (nat \<times> bytes) list \<Rightarrow> gossiper \<Rightarrow> gossiper" where
  "gossip_run E arrivals g = fold (\<lambda>(now, raw) g. snd (gossip_message E now raw g)) arrivals g"

lemma gossip_run_simps [simp]:
  "gossip_run E [] g = g"
  "gossip_run E ((now, raw) # rest) g = gossip_run E rest (snd (gossip_message E now raw g))"
  by (simp_all add: gossip_run_def)

lemma gossip_run_append: "gossip_run E (xs @ ys) g = gossip_run E ys (gossip_run E xs g)"
  by (simp add: gossip_run_def)

lemma gs_handlers_message [simp]: "gs_handlers (snd (gossip_message E now raw g)) = gs_handlers g"
  by (subst gossip_message_eq) simp

section \<open>Exactly once\<close>

definition DEDUP_CAPACITY :: nat where "DEDUP_CAPACITY = 10000"

text \<open>What a handler should see of a history: the authentic messages, the first of each sender and body.\<close>

fun first_of_each :: "gossip_env \<Rightarrow> bytes set \<Rightarrow> bytes list \<Rightarrow> bytes list" where
  "first_of_each E seen [] = []"
| "first_of_each E seen (raw # raws) =
     (if authentic E raw \<and> dedup_of E raw \<notin> seen
      then raw # first_of_each E (insert (dedup_of E raw) seen) raws
      else first_of_each E seen raws)"

lemma first_of_each_authentic: "raw \<in> set (first_of_each E seen raws) \<Longrightarrow> authentic E raw \<and> raw \<in> set raws"
  by (induction E seen raws rule: first_of_each.induct) (auto split: if_splits)

lemma first_of_each_distinct: "distinct (map (dedup_of E) (first_of_each E seen raws)) \<and>
    dedup_of E ` set (first_of_each E seen raws) \<inter> seen = {}"
  by (induction E seen raws rule: first_of_each.induct) auto

text \<open>What one handler was called with.\<close>

definition seen_by :: "nat \<Rightarrow> gossiper \<Rightarrow> bytes list" where
  "seen_by i g = map snd (filter (\<lambda>c. fst c = i) (gs_calls g))"

lemma seen_by_calls:
  "i < n \<Longrightarrow> seen_by i (g\<lparr>gs_cache := c, gs_calls := gs_calls g @ map (\<lambda>i. (i, raw)) [0..<n]\<rparr>) = seen_by i g @ [raw]"
proof -
  assume "i < n"
  then have one: "filter (\<lambda>j. j = i) [0..<n] = [i]"
    by (induction n) (auto simp: less_Suc_eq filter_empty_conv)
  show ?thesis
    by (simp add: seen_by_def filter_map comp_def one)
qed

lemma update_new: "k \<notin> fst ` set m \<Longrightarrow> AList.update k v m = m @ [(k, v)]"
  by (induction m) auto

text \<open>Within one lifetime of the cache entries and within its capacity a key is served iff it was inserted.\<close>

lemma gossip_run_seen:
  assumes "\<And>c. length c \<le> DEDUP_CAPACITY \<Longrightarrow> ge_evict E c = c"
    and "\<forall>x \<in> set arrivals. start \<le> fst x \<and> fst x < start + ge_ttl E"
    and "length (gs_cache g) + length arrivals \<le> DEDUP_CAPACITY"
    and "\<forall>t \<in> snd ` set (gs_cache g). start \<le> t" and "i < gs_handlers g"
  shows "seen_by i (gossip_run E arrivals g) = seen_by i g @ first_of_each E (fst ` set (gs_cache g)) (map snd arrivals)"
  using assms(2-)
proof (induction arrivals arbitrary: g)
  case Nil
  then show ?case by simp
next
  case (Cons x arrivals)
  obtain now raw where x: "x = (now, raw)" by (cases x)
  define k where "k = dedup_of E raw"
  have now: "start \<le> now" "now < start + ge_ttl E" using Cons.prems(1) x by auto
  have hit: "cache_hit E now k g \<longleftrightarrow> k \<in> fst ` set (gs_cache g)"
  proof (cases "map_of (gs_cache g) k")
    case None
    then have "k \<notin> fst ` set (gs_cache g)" by (simp add: map_of_eq_None_iff)
    then show ?thesis using None by (simp add: cache_hit_def)
  next
    case (Some t)
    then have "(k, t) \<in> set (gs_cache g)" by (rule map_of_SomeD)
    then have "start \<le> t" "k \<in> fst ` set (gs_cache g)" using Cons.prems(3) by force+
    then show ?thesis using Some now by (simp add: cache_hit_def)
  qed
  show ?case
  proof (cases "authentic E raw \<and> \<not> cache_hit E now k g")
    case False
    then have "snd (gossip_message E now raw g) = g"
      by (subst gossip_message_eq) (auto simp: k_def)
    moreover have "seen_by i (gossip_run E arrivals g) = seen_by i g @ first_of_each E (fst ` set (gs_cache g)) (map snd arrivals)"
      using Cons.prems by (intro Cons.IH) auto
    moreover have "\<not> (authentic E raw \<and> k \<notin> fst ` set (gs_cache g))" using False hit by blast
    ultimately show ?thesis
      by (auto simp: x k_def)
  next
    case True
    then have new: "k \<notin> fst ` set (gs_cache g)" using hit by simp
    define g1 where "g1 = g\<lparr>gs_cache := gs_cache g @ [(k, now)],
                            gs_calls := gs_calls g @ map (\<lambda>i. (i, raw)) [0..<gs_handlers g]\<rparr>"
    have "ge_evict E (gs_cache g @ [(k, now)]) = gs_cache g @ [(k, now)]"
      using Cons.prems(2) by (intro assms(1)) simp
    then have step: "snd (gossip_message E now raw g) = g1"
      using True new by (subst gossip_message_eq) (simp add: g1_def k_def update_new)
    have "seen_by i (gossip_run E arrivals g1) =
          seen_by i g1 @ first_of_each E (fst ` set (gs_cache g1)) (map snd arrivals)"
      using Cons.prems now by (intro Cons.IH) (auto simp: g1_def)
    moreover have "seen_by i g1 = seen_by i g @ [raw]"
      unfolding g1_def using Cons.prems(4) by (rule seen_by_calls)
    moreover have "fst ` set (gs_cache g1) = insert k (fst ` set (gs_cache g))"
      by (simp add: g1_def)
    ultimately show ?thesis
      using True new by (simp add: x step k_def)
  qed
qed


text \<open>The action of a message is covered neither by its signature nor by the deduplication key.  A
  message replayed under another action, chain and stake set by anyone is accepted wherever the original
  was not seen, and once one of the two was handled the other is dropped without an error, although its
  handlers never ran.\<close>

theorem relabelled_message:
  assumes "ge_decode E raw = Inr m"
    and "ge_decode E raw' = Inr (m\<lparr>msg_action := action, msg_chain_id := chain_id, msg_stake_set := stakes\<rparr>)"
    and "fst (gossip_message E now raw g) = Inr ()" and "\<not> cache_hit E now (dedup_key E (msg_public_key m) (msg_body m)) g"
    and "now \<le> later" and "later < now + ge_ttl E" and "\<And>c. ge_evict E c = c"
  shows "gs_calls (snd (gossip_message E now raw' g)) = gs_calls g @ map (\<lambda>i. (i, raw')) [0..<gs_handlers g] \<and>
    gossip_message E later raw' (snd (gossip_message E now raw g)) = (Inr (), snd (gossip_message E now raw g))"
proof -
  have sig: "check_signature (ge_crypto E) (msg_signature m) (msg_public_key m) (msg_body m) = Inr True"
    using assms(1,3) by (auto simp: gossip_message_def split: sum.splits if_splits)
  then have auth: "authentic E raw" "authentic E raw'" and same: "dedup_of E raw' = dedup_of E raw"
    and key: "dedup_of E raw = dedup_key E (msg_public_key m) (msg_body m)"
    using assms(1,2) by (simp_all add: authentic_def dedup_of_def)
  have "gs_calls (snd (gossip_message E now raw' g)) = gs_calls g @ map (\<lambda>i. (i, raw')) [0..<gs_handlers g]"
    using auth same key assms(4) by (subst gossip_message_eq) simp
  moreover have "cache_hit E later (dedup_of E raw') (snd (gossip_message E now raw g))"
    using auth same key assms(4-7) by (subst gossip_message_eq) (simp add: cache_hit_def update_conv')
  then have "gossip_message E later raw' (snd (gossip_message E now raw g)) = (Inr (), snd (gossip_message E now raw g))"
    using auth by (subst gossip_message_eq) simp
  ultimately show ?thesis ..
qed

section \<open>A concrete gossiper\<close>

text \<open>The finalizer with key 9 signs the body 5; the two raw messages differ in the action alone.\<close>

definition confirm_message :: message where
  "confirm_message = \<lparr>msg_chain_id = ''env'', msg_action = ''Confirm'', msg_body = [5], msg_signature = [9, 5],
                      msg_public_key = [9], msg_stake_set = None\<rparr>"

definition demo_gossip :: gossip_env where
  "demo_gossip =
     \<lparr>ge_decode = (\<lambda>raw. if raw = [1] then Inr confirm_message
                         else if raw = [2] then Inr (confirm_message\<lparr>msg_action := ''Reject''\<rparr>)
                         else if raw = [3] then Inr (confirm_message\<lparr>msg_signature := []\<rparr>) else Inl ''bad''),
      ge_crypto = demo_crypto, ge_sha = (\<lambda>b. b), ge_ttl = 300, ge_evict = (\<lambda>c. c)\<rparr>"


theorem relabelled_message_witness:
  "gs_calls (snd (gossip_message demo_gossip 0 [2] (add_handler gossiper_new))) = [(0, [2])] \<and>
   gossip_message demo_gossip 1 [2] (snd (gossip_message demo_gossip 0 [1] (add_handler gossiper_new))) =
     (Inr (), snd (gossip_message demo_gossip 0 [1] (add_handler gossiper_new)))"
proof -
  have facts: "ge_decode demo_gossip [1] = Inr confirm_message"
    "ge_decode demo_gossip [2] = Inr (confirm_message\<lparr>msg_action := ''Reject'', msg_chain_id := ''env'', msg_stake_set := None\<rparr>)"
    "fst (gossip_message demo_gossip 0 [1] (add_handler gossiper_new)) = Inr ()"
    "\<not> cache_hit demo_gossip 0 (dedup_key demo_gossip (msg_public_key confirm_message) (msg_body confirm_message))
        (add_handler gossiper_new)"
    "(1::nat) < 0 + ge_ttl demo_gossip" "\<And>c. ge_evict demo_gossip c = c"
    by (simp_all add: gossip_message_def demo_gossip_def confirm_message_def demo_crypto_def cache_hit_def add_handler_def gossiper_new_def)
  show ?thesis
    using relabelled_message [OF facts(1,2,3,4) _ facts(5,6)] by (simp add: add_handler_def gossiper_new_def)
qed

end
