(* ===== verification/Committer.thy ===== *)
theory Committer
  imports Actions Validation_Specs Shielded_Pool Quorum Orphan_Buffer Staking Gossip Leader_Selection
begin

text \<open>
  The committer's state and its commit path: envelope authentication and routing authority
  (\<^verbatim>\<open>committer/src/committer.rs\<close>, \<^verbatim>\<open>committer/routing.rs\<close>), the token commit of
  \<^verbatim>\<open>committer/src/block_services.rs\<close>, conflict resolution, the pool steps, the contract deltas and
  the whole of \<^verbatim>\<open>check_and_commit_transaction_results\<close> (\<^verbatim>\<open>committer/committing.rs\<close>).  An operation is
  a function from the state to a result and the state it leaves, also when it fails; log lines are
  left out, a distribution to the archivers is recorded in the state.
\<close>

section \<open>Decoding identifiers\<close>

type_synonym ('s, 'a) act = "(committer_error, 's, 'a) action"

text \<open>\<^verbatim>\<open>String::from_utf8_lossy\<close>: the length of the leading sequence and whether it is well formed;
  an ill-formed one becomes the replacement character.\<close>

definition second_ok :: "u8 \<Rightarrow> u8 \<Rightarrow> bool" where
  "second_ok b c \<longleftrightarrow>
     continuation c \<and> (b = 0xE0 \<longrightarrow> 0xA0 \<le> c) \<and> (b = 0xED \<longrightarrow> c \<le> 0x9F) \<and> (b = 0xF0 \<longrightarrow> 0x90 \<le> c) \<and> (b = 0xF4 \<longrightarrow> c \<le> 0x8F)"

fun leading :: "bytes \<Rightarrow> nat \<times> bool" where
  "leading [] = (0, True)"
| "leading (b # bs) =
     (if b < 0x80 then (1, True)
      else if 0xC2 \<le> b \<and> b \<le> 0xDF then (case bs of c # _ \<Rightarrow> if continuation c then (2, True) else (1, False) | [] \<Rightarrow> (1, False))
      else if 0xE0 \<le> b \<and> b \<le> 0xEF
      then (case bs of
              c # r \<Rightarrow>
                if \<not> second_ok b c then (1, False)
                else (case r of d # _ \<Rightarrow> if continuation d then (3, True) else (2, False) | [] \<Rightarrow> (2, False))
            | [] \<Rightarrow> (1, False))
      else if 0xF0 \<le> b \<and> b \<le> 0xF4
      then (case bs of
              c # r \<Rightarrow>
                if \<not> second_ok b c then (1, False)
                else (case r of
                        d # r' \<Rightarrow>
                          if \<not> continuation d then (2, False)
                          else (case r' of e # _ \<Rightarrow> if continuation e then (4, True) else (3, False) | [] \<Rightarrow> (3, False))
                      | [] \<Rightarrow> (2, False))
            | [] \<Rightarrow> (1, False))
      else (1, False))"

function from_utf8_lossy :: "bytes \<Rightarrow> string" where
  "from_utf8_lossy bs =
     (if bs = [] then []
      else let (n, good) = leading bs
           in (if good then map (\<lambda>b. char_of (unat b)) (take (max 1 n) bs) else [CHR 0xEF, CHR 0xBF, CHR 0xBD]) @
              from_utf8_lossy (drop (max 1 n) bs))"
  by pat_completeness auto
termination
  by (relation "measure length") auto

declare from_utf8_lossy.simps [simp del]

section \<open>Environment and state\<close>

record transaction_commit =
  tc_trans_id :: bytes
  tc_token_id :: bytes
  tc_env_id :: string
  tc_block :: block

text \<open>The data provider over a store \<open>'d\<close>.\<close>

record 'd store_ops =
  sto_get_token :: "bytes \<Rightarrow> string \<Rightarrow> 'd \<Rightarrow> data_error + token"
  sto_save_token :: "bytes \<Rightarrow> token \<Rightarrow> string \<Rightarrow> 'd \<Rightarrow> (data_error + unit) \<times> 'd"
  sto_get_user :: "bytes \<Rightarrow> string \<Rightarrow> 'd \<Rightarrow> data_error + user"
  sto_save_user :: "bytes \<Rightarrow> user \<Rightarrow> string \<Rightarrow> 'd \<Rightarrow> (data_error + unit) \<times> 'd"
  sto_save_stakes :: "u64 \<Rightarrow> stake_set \<Rightarrow> string \<Rightarrow> 'd \<Rightarrow> (data_error + unit) \<times> 'd"
  sto_save_executors :: "u64 \<Rightarrow> executor_set \<Rightarrow> string \<Rightarrow> 'd \<Rightarrow> (data_error + unit) \<times> 'd"
  sto_pool :: "'d pool_provider"

record ('d, 'f, 'p) committer_env =
  ce_codec :: codec
  ce_hash :: "bytes \<Rightarrow> bytes"
  ce_crypto :: crypto_provider
  ce_public_key :: bytes
  ce_environment_id :: string
  ce_partition :: string
  ce_field :: "('f, 'p) field_ops"
  ce_max_risk :: f64
  ce_specs :: block_specs
  ce_slash_fraction :: f64
  ce_quorum_percentage :: f64
  ce_governance :: governance_codec
  ce_store :: "'d store_ops"
  ce_registry :: registry_env
  ce_select :: "stake_set \<Rightarrow> u64 \<Rightarrow> bytes \<Rightarrow> bytes"
  ce_epoch_duration :: i64
  ce_proposer :: block_proposer
  ce_reconciled_tokens :: "bytes list"
  ce_un_commit :: "bytes \<Rightarrow> io_error + transaction_commit"
  ce_un_block :: "bytes \<Rightarrow> io_error + block"
  ce_un_token :: "bytes \<Rightarrow> io_error + token"
  ce_un_vote :: "bytes \<Rightarrow> io_error + bytes \<times> bytes"
  ce_un_quorum :: "bytes \<Rightarrow> io_error + bytes"

record ('d, 'f) committer =
  co_tokens :: "token amap"
  co_committed :: "(string \<times> (u64 \<times> bytes)) list"
  co_pending :: pending_registry
  co_stakes :: stake_store
  co_candidates :: "block candidate_registry"
  co_pool :: "'f shielded_pool"
  co_epoch :: u64
  co_detector :: "epoch_boundary_detector option"
  co_quorum :: quorum_state
  co_orphans :: orphan_buffer
  co_nodes :: node_registry
  co_archived :: "block list"
  co_sent_votes :: "bytes list"
  co_data :: 'd

section \<open>Authentication\<close>

datatype allowed_senders = ExactRole node_registry_type | AnyRegistered | SelfOnly

definition allowed_senders_for :: "string \<Rightarrow> allowed_senders" where
  "allowed_senders_for action =
     (if action = ''Commit'' \<or> action = ''BlockFinalized'' then ExactRole Finalizer
      else if action = ''DistributeToken'' \<or> action = ''DistributeBlock'' then ExactRole Committer
      else if action = ''BlockConfirmed'' then AnyRegistered
      else if action = ''BlockQuorumReached'' then ExactRole Committer
      else if action = ''EpochReconcile'' then SelfOnly
      else ExactRole Committer)"

definition sender_public_key :: "('d, 'f, 'p) committer_env \<Rightarrow> bytes" where
  "sender_public_key E = (case public_key (ce_crypto E) of Inr k \<Rightarrow> k | Inl _ \<Rightarrow> [])"

definition authenticate_message :: "('d, 'f, 'p) committer_env \<Rightarrow> message \<Rightarrow> ('d, 'f) committer \<Rightarrow> unit cres" where
  "authenticate_message E m s =
     (case authenticate_envelope (ce_crypto E) (ce_registry E) (co_nodes s) (msg_signature m) (msg_public_key m) (msg_body m) of
        Inl _ \<Rightarrow> Inl (CeUnauthenticatedSender (bytes_to_hex (msg_public_key m)))
      | Inr roles \<Rightarrow>
          (case allowed_senders_for (msg_action m) of
             ExactRole expected \<Rightarrow>
               if node_may_send_action (ce_registry E) (co_nodes s) (msg_public_key m) [expected] then Inr ()
               else Inl (CeUnauthorizedRole (bytes_to_hex (msg_public_key m)))
           | SelfOnly \<Rightarrow>
               if msg_public_key m \<noteq> sender_public_key E then Inl (CeUnauthorizedRole (bytes_to_hex (msg_public_key m)))
               else Inr ()
           | AnyRegistered \<Rightarrow> Inr ()))"

section \<open>Routing authority\<close>

definition verify_finalizer_sig_under ::
    "('d, 'f, 'p) committer_env \<Rightarrow> signed_transaction \<Rightarrow> bytes \<Rightarrow> string \<Rightarrow> unit cres" where
  "verify_finalizer_sig_under E sx expected_key txid =
     (case verify_finalizer_signature (ce_codec E) (ce_hash E) (ce_crypto E) sx expected_key of
        Inr _ \<Rightarrow> Inr ()
      | Inl Missing \<Rightarrow> Inl CeInvalidFinalizerSignature
      | Inl InvalidUnderKey \<Rightarrow> Inl CeInvalidFinalizerSignature
      | Inl (PayloadMismatch _ _) \<Rightarrow> Inl (CeSignaturePayloadMismatch txid))"

definition verify_block_finalizer_sig :: "('d, 'f, 'p) committer_env \<Rightarrow> block \<Rightarrow> unit cres" where
  "verify_block_finalizer_sig E b =
     verify_finalizer_sig_under E (signed_trans b) (sx_finalizer_addr (signed_trans b)) (tx_id (sx_transaction (signed_trans b)))"

definition held_decision :: "pending_registry \<Rightarrow> string \<Rightarrow> selection_record option" where
  "held_decision r i =
     (case map_of (transactions r) i of
        None \<Rightarrow> None
      | Some pt \<Rightarrow>
          (case pt_state pt of
             Preloaded tx \<Rightarrow> tx_selection tx
           | Validated tx _ \<Rightarrow> tx_selection tx
           | Executing tx \<Rightarrow> tx_selection tx
           | Finalizing tx _ \<Rightarrow> tx_selection tx
           | _ \<Rightarrow> None))"

definition block_authority ::
    "('d, 'f, 'p) committer_env \<Rightarrow> ('d, 'f) committer \<Rightarrow> block \<Rightarrow> bytes \<Rightarrow> string \<Rightarrow> unit cres" where
  "block_authority E s b sender_key txid =
     (let tx = sx_transaction (signed_trans b)
      in case tx_selection tx of
           None \<Rightarrow>
             if sx_shielded (signed_trans b) \<noteq> None then verify_block_finalizer_sig E b
             else Inl (CeRouting ''no routing decision'')
         | Some record \<Rightarrow>
             (case selection_verify (ce_codec E) (ce_crypto E) record (tx_id tx) FINALIZER_DOMAIN of
                Inl e \<Rightarrow> Inl (CeCore e)
              | Inr attested \<Rightarrow>
                  if \<not> attested then Inl (CeRouting ''attestation does not verify'')
                  else if Sentinel \<notin> set (find_node_types_by_public_key (ce_registry E) (co_nodes s) (sel_sentinel record))
                  then Inl (CeRouting ''attester is not a registered Sentinel'')
                  else if \<not> selection_names record sender_key then Inl (CeRouting ''sender is not the assigned Finalizer'')
                  else if (case held_decision (co_pending s) txid of Some held \<Rightarrow> \<not> same_decision_as held record | None \<Rightarrow> False)
                  then Inl (CeRouting ''not the decision this node holds'')
                  else verify_finalizer_sig_under E (signed_trans b) (sel_finalizer record) txid))"

definition commit_authority ::
    "('d, 'f, 'p) committer_env \<Rightarrow> ('d, 'f) committer \<Rightarrow> transaction_commit \<Rightarrow> bytes \<Rightarrow> unit cres" where
  "commit_authority E s commit sender_key = block_authority E s (tc_block commit) sender_key (from_utf8_lossy (tc_trans_id commit))"

definition gossip_authority :: "('d, 'f, 'p) committer_env \<Rightarrow> ('d, 'f) committer \<Rightarrow> block \<Rightarrow> bytes \<Rightarrow> unit cres" where
  "gossip_authority E s b sender_key = block_authority E s b sender_key (tx_id (sx_transaction (signed_trans b)))"

section \<open>Token commit\<close>

definition warm_token :: "('d, 'f, 'p) committer_env \<Rightarrow> bytes \<Rightarrow> ('d, 'f) committer \<Rightarrow> token cres \<times> ('d, 'f) committer" where
  "warm_token E token_key s =
     (case map_of (co_tokens s) token_key of
        Some t \<Rightarrow> (Inr t, s)
      | None \<Rightarrow>
          (case sto_get_token (ce_store E) token_key (ce_partition E) (co_data s) of
             Inl _ \<Rightarrow> (Inl (CeTokenNotFound (bytes_to_hex token_key)), s)
           | Inr t \<Rightarrow> (Inr t, s\<lparr>co_tokens := AList.update token_key t (co_tokens s)\<rparr>)))"

definition services_commit_block ::
    "('d, 'f, 'p) committer_env \<Rightarrow> transaction_commit \<Rightarrow> bytes option \<Rightarrow> ('d, 'f) committer \<Rightarrow> token_commit_result cres \<times> ('d, 'f) committer" where
  "services_commit_block E commit rollback s =
     (if tc_env_id commit \<noteq> ce_environment_id E then (Inl (CeEnvironmentMismatch (ce_environment_id E) (tc_env_id commit)), s)
      else case warm_token E (tc_token_id commit) s of
             (Inl e, s1) \<Rightarrow> (Inl e, s1)
           | (Inr t, s1) \<Rightarrow>
               (case commit_block (ce_codec E) (ce_hash E) (ce_specs E) (tc_block commit) False rollback t of
                  (Inl e, t') \<Rightarrow> (Inl (CeBlockCommit e), s1\<lparr>co_tokens := AList.update (tc_token_id commit) t' (co_tokens s1)\<rparr>)
                | (Inr result, t') \<Rightarrow>
                    (let s2 = s1\<lparr>co_tokens := AList.update (tc_token_id commit) t' (co_tokens s1)\<rparr>
                     in case sto_save_token (ce_store E) (tc_token_id commit) t' (ce_partition E) (co_data s2) of
                          (Inl _, d) \<Rightarrow> (Inl (CeTokenPersist (bytes_to_hex (tc_token_id commit))), s2\<lparr>co_data := d\<rparr>)
                        | (Inr _, d) \<Rightarrow> (Inr result, s2\<lparr>co_data := d\<rparr>))))"

section \<open>Conflicts\<close>

datatype commit_conflict_outcome = CommitPlain | CommitWinnerAfterRollback bytes

text \<open>The fold over the candidates: the last one beaten, or why the incoming block is rejected.\<close>

datatype conflict_verdict = Beats bytes | LosesTo | DoubleSigned bytes | Tied

fun fold_candidates :: "bytes \<Rightarrow> bytes \<Rightarrow> stake_set \<Rightarrow> (block \<times> bytes) list \<Rightarrow> bytes \<Rightarrow> conflict_verdict" where
  "fold_candidates incoming proposer ss [] target = Beats target"
| "fold_candidates incoming proposer ss ((cand, cand_proposer) # cs) target =
     (case resolve_block_conflict incoming (current_hash cand) proposer cand_proposer ss of
        DiscardLoser winner \<Rightarrow> if winner \<noteq> incoming then LosesTo else fold_candidates incoming proposer ss cs (current_hash cand)
      | SameProposerSlash _ key \<Rightarrow> DoubleSigned key
      | TieFlagBoth _ \<Rightarrow> Tied)"

definition handle_conflict_at_commit ::
    "('d, 'f, 'p) committer_env \<Rightarrow> transaction_commit \<Rightarrow> bytes \<Rightarrow> ('d, 'f) committer \<Rightarrow> commit_conflict_outcome cres \<times> ('d, 'f) committer" where
  "handle_conflict_at_commit E commit proposer s =
     (let b = tc_block commit; token_id = tc_token_id commit; cands = get_candidates (co_candidates s) token_id (previous_hash b)
      in if cands = []
         then (Inr CommitPlain, s\<lparr>co_candidates := candidates_insert token_id (previous_hash b) b proposer (co_candidates s)\<rparr>)
         else let cleared = s\<lparr>co_candidates := snd (remove_conflicted token_id (previous_hash b) (co_candidates s))\<rparr>
              in case fold_candidates (current_hash b) proposer \<lparr>stakers = store_iter (co_stakes s)\<rparr> cands (current_hash b) of
                   LosesTo \<Rightarrow> (Inl CeLoserDiscarded, cleared)
                 | Tied \<Rightarrow> (Inl CeLoserDiscarded, cleared)
                 | DoubleSigned key \<Rightarrow>
                     (let amount = slash_amount (ce_slash_fraction E) (store_get_stake (co_stakes s) key);
                          (r, stakes) = apply_ops \<lparr>misshapen_tokens = [], finalization_conflicts = [], slashing_ops = [Slash key amount],
                                                   reward_ops = []\<rparr> (co_stakes s)
                      in case r of
                           Inl e \<Rightarrow> (Inl (CeCore e), s\<lparr>co_stakes := stakes\<rparr>)
                         | Inr _ \<Rightarrow> (Inl CeLoserDiscarded, cleared\<lparr>co_stakes := stakes\<rparr>))
                 | Beats target \<Rightarrow> (Inr (CommitWinnerAfterRollback target), cleared))"

section \<open>The pool steps\<close>

definition save_pool :: "('d, 'f, 'p) committer_env \<Rightarrow> ('d, 'f) committer \<Rightarrow> unit cres \<times> ('d, 'f) committer" where
  "save_pool E s =
     (let (r, d) = pool_save (ce_field E) (sto_pool (ce_store E)) (ce_partition E) (co_pool s) (co_data s)
      in (r, s\<lparr>co_data := d\<rparr>))"

definition shielded_commit_apply ::
    "('d, 'f, 'p) committer_env \<Rightarrow> block \<Rightarrow> ('d, 'f) committer \<Rightarrow> pool_apply_outcome cres \<times> ('d, 'f) committer" where
  "shielded_commit_apply E b s =
     (case apply_update (ce_field E) (ce_codec E) (ce_hash E) (ce_max_risk E) b (co_pool s) of
        (Inl e, p) \<Rightarrow> (Inl e, s\<lparr>co_pool := p\<rparr>)
      | (Inr Applied, p) \<Rightarrow>
          (case save_pool E (s\<lparr>co_pool := p\<rparr>) of
             (Inr _, s2) \<Rightarrow> (Inr Applied, s2)
           | (Inl e, s2) \<Rightarrow>
               (case revert_update (ce_field E) (current_hash b) (co_pool s2) of
                  (Inl _, p') \<Rightarrow> (Inl CePoolPersist, s2\<lparr>co_pool := p'\<rparr>)
                | (Inr _, p') \<Rightarrow> (Inl e, s2\<lparr>co_pool := p'\<rparr>)))
      | (Inr outcome, p) \<Rightarrow> (Inr outcome, s\<lparr>co_pool := p\<rparr>))"

definition shielded_commit_undo ::
    "('d, 'f, 'p) committer_env \<Rightarrow> block \<Rightarrow> pool_apply_outcome \<Rightarrow> ('d, 'f) committer \<Rightarrow> unit cres \<times> ('d, 'f) committer" where
  "shielded_commit_undo E b applied s =
     (if applied = Applied
      then (case revert_update (ce_field E) (current_hash b) (co_pool s) of
              (Inl e, p) \<Rightarrow> (Inl e, s\<lparr>co_pool := p\<rparr>)
            | (Inr _, p) \<Rightarrow> save_pool E (s\<lparr>co_pool := p\<rparr>))
      else (Inr (), s))"

text \<open>After a failed append the pool step is undone; an error of the undo replaces the error of the
  append.\<close>

definition append_or_undo ::
    "('d, 'f, 'p) committer_env \<Rightarrow> transaction_commit \<Rightarrow> bytes option \<Rightarrow> pool_apply_outcome \<Rightarrow> ('d, 'f) committer \<Rightarrow>
     unit cres \<times> ('d, 'f) committer" where
  "append_or_undo E commit rollback applied s =
     (case services_commit_block E commit rollback s of
        (Inr _, s1) \<Rightarrow> (Inr (), s1)
      | (Inl e, s1) \<Rightarrow>
          (case shielded_commit_undo E (tc_block commit) applied s1 of
             (Inl e', s2) \<Rightarrow> (Inl e', s2)
           | (Inr _, s2) \<Rightarrow> (Inl e, s2)))"

definition drop_loser_delta :: "('d, 'f, 'p) committer_env \<Rightarrow> bytes \<Rightarrow> ('d, 'f) committer \<Rightarrow> unit cres \<times> ('d, 'f) committer" where
  "drop_loser_delta E loser s =
     (let (r, p) = revert_update (ce_field E) loser (co_pool s); s1 = s\<lparr>co_pool := p\<rparr>
      in case r of
           Inl (CePoolRollback _) \<Rightarrow> save_pool E s1
         | Inl e \<Rightarrow> (Inl e, s1)
         | Inr _ \<Rightarrow> save_pool E s1)"

definition resolve_and_append ::
    "('d, 'f, 'p) committer_env \<Rightarrow> transaction_commit \<Rightarrow> bytes \<Rightarrow> ('d, 'f) committer \<Rightarrow> unit cres \<times> ('d, 'f) committer" where
  "resolve_and_append E commit finalizer_key =
     bind_act (handle_conflict_at_commit E commit finalizer_key) (\<lambda>outcome.
       bind_act (shielded_commit_apply E (tc_block commit)) (\<lambda>applied.
         case outcome of
           CommitPlain \<Rightarrow> append_or_undo E commit None applied
         | CommitWinnerAfterRollback loser \<Rightarrow>
             bind_act (append_or_undo E commit (Some loser) applied) (\<lambda>_. drop_loser_delta E loser)))"

section \<open>Gas and contract deltas\<close>

definition update_pending :: "(pending_registry \<Rightarrow> pending_registry) \<Rightarrow> ('d, 'f) committer \<Rightarrow> ('d, 'f) committer" where
  "update_pending f s = s\<lparr>co_pending := f (co_pending s)\<rparr>"

definition deduct_gas ::
    "('d, 'f, 'p) committer_env \<Rightarrow> string \<Rightarrow> transaction \<Rightarrow> ('d, 'f) committer \<Rightarrow> unit cres \<times> ('d, 'f) committer" where
  "deduct_gas E txid tx s =
     (case get_gas_used (co_pending s) txid of
        None \<Rightarrow> (Inr (), s)
      | Some gas_used \<Rightarrow>
          (let failed = CeGasDeduction (bytes_to_hex (tx_sender tx)) txid gas_used
           in case sto_get_user (ce_store E) (tx_sender tx) (ce_partition E) (co_data s) of
                Inl _ \<Rightarrow> (Inl failed, s)
              | Inr u \<Rightarrow>
                  (case sto_save_user (ce_store E) (tx_sender tx) (u\<lparr>fuel_balance := saturating_sub (fuel_balance u) gas_used\<rparr>)
                          (ce_partition E) (co_data s) of
                     (Inl _, d) \<Rightarrow> (Inl failed, s\<lparr>co_data := d\<rparr>)
                   | (Inr _, d) \<Rightarrow> (Inr (), s\<lparr>co_data := d\<rparr>))))"

definition save_in_environment ::
    "('d, 'f, 'p) committer_env \<Rightarrow> bytes \<Rightarrow> token \<Rightarrow> ('d, 'f) committer \<Rightarrow> unit cres \<times> ('d, 'f) committer" where
  "save_in_environment E token_id t s =
     (case sto_save_token (ce_store E) token_id t (ce_environment_id E) (co_data s) of
        (Inl e, d) \<Rightarrow> (Inl (CeCore (DataErr e)), s\<lparr>co_data := d\<rparr>)
      | (Inr _, d) \<Rightarrow> (Inr (), s\<lparr>co_data := d\<rparr>))"

abbreviation deploy_failed :: committer_error where
  "deploy_failed \<equiv> CeCore (Validation [ContractDeployFailed])"

definition apply_deploy_delta ::
    "('d, 'f, 'p) committer_env \<Rightarrow> transaction \<Rightarrow> ('d, 'f) committer \<Rightarrow> unit cres \<times> ('d, 'f) committer" where
  "apply_deploy_delta E tx s =
     (case gc_un_deploy (ce_governance E) (tx_payload tx) of
        Inl e \<Rightarrow> (Inl (CeDeserialization e), s)
      | Inr p \<Rightarrow>
          (case deploy_contract (ce_governance E) (ce_hash E) (tx_sender tx) (of_nat (tx_seq tx)) p of
             Inl _ \<Rightarrow> (Inl deploy_failed, s)
           | Inr delta \<Rightarrow>
               (case gc_create (ce_governance E) delta of
                  Inl _ \<Rightarrow> (Inl CeInternalSerialization, s)
                | Inr result_bytes \<Rightarrow>
                    if ce_hash E result_bytes \<noteq> tx_result_hash tx then (Inl (CeTransactionPayloadMismatch (tx_id tx)), s)
                    else case to_token (ce_governance E) delta (ce_environment_id E) of
                           Inl _ \<Rightarrow> (Inl deploy_failed, s)
                         | Inr t \<Rightarrow>
                             (case sto_get_token (ce_store E) (ctd_token_id delta) (ce_environment_id E) (co_data s) of
                                Inr _ \<Rightarrow> (Inr (), s)
                              | Inl _ \<Rightarrow> save_in_environment E (ctd_token_id delta) t s))))"

definition replace_delta_of :: "transaction \<Rightarrow> upgrade_params \<Rightarrow> replace_asset_delta" where
  "replace_delta_of tx p =
     \<lparr>rad_token_id = tx_token tx, rad_new_bytecode = up_new_bytecode p, rad_new_owners = up_new_owners p,
      rad_new_threshold = up_new_threshold p, rad_proposal_epoch = up_proposal_epoch p\<rparr>"

definition apply_upgrade_delta ::
    "('d, 'f, 'p) committer_env \<Rightarrow> transaction \<Rightarrow> u64 \<Rightarrow> ('d, 'f) committer \<Rightarrow> unit cres \<times> ('d, 'f) committer" where
  "apply_upgrade_delta E tx block_epoch s =
     (case sto_get_token (ce_store E) (tx_token tx) (ce_environment_id E) (co_data s) of
        Inl _ \<Rightarrow> (Inr (), s)
      | Inr t \<Rightarrow>
          (case gc_un_upgrade (ce_governance E) (tx_payload tx) of
             Inl e \<Rightarrow> (Inl (CeDeserialization e), s)
           | Inr p \<Rightarrow>
               (case gc_replace (ce_governance E) (replace_delta_of tx p) of
                  Inl _ \<Rightarrow> (Inl CeInternalSerialization, s)
                | Inr result_bytes \<Rightarrow>
                    if ce_hash E result_bytes \<noteq> tx_result_hash tx then (Inl (CeTransactionPayloadMismatch (tx_id tx)), s)
                    else if (case get_asset (gc_un_contract (ce_governance E)) t of Some sc \<Rightarrow> sc_threshold sc = 0 | None \<Rightarrow> False)
                    then (Inr (), s)
                    else if \<not> timelock_satisfied (up_proposal_epoch p) block_epoch then (Inr (), s)
                    else case apply_replace_asset (ce_governance E) (replace_delta_of tx p) t of
                           (Inl _, _) \<Rightarrow> (Inr (), s)
                         | (Inr _, t') \<Rightarrow> save_in_environment E (tok_id t') t' s)))"

definition apply_storage_delta ::
    "('d, 'f, 'p) committer_env \<Rightarrow> transaction \<Rightarrow> ('d, 'f) committer \<Rightarrow> unit cres \<times> ('d, 'f) committer" where
  "apply_storage_delta E tx s =
     (case sto_get_token (ce_store E) (tx_token tx) (ce_environment_id E) (co_data s) of
        Inl _ \<Rightarrow> (Inr (), s)
      | Inr t \<Rightarrow>
          if map_of (tok_metadata t) ''contract_engine'' \<noteq> Some ''Wasm'' then (Inr (), s)
          else if tx_result_data tx = [] then (Inr (), s)
          else if ce_hash E (tx_result_data tx) \<noteq> tx_result_hash tx then (Inl (CeTransactionPayloadMismatch (tx_id tx)), s)
          else case gc_un_wasm (ce_governance E) (tx_result_data tx) of
                 Inl e \<Rightarrow> (Inl (CeDeserialization e), s)
               | Inr wr \<Rightarrow>
                   (case update_asset (gc_un_contract (ce_governance E)) (gc_contract (ce_governance E))
                           (\<lambda>sc. sc\<lparr>sc_storage := apply_delta_to (wr_storage_delta wr) (sc_storage sc)\<rparr>) t of
                      (None, _) \<Rightarrow> (Inl deploy_failed, s)
                    | (Some _, t') \<Rightarrow> save_in_environment E (tok_id t') t' s))"

definition apply_deltas ::
    "('d, 'f, 'p) committer_env \<Rightarrow> transaction \<Rightarrow> u64 \<Rightarrow> ('d, 'f) committer \<Rightarrow> unit cres \<times> ('d, 'f) committer" where
  "apply_deltas E tx epoch =
     (if tx_action tx = ''DeployContract'' then apply_deploy_delta E tx
      else if tx_action tx = ''ContractCall'' then apply_storage_delta E tx
      else if tx_action tx = ''UpgradeContract'' then apply_upgrade_delta E tx epoch
      else ret ())"

section \<open>The commit path\<close>

definition PRUNE_THRESHOLD :: nat where "PRUNE_THRESHOLD = 4096"

definition prune_committed_txs :: "('d, 'f) committer \<Rightarrow> ('d, 'f) committer" where
  "prune_committed_txs s = s\<lparr>co_committed := filter (\<lambda>(_, epoch, _). epoch \<ge> co_epoch s) (co_committed s)\<rparr>"

definition materialize :: "string \<Rightarrow> transaction \<Rightarrow> bytes \<Rightarrow> pending_registry \<Rightarrow> pending_registry" where
  "materialize txid tx finalizer_key r =
     (if contains r txid then r else snd (add_transaction txid (pending_new txid (Finalizing tx finalizer_key)) r))"

text \<open>Steps 1 and 2: the lock, or the wire-authoritative case of an entry already booked with this very
  block; the transaction to commit and whether it comes from a leader proposal.\<close>

definition claim_transaction ::
    "string \<Rightarrow> block \<Rightarrow> pending_registry \<Rightarrow> (transaction \<times> bool) cres \<times> pending_registry" where
  "claim_transaction txid b r =
     (case acquire_transaction txid r of
        (Inl _, r1) \<Rightarrow>
          (case map_of (transactions r1) txid of
             Some pt \<Rightarrow>
               (case pt_state pt of
                  Committed _ block_hash \<Rightarrow>
                    if block_hash = current_hash b then (Inr (sx_transaction (signed_trans b), False), r1)
                    else (Inl (CeTransactionNotInFinalizing txid), r1)
                | _ \<Rightarrow> (Inl (CeTransactionNotInFinalizing txid), r1))
           | None \<Rightarrow> (Inl (CeTransactionNotInFinalizing txid), r1))
      | (Inr _, r1) \<Rightarrow>
          (case map_of (transactions r1) txid of
             None \<Rightarrow> (Inl (CeCore (Registry ''not found'')), r1)
           | Some pt \<Rightarrow>
               (case pt_state pt of
                  Finalizing tx _ \<Rightarrow> (Inr (tx, False), r1)
                | Validated tx _ \<Rightarrow> (Inr (tx, True), r1)
                | _ \<Rightarrow> (Inl (CeTransactionNotInFinalizing txid), r1))))"

definition same_identity :: "('d, 'f, 'p) committer_env \<Rightarrow> string \<Rightarrow> transaction \<Rightarrow> transaction \<Rightarrow> unit cres" where
  "same_identity E txid tx wire_tx =
     (case identity_hash (ce_codec E) (ce_hash E) tx of
        Inl e \<Rightarrow> Inl (CeCore e)
      | Inr h \<Rightarrow>
          (case identity_hash (ce_codec E) (ce_hash E) wire_tx of
             Inl e \<Rightarrow> Inl (CeCore e)
           | Inr h' \<Rightarrow> if h \<noteq> h' then Inl (CeTransactionPayloadMismatch txid) else Inr ()))"

definition same_shielded :: "('d, 'f, 'p) committer_env \<Rightarrow> string \<Rightarrow> shielded_transaction option \<Rightarrow> pending_registry \<Rightarrow> unit cres" where
  "same_shielded E txid wire r =
     (case wire of
        None \<Rightarrow> Inr ()
      | Some sh \<Rightarrow>
          (case get_shielded r txid of
             None \<Rightarrow> Inl (CeTransactionPayloadMismatch txid)
           | Some held \<Rightarrow>
               (case shielded_hash (ce_codec E) (ce_hash E) sh of
                  Inl e \<Rightarrow> Inl (CeCore e)
                | Inr h \<Rightarrow>
                    (case shielded_hash (ce_codec E) (ce_hash E) held of
                       Inl e \<Rightarrow> Inl (CeCore e)
                     | Inr h' \<Rightarrow> if h \<noteq> h' then Inl (CeTransactionPayloadMismatch txid) else Inr ()))))"

text \<open>Steps 4 to 6: the registry entry ends as \<^verbatim>\<open>Committed\<close> and is released, the transaction is booked,
  the block goes to the archivers.\<close>

definition close_entry :: "string \<Rightarrow> transaction \<Rightarrow> bytes \<Rightarrow> bool \<Rightarrow> ('d, 'f) committer \<Rightarrow> unit cres \<times> ('d, 'f) committer" where
  "close_entry txid tx block_hash is_leader_proposal s =
     (let r1 = (if is_leader_proposal then remove_from_pool txid (co_pending s) else co_pending s);
          r2 = snd (with_transaction_mut txid (transition_to_committed tx block_hash) r1)
      in case release_transaction txid r2 of
           (Inl e, r3) \<Rightarrow> (Inl (CeCore e), s\<lparr>co_pending := r3\<rparr>)
         | (Inr should_remove, r3) \<Rightarrow>
             (Inr (), s\<lparr>co_pending := (if should_remove then snd (remove_transaction txid r3) else r3)\<rparr>))"

definition book :: "string \<Rightarrow> block \<Rightarrow> ('d, 'f) committer \<Rightarrow> ('d, 'f) committer" where
  "book txid b s =
     (let s1 = s\<lparr>co_committed := AList.update txid (blk_epoch b, current_hash b) (co_committed s)\<rparr>;
          s2 = (if length (co_committed s1) > PRUNE_THRESHOLD then prune_committed_txs s1 else s1)
      in s2\<lparr>co_archived := co_archived s2 @ [b]\<rparr>)"

definition commit_claimed ::
    "('d, 'f, 'p) committer_env \<Rightarrow> transaction_commit \<Rightarrow> string \<Rightarrow> bytes \<Rightarrow> transaction \<times> bool \<Rightarrow> ('d, 'f) committer \<Rightarrow>
     unit cres \<times> ('d, 'f) committer" where
  "commit_claimed E commit txid finalizer_key claim =
     (let b = tc_block commit; wire_tx = sx_transaction (signed_trans b); held = fst claim;
          tx = held\<lparr>tx_result_hash := tx_result_hash wire_tx, tx_result_data := tx_result_data wire_tx\<rparr>
      in bind_act (lift_res (same_identity E txid held wire_tx)) (\<lambda>_.
         bind_act (\<lambda>s. (same_shielded E txid (sx_shielded (signed_trans b)) (co_pending s), s)) (\<lambda>_.
         bind_act (resolve_and_append E commit finalizer_key) (\<lambda>_.
         bind_act (deduct_gas E txid tx) (\<lambda>_.
         bind_act (apply_deltas E tx (blk_epoch b)) (\<lambda>_.
         bind_act (close_entry txid tx (current_hash b) (snd claim)) (\<lambda>_.
           (\<lambda>s. (Inr (), book txid b s)))))))))"

definition check_and_commit_transaction_results ::
    "('d, 'f, 'p) committer_env \<Rightarrow> transaction_commit \<Rightarrow> bytes \<Rightarrow> ('d, 'f) committer \<Rightarrow> unit cres \<times> ('d, 'f) committer" where
  "check_and_commit_transaction_results E commit finalizer_key s =
     (let txid = from_utf8_lossy (tc_trans_id commit); b = tc_block commit
      in case map_of (co_committed s) txid of
           Some (_, block_hash) \<Rightarrow> (Inl (CeTransactionAlreadyCommitted txid (bytes_to_hex block_hash)), s)
         | None \<Rightarrow>
             (let s1 = update_pending (materialize txid (sx_transaction (signed_trans b)) finalizer_key) s
              in case claim_transaction txid b (co_pending s1) of
                   (Inl e, r) \<Rightarrow> (Inl e, s1\<lparr>co_pending := r\<rparr>)
                 | (Inr claim, r) \<Rightarrow> commit_claimed E commit txid finalizer_key claim (s1\<lparr>co_pending := r\<rparr>)))"

definition validate_transaction_message :: "('d, 'f, 'p) committer_env \<Rightarrow> transaction_commit \<Rightarrow> unit cres" where
  "validate_transaction_message E commit =
     (if tc_env_id commit \<noteq> ce_environment_id E then Inl (CeEnvironmentMismatch (ce_environment_id E) (tc_env_id commit))
      else if current_hash (tc_block commit) = [] then Inl CeInvalidBlockHash
      else Inr ())"

definition handle_commit ::
    "('d, 'f, 'p) committer_env \<Rightarrow> message \<Rightarrow> ('d, 'f) committer \<Rightarrow> unit cres \<times> ('d, 'f) committer" where
  "handle_commit E m s =
     (case ce_un_commit E (msg_body m) of
        Inl e \<Rightarrow> (Inl (CeDeserialization e), s)
      | Inr commit \<Rightarrow>
          (case validate_transaction_message E commit of
             Inl e \<Rightarrow> (Inl e, s)
           | Inr _ \<Rightarrow>
               (case commit_authority E s commit (msg_public_key m) of
                  Inl e \<Rightarrow> (Inl e, s)
                | Inr _ \<Rightarrow> check_and_commit_transaction_results E commit (msg_public_key m) s)))"

end
