(* ===== verification/Committer_Run.thy ===== *)
theory Committer_Run
  imports Committer
begin

text \<open>
  The rest of the committer: the gossip intake of finalized blocks with the replay of the orphan
  buffer (\<^verbatim>\<open>committer/finalizing.rs\<close>), epoch advances and the leader's own proposals
  (\<^verbatim>\<open>committer/epoching.rs\<close>), distribution (\<^verbatim>\<open>committer/distributing.rs\<close>), the dispatch of
  \<^verbatim>\<open>handle_message\<close> and the runs of a committer.  A handler reads the clocks through its arguments: the
  monotonic clock as the sequence of instants its reads return, the wall clock as a timestamp.
\<close>

section \<open>Gossip intake\<close>

lemma total_len_drop: "total_len_of (by_token (drop_expired now b)) \<le> total_len_of (by_token b)"
proof -
  have "total_len_of (filter P m) \<le> total_len_of m" for P and m :: "(bytes \<times> buffered_block list) list"
    by (induction m) (auto simp: total_len_of_def)
  moreover have "total_len_of (map (\<lambda>(k, q). (k, live_queue now q)) m) \<le> total_len_of m" for m
    by (induction m) (auto simp: total_len_of_def live_queue_def add_mono)
  ultimately show ?thesis
    unfolding drop_expired_def Let_def by (simp, meson order_trans)
qed

lemma extract_first_shorter: "extract_first P xs = Some (y, ys) \<Longrightarrow> length xs = Suc (length ys)"
  by (induction xs arbitrary: ys) (auto split: if_splits option.splits)

lemma total_len_replaced:
  "map_of m k = Some q \<Longrightarrow> length rest < length q \<Longrightarrow> total_len_of (AList.update k rest m) < total_len_of m"
  by (induction m) (auto simp: total_len_of_def split: if_splits)

lemma total_len_removed: "map_of m k = Some q \<Longrightarrow> q \<noteq> [] \<Longrightarrow> total_len_of (AList.delete k m) < total_len_of m"
proof (induction m)
  case (Cons e m)
  have "total_len_of (AList.delete k m) \<le> total_len_of m"
    by (induction m) (auto simp: total_len_of_def)
  then show ?case
    using Cons by (cases e) (auto simp: total_len_of_def add_strict_increasing split: if_splits)
qed simp

lemma take_matching_shrinks:
  assumes "take_matching k p now b = (Some blk, b')"
  shows "total_len_of (by_token b') < total_len_of (by_token b)"
proof -
  obtain q removed rest where q: "map_of (by_token b) k = Some q"
    and x: "extract_first (\<lambda>x. \<not> is_expired x now \<and> bb_parent_hash x = p) q = Some (removed, rest)"
    using assms by (auto simp: take_matching_def split: option.splits)
  have "length q = Suc (length rest)" by (rule extract_first_shorter [OF x])
  moreover from this have "q \<noteq> []" by auto
  ultimately show ?thesis
    using assms q x total_len_replaced [OF q, of rest] total_len_removed [OF q]
    by (auto simp: take_matching_def split: if_splits)
qed

text \<open>The loop of \<^verbatim>\<open>replay_orphan_blocks\<close>: pass \<open>i\<close> reads the clock twice; each pass that continues has taken
  a block out of the buffer.\<close>

function replay_orphan_blocks ::
    "codec \<Rightarrow> (bytes \<Rightarrow> bytes) \<Rightarrow> (nat \<Rightarrow> nat) \<Rightarrow> nat \<Rightarrow> bytes \<Rightarrow> bytes \<Rightarrow> token amap \<Rightarrow> orphan_buffer \<Rightarrow>
     block list \<times> token amap \<times> orphan_buffer" where
  "replay_orphan_blocks c hash clock i expected_tip token_id tokens orphans =
     (case take_matching token_id expected_tip (clock (2 * i + 1)) (drop_expired (clock (2 * i)) orphans) of
        (None, ob) \<Rightarrow> ([], tokens, ob)
      | (Some chosen, ob) \<Rightarrow>
          (case map_of tokens token_id of
             None \<Rightarrow> ([], tokens, ob)
           | Some t \<Rightarrow>
               (case append_validated_block c hash chosen (tok_blockchain t) of
                  (Appended, bc) \<Rightarrow>
                    (let (promoted, tokens', ob') =
                       replay_orphan_blocks c hash clock (Suc i) (current_hash chosen) token_id
                         (AList.update token_id (t\<lparr>tok_blockchain := bc\<rparr>) tokens) ob
                     in (chosen # promoted, tokens', ob'))
                | (InvalidHash, _) \<Rightarrow> ([], tokens, ob)
                | (LinkageMismatch, _) \<Rightarrow> ([], tokens, requeue_back (clock (2 * i + 2)) token_id chosen ob))))"
  by pat_completeness auto
termination
proof (relation "measure (\<lambda>(c, hash, clock, i, tip, token_id, tokens, orphans). total_len_of (by_token orphans))", goal_cases)
  case (2 c hash clock i tip token_id tokens orphans x ob chosen t y bc)
  then have "total_len_of (by_token ob) < total_len_of (by_token (drop_expired (clock (2 * i)) orphans))"
    using take_matching_shrinks by metis
  then show ?case
    using total_len_drop [of "clock (2 * i)" orphans] by simp
qed simp

declare replay_orphan_blocks.simps [simp del]

definition buffer_orphan :: "(nat \<Rightarrow> nat) \<Rightarrow> bytes \<Rightarrow> block \<Rightarrow> orphan_buffer \<Rightarrow> orphan_buffer" where
  "buffer_orphan clock token_id b ob = snd (orphans_insert (clock 0) (clock 1) token_id b ob)"

text \<open>The append of the gossiped block and of what it unblocks: the blocks that reached the chain.\<close>

definition append_gossiped ::
    "('d, 'f, 'p) committer_env \<Rightarrow> (nat \<Rightarrow> nat) \<Rightarrow> block \<Rightarrow> ('d, 'f) committer \<Rightarrow> block list cres \<times> ('d, 'f) committer" where
  "append_gossiped E clock b s =
     (let token_id = tx_token (sx_transaction (signed_trans b))
      in case warm_token E token_id s of
           (Inl e, s1) \<Rightarrow> (Inl e, s1)
         | (Inr t, s1) \<Rightarrow>
             (case append_validated_block (ce_codec E) (ce_hash E) b (tok_blockchain t) of
                (LinkageMismatch, _) \<Rightarrow> (Inr [], s1\<lparr>co_orphans := buffer_orphan clock token_id b (co_orphans s1)\<rparr>)
              | (InvalidHash, _) \<Rightarrow> (Inl CeInvalidBlockHash, s1)
              | (Appended, bc) \<Rightarrow>
                  (let (promoted, tokens, ob) =
                     replay_orphan_blocks (ce_codec E) (ce_hash E) clock 0 (current_hash b) token_id
                       (AList.update token_id (t\<lparr>tok_blockchain := bc\<rparr>) (co_tokens s1)) (co_orphans s1)
                   in (Inr (b # promoted), s1\<lparr>co_tokens := tokens, co_orphans := ob\<rparr>))))"

definition vote_and_forward :: "('d, 'f, 'p) committer_env \<Rightarrow> block \<Rightarrow> ('d, 'f) committer \<Rightarrow> ('d, 'f) committer" where
  "vote_and_forward E b s =
     s\<lparr>co_archived := co_archived s @ [b],
       co_sent_votes := co_sent_votes s @ [current_hash b],
       co_quorum := announce_quorum_if_reached (ce_quorum_percentage E) (current_hash b)
                      (cast_confirmation_vote (current_hash b) (ce_public_key E) (co_quorum s))\<rparr>"

fun propagate ::
    "('d, 'f, 'p) committer_env \<Rightarrow> block list \<Rightarrow> ('d, 'f) committer \<Rightarrow> unit cres \<times> ('d, 'f) committer" where
  "propagate E [] s = (Inr (), s)"
| "propagate E (b # bs) s =
     (case apply_update (ce_field E) (ce_codec E) (ce_hash E) (ce_max_risk E) b (co_pool s) of
        (Inl e, p) \<Rightarrow> (Inl e, s\<lparr>co_pool := p\<rparr>)
      | (Inr Applied, p) \<Rightarrow>
          (case save_pool E (s\<lparr>co_pool := p\<rparr>) of
             (Inl e, s1) \<Rightarrow> (Inl e, s1)
           | (Inr _, s1) \<Rightarrow> propagate E bs (vote_and_forward E b s1))
      | (Inr _, p) \<Rightarrow> propagate E bs (vote_and_forward E b (s\<lparr>co_pool := p\<rparr>)))"

definition handle_block_finalized ::
    "('d, 'f, 'p) committer_env \<Rightarrow> (nat \<Rightarrow> nat) \<Rightarrow> message \<Rightarrow> ('d, 'f) committer \<Rightarrow> unit cres \<times> ('d, 'f) committer" where
  "handle_block_finalized E clock m s =
     (case ce_un_block E (msg_body m) of
        Inl e \<Rightarrow> (Inl (CeDeserialization e), s)
      | Inr b \<Rightarrow>
          (let s1 = s\<lparr>co_quorum := cache_stake_set (ce_quorum_percentage E) (current_hash b) (msg_stake_set m) (co_quorum s)\<rparr>
           in case gossip_authority E s1 b (msg_public_key m) of
                Inl e \<Rightarrow> (Inl e, s1)
              | Inr _ \<Rightarrow> bind_act (append_gossiped E clock b) (propagate E) s1))"

section \<open>Epochs\<close>

definition canonical_chain_tip :: "('d, 'f, 'p) committer_env \<Rightarrow> token amap \<Rightarrow> bytes" where
  "canonical_chain_tip E tokens =
     (case btree_of tokens of
        [] \<Rightarrow> []
      | (_, t) # _ \<Rightarrow> last_hash_in (get_current_chain_state (ce_codec E) (ce_hash E) (tok_blockchain t)))"

definition advance_epoch_to ::
    "('d, 'f, 'p) committer_env \<Rightarrow> ('d, 'f) committer \<Rightarrow> bytes option cres \<times> ('d, 'f) committer" where
  "advance_epoch_to E s =
     (let ss = store_to_stake_set (co_stakes s); prev_block_hash = canonical_chain_tip E (co_tokens s)
      in case co_detector s of
           None \<Rightarrow> (Inl CeInternalSerialization, s)
         | Some d \<Rightarrow>
             (let new_epoch = epoch_number (current_epoch d) + 1
              in if co_epoch s \<ge> new_epoch then (Inr None, s)
                 else let d' = advance_to_new_epoch (ce_select E) ss (ce_epoch_duration E) prev_block_hash d;
                          s1 = s\<lparr>co_detector := Some d', co_epoch := new_epoch\<rparr>
                      in case sto_save_stakes (ce_store E) new_epoch ss (ce_partition E) (co_data s1) of
                           (Inl _, x) \<Rightarrow> (Inl (CeSnapshotPersist new_epoch ''stake''), s1\<lparr>co_data := x\<rparr>)
                         | (Inr _, x) \<Rightarrow>
                             (case sto_save_executors (ce_store E) new_epoch (to_executor_set ss) (ce_partition E) x of
                                (Inl _, y) \<Rightarrow> (Inl (CeSnapshotPersist new_epoch ''executor''), s1\<lparr>co_data := y\<rparr>)
                              | (Inr _, y) \<Rightarrow> (Inr (Some (leader_public_key (current_epoch d'))), s1\<lparr>co_data := y\<rparr>))))"

definition reconciler_of :: "('d, 'f, 'p) committer_env \<Rightarrow> ('d, 'f) committer \<Rightarrow> epoch_reconciler" where
  "reconciler_of E s =
     \<lparr>rc_candidates = co_candidates s, rc_env_id = ce_environment_id E, rc_token_ids = ce_reconciled_tokens E,
      rc_slash_fraction = ce_slash_fraction E\<rparr>"

definition handle_epoch_reconcile ::
    "('d, 'f, 'p) committer_env \<Rightarrow> ('d, 'f) committer \<Rightarrow> unit cres \<times> ('d, 'f) committer" where
  "handle_epoch_reconcile E s =
     (let r = reconcile (ce_codec E) (ce_hash E) (\<lambda>i p. sto_get_token (ce_store E) i p (co_data s)) (reconciler_of E s) (co_stakes s)
      in case (if slashing_ops r \<noteq> [] \<or> reward_ops r \<noteq> [] then apply_ops r (co_stakes s) else (Inr (), co_stakes s)) of
           (Inl e, st) \<Rightarrow> (Inl (CeCore e), s\<lparr>co_stakes := st\<rparr>)
         | (Inr _, st) \<Rightarrow>
             (case advance_epoch_to E (s\<lparr>co_stakes := st\<rparr>) of
                (Inl e, s1) \<Rightarrow> (Inl e, s1)
              | (Inr _, s1) \<Rightarrow> (Inr (), s1)))"

definition from_transaction ::
    "('d, 'f, 'p) committer_env \<Rightarrow> i64 \<Rightarrow> signed_transaction \<Rightarrow> blockchain \<Rightarrow> token \<Rightarrow> u64 \<Rightarrow> block" where
  "from_transaction E now sx bc t epoch =
     \<lparr>signed_trans = sx, token_metadata = tok_metadata t,
      previous_hash = (if get_count bc = 0 then [] else last_hash_in (get_current_chain_state (ce_codec E) (ce_hash E) bc)),
      current_hash = [], blk_timestamp = now, blk_finality = Optimistic,
      blk_proposer_key = sx_proposer_key sx, blk_epoch = epoch\<rparr>"

definition leader_commit ::
    "('d, 'f, 'p) committer_env \<Rightarrow> i64 \<Rightarrow> bytes \<Rightarrow> token \<Rightarrow> u64 \<Rightarrow> transaction \<Rightarrow> signed_transaction \<Rightarrow> transaction_commit" where
  "leader_commit E now token_id t epoch tx sx =
     \<lparr>tc_trans_id = as_bytes (tx_id tx), tc_token_id = token_id, tc_env_id = ce_environment_id E,
      tc_block = from_transaction E now sx (tok_blockchain t) t epoch\<rparr>"

definition expire_epoch :: "('d, 'f, 'p) committer_env \<Rightarrow> i64 \<Rightarrow> ('d, 'f) committer \<Rightarrow> unit cres \<times> ('d, 'f) committer" where
  "expire_epoch E now s =
     (if (case co_detector s of Some d \<Rightarrow> is_epoch_expired d now | None \<Rightarrow> False)
      then (case advance_epoch_to E s of (Inl e, s1) \<Rightarrow> (Inl e, s1) | (Inr _, s1) \<Rightarrow> (Inr (), s1))
      else (Inr (), s))"

definition propose_blocks ::
    "('d, 'f, 'p) committer_env \<Rightarrow> i64 \<Rightarrow> bytes \<Rightarrow> nat \<Rightarrow> ('d, 'f) committer \<Rightarrow> transaction_commit list cres \<times> ('d, 'f) committer" where
  "propose_blocks E now token_id limit s =
     (case expire_epoch E now s of
        (Inl e, s1) \<Rightarrow> (Inl e, s1)
      | (Inr _, s1) \<Rightarrow>
          if \<not> (case co_detector s1 of Some d \<Rightarrow> current_leader d = Some (ce_public_key E) | None \<Rightarrow> False) then (Inr [], s1)
          else case propose_batch (ce_proposer E) token_id limit (co_pending s1) of
                 (Inl e, r) \<Rightarrow> (Inl (CeCore e), s1\<lparr>co_pending := r\<rparr>)
               | (Inr batch, r) \<Rightarrow>
                   (let s2 = s1\<lparr>co_pending := r\<rparr>
                    in if batch = [] then (Inr [], s2)
                       else case map_of (co_tokens s2) token_id of
                              None \<Rightarrow> (Inl (CeTokenNotFound (bytes_to_hex token_id)), s2)
                            | Some t \<Rightarrow>
                                (Inr (map (\<lambda>(tx, sx). leader_commit E now token_id t (co_epoch s2) tx sx)
                                        (filter (\<lambda>(tx, sx). tx_selection tx = None) batch)), s2)))"

text \<open>The commits of a batch; a failed one is logged and the next one is tried.\<close>

definition commit_batch :: "('d, 'f, 'p) committer_env \<Rightarrow> transaction_commit list \<Rightarrow> ('d, 'f) committer \<Rightarrow> ('d, 'f) committer" where
  "commit_batch E = fold (\<lambda>commit s. snd (check_and_commit_transaction_results E commit (sender_public_key E) s))"

fun run_epoch_loop ::
    "('d, 'f, 'p) committer_env \<Rightarrow> i64 \<Rightarrow> bytes list \<Rightarrow> ('d, 'f) committer \<Rightarrow> unit cres \<times> ('d, 'f) committer" where
  "run_epoch_loop E now [] s = (Inr (), s)"
| "run_epoch_loop E now (token_id # ids) s =
     (case propose_blocks E now token_id 10 s of
        (Inl e, s1) \<Rightarrow> (Inl e, s1)
      | (Inr commits, s1) \<Rightarrow> run_epoch_loop E now ids (commit_batch E commits s1))"

section \<open>Distribution and dispatch\<close>

definition handle_token_distribution ::
    "('d, 'f, 'p) committer_env \<Rightarrow> message \<Rightarrow> ('d, 'f) committer \<Rightarrow> unit cres \<times> ('d, 'f) committer" where
  "handle_token_distribution E m s =
     (case ce_un_token E (msg_body m) of
        Inl e \<Rightarrow> (Inl (CeDeserialization e), s)
      | Inr t \<Rightarrow>
          (case map_of (co_tokens s) (tok_id t) of
             Some _ \<Rightarrow> (Inl (CeTokenConflict (bytes_to_hex (tok_id t))), s)
           | None \<Rightarrow> (Inr (), s\<lparr>co_tokens := AList.update (tok_id t) t (co_tokens s)\<rparr>)))"

definition handle_block_distribution ::
    "('d, 'f, 'p) committer_env \<Rightarrow> message \<Rightarrow> ('d, 'f) committer \<Rightarrow> unit cres \<times> ('d, 'f) committer" where
  "handle_block_distribution E m s =
     (case ce_un_block E (msg_body m) of Inl e \<Rightarrow> (Inl (CeDeserialization e), s) | Inr _ \<Rightarrow> (Inr (), s))"

definition bootstrap_token :: "token \<Rightarrow> ('d, 'f) committer \<Rightarrow> ('d, 'f) committer" where
  "bootstrap_token t s = s\<lparr>co_tokens := AList.update (tok_id t) t (co_tokens s)\<rparr>"

definition handle_vote :: "('d, 'f, 'p) committer_env \<Rightarrow> message \<Rightarrow> ('d, 'f) committer \<Rightarrow> unit cres \<times> ('d, 'f) committer" where
  "handle_vote E m s =
     (let (r, q) = handle_block_confirmed_vote (ce_un_vote E) (ce_quorum_percentage E) (msg_body m) (co_quorum s)
      in (r, s\<lparr>co_quorum := q\<rparr>))"

definition handle_quorum :: "('d, 'f, 'p) committer_env \<Rightarrow> message \<Rightarrow> ('d, 'f) committer \<Rightarrow> unit cres \<times> ('d, 'f) committer" where
  "handle_quorum E m s =
     (let (r, q, tokens) = handle_block_quorum_reached (ce_un_quorum E) (ce_quorum_percentage E) (msg_body m) (co_quorum s, co_tokens s)
      in (r, s\<lparr>co_quorum := q, co_tokens := tokens\<rparr>))"

definition handle_message ::
    "('d, 'f, 'p) committer_env \<Rightarrow> (nat \<Rightarrow> nat) \<Rightarrow> message \<Rightarrow> ('d, 'f) committer \<Rightarrow> unit cres \<times> ('d, 'f) committer" where
  "handle_message E clock m s =
     (case authenticate_message E m s of
        Inl e \<Rightarrow> (Inl e, s)
      | Inr _ \<Rightarrow>
          if msg_action m = ''Commit'' then handle_commit E m s
          else if msg_action m = ''DistributeToken'' then handle_token_distribution E m s
          else if msg_action m = ''DistributeBlock'' then handle_block_distribution E m s
          else if msg_action m = ''EpochReconcile'' then handle_epoch_reconcile E s
          else if msg_action m = ''BlockFinalized'' then handle_block_finalized E clock m s
          else if msg_action m = ''BlockConfirmed'' then handle_vote E m s
          else if msg_action m = ''BlockQuorumReached'' then handle_quorum E m s
          else (Inl (CeUnknownAction (msg_action m)), s))"

section \<open>Runs\<close>

text \<open>A committer lives by messages and by its own epoch loop, over the cached tokens.\<close>

inductive committer_step :: "('d, 'f, 'p) committer_env \<Rightarrow> ('d, 'f) committer \<Rightarrow> ('d, 'f) committer \<Rightarrow> bool" for E where
  message: "committer_step E s (snd (handle_message E clock m s))"
| epoch_loop: "set ids = fst ` set (co_tokens s) \<Longrightarrow> distinct ids \<Longrightarrow> committer_step E s (snd (run_epoch_loop E now ids s))"

abbreviation committer_run :: "('d, 'f, 'p) committer_env \<Rightarrow> ('d, 'f) committer \<Rightarrow> ('d, 'f) committer \<Rightarrow> bool" where
  "committer_run E \<equiv> (committer_step E)\<^sup>*\<^sup>*"

end
