(* ===== verification/Committer_Safety.thy ===== *)
theory Committer_Safety
  imports Committer_Run
begin

text \<open>
  What a committer keeps over a whole run: the bookings that refuse a second commit of a transaction,
  the epoch counter in step with the epoch detector, and the validity of every cached chain.  Each is
  a reflexive and transitive relation between states that every operation respects.
\<close>

section \<open>Bookings and epochs\<close>

definition chains_valid :: "('d, 'f, 'p) committer_env \<Rightarrow> token amap \<Rightarrow> bool" where
  "chains_valid E tokens \<longleftrightarrow> list_all (\<lambda>(k, t). chain_valid (ce_codec E) (ce_hash E) (tok_blockchain t)) tokens"

text \<open>The store and the peers hand out tokens with valid chains, and no hash is empty.\<close>

definition valid_sources :: "('d, 'f, 'p) committer_env \<Rightarrow> bool" where
  "valid_sources E \<longleftrightarrow>
     (\<forall>x. ce_hash E x \<noteq> []) \<and>
     (\<forall>i p d t. sto_get_token (ce_store E) i p d = Inr t \<longrightarrow> chain_valid (ce_codec E) (ce_hash E) (tok_blockchain t)) \<and>
     (\<forall>bs t. ce_un_token E bs = Inr t \<longrightarrow> chain_valid (ce_codec E) (ce_hash E) (tok_blockchain t))"

definition chains_kept :: "('d, 'f, 'p) committer_env \<Rightarrow> ('d, 'f) committer \<Rightarrow> ('d, 'f) committer \<Rightarrow> bool" where
  "chains_kept E s t \<longleftrightarrow> (valid_sources E \<longrightarrow> chains_valid E (co_tokens s) \<longrightarrow> chains_valid E (co_tokens t))"

definition same_book :: "('d, 'f, 'p) committer_env \<Rightarrow> ('d, 'f) committer \<Rightarrow> ('d, 'f) committer \<Rightarrow> bool" where
  "same_book E s t \<longleftrightarrow>
     co_committed t = co_committed s \<and> co_epoch t = co_epoch s \<and> co_detector t = co_detector s \<and> chains_kept E s t"

definition in_step :: "('d, 'f) committer \<Rightarrow> bool" where
  "in_step s \<longleftrightarrow> (\<forall>d. co_detector s = Some d \<longrightarrow> co_epoch s = epoch_number (current_epoch d))"

text \<open>The epoch never goes back, a booking of an epoch that has not passed is kept, and the counter
  stays in step with the detector.\<close>

definition book_kept :: "('d, 'f, 'p) committer_env \<Rightarrow> ('d, 'f) committer \<Rightarrow> ('d, 'f) committer \<Rightarrow> bool" where
  "book_kept E s t \<longleftrightarrow>
     co_epoch s \<le> co_epoch t \<and> (in_step s \<longrightarrow> in_step t) \<and> chains_kept E s t \<and>
     (\<forall>i e h. map_of (co_committed s) i = Some (e, h) \<longrightarrow> co_epoch t \<le> e \<longrightarrow> map_of (co_committed t) i = Some (e, h))"

interpretation frame: action_order "same_book E" for E
  by unfold_locales (auto simp: same_book_def chains_kept_def)

interpretation booking: action_order "book_kept E" for E
  by unfold_locales (auto simp: book_kept_def chains_kept_def)

lemma same_book_kept: "same_book E s t \<Longrightarrow> book_kept E s t"
  by (simp add: same_book_def book_kept_def in_step_def)

lemma chains_valid_put:
  "chains_valid E m \<Longrightarrow> chain_valid (ce_codec E) (ce_hash E) (tok_blockchain t) \<Longrightarrow> chains_valid E (AList.update k t m)"
  unfolding chains_valid_def by (rule list_all_update) auto

lemma chains_valid_get: "chains_valid E m \<Longrightarrow> map_of m k = Some t \<Longrightarrow> chain_valid (ce_codec E) (ce_hash E) (tok_blockchain t)"
  by (auto simp: chains_valid_def list_all_iff dest: map_of_SomeD)

lemma warm_token_valid:
  assumes "valid_sources E" and "chains_valid E (co_tokens s)" and "warm_token E k s = (Inr t, s1)"
  shows "chain_valid (ce_codec E) (ce_hash E) (tok_blockchain t) \<and> chains_valid E (co_tokens s1)"
  using assms by (auto simp: warm_token_def valid_sources_def chains_valid_put chains_valid_get split: option.splits sum.splits)

lemma warm_token_book: "same_book E s (snd (warm_token E k s))"
  by (auto simp: warm_token_def same_book_def chains_kept_def valid_sources_def chains_valid_put split: option.splits sum.splits)

lemma warm_token_cases:
  "warm_token E k s = (r, s1) \<Longrightarrow> same_book E s s1"
  using warm_token_book [of E s k] by simp

lemma services_commit_block_book: "same_book E s (snd (services_commit_block E commit l s))"
proof (cases "tc_env_id commit = ce_environment_id E")
  case False
  then show ?thesis by (simp add: services_commit_block_def frame.unchanged)
next
  case True
  obtain r s1 where w: "warm_token E (tc_token_id commit) s = (r, s1)" by fastforce
  have s1: "same_book E s s1" by (rule warm_token_cases [OF w])
  show ?thesis
  proof (cases r)
    case (Inl e)
    then show ?thesis using True w s1 by (simp add: services_commit_block_def)
  next
    case (Inr t)
    obtain q t' where c: "commit_block (ce_codec E) (ce_hash E) (ce_specs E) (tc_block commit) False l t = (q, t')" by fastforce
    have "chain_valid (ce_codec E) (ce_hash E) (tok_blockchain t')" if v: "valid_sources E" "chains_valid E (co_tokens s)"
    proof -
      have t: "chain_valid (ce_codec E) (ce_hash E) (tok_blockchain t)" using warm_token_valid [OF v] w Inr by simp
      show ?thesis
      proof (cases q)
        case (Inl e)
        then show ?thesis using commit_block_error_same [of _ _ _ _ _ _ _ e] c t by metis
      next
        case (Inr res)
        then show ?thesis using commit_block_valid [OF t] v(1) c by (auto simp: valid_sources_def)
      qed
    qed
    then have "same_book E s (s1\<lparr>co_tokens := AList.update (tc_token_id commit) t' (co_tokens s1), co_data := d\<rparr>)"
      and "same_book E s (s1\<lparr>co_tokens := AList.update (tc_token_id commit) t' (co_tokens s1)\<rparr>)" for d
      using s1 by (simp_all add: same_book_def chains_kept_def chains_valid_put)
    then show ?thesis
      using True w Inr c by (auto simp: services_commit_block_def Let_def split: sum.splits prod.splits)
  qed
qed

lemma handle_conflict_book: "same_book E s (snd (handle_conflict_at_commit E commit p s))"
  by (simp add: handle_conflict_at_commit_def same_book_def chains_kept_def Let_def split: conflict_verdict.splits prod.splits sum.splits)

lemma save_pool_book: "same_book E s (snd (save_pool E s))"
  by (simp add: save_pool_def same_book_def chains_kept_def split: prod.splits)

lemma same_book_pool [simp]: "same_book E s (t\<lparr>co_pool := p\<rparr>) \<longleftrightarrow> same_book E s t" "same_book E (s\<lparr>co_pool := p\<rparr>) t \<longleftrightarrow> same_book E s t"
  by (simp_all add: same_book_def chains_kept_def)

lemma shielded_commit_apply_book: "same_book E s (snd (shielded_commit_apply E b s))"
proof -
  obtain r p where a: "apply_update (ce_field E) (ce_codec E) (ce_hash E) (ce_max_risk E) b (co_pool s) = (r, p)" by fastforce
  show ?thesis
    using a save_pool_book [of E "s\<lparr>co_pool := p\<rparr>"]
    by (auto simp: shielded_commit_apply_def frame.unchanged split: sum.splits prod.splits pool_apply_outcome.splits)
qed

lemma shielded_commit_undo_book: "same_book E s (snd (shielded_commit_undo E b a s))"
proof -
  obtain r p where a: "revert_update (ce_field E) (current_hash b) (co_pool s) = (r, p)" by fastforce
  show ?thesis
    using a save_pool_book [of E "s\<lparr>co_pool := p\<rparr>"]
    by (auto simp: shielded_commit_undo_def frame.unchanged split: sum.splits)
qed

lemma append_or_undo_book: "same_book E s (snd (append_or_undo E commit l a s))"
proof -
  obtain r s1 where c: "services_commit_block E commit l s = (r, s1)" by fastforce
  have 1: "same_book E s s1" using services_commit_block_book [of E s commit l] c by simp
  obtain r' s2 where u: "shielded_commit_undo E (tc_block commit) a s1 = (r', s2)" by fastforce
  have "same_book E s s2" using frame.chained [OF 1] shielded_commit_undo_book [of E s1 "tc_block commit" a] u by simp
  then show ?thesis using 1 c u by (simp add: append_or_undo_def split: sum.splits)
qed

lemma drop_loser_delta_book: "same_book E s (snd (drop_loser_delta E l s))"
proof -
  obtain r p where a: "revert_update (ce_field E) l (co_pool s) = (r, p)" by fastforce
  show ?thesis
    using a save_pool_book [of E "s\<lparr>co_pool := p\<rparr>"]
    by (auto simp: drop_loser_delta_def Let_def frame.unchanged split: sum.splits committer_error.splits)
qed

lemma resolve_and_append_book: "same_book E s (snd (resolve_and_append E commit k s))"
  unfolding resolve_and_append_def
proof (intro frame.bound handle_conflict_book shielded_commit_apply_book)
  fix outcome applied t
  show "same_book E t (snd ((case outcome of CommitPlain \<Rightarrow> append_or_undo E commit None applied
      | CommitWinnerAfterRollback loser \<Rightarrow>
          bind_act (append_or_undo E commit (Some loser) applied) (\<lambda>_. drop_loser_delta E loser)) t))"
    by (cases outcome) (simp_all add: append_or_undo_book frame.bound drop_loser_delta_book)
qed

lemma deduct_gas_book: "same_book E s (snd (deduct_gas E i tx s))"
  by (simp add: deduct_gas_def same_book_def chains_kept_def Let_def split: option.splits sum.splits prod.splits)

lemma save_in_environment_book: "same_book E s (snd (save_in_environment E i t s))"
  by (simp add: save_in_environment_def same_book_def chains_kept_def split: sum.splits prod.splits)

lemma apply_deploy_delta_book: "same_book E s (snd (apply_deploy_delta E tx s))"
  by (auto simp: apply_deploy_delta_def frame.unchanged save_in_environment_book split: sum.splits if_splits)

lemma apply_upgrade_delta_book: "same_book E s (snd (apply_upgrade_delta E tx e s))"
  by (auto simp: apply_upgrade_delta_def frame.unchanged save_in_environment_book split: sum.splits if_splits prod.splits)

lemma apply_storage_delta_book: "same_book E s (snd (apply_storage_delta E tx s))"
  by (auto simp: apply_storage_delta_def frame.unchanged save_in_environment_book split: sum.splits if_splits prod.splits option.splits)

lemma apply_deltas_book: "same_book E s (snd (apply_deltas E tx e s))"
  by (simp add: apply_deltas_def ret_def frame.unchanged apply_deploy_delta_book apply_upgrade_delta_book apply_storage_delta_book)

lemma close_entry_book: "same_book E s (snd (close_entry i tx h l s))"
  by (simp add: close_entry_def same_book_def chains_kept_def Let_def split: sum.splits prod.splits)

text \<open>A booking by a transaction that had none; pruning forgets only epochs that have passed.\<close>

lemma prune_kept: "book_kept E s (prune_committed_txs s)"
proof -
  have "map_of (filter (\<lambda>(_, e, _). co_epoch s \<le> e) m) i = Some (e, h)"
    if "map_of m i = Some (e, h)" "co_epoch s \<le> e" for m :: "(string \<times> u64 \<times> bytes) list" and i e h
    using that by (induction m) (auto split: if_splits)
  then show ?thesis by (simp add: prune_committed_txs_def book_kept_def chains_kept_def in_step_def)
qed

lemma book_booking_kept: "map_of (co_committed s) i = None \<Longrightarrow> book_kept E s (book i b s)"
proof -
  assume fresh: "map_of (co_committed s) i = None"
  let ?s1 = "s\<lparr>co_committed := AList.update i (blk_epoch b, current_hash b) (co_committed s)\<rparr>"
  have "book_kept E s ?s1" using fresh by (auto simp: book_kept_def chains_kept_def in_step_def update_conv')
  then have "book_kept E s (if length (co_committed ?s1) > PRUNE_THRESHOLD then prune_committed_txs ?s1 else ?s1)"
    using booking.chained [OF _ prune_kept [of E ?s1]] by simp
  then show ?thesis by (simp add: book_def Let_def book_kept_def chains_kept_def in_step_def)
qed

text \<open>Everything a commit does before the booking leaves the book alone.\<close>

definition before_booking ::
    "('d, 'f, 'p) committer_env \<Rightarrow> transaction_commit \<Rightarrow> string \<Rightarrow> bytes \<Rightarrow> transaction \<times> bool \<Rightarrow> ('d, 'f) committer \<Rightarrow>
     unit cres \<times> ('d, 'f) committer" where
  "before_booking E commit i key claim =
     (let b = tc_block commit; wire_tx = sx_transaction (signed_trans b); held = fst claim;
          tx = held\<lparr>tx_result_hash := tx_result_hash wire_tx, tx_result_data := tx_result_data wire_tx\<rparr>
      in bind_act (lift_res (same_identity E i held wire_tx)) (\<lambda>_.
         bind_act (\<lambda>s. (same_shielded E i (sx_shielded (signed_trans b)) (co_pending s), s)) (\<lambda>_.
         bind_act (resolve_and_append E commit key) (\<lambda>_.
         bind_act (deduct_gas E i tx) (\<lambda>_.
         bind_act (apply_deltas E tx (blk_epoch b)) (\<lambda>_. close_entry i tx (current_hash b) (snd claim)))))))"

lemma commit_claimed_split:
  "commit_claimed E commit i key claim = bind_act (before_booking E commit i key claim) (\<lambda>_ s. (Inr (), book i (tc_block commit) s))"
  by (simp add: commit_claimed_def before_booking_def Let_def bind_act_assoc)

lemma before_booking_book: "same_book E s (snd (before_booking E commit i key claim s))"
  unfolding before_booking_def Let_def
  by (intro frame.bound frame.lifted resolve_and_append_book deduct_gas_book apply_deltas_book close_entry_book)
    (simp add: frame.unchanged)

lemma commit_claimed_book:
  assumes "map_of (co_committed s) i = None"
  shows "book_kept E s (snd (commit_claimed E commit i key claim s))"
proof -
  obtain r t where b: "before_booking E commit i key claim s = (r, t)" by fastforce
  have st: "same_book E s t" using before_booking_book [of E s commit i key claim] b by simp
  have "book_kept E t (book i (tc_block commit) t)"
    using assms st by (intro book_booking_kept) (simp add: same_book_def chains_kept_def)
  then show ?thesis
    using b same_book_kept [OF st] booking.chained
    by (cases r) (auto simp: commit_claimed_split bind_act_def)
qed

lemma update_pending_book [simp]: "same_book E s (update_pending f s)"
  by (simp add: update_pending_def same_book_def chains_kept_def)

lemma check_and_commit_book: "book_kept E s (snd (check_and_commit_transaction_results E commit key s))"
proof (cases "map_of (co_committed s) (from_utf8_lossy (tc_trans_id commit))")
  case (Some e)
  then show ?thesis by (cases e) (simp add: check_and_commit_transaction_results_def Let_def booking.unchanged)
next
  case None
  define i where "i = from_utf8_lossy (tc_trans_id commit)"
  define s1 where "s1 = update_pending (materialize i (sx_transaction (signed_trans (tc_block commit))) key) s"
  obtain r p where c: "claim_transaction i (tc_block commit) (co_pending s1) = (r, p)" by fastforce
  let ?t = "s1\<lparr>co_pending := p\<rparr>"
  have st: "same_book E s ?t" by (simp add: s1_def same_book_def chains_kept_def update_pending_def)
  have fresh: "map_of (co_committed ?t) i = None" using None by (simp add: i_def s1_def update_pending_def)
  show ?thesis
  proof (cases r)
    case (Inl e)
    then show ?thesis
      using None c same_book_kept [OF st] by (simp add: check_and_commit_transaction_results_def Let_def i_def s1_def)
  next
    case (Inr claim)
    have "book_kept E s (snd (commit_claimed E commit i key claim ?t))"
      by (rule booking.chained [OF same_book_kept [OF st] commit_claimed_book [OF fresh]])
    then show ?thesis
      using None c Inr by (simp add: check_and_commit_transaction_results_def Let_def i_def s1_def)
  qed
qed

lemma handle_commit_book: "book_kept E s (snd (handle_commit E m s))"
  by (auto simp: handle_commit_def booking.unchanged check_and_commit_book split: sum.splits)

lemma advance_epoch_to_book: "book_kept E s (snd (advance_epoch_to E s))"
proof (cases "co_detector s")
  case None
  then show ?thesis by (simp add: advance_epoch_to_def booking.unchanged Let_def)
next
  case (Some d)
  let ?n = "epoch_number (current_epoch d) + 1"
  show ?thesis
  proof (cases "?n \<le> co_epoch s")
    case True
    then show ?thesis using Some by (simp add: advance_epoch_to_def booking.unchanged Let_def)
  next
    case False
    then have "book_kept E s (s\<lparr>co_detector := Some (advance_to_new_epoch sel ss dur tip d), co_epoch := ?n, co_data := x\<rparr>)"
      for sel ss dur tip x
      by (auto simp: book_kept_def chains_kept_def in_step_def advance_to_new_epoch_def Let_def new_with_leader_def)
    then show ?thesis
      using Some False by (auto simp: advance_epoch_to_def Let_def split: prod.splits sum.splits)
  qed
qed

lemma handle_epoch_reconcile_book: "book_kept E s (snd (handle_epoch_reconcile E s))"
proof -
  let ?r = "reconcile (ce_codec E) (ce_hash E) (\<lambda>i p. sto_get_token (ce_store E) i p (co_data s)) (reconciler_of E s) (co_stakes s)"
  obtain q st where p: "(if slashing_ops ?r \<noteq> [] \<or> reward_ops ?r \<noteq> [] then apply_ops ?r (co_stakes s) else (Inr (), co_stakes s)) = (q, st)"
    by fastforce
  obtain r t where a: "advance_epoch_to E (s\<lparr>co_stakes := st\<rparr>) = (r, t)" by fastforce
  have 1: "book_kept E s (s\<lparr>co_stakes := st\<rparr>)" by (rule same_book_kept) (simp add: same_book_def chains_kept_def)
  have "book_kept E s t" using booking.chained [OF 1 advance_epoch_to_book [of E _]] a by simp
  then show ?thesis
    using 1 a unfolding handle_epoch_reconcile_def Let_def p by (simp split: sum.splits)
qed

lemma expire_epoch_book: "book_kept E s (snd (expire_epoch E now s))"
proof -
  obtain r t where a: "advance_epoch_to E s = (r, t)" by fastforce
  then have "book_kept E s t" using advance_epoch_to_book [of E s] by simp
  then show ?thesis using a by (simp add: expire_epoch_def booking.unchanged split: sum.splits)
qed

lemma propose_blocks_book: "book_kept E s (snd (propose_blocks E now token_id limit s))"
proof -
  obtain r t where a: "expire_epoch E now s = (r, t)" by fastforce
  then have "book_kept E s t" using expire_epoch_book [of E s now] by simp
  moreover have "book_kept E s (t\<lparr>co_pending := p\<rparr>) \<longleftrightarrow> book_kept E s t" for p
    by (simp add: book_kept_def chains_kept_def in_step_def)
  ultimately show ?thesis
    using a by (auto simp: propose_blocks_def Let_def split: sum.splits prod.splits option.splits)
qed

lemma commit_batch_book: "book_kept E s (commit_batch E commits s)"
  unfolding commit_batch_def by (rule booking.folded) (rule check_and_commit_book)

lemma run_epoch_loop_book: "book_kept E s (snd (run_epoch_loop E now ids s))"
proof (induction ids arbitrary: s)
  case Nil
  then show ?case by (simp add: booking.unchanged)
next
  case (Cons token_id ids)
  obtain r t where p: "propose_blocks E now token_id 10 s = (r, t)" by fastforce
  have st: "book_kept E s t" using propose_blocks_book [of E s now token_id 10] p by simp
  show ?case
  proof (cases r)
    case (Inl e)
    then show ?thesis using p st by simp
  next
    case (Inr commits)
    then show ?thesis
      using p booking.chained [OF st booking.chained [OF commit_batch_book Cons.IH]] by simp
  qed
qed

lemma replay_orphan_blocks_valid:
  assumes "valid_sources E" and "chains_valid E tokens"
    and "replay_orphan_blocks (ce_codec E) (ce_hash E) clock i tip token_id tokens ob = (promoted, tokens', ob')"
  shows "chains_valid E tokens'"
  using assms
proof (induction "ce_codec E" "ce_hash E" clock i tip token_id tokens ob arbitrary: promoted tokens' ob'
    rule: replay_orphan_blocks.induct)
  case (1 clock i tip token_id tokens ob)
  obtain x ob1 where t: "take_matching token_id tip (clock (2 * i + 1)) (drop_expired (clock (2 * i)) ob) = (x, ob1)" by fastforce
  show ?case
  proof (cases "\<exists>chosen t bc. x = Some chosen \<and> map_of tokens token_id = Some t \<and>
      append_validated_block (ce_codec E) (ce_hash E) chosen (tok_blockchain t) = (Appended, bc)")
    case False
    then show ?thesis
      using "1.prems" t by (subst (asm) (1) replay_orphan_blocks.simps)
        (auto split: option.splits prod.splits append_outcome.splits)
  next
    case True
    then obtain chosen t bc where x: "x = Some chosen" "map_of tokens token_id = Some t"
      "append_validated_block (ce_codec E) (ce_hash E) chosen (tok_blockchain t) = (Appended, bc)" by blast
    have "chain_valid (ce_codec E) (ce_hash E) bc"
      using append_validated_block_iff [of "ce_codec E" "ce_hash E" chosen "tok_blockchain t"]
        append_validated_block_result [of "ce_codec E" "ce_hash E" chosen "tok_blockchain t"] x(3)
        chain_valid_add [OF chains_valid_get [OF "1.prems"(2) x(2)]] "1.prems"(1)
      by (simp add: valid_sources_def)
    then have "chains_valid E (AList.update token_id (t\<lparr>tok_blockchain := bc\<rparr>) tokens)"
      using "1.prems"(2) by (simp add: chains_valid_put)
    then show ?thesis
      using "1.hyps" [OF t [symmetric] x(1) x(2) x(3) [symmetric] refl "1.prems"(1)] "1.prems"(3) t x
      by (subst (asm) (2) replay_orphan_blocks.simps) (auto split: prod.splits)
  qed
qed

lemma append_gossiped_book: "same_book E s (snd (append_gossiped E clock b s))"
proof -
  let ?k = "tx_token (sx_transaction (signed_trans b))"
  obtain r s1 where w: "warm_token E ?k s = (r, s1)" by fastforce
  have s1: "same_book E s s1" by (rule warm_token_cases [OF w])
  show ?thesis
  proof (cases "\<exists>t bc. r = Inr t \<and> append_validated_block (ce_codec E) (ce_hash E) b (tok_blockchain t) = (Appended, bc)")
    case False
    then show ?thesis
      using w s1 by (auto simp: append_gossiped_def same_book_def chains_kept_def Let_def split: sum.splits prod.splits append_outcome.splits)
  next
    case True
    then obtain t bc where t: "r = Inr t" "append_validated_block (ce_codec E) (ce_hash E) b (tok_blockchain t) = (Appended, bc)" by blast
    obtain promoted tokens ob where p: "replay_orphan_blocks (ce_codec E) (ce_hash E) clock 0 (current_hash b) ?k
        (AList.update ?k (t\<lparr>tok_blockchain := bc\<rparr>) (co_tokens s1)) (co_orphans s1) = (promoted, tokens, ob)"
      by (metis prod.exhaust)
    have "chains_valid E tokens" if v: "valid_sources E" "chains_valid E (co_tokens s)"
    proof -
      have "chain_valid (ce_codec E) (ce_hash E) bc"
        using append_validated_block_iff [of "ce_codec E" "ce_hash E" b "tok_blockchain t"]
          append_validated_block_result [of "ce_codec E" "ce_hash E" b "tok_blockchain t"] t(2)
          chain_valid_add warm_token_valid [OF v] w t(1) v(1)
        by (simp add: valid_sources_def)
      then show ?thesis
        using replay_orphan_blocks_valid [OF v(1) _ p] warm_token_valid [OF v] w t(1) by (simp add: chains_valid_put)
    qed
    then show ?thesis
      using w s1 t p by (simp add: append_gossiped_def same_book_def chains_kept_def Let_def)
  qed
qed

lemma vote_and_forward_book: "same_book E s (vote_and_forward E b t) \<longleftrightarrow> same_book E s t"
  by (simp add: vote_and_forward_def same_book_def chains_kept_def)

lemma propagate_book: "same_book E s (snd (propagate E bs s))"
proof (induction E bs s rule: propagate.induct)
  case (2 E b bs s)
  obtain r p where a: "apply_update (ce_field E) (ce_codec E) (ce_hash E) (ce_max_risk E) b (co_pool s) = (r, p)" by fastforce
  obtain q s1 where v: "save_pool E (s\<lparr>co_pool := p\<rparr>) = (q, s1)" by fastforce
  have s1: "same_book E s s1" using save_pool_book [of E "s\<lparr>co_pool := p\<rparr>"] v by simp
  have voted: "same_book E s (vote_and_forward E b s1)" "same_book E s (vote_and_forward E b (s\<lparr>co_pool := p\<rparr>))"
    using s1 by (simp_all add: vote_and_forward_book frame.unchanged)
  show ?case
  proof (cases r)
    case (Inl e)
    then show ?thesis using a by (simp add: frame.unchanged)
  next
    case (Inr out)
    show ?thesis
    proof (cases out)
      case Applied
      then show ?thesis
        using a Inr v s1 "2.IH"(1) [OF a [symmetric] Inr Applied v [symmetric]] frame.chained [OF voted(1)]
        by (cases q) auto
    qed (use a Inr "2.IH" frame.chained [OF voted(2)] in auto)
  qed
qed (simp add: frame.unchanged)

lemma handle_block_finalized_book: "same_book E s (snd (handle_block_finalized E clock m s))"
proof (cases "ce_un_block E (msg_body m)")
  case (Inl e)
  then show ?thesis by (simp add: handle_block_finalized_def frame.unchanged)
next
  case (Inr b)
  let ?s1 = "s\<lparr>co_quorum := cache_stake_set (ce_quorum_percentage E) (current_hash b) (msg_stake_set m) (co_quorum s)\<rparr>"
  have s1: "same_book E s ?s1" by (simp add: same_book_def chains_kept_def)
  have "same_book E ?s1 (snd (bind_act (append_gossiped E clock b) (propagate E) ?s1))"
    by (intro frame.bound append_gossiped_book propagate_book)
  then show ?thesis
    using Inr s1 frame.chained [OF s1] by (auto simp: handle_block_finalized_def Let_def split: sum.splits)
qed

lemma confirm_tip_valid:
  assumes "chains_valid E tokens" and "confirm_tip h tokens = (r, tokens')"
  shows "chains_valid E tokens'"
proof -
  have "chain_valid (ce_codec E) (ce_hash E) (snd (set_finality_status h st bc)) \<longleftrightarrow> chain_valid (ce_codec E) (ce_hash E) bc" for st bc
    using set_finality_status_sound [of h st bc] by (metis prod.collapse)
  then show ?thesis
    using assms by (auto simp: confirm_tip_def chains_valid_put chains_valid_get split: option.splits)
qed

lemma handle_quorum_book: "same_book E s (snd (handle_quorum E m s))"
proof -
  obtain r q tokens where h: "handle_block_quorum_reached (ce_un_quorum E) (ce_quorum_percentage E) (msg_body m)
      (co_quorum s, co_tokens s) = (r, q, tokens)" by (metis prod.exhaust)
  have "chains_valid E tokens" if "chains_valid E (co_tokens s)"
    using h that confirm_tip_valid [OF that]
    by (auto simp: handle_block_quorum_reached_def split: sum.splits option.splits bool.splits prod.splits)
  then show ?thesis by (simp add: handle_quorum_def h same_book_def chains_kept_def)
qed

lemma handle_token_distribution_book: "same_book E s (snd (handle_token_distribution E m s))"
  by (auto simp: handle_token_distribution_def same_book_def chains_kept_def valid_sources_def chains_valid_put
      split: sum.splits option.splits)

lemma handle_message_book: "book_kept E s (snd (handle_message E clock m s))"
proof -
  have "same_book E s (snd (handle_block_distribution E m s))" "same_book E s (snd (handle_vote E m s))"
    by (auto simp: handle_block_distribution_def handle_vote_def same_book_def chains_kept_def split: sum.splits prod.splits)
  then show ?thesis
    by (simp add: handle_message_def booking.unchanged handle_commit_book handle_epoch_reconcile_book same_book_kept
        handle_block_finalized_book handle_quorum_book handle_token_distribution_book split: sum.splits)
qed

lemma committer_step_book: "committer_step E s t \<Longrightarrow> book_kept E s t"
  by (cases rule: committer_step.cases) (auto intro: handle_message_book run_epoch_loop_book)

lemma committer_run_book: "committer_run E s t \<Longrightarrow> book_kept E s t"
  by (rule booking.iterated [OF committer_step_book])

section \<open>What the later steps of a commit leave alone\<close>

definition settled :: "('d, 'f) committer \<Rightarrow> ('d, 'f) committer \<Rightarrow> bool" where
  "settled s t \<longleftrightarrow> co_tokens t = co_tokens s \<and> co_candidates t = co_candidates s \<and> co_stakes t = co_stakes s"

interpretation rest: action_order settled
  by unfold_locales (auto simp: settled_def)

lemma settled_pool [simp]: "settled s (t\<lparr>co_pool := p\<rparr>) \<longleftrightarrow> settled s t" "settled (s\<lparr>co_pool := p\<rparr>) t \<longleftrightarrow> settled s t"
  by (simp_all add: settled_def)

lemma save_pool_settled: "settled s (snd (save_pool E s))"
  by (simp add: save_pool_def settled_def split: prod.splits)

lemma shielded_commit_apply_settled: "settled s (snd (shielded_commit_apply E b s))"
proof -
  obtain r p where a: "apply_update (ce_field E) (ce_codec E) (ce_hash E) (ce_max_risk E) b (co_pool s) = (r, p)" by fastforce
  show ?thesis
    using a save_pool_settled [of "s\<lparr>co_pool := p\<rparr>" E]
    by (auto simp: shielded_commit_apply_def rest.unchanged split: sum.splits prod.splits pool_apply_outcome.splits)
qed

lemma drop_loser_delta_settled: "settled s (snd (drop_loser_delta E l s))"
proof -
  obtain r p where a: "revert_update (ce_field E) l (co_pool s) = (r, p)" by fastforce
  show ?thesis
    using a save_pool_settled [of "s\<lparr>co_pool := p\<rparr>" E]
    by (auto simp: drop_loser_delta_def Let_def rest.unchanged split: sum.splits committer_error.splits)
qed

lemma deduct_gas_settled: "settled s (snd (deduct_gas E i tx s))"
  by (simp add: deduct_gas_def settled_def Let_def split: option.splits sum.splits prod.splits)

lemma save_in_environment_settled: "settled s (snd (save_in_environment E i t s))"
  by (simp add: save_in_environment_def settled_def split: sum.splits prod.splits)

lemma apply_deltas_settled: "settled s (snd (apply_deltas E tx e s))"
proof -
  have "settled s (snd (apply_deploy_delta E tx s))"
    by (auto simp: apply_deploy_delta_def rest.unchanged save_in_environment_settled split: sum.splits if_splits)
  moreover have "settled s (snd (apply_upgrade_delta E tx e s))"
    by (auto simp: apply_upgrade_delta_def rest.unchanged save_in_environment_settled split: sum.splits if_splits prod.splits)
  moreover have "settled s (snd (apply_storage_delta E tx s))"
    by (auto simp: apply_storage_delta_def rest.unchanged save_in_environment_settled
        split: sum.splits if_splits prod.splits option.splits)
  ultimately show ?thesis by (simp add: apply_deltas_def ret_def rest.unchanged)
qed

lemma close_entry_settled: "settled s (snd (close_entry i tx h l s))"
  by (simp add: close_entry_def settled_def Let_def split: sum.splits prod.splits)

lemma book_settled: "settled s (book i b s)"
  by (simp add: book_def settled_def Let_def prune_committed_txs_def)

lemma services_commit_block_Inr:
  assumes "services_commit_block E commit l s = (Inr r, s1)"
  obtains t0 t where "warm_token E (tc_token_id commit) s = (Inr t0, s\<lparr>co_tokens := co_tokens (snd (warm_token E (tc_token_id commit) s))\<rparr>)"
    and "commit_block (ce_codec E) (ce_hash E) (ce_specs E) (tc_block commit) False l t0 = (Inr r, t)"
    and "map_of (co_tokens s1) (tc_token_id commit) = Some t"
    and "sto_save_token (ce_store E) (tc_token_id commit) t (ce_partition E) (co_data s) = (Inr (), co_data s1)"
    and "co_candidates s1 = co_candidates s" and "co_stakes s1 = co_stakes s"
    and "co_pending s1 = co_pending s" and "co_pool s1 = co_pool s"
proof -
  obtain q w where w: "warm_token E (tc_token_id commit) s = (q, w)" by fastforce
  have w': "w = s\<lparr>co_tokens := co_tokens w\<rparr>" using w by (auto simp: warm_token_def split: option.splits sum.splits)
  obtain t0 where q: "q = Inr t0" using assms w by (cases q) (auto simp: services_commit_block_def split: if_splits)
  obtain o' t where c: "commit_block (ce_codec E) (ce_hash E) (ce_specs E) (tc_block commit) False l t0 = (o', t)" by fastforce
  have o': "o' = Inr r" using assms w q c
    by (cases o') (auto simp: services_commit_block_def Let_def split: if_splits sum.splits prod.splits)
  obtain u d where d: "sto_save_token (ce_store E) (tc_token_id commit) t (ce_partition E) (co_data w) = (u, d)" by fastforce
  have u: "u = Inr ()" and s1: "s1 = w\<lparr>co_tokens := AList.update (tc_token_id commit) t (co_tokens w), co_data := d\<rparr>"
    using assms w q c o' d
    by (auto simp: services_commit_block_def Let_def split: if_splits sum.splits)
  show thesis
  proof (rule that)
    show "warm_token E (tc_token_id commit) s = (Inr t0, s\<lparr>co_tokens := co_tokens (snd (warm_token E (tc_token_id commit) s))\<rparr>)"
      using w w' q by simp
    show "commit_block (ce_codec E) (ce_hash E) (ce_specs E) (tc_block commit) False l t0 = (Inr r, t)" using c o' by simp
    show "map_of (co_tokens s1) (tc_token_id commit) = Some t" by (simp add: s1 update_conv')
    have "co_data w = co_data s" by (subst w') simp
    then show "sto_save_token (ce_store E) (tc_token_id commit) t (ce_partition E) (co_data s) = (Inr (), co_data s1)"
      using d u s1 by simp
    show "co_candidates s1 = co_candidates s" "co_stakes s1 = co_stakes s" "co_pending s1 = co_pending s" "co_pool s1 = co_pool s"
      by (simp_all add: s1, (subst w', simp)+)
  qed
qed

lemma append_or_undo_Inr:
  "append_or_undo E commit l a s = (Inr (), t) \<Longrightarrow> \<exists>r. services_commit_block E commit l s = (Inr r, t)"
  by (auto simp: append_or_undo_def split: prod.splits sum.splits)

lemma resolve_and_append_Inr:
  assumes "resolve_and_append E commit key s = (Inr (), v)"
  obtains outcome s1 applied s2 r s3 where
    "handle_conflict_at_commit E commit key s = (Inr outcome, s1)"
    and "shielded_commit_apply E (tc_block commit) s1 = (Inr applied, s2)"
    and "services_commit_block E commit (case outcome of CommitPlain \<Rightarrow> None | CommitWinnerAfterRollback l \<Rightarrow> Some l) s2 = (Inr r, s3)"
    and "settled s3 v"
proof -
  obtain outcome s1 where o1: "handle_conflict_at_commit E commit key s = (Inr outcome, s1)"
    and o2: "bind_act (shielded_commit_apply E (tc_block commit)) (\<lambda>applied.
         case outcome of
           CommitPlain \<Rightarrow> append_or_undo E commit None applied
         | CommitWinnerAfterRollback loser \<Rightarrow>
             bind_act (append_or_undo E commit (Some loser) applied) (\<lambda>_. drop_loser_delta E loser)) s1 = (Inr (), v)"
    using bind_act_Inr [OF assms [unfolded resolve_and_append_def]] by blast
  obtain applied s2 where a: "shielded_commit_apply E (tc_block commit) s1 = (Inr applied, s2)"
    and rest: "(case outcome of
           CommitPlain \<Rightarrow> append_or_undo E commit None applied
         | CommitWinnerAfterRollback loser \<Rightarrow>
             bind_act (append_or_undo E commit (Some loser) applied) (\<lambda>_. drop_loser_delta E loser)) s2 = (Inr (), v)"
    using bind_act_Inr [OF o2] by blast
  show thesis
  proof (cases outcome)
    case CommitPlain
    then show thesis using that [OF o1 a] rest append_or_undo_Inr [of E commit None applied s2 v] rest.unchanged by auto
  next
    case (CommitWinnerAfterRollback l)
    then obtain s3 where b: "append_or_undo E commit (Some l) applied s2 = (Inr (), s3)" and d: "drop_loser_delta E l s3 = (Inr (), v)"
      using bind_act_Inr [of "append_or_undo E commit (Some l) applied" "\<lambda>_. drop_loser_delta E l" s2] rest by auto
    then show thesis
      using that [OF o1 a] append_or_undo_Inr [OF b] CommitWinnerAfterRollback drop_loser_delta_settled [of s3 E l] d by auto
  qed
qed

lemma commit_claimed_Inr:
  assumes "commit_claimed E commit i key claim s = (Inr (), t)"
  obtains v where
    "same_identity E i (fst claim) (sx_transaction (signed_trans (tc_block commit))) = Inr ()"
    and "same_shielded E i (sx_shielded (signed_trans (tc_block commit))) (co_pending s) = Inr ()"
    and "resolve_and_append E commit key s = (Inr (), v)" and "settled v t"
proof -
  define b where "b = tc_block commit"
  define tx where "tx = (fst claim)\<lparr>tx_result_hash := tx_result_hash (sx_transaction (signed_trans b)),
                                    tx_result_data := tx_result_data (sx_transaction (signed_trans b))\<rparr>"
  obtain w where pre: "before_booking E commit i key claim s = (Inr (), w)" and t: "t = book i b w"
    using bind_act_unit [OF assms [unfolded commit_claimed_split]] by (auto simp: b_def)
  note step = pre [unfolded before_booking_def Let_def, folded b_def, folded tx_def]
  obtain s0 where 1: "lift_res (same_identity E i (fst claim) (sx_transaction (signed_trans b))) s = (Inr (), s0)"
    and step1: "bind_act (\<lambda>s. (same_shielded E i (sx_shielded (signed_trans b)) (co_pending s), s)) (\<lambda>_.
         bind_act (resolve_and_append E commit key) (\<lambda>_. bind_act (deduct_gas E i tx) (\<lambda>_.
         bind_act (apply_deltas E tx (blk_epoch b)) (\<lambda>_. close_entry i tx (current_hash b) (snd claim))))) s0 = (Inr (), w)"
    using bind_act_unit [OF step] by blast
  have s0: "s0 = s" using 1 by (simp add: lift_res_def)
  obtain v where 2: "same_shielded E i (sx_shielded (signed_trans b)) (co_pending s) = Inr ()"
    and 3: "resolve_and_append E commit key s = (Inr (), v)"
    and step2: "bind_act (deduct_gas E i tx) (\<lambda>_.
         bind_act (apply_deltas E tx (blk_epoch b)) (\<lambda>_. close_entry i tx (current_hash b) (snd claim))) v = (Inr (), w)"
    using bind_act_unit [OF step1] bind_act_unit [of "resolve_and_append E commit key" _ s] s0 by (metis Pair_inject)
  have "settled v (snd (bind_act (deduct_gas E i tx) (\<lambda>_.
         bind_act (apply_deltas E tx (blk_epoch b)) (\<lambda>_. close_entry i tx (current_hash b) (snd claim))) v))"
    by (intro rest.bound deduct_gas_settled apply_deltas_settled close_entry_settled)
  then have "settled v w" using step2 by simp
  then have "settled v t" using rest.chained [OF _ book_settled] t by simp
  then show thesis using that 1 2 3 by (simp add: lift_res_def b_def)
qed

lemma check_and_commit_Inr:
  assumes "check_and_commit_transaction_results E commit key s = (Inr (), t)"
  obtains claim :: "transaction \<times> bool" and u v where
    "map_of (co_committed s) (from_utf8_lossy (tc_trans_id commit)) = None"
    and "same_identity E (from_utf8_lossy (tc_trans_id commit)) (fst claim) (sx_transaction (signed_trans (tc_block commit))) = Inr ()"
    and "u = s\<lparr>co_pending := co_pending u\<rparr>"
    and "resolve_and_append E commit key u = (Inr (), v)" and "settled v t"
proof -
  define i where "i = from_utf8_lossy (tc_trans_id commit)"
  define s1 where "s1 = update_pending (materialize i (sx_transaction (signed_trans (tc_block commit))) key) s"
  have None: "map_of (co_committed s) i = None"
    using assms by (auto simp: check_and_commit_transaction_results_def Let_def i_def split: option.splits)
  obtain r p where c: "claim_transaction i (tc_block commit) (co_pending s1) = (r, p)" by fastforce
  obtain claim where r: "r = Inr claim" and fin: "commit_claimed E commit i key claim (s1\<lparr>co_pending := p\<rparr>) = (Inr (), t)"
    using assms c None by (cases r) (auto simp: check_and_commit_transaction_results_def Let_def i_def s1_def)
  show thesis
    using commit_claimed_Inr [OF fin] that [of claim "s1\<lparr>co_pending := p\<rparr>"] None
    by (auto simp: i_def s1_def update_pending_def)
qed

end
