(* ===== verification/Committer_Demo.thy ===== *)
theory Committer_Demo
  imports Committer_Run
begin

text \<open>A concrete committer: a store of tokens and users, an environment over it and a routed block.\<close>

record demo_data =
  dd_tokens :: "token amap"
  dd_users :: "user amap"

definition demo_ops :: "demo_data store_ops" where
  "demo_ops =
     \<lparr>sto_get_token = (\<lambda>i p d. case map_of (dd_tokens d) i of Some t \<Rightarrow> Inr t | None \<Rightarrow> Inl DataNotFound),
      sto_save_token = (\<lambda>i t p d. (Inr (), d\<lparr>dd_tokens := AList.update i t (dd_tokens d)\<rparr>)),
      sto_get_user = (\<lambda>i p d. case map_of (dd_users d) i of Some u \<Rightarrow> Inr u | None \<Rightarrow> Inl DataNotFound),
      sto_save_user = (\<lambda>i u p d. (Inr (), d\<lparr>dd_users := AList.update i u (dd_users d)\<rparr>)),
      sto_save_stakes = (\<lambda>e ss p d. (Inr (), d)), sto_save_executors = (\<lambda>e es p d. (Inr (), d)),
      sto_pool = \<lparr>get_shielded_pool = (\<lambda>p d. Inr None), save_shielded_pool = (\<lambda>st p d. (Inr (), d))\<rparr>\<rparr>"

definition routed_tx :: transaction where
  "routed_tx = demo_tx\<lparr>tx_selection :=
     Some \<lparr>sel_finalizer = [9], sel_epoch = 0, sel_salt = [], sel_sentinel = [7], sel_attestation = [7, 1]\<rparr>\<rparr>"

definition routed_signed :: signed_transaction where
  "routed_signed = demo_signed\<lparr>sx_transaction := routed_tx,
     sx_finalizer_sig := (finalizer_placeholder_sig routed_tx)\<lparr>sig_transaction_hash := demo_digest, sig_signature := [9] @ demo_digest\<rparr>\<rparr>"

definition routed_block :: block where
  "routed_block = (demo_block [])\<lparr>signed_trans := routed_signed\<rparr>"

definition routed_commit :: transaction_commit where
  "routed_commit = \<lparr>tc_trans_id = as_bytes ''t1'', tc_token_id = [1], tc_env_id = ''env'', tc_block = routed_block\<rparr>"

definition committer_codec :: codec where
  "committer_codec = demo_codec\<lparr>rmp_carrier := (\<lambda>_. Inr [4])\<rparr>"

lemma committer_codec_same: "create_hash committer_codec hash b = create_hash demo_codec hash b"
proof -
  have sh: "shielded_canonical_bytes committer_codec sh = shielded_canonical_bytes demo_codec sh" for sh
    by (simp add: shielded_canonical_bytes_def committer_codec_def)
  have "canonical_signed_trans_bytes committer_codec sx = canonical_signed_trans_bytes demo_codec sx" for sx
    unfolding canonical_signed_trans_bytes_def sh by (simp add: committer_codec_def)
  then show ?thesis
    by (simp add: create_hash_def hash_input_def canonical_map_bytes_def) (simp add: committer_codec_def)
qed

lemma committer_self_hashed: "self_hashed committer_codec length_hash (demo_block p)"
  using demo_self_hashed [of p] by (simp add: self_hashed_def committer_codec_same)

definition demo_committer_env :: "(demo_data, bytes, bytes) committer_env" where
  "demo_committer_env =
     \<lparr>ce_codec = committer_codec, ce_hash = length_hash, ce_crypto = demo_crypto, ce_public_key = [9], ce_environment_id = ''env'',
      ce_partition = ''env'', ce_field = demo_field, ce_max_risk = Fin 1, ce_specs = demo_specs, ce_slash_fraction = Fin 1,
      ce_quorum_percentage = Fin 67, ce_governance = demo_governance, ce_store = demo_ops, ce_registry = demo_env,
      ce_select = (\<lambda>_ _ _. [9]), ce_epoch_duration = 300, ce_proposer = demo_proposer, ce_reconciled_tokens = [],
      ce_un_commit = (\<lambda>bs. if bs = [1] then Inr routed_commit else Inl ''bad''),
      ce_un_block = (\<lambda>bs. if bs = [2] then Inr routed_block else Inl ''bad''),
      ce_un_token = (\<lambda>bs. Inl ''bad''), ce_un_vote = (\<lambda>bs. Inl ''bad''), ce_un_quorum = (\<lambda>bs. Inl ''bad'')\<rparr>"

definition demo_committer :: "(demo_data, bytes) committer" where
  "demo_committer =
     \<lparr>co_tokens = [([1], token_new\<lparr>tok_id := [1]\<rparr>)], co_committed = [], co_pending = registry_new, co_stakes = [([9], 10)],
      co_candidates = \<lparr>candidates = [], max_candidates = 8\<rparr>, co_pool = demo_pool, co_epoch = 1,
      co_detector = Some (detector_new \<lparr>start_timestamp = 0, end_timestamp = 300, epoch_number = 1, leader_public_key = [9]\<rparr>),
      co_quorum = quorum_new, co_orphans = orphans_new 1024 256 30, co_nodes = (registry_init [])\<lparr>self_delivery := Some [Sentinel]\<rparr>,
      co_archived = [], co_sent_votes = [], co_data = \<lparr>dd_tokens = [], dd_users = []\<rparr>\<rparr>"

definition commit_message :: message where
  "commit_message =
     \<lparr>msg_chain_id = ''env'', msg_action = ''Commit'', msg_body = [1], msg_signature = [9, 1], msg_public_key = [9], msg_stake_set = None\<rparr>"

end
