(* ===== verification/Committer_Properties.thy ===== *)
theory Committer_Properties
  imports Committer_Safety Committer_Demo
begin

text \<open>
  Properties of the whole committer: what a run keeps, who may commit a block, what a failed commit
  leaves behind, the delivery of gossiped blocks in any order, and the places where two paths of the
  committer work against each other.
\<close>

section \<open>Runs\<close>



section \<open>Authority\<close>

lemma block_authority_Inr:
  assumes "block_authority E s b key i = Inr ()" and "sx_shielded (signed_trans b) = None"
  obtains r where "tx_selection (sx_transaction (signed_trans b)) = Some r"
    and "selection_verify (ce_codec E) (ce_crypto E) r (tx_id (sx_transaction (signed_trans b))) FINALIZER_DOMAIN = Inr True"
    and "Sentinel \<in> set (find_node_types_by_public_key (ce_registry E) (co_nodes s) (sel_sentinel r))"
    and "sel_finalizer r = key"
    and "verify_finalizer_signature (ce_codec E) (ce_hash E) (ce_crypto E) (signed_trans b) key = Inr ()"
proof -
  obtain r where r: "tx_selection (sx_transaction (signed_trans b)) = Some r"
    using assms by (cases "tx_selection (sx_transaction (signed_trans b))") (auto simp: block_authority_def)
  have v: "selection_verify (ce_codec E) (ce_crypto E) r (tx_id (sx_transaction (signed_trans b))) FINALIZER_DOMAIN = Inr True"
    using assms r by (auto simp: block_authority_def split: sum.splits if_splits)
  have s: "Sentinel \<in> set (find_node_types_by_public_key (ce_registry E) (co_nodes s) (sel_sentinel r))"
    using assms r v by (auto simp: block_authority_def split: if_splits)
  have n: "selection_names r key" using assms r v s by (auto simp: block_authority_def split: if_splits)
  have "verify_finalizer_sig_under E (signed_trans b) (sel_finalizer r) i = Inr ()"
    using assms r v s n by (auto simp: block_authority_def split: if_splits)
  then show thesis
    using that [OF r v s] n
    by (auto simp: selection_names_def verify_finalizer_sig_under_def split: sum.splits finalizer_signature_failure.splits)
qed

text \<open>C15: a transparent block is committed only when a registered Sentinel attested, for this
  transaction, that the sender is its Finalizer, and the Finalizer's signature over the received
  contents verifies under that very key; the block, under its recomputed hash, is then the tip of
  the token's chain.\<close>

theorem commit_needs_routed_finalizer:
  assumes "handle_commit E m s = (Inr (), t)" and "ce_un_commit E (msg_body m) = Inr commit"
    and "sx_shielded (signed_trans (tc_block commit)) = None"
  shows "(\<exists>r. tx_selection (sx_transaction (signed_trans (tc_block commit))) = Some r \<and>
           selection_verify (ce_codec E) (ce_crypto E) r (tx_id (sx_transaction (signed_trans (tc_block commit)))) FINALIZER_DOMAIN = Inr True \<and>
           Sentinel \<in> set (find_node_types_by_public_key (ce_registry E) (co_nodes s) (sel_sentinel r)) \<and>
           sel_finalizer r = msg_public_key m) \<and>
         verify_finalizer_signature (ce_codec E) (ce_hash E) (ce_crypto E) (signed_trans (tc_block commit)) (msg_public_key m) = Inr () \<and>
         (\<exists>tok h. create_hash (ce_codec E) (ce_hash E) (tc_block commit) = Inr h \<and>
            map_of (co_tokens t) (tc_token_id commit) = Some tok \<and>
            last_block (tok_blockchain tok) = Some ((tc_block commit)\<lparr>current_hash := h\<rparr>))"
proof -
  have auth: "block_authority E s (tc_block commit) (msg_public_key m) (from_utf8_lossy (tc_trans_id commit)) = Inr ()"
    and commit: "check_and_commit_transaction_results E commit (msg_public_key m) s = (Inr (), t)"
    using assms(1,2) by (auto simp: handle_commit_def commit_authority_def split: sum.splits)
  obtain u v where r: "resolve_and_append E commit (msg_public_key m) u = (Inr (), v)" and vt: "settled v t"
    using check_and_commit_Inr [OF commit] by metis
  obtain l s2 x s3 where c: "services_commit_block E commit l s2 = (Inr x, s3)" and "settled s3 v"
    using resolve_and_append_Inr [OF r] by metis
  then have same: "co_tokens t = co_tokens s3" using vt by (simp add: settled_def)
  obtain t0 tok where b: "commit_block (ce_codec E) (ce_hash E) (ce_specs E) (tc_block commit) False l t0 = (Inr x, tok)"
    and tok: "map_of (co_tokens s3) (tc_token_id commit) = Some tok"
    using services_commit_block_Inr [OF c] by metis
  obtain h where "create_hash (ce_codec E) (ce_hash E) (tc_block commit) = Inr h"
    and "last_block (tok_blockchain tok) = Some ((tc_block commit)\<lparr>current_hash := h\<rparr>)"
    using commit_block_ok [OF b] by (metis last_block_def last_snoc snoc_eq_iff_butlast)
  then show ?thesis
    using block_authority_Inr [OF auth assms(3)] tok same by metis
qed

section \<open>A failed append\<close>

lemma services_commit_block_refused:
  assumes "services_commit_block E commit l s = (Inl (CeBlockCommit e), s1)"
  shows "co_pool s1 = co_pool s \<and> (\<forall>k t. map_of (co_tokens s) k = Some t \<longrightarrow> map_of (co_tokens s1) k = Some t)"
proof -
  obtain q w where w: "warm_token E (tc_token_id commit) s = (q, w)" by fastforce
  have w': "co_pool w = co_pool s" "\<forall>k t. map_of (co_tokens s) k = Some t \<longrightarrow> map_of (co_tokens w) k = Some t"
    using w by (auto simp: warm_token_def update_conv' split: option.splits sum.splits)
  obtain t0 where q: "q = Inr t0"
    using assms w by (cases q) (auto simp: services_commit_block_def warm_token_def split: if_splits option.splits sum.splits)
  obtain r t where c: "commit_block (ce_codec E) (ce_hash E) (ce_specs E) (tc_block commit) False l t0 = (r, t)" by fastforce
  have r: "r = Inl e" and s1: "s1 = w\<lparr>co_tokens := AList.update (tc_token_id commit) t (co_tokens w)\<rparr>"
    using assms w q c by (auto simp: services_commit_block_def Let_def split: if_splits sum.splits prod.splits)
  have "t = t0" using commit_block_error_same c r by metis
  moreover have "map_of (co_tokens w) (tc_token_id commit) = Some t0"
    using w q by (auto simp: warm_token_def update_conv' split: option.splits sum.splits)
  ultimately show ?thesis using w' s1 by (auto simp: update_conv')
qed

text \<open>C17: pool and chain fail together.  When the chain refuses a block whose pool delta was applied, the
  undo brings back the very pool from before the commit and every cached token is the one from
  before; when the undo cannot be saved the error says so, and the pool is still the old one.\<close>

theorem refused_block_undone:
  assumes "canonical_field (ce_field E)" and "pool_ok (ce_field E) (co_pool s)" and "current_hash (tc_block commit) \<noteq> []"
    and "shielded_commit_apply E (tc_block commit) s = (Inr applied, s1)"
    and "services_commit_block E commit l s1 = (Inl (CeBlockCommit e), s2)"
    and "append_or_undo E commit l applied s1 = (r, s3)"
  shows "co_pool s3 = co_pool s \<and> (\<forall>k t. map_of (co_tokens s) k = Some t \<longrightarrow> map_of (co_tokens s3) k = Some t) \<and>
         (r = Inl (CeBlockCommit e) \<or> r = Inl CePoolPersist)"
proof -
  let ?b = "tc_block commit"
  obtain out p where a: "apply_update (ce_field E) (ce_codec E) (ce_hash E) (ce_max_risk E) ?b (co_pool s) = (out, p)" by fastforce
  have out: "out = Inr applied" and p1: "co_pool s1 = p" and t1: "co_tokens s1 = co_tokens s"
    using assms(4) a by (auto simp: shielded_commit_apply_def save_pool_def
        split: sum.splits prod.splits pool_apply_outcome.splits)
  note keep = services_commit_block_refused [OF assms(5)]
  show ?thesis
  proof (cases "applied = Applied")
    case True
    have rev: "revert_update (ce_field E) (current_hash ?b) (co_pool s2) = (Inr (), co_pool s)"
      using revert_applied [OF assms(2,1), of "ce_codec E" "ce_hash E" "ce_max_risk E" ?b p] a out True keep p1 assms(3)
      by (simp add: pool_block_hash_def)
    have "shielded_commit_undo E ?b applied s2 = save_pool E (s2\<lparr>co_pool := co_pool s\<rparr>)"
      using rev True by (simp add: shielded_commit_undo_def)
    then show ?thesis
      using assms(5,6) keep t1
      by (auto simp: append_or_undo_def save_pool_def pool_save_def split: sum.splits prod.splits)
  next
    case False
    then have "p = co_pool s" using apply_update_cases [OF a] out by auto
    then show ?thesis
      using assms(5,6) keep t1 p1 False by (auto simp: append_or_undo_def shielded_commit_undo_def)
  qed
qed

section \<open>The cache and the store\<close>

lemma commit_block_asset: "commit_block c hash specs b archiver l t = (r, t') \<Longrightarrow> asset_data t' = asset_data t"
proof (cases r)
  case (Inl e)
  then show "commit_block c hash specs b archiver l t = (r, t') \<Longrightarrow> ?thesis" using commit_block_error_same by metis
next
  case (Inr res)
  assume c: "commit_block c hash specs b archiver l t = (r, t')"
  obtain removed t1 where rb: "rollback_tip l t = (removed, t1)" by fastforce
  have "asset_data t1 = asset_data t" using rollback_other [OF rb] by (metis token.select_convs(4) token.surjective token.update_convs(3))
  then show ?thesis
    using c Inr rb by (auto simp: commit_block_def Let_def split: sum.splits)
qed

text \<open>The committer's cache undoes contract state.  A delta is applied to the stored token only, so
  the next commit of that token stores the cached one: its asset is the asset the cache was loaded
  with, whatever the deltas had made of the stored asset.\<close>

theorem commit_overwrites_contract_state:
  assumes "map_of (co_tokens s) (tc_token_id commit) = Some cached"
    and "apply_deltas E tx epoch s = (Inr (), s1)"
    and "services_commit_block E commit l s1 = (Inr r, s2)"
    and "\<forall>t d d'. sto_save_token (ce_store E) (tc_token_id commit) t (ce_partition E) d = (Inr (), d') \<longrightarrow>
           sto_get_token (ce_store E) (tc_token_id commit) (ce_partition E) d' = Inr t"
  shows "\<exists>t. sto_get_token (ce_store E) (tc_token_id commit) (ce_partition E) (co_data s2) = Inr t \<and> asset_data t = asset_data cached"
proof -
  have "co_tokens s1 = co_tokens s" using apply_deltas_settled [of s E tx epoch] assms(2) by (simp add: settled_def)
  then have w: "warm_token E (tc_token_id commit) s1 = (Inr cached, s1)" using assms(1) by (simp add: warm_token_def)
  obtain t0 t where "warm_token E (tc_token_id commit) s1 = (Inr t0, s1\<lparr>co_tokens := co_tokens (snd (warm_token E (tc_token_id commit) s1))\<rparr>)"
    and c: "commit_block (ce_codec E) (ce_hash E) (ce_specs E) (tc_block commit) False l t0 = (Inr r, t)"
    and s: "sto_save_token (ce_store E) (tc_token_id commit) t (ce_partition E) (co_data s1) = (Inr (), co_data s2)"
    using services_commit_block_Inr [OF assms(3)] by metis
  then have "t0 = cached" using w by simp
  then show ?thesis using commit_block_asset [OF c] s assms(4) by blast
qed

section \<open>The leader's own batch\<close>

lemma conflict_same_proposer:
  assumes "get_candidates (co_candidates s) (tc_token_id commit) (previous_hash (tc_block commit)) = (cand, p) # cs"
  shows "handle_conflict_at_commit E commit p s =
    (Inl CeLoserDiscarded,
     s\<lparr>co_candidates := snd (remove_conflicted (tc_token_id commit) (previous_hash (tc_block commit)) (co_candidates s)),
       co_stakes := slash p (slash_amount (ce_slash_fraction E) (store_get_stake (co_stakes s) p)) (co_stakes s)\<rparr>)"
  using assms by (simp add: handle_conflict_at_commit_def Let_def resolve_block_conflict_def apply_ops_def)

lemma propose_blocks_position:
  assumes "propose_blocks E now k n s = (Inr commits, s1)"
  obtains prev where "\<forall>c\<in>set commits. tc_token_id c = k \<and> previous_hash (tc_block c) = prev \<and> current_hash (tc_block c) = []"
proof -
  have "\<exists>t. \<forall>c\<in>set commits. \<exists>e tx sx. c = leader_commit E now k t e tx sx"
    using assms by (auto simp: propose_blocks_def Let_def split: sum.splits prod.splits if_splits option.splits) blast
  then obtain t where "\<forall>c\<in>set commits. \<exists>e tx sx. c = leader_commit E now k t e tx sx" ..
  then show thesis
    by (intro that [of "previous_hash (tc_block (leader_commit E now k t undefined undefined undefined))"])
      (auto simp: leader_commit_def from_transaction_def)
qed

lemma first_commit_is_candidate:
  assumes "check_and_commit_transaction_results E commit key s = (Inr (), t)"
    and "get_candidates (co_candidates s) (tc_token_id commit) (previous_hash (tc_block commit)) = []"
    and "0 < max_candidates (co_candidates s)"
  shows "get_candidates (co_candidates t) (tc_token_id commit) (previous_hash (tc_block commit)) = [(tc_block commit, key)]"
proof -
  obtain u v where u: "u = s\<lparr>co_pending := co_pending u\<rparr>" and r: "resolve_and_append E commit key u = (Inr (), v)" and vt: "settled v t"
    using check_and_commit_Inr [OF assms(1)] by metis
  have cu: "co_candidates u = co_candidates s" by (subst u) simp
  obtain outcome s1 applied s2 l x s3 where c: "handle_conflict_at_commit E commit key u = (Inr outcome, s1)"
    and a: "shielded_commit_apply E (tc_block commit) s1 = (Inr applied, s2)"
    and b: "services_commit_block E commit l s2 = (Inr x, s3)" and "settled s3 v"
    using resolve_and_append_Inr [OF r] by metis
  then have "co_candidates t = co_candidates s3" using vt by (simp add: settled_def)
  also have "\<dots> = co_candidates s2" using services_commit_block_Inr [OF b] by metis
  also have "\<dots> = co_candidates s1" using shielded_commit_apply_settled [of s1 E "tc_block commit"] a by (simp add: settled_def)
  finally show ?thesis
    using c cu assms(2,3)
    by (auto simp: handle_conflict_at_commit_def Let_def candidates_insert_def get_candidates_def update_conv' split: if_splits)
qed

text \<open>A leader that proposes two transactions of one token in a batch slashes itself.  Both blocks
  are built on the same tip, so once the first is committed the second stands at an occupied
  position under the leader's own key: it is discarded and the leader loses the slash fraction of
  its stake.\<close>

theorem leader_batch_slashes_leader:
  assumes "propose_blocks E now k n s = (Inr (c1 # c2 # cs), s1)"
    and "get_candidates (co_candidates s1) k (previous_hash (tc_block c1)) = []" and "0 < max_candidates (co_candidates s1)"
    and "check_and_commit_transaction_results E c1 (sender_public_key E) s1 = (Inr (), t)"
    and "map_of (co_committed t) (from_utf8_lossy (tc_trans_id c2)) = None"
    and "map_of (transactions (co_pending t)) (from_utf8_lossy (tc_trans_id c2)) = Some pt"
    and "pt_state pt = Validated tx v"
    and "same_identity E (from_utf8_lossy (tc_trans_id c2)) tx (sx_transaction (signed_trans (tc_block c2))) = Inr ()"
    and "sx_shielded (signed_trans (tc_block c2)) = None"
  shows "\<exists>t'. check_and_commit_transaction_results E c2 (sender_public_key E) t = (Inl CeLoserDiscarded, t') \<and>
           co_tokens t' = co_tokens t \<and>
           co_stakes t' = slash (sender_public_key E)
             (slash_amount (ce_slash_fraction E) (store_get_stake (co_stakes t) (sender_public_key E))) (co_stakes t)"
proof -
  define i where "i = from_utf8_lossy (tc_trans_id c2)"
  obtain prev where pos: "\<forall>c\<in>set (c1 # c2 # cs). tc_token_id c = k \<and> previous_hash (tc_block c) = prev \<and> current_hash (tc_block c) = []"
    using propose_blocks_position [OF assms(1)] by blast
  have cand: "get_candidates (co_candidates t) (tc_token_id c2) (previous_hash (tc_block c2)) = [(tc_block c1, sender_public_key E)]"
    using first_commit_is_candidate [OF assms(4)] assms(2,3) pos by simp
  let ?r = "put_transaction i (pt\<lparr>lock_count := lock_count pt + 1\<rparr>) (co_pending t)"
  have claim: "claim_transaction i (tc_block c2) (co_pending t) = (Inr (tx, True), ?r)"
    using assms(6,7) by (simp add: claim_transaction_def acquire_transaction_def acquire_def is_terminal_def i_def put_transaction_def update_conv')
  have mat: "update_pending (materialize i x key) t = t" for x key
    using assms(6) by (simp add: update_pending_def materialize_def contains_def i_def)
  have commit: "check_and_commit_transaction_results E c2 (sender_public_key E) t =
      commit_claimed E c2 i (sender_public_key E) (tx, True) (t\<lparr>co_pending := ?r\<rparr>)"
    using assms(5) claim mat by (simp add: check_and_commit_transaction_results_def Let_def i_def)
  show ?thesis
    unfolding commit commit_claimed_def Let_def
    using assms(8,9) conflict_same_proposer [of "t\<lparr>co_pending := ?r\<rparr>" c2 "tc_block c1" "sender_public_key E" "[]" E] cand
    by (simp add: bind_act_def lift_res_def same_shielded_def resolve_and_append_def i_def)
qed

section \<open>Two paths to the chain\<close>

lemma replay_nothing: "replay_orphan_blocks c hash clock i tip k tokens ob = ([], tokens', ob') \<Longrightarrow> tokens' = tokens"
  by (subst (asm) replay_orphan_blocks.simps) (auto split: option.splits prod.splits append_outcome.splits)

lemma append_gossiped_tip:
  assumes "append_gossiped E clock b s = (Inr [b], s1)"
  obtains t where "map_of (co_tokens s1) (tx_token (sx_transaction (signed_trans b))) = Some t"
    and "cached_tip (tok_blockchain t) = current_hash b"
proof -
  let ?k = "tx_token (sx_transaction (signed_trans b))"
  obtain r w where w: "warm_token E ?k s = (r, w)" by fastforce
  obtain t where r: "r = Inr t" using assms w by (cases r) (auto simp: append_gossiped_def Let_def)
  obtain out bc where a: "append_validated_block (ce_codec E) (ce_hash E) b (tok_blockchain t) = (out, bc)" by fastforce
  have out: "out = Appended" using assms w r a by (cases out) (auto simp: append_gossiped_def Let_def)
  obtain ps tokens ob where p: "replay_orphan_blocks (ce_codec E) (ce_hash E) clock 0 (current_hash b) ?k
      (AList.update ?k (t\<lparr>tok_blockchain := bc\<rparr>) (co_tokens w)) (co_orphans w) = (ps, tokens, ob)" by (metis prod.exhaust)
  have "ps = []" and s1: "s1 = w\<lparr>co_tokens := tokens, co_orphans := ob\<rparr>"
    using assms w r a out p by (auto simp: append_gossiped_def Let_def)
  then have "tokens = AList.update ?k (t\<lparr>tok_blockchain := bc\<rparr>) (co_tokens w)" using replay_nothing p by metis
  moreover have "cached_tip bc = current_hash b"
    using append_validated_block_result [of "ce_codec E" "ce_hash E" b "tok_blockchain t"] a out
    by (simp add: add_block_def cached_tip_def last_block_def)
  ultimately show thesis using that s1 by (simp add: update_conv')
qed

text \<open>When the gossip of a finalized block overtakes its Commit message, the Commit can no longer
  succeed: the block is already the tip, so it does not link.  The steps that only the Commit path
  has, the gas deduction and the contract deltas, are never reached for that transaction.\<close>

theorem gossip_first_blocks_commit:
  assumes "append_gossiped E clock (tc_block commit) s = (Inr [tc_block commit], s1)"
    and "tc_token_id commit = tx_token (sx_transaction (signed_trans (tc_block commit)))"
    and "current_hash (tc_block commit) \<noteq> []" and "previous_hash (tc_block commit) \<noteq> current_hash (tc_block commit)"
    and "co_tokens t = co_tokens s1"
    and "get_candidates (co_candidates t) (tc_token_id commit) (previous_hash (tc_block commit)) = []"
  shows "fst (check_and_commit_transaction_results E commit key t) \<noteq> Inr ()"
proof
  assume "fst (check_and_commit_transaction_results E commit key t) = Inr ()"
  then obtain t' where ok: "check_and_commit_transaction_results E commit key t = (Inr (), t')" by (metis prod.collapse)
  obtain u v where u: "u = t\<lparr>co_pending := co_pending u\<rparr>" and r: "resolve_and_append E commit key u = (Inr (), v)"
    using check_and_commit_Inr [OF ok] by metis
  obtain outcome u1 applied u2 x u3 where c: "handle_conflict_at_commit E commit key u = (Inr outcome, u1)"
    and a: "shielded_commit_apply E (tc_block commit) u1 = (Inr applied, u2)"
    and b: "services_commit_block E commit (case outcome of CommitPlain \<Rightarrow> None | CommitWinnerAfterRollback l \<Rightarrow> Some l) u2 = (Inr x, u3)"
    using resolve_and_append_Inr [OF r] by metis
  have "co_candidates u = co_candidates t" "co_tokens u = co_tokens t" by (subst u, simp)+
  then have plain: "outcome = CommitPlain" and u1: "co_tokens u1 = co_tokens s1"
    using c assms(5,6) by (auto simp: handle_conflict_at_commit_def Let_def)
  have u2: "co_tokens u2 = co_tokens s1"
    using shielded_commit_apply_settled [of u1 E "tc_block commit"] a u1 by (simp add: settled_def)
  obtain tok where tok: "map_of (co_tokens s1) (tc_token_id commit) = Some tok" "cached_tip (tok_blockchain tok) = current_hash (tc_block commit)"
    using append_gossiped_tip [OF assms(1)] assms(2) by metis
  have w: "warm_token E (tc_token_id commit) u2 = (Inr tok, u2)" using tok(1) u2 by (simp add: warm_token_def)
  obtain t0 tk where "warm_token E (tc_token_id commit) u2 = (Inr t0, u2\<lparr>co_tokens := co_tokens (snd (warm_token E (tc_token_id commit) u2))\<rparr>)"
    and cb: "commit_block (ce_codec E) (ce_hash E) (ce_specs E) (tc_block commit) False None t0 = (Inr x, tk)"
    using services_commit_block_Inr [OF b [unfolded plain commit_conflict_outcome.case]] by metis
  then have t0: "t0 = tok" using w by simp
  obtain h removed t1 where "rollback_tip None t0 = (removed, t1)"
    and v: "validate_block (ce_codec E) (ce_hash E) (ce_specs E) t1 ((tc_block commit)\<lparr>current_hash := h\<rparr>) = Inr ()"
    using commit_block_ok [OF cb] by metis
  then have "t1 = tok" using t0 by (simp add: rollback_tip_def)
  then have "links_to (current_hash (tc_block commit)) (tc_block commit)"
    using validate_block_next [OF v] tok(2) by (auto simp: validate_next_block_iff links_to_def split: if_splits)
  then show False using assms(3,4) by (simp add: links_to_def split: if_splits)
qed

section \<open>Distributed tokens and failed snapshots\<close>

lemma update_same: "map_of m k = Some v \<Longrightarrow> AList.update k v m = m"
  by (induction m) (auto split: if_splits)

text \<open>A token distribution is accepted without a look at its chain.  From an invalid chain on, no
  block can be committed to that token any more.\<close>

theorem poisoned_token_refuses_commits:
  assumes "handle_token_distribution E m s = (Inr (), s1)" and "ce_un_token E (msg_body m) = Inr t"
    and "\<not> chain_valid (ce_codec E) (ce_hash E) (tok_blockchain t)"
    and "tc_token_id commit = tok_id t"
  shows "\<exists>e. services_commit_block E commit None s1 = (Inl e, s1)"
proof -
  have t: "map_of (co_tokens s1) (tok_id t) = Some t"
    using assms(1,2) by (auto simp: handle_token_distribution_def update_conv' split: option.splits)
  have w: "warm_token E (tc_token_id commit) s1 = (Inr t, s1)" using t assms(4) by (simp add: warm_token_def)
  obtain e where "commit_block (ce_codec E) (ce_hash E) (ce_specs E) (tc_block commit) False None t = (Inl e, t)"
  proof (cases "create_hash (ce_codec E) (ce_hash E) (tc_block commit)")
    case (Inl x)
    then show thesis using that by (simp add: commit_block_def)
  next
    case (Inr h)
    then show thesis
      using that assms(3)
      by (simp add: commit_block_def rollback_tip_def restore_tip_def validate_block_def validate_next_block_iff Let_def)
  qed
  then show ?thesis
    using w update_same [OF t] assms(4) by (simp add: services_commit_block_def)
qed

text \<open>A snapshot that cannot be saved does not abort the advance.  The caller gets the error, but
  the detector and the counter have already moved to the next epoch.\<close>

theorem failed_snapshot_still_advances:
  assumes "co_detector s = Some d" and "co_epoch s < epoch_number (current_epoch d) + 1"
    and "fst (sto_save_stakes (ce_store E) (epoch_number (current_epoch d) + 1) (store_to_stake_set (co_stakes s)) (ce_partition E) (co_data s)) = Inl x"
  shows "\<exists>s1 d'. advance_epoch_to E s = (Inl (CeSnapshotPersist (epoch_number (current_epoch d) + 1) ''stake''), s1) \<and>
           co_epoch s1 = epoch_number (current_epoch d) + 1 \<and> co_detector s1 = Some d' \<and>
           epoch_number (current_epoch d') = epoch_number (current_epoch d) + 1"
  using assms by (auto simp: advance_epoch_to_def Let_def not_le advance_to_new_epoch_def new_with_leader_def split: prod.splits)

section \<open>Concrete instances\<close>

lemma t1_lossy: "from_utf8_lossy (as_bytes ''t1'') = ''t1''"
  by code_simp

definition booked_committer :: "(demo_data, bytes) committer" where
  "booked_committer = demo_committer\<lparr>co_committed := [(''t1'', 5, [7])]\<rparr>"


definition empty_store_env :: "(demo_data, bytes, bytes) committer_env" where
  "empty_store_env = demo_committer_env\<lparr>ce_store := demo_ops\<lparr>sto_get_token := (\<lambda>_ _ _. Inl DataNotFound)\<rparr>\<rparr>"


lemma demo_commit_ok: "fst (handle_commit demo_committer_env commit_message demo_committer) = Inr ()"
  by code_simp

theorem commit_needs_routed_finalizer_witness:
  "\<exists>t tok h. handle_commit demo_committer_env commit_message demo_committer = (Inr (), t) \<and>
     map_of (co_tokens t) [1] = Some tok \<and> last_block (tok_blockchain tok) = Some (routed_block\<lparr>current_hash := h\<rparr>)"
proof -
  obtain t where t: "handle_commit demo_committer_env commit_message demo_committer = (Inr (), t)"
    using demo_commit_ok by (metis prod.collapse)
  have "ce_un_commit demo_committer_env (msg_body commit_message) = Inr routed_commit"
    by (simp add: demo_committer_env_def commit_message_def)
  then show ?thesis
    using commit_needs_routed_finalizer [OF t] t
    by (fastforce simp: routed_commit_def routed_block_def routed_signed_def demo_signed_def)
qed

definition shielded_env :: "(demo_data, bytes, bytes) committer_env" where
  "shielded_env = demo_committer_env\<lparr>ce_codec := demo_codec\<rparr>"

definition shielded_commit :: transaction_commit where
  "shielded_commit = routed_commit\<lparr>tc_block := transfer_block [9]\<rparr>"

definition long_committer :: "(demo_data, bytes) committer" where
  "long_committer = demo_committer\<lparr>co_tokens := [([1], demo_token)]\<rparr>"

theorem refused_block_undone_witness:
  "\<exists>s1 e s3. shielded_commit_apply shielded_env (transfer_block [9]) long_committer = (Inr Applied, s1) \<and> co_pool s1 = spent_pool \<and>
     append_or_undo shielded_env shielded_commit None Applied s1 = (Inl e, s3) \<and> co_pool s3 = demo_pool"
proof -
  have p: "co_pool long_committer = demo_pool" by (simp add: long_committer_def demo_committer_def)
  let ?s1 = "long_committer\<lparr>co_pool := spent_pool\<rparr>"
  have a: "shielded_commit_apply shielded_env (tc_block shielded_commit) long_committer = (Inr Applied, ?s1)"
    using demo_applies
    by (simp add: shielded_commit_apply_def p shielded_env_def demo_committer_env_def shielded_commit_def save_pool_def
        pool_save_def demo_ops_def)
  obtain h where h: "create_hash demo_codec length_hash (transfer_block [9]) = Inr h"
    by (simp add: create_hash_def hash_input_def transfer_block_def demo_block_def demo_codec_def canonical_signed_trans_bytes_def
        canonical_map_bytes_def shielded_canonical_bytes_def append_part_def encoding_err_def)
  have "\<not> links_to (cached_tip demo_chain) ((transfer_block [9])\<lparr>current_hash := h\<rparr>)"
    unfolding demo_tip using length_hash_facts(1) by (simp add: links_to_def transfer_block_def demo_block_def)
  then have c: "commit_block demo_codec length_hash demo_specs (transfer_block [9]) False None demo_token =
      (Inl (BlockValidationErr ChainLinkage), demo_token)"
    by (simp add: commit_block_def h rollback_tip_def restore_tip_def validate_block_def validate_next_block_iff demo_token_def Let_def)
  have w: "warm_token shielded_env [1] ?s1 = (Inr demo_token, ?s1)" by (simp add: warm_token_def long_committer_def)
  have "services_commit_block shielded_env shielded_commit None ?s1 = (Inl (CeBlockCommit (BlockValidationErr ChainLinkage)), ?s1)"
    using c w by (simp add: services_commit_block_def shielded_commit_def routed_commit_def long_committer_def) (simp add: shielded_env_def demo_committer_env_def)
  moreover obtain r s3 where u: "append_or_undo shielded_env shielded_commit None Applied ?s1 = (r, s3)" by fastforce
  moreover have "pool_ok (ce_field shielded_env) (co_pool long_committer)"
    using pool_life_ok [OF demo_pool_life demo_field_canonical] by (simp add: p shielded_env_def demo_committer_env_def)
  moreover have "canonical_field (ce_field shielded_env)"
    using demo_field_canonical by (simp add: shielded_env_def demo_committer_env_def)
  moreover have "current_hash (tc_block shielded_commit) \<noteq> []" by (simp add: shielded_commit_def transfer_block_def)
  ultimately have "co_pool s3 = co_pool long_committer \<and> (\<exists>e. r = Inl e)"
    using refused_block_undone [OF _ _ _ a _ u] by blast
  then show ?thesis using a u p by (auto simp: shielded_commit_def)
qed

definition wasm_governance :: governance_codec where
  "wasm_governance = demo_governance\<lparr>gc_un_wasm := (\<lambda>_. Inr \<lparr>wr_module_output = [], wr_storage_delta = [([1], Some [2])]\<rparr>),
     gc_un_contract := (\<lambda>_. Inr (demo_contract [1])), gc_contract := (\<lambda>sc. Inr [of_nat (length (sc_storage sc))])\<rparr>"

definition wasm_env :: "(demo_data, bytes, bytes) committer_env" where
  "wasm_env = demo_committer_env\<lparr>ce_governance := wasm_governance\<rparr>"

definition wasm_token :: token where
  "wasm_token = token_new\<lparr>tok_id := [1], tok_metadata := [(''contract_engine'', ''Wasm'')], asset_data := Some [0]\<rparr>"

definition wasm_tx :: transaction where
  "wasm_tx = routed_tx\<lparr>tx_action := ''ContractCall'', tx_result_data := [1], tx_result_hash := length_hash [1]\<rparr>"

definition wasm_committer :: "(demo_data, bytes) committer" where
  "wasm_committer = demo_committer\<lparr>co_tokens := [([1], wasm_token)], co_data := \<lparr>dd_tokens = [([1], wasm_token)], dd_users = []\<rparr>\<rparr>"

text \<open>The delta had reached the store before the commit took it away again.\<close>

theorem commit_overwrites_contract_state_witness:
  "\<exists>s1 r s2 t. apply_deltas wasm_env wasm_tx 0 wasm_committer = (Inr (), s1) \<and>
     map_option asset_data (map_of (dd_tokens (co_data s1)) [1]) = Some (Some [1]) \<and>
     services_commit_block wasm_env routed_commit None s1 = (Inr r, s2) \<and>
     map_of (dd_tokens (co_data s2)) [1] = Some t \<and> asset_data t = Some [0]"
proof -
  obtain q s1 where d: "apply_deltas wasm_env wasm_tx 0 wasm_committer = (q, s1)" by fastforce
  obtain o' s2 where c: "services_commit_block wasm_env routed_commit None s1 = (o', s2)" by fastforce
  have "case apply_deltas wasm_env wasm_tx 0 wasm_committer of
      (q, s1) \<Rightarrow> q = Inr () \<and> map_option asset_data (map_of (dd_tokens (co_data s1)) [1]) = Some (Some [1]) \<and>
        \<not> isl (fst (services_commit_block wasm_env routed_commit None s1))"
    by code_simp
  then have q: "q = Inr ()" and before: "map_option asset_data (map_of (dd_tokens (co_data s1)) [1]) = Some (Some [1])"
    and "\<not> isl o'" using d c by simp_all
  then obtain r where r: "o' = Inr r" by (cases o') auto
  have get: "sto_get_token (ce_store wasm_env) i p x = (case map_of (dd_tokens x) i of Some t \<Rightarrow> Inr t | None \<Rightarrow> Inl DataNotFound)" for i p x
    by (simp add: wasm_env_def demo_committer_env_def demo_ops_def)
  have "\<exists>t. sto_get_token (ce_store wasm_env) (tc_token_id routed_commit) (ce_partition wasm_env) (co_data s2) = Inr t \<and>
      asset_data t = asset_data wasm_token"
    using d c q r
    by (intro commit_overwrites_contract_state [of wasm_committer routed_commit wasm_token wasm_env wasm_tx 0 s1 None r s2])
      (auto simp: wasm_committer_def routed_commit_def wasm_env_def demo_committer_env_def demo_ops_def update_conv')
  then show ?thesis
    using d c q r before unfolding get by (auto simp: routed_commit_def wasm_token_def split: option.splits)
qed

definition validated_pair :: pending_registry where
  "validated_pair = registry_new\<lparr>
     transactions := [(''t1'', pending_new ''t1'' (Validated demo_tx (validation_invalid []))),
                      (''t2'', pending_new ''t2'' (Validated (demo_tx\<lparr>tx_id := ''t2'', tx_seq := 1\<rparr>) (validation_invalid [])))],
     pool := \<lparr>pools = [([1], [''t1'', ''t2''])], pool_index = [(''t1'', ([1], 0, 5, [2])), (''t2'', ([1], 1, 5, [2]))]\<rparr>\<rparr>"

definition leading_committer :: "(demo_data, bytes) committer" where
  "leading_committer = demo_committer\<lparr>co_pending := validated_pair\<rparr>"

lemma leader_batch_facts:
  "case propose_blocks demo_committer_env 0 [1] 10 leading_committer of
     (r, s1) \<Rightarrow>
       (case check_and_commit_transaction_results demo_committer_env (projr r ! 0) [9] s1 of
          (q, t) \<Rightarrow>
            \<not> isl r \<and> length (projr r) = 2 \<and>
            get_candidates (co_candidates s1) [1] (previous_hash (tc_block (projr r ! 0))) = [] \<and>
            max_candidates (co_candidates s1) = 8 \<and> q = Inr () \<and> co_stakes t = [([9], 10)] \<and>
            from_utf8_lossy (tc_trans_id (projr r ! 1)) = ''t2'' \<and> map_of (co_committed t) ''t2'' = None \<and>
            sx_shielded (signed_trans (tc_block (projr r ! 1))) = None \<and>
            map_option pt_state (map_of (transactions (co_pending t)) ''t2'') =
              Some (Validated (demo_tx\<lparr>tx_id := ''t2'', tx_seq := 1\<rparr>) (validation_invalid [])) \<and>
            same_identity demo_committer_env ''t2'' (demo_tx\<lparr>tx_id := ''t2'', tx_seq := 1\<rparr>)
              (sx_transaction (signed_trans (tc_block (projr r ! 1)))) = Inr ())"
  by code_simp

lemma all_slashed: "store_get_stake (slash [9] (slash_amount (ce_slash_fraction demo_committer_env) 10) [([9], 10)]) [9] = 0"
proof -
  have "slash_amount (ce_slash_fraction demo_committer_env) 10 = 10"
    using slash_amount_full [of 10] by (simp add: demo_committer_env_def)
  then show ?thesis by (simp add: slash_def store_get_stake_def saturating_sub_def)
qed

theorem leader_batch_slashes_leader_witness:
  "\<exists>c1 c2 s1 t t'. propose_blocks demo_committer_env 0 [1] 10 leading_committer = (Inr [c1, c2], s1) \<and>
     check_and_commit_transaction_results demo_committer_env c1 [9] s1 = (Inr (), t) \<and>
     check_and_commit_transaction_results demo_committer_env c2 [9] t = (Inl CeLoserDiscarded, t') \<and>
     store_get_stake (co_stakes t) [9] = 10 \<and> store_get_stake (co_stakes t') [9] = 0"
proof -
  let ?E = demo_committer_env and ?tx = "demo_tx\<lparr>tx_id := ''t2'', tx_seq := 1\<rparr>"
  obtain r s1 where p: "propose_blocks ?E 0 [1] 10 leading_committer = (r, s1)" by fastforce
  obtain q t where c: "check_and_commit_transaction_results ?E (projr r ! 0) [9] s1 = (q, t)" by fastforce
  note f = leader_batch_facts [unfolded p, simplified, unfolded c, simplified]
  obtain c1 c2 where r: "r = Inr [c1, c2]" using f by (cases r) (auto simp: length_Suc_conv numeral_2_eq_2)
  have key: "sender_public_key ?E = [9]" by (simp add: sender_public_key_def demo_committer_env_def demo_crypto_def)
  have c1: "check_and_commit_transaction_results ?E c1 (sender_public_key ?E) s1 = (Inr (), t)" using c f r key by simp
  obtain pt where pt: "map_of (transactions (co_pending t)) (from_utf8_lossy (tc_trans_id c2)) = Some pt"
    "pt_state pt = Validated ?tx (validation_invalid [])" using f r by auto
  have "\<exists>t'. check_and_commit_transaction_results ?E c2 (sender_public_key ?E) t = (Inl CeLoserDiscarded, t') \<and>
      co_tokens t' = co_tokens t \<and>
      co_stakes t' = slash (sender_public_key ?E) (slash_amount (ce_slash_fraction ?E) (store_get_stake (co_stakes t) (sender_public_key ?E))) (co_stakes t)"
    using f r by (intro leader_batch_slashes_leader [OF p [unfolded r] _ _ c1 _ pt]) simp_all
  then obtain t' where c2: "check_and_commit_transaction_results ?E c2 [9] t = (Inl CeLoserDiscarded, t')"
    and s: "co_stakes t' = slash [9] (slash_amount (ce_slash_fraction ?E) (store_get_stake (co_stakes t) [9])) (co_stakes t)"
    unfolding key by blast
  have stake: "store_get_stake [([9], 10)] [9] = 10" by (simp add: store_get_stake_def)
  have "store_get_stake (co_stakes t') [9] = 0" "store_get_stake (co_stakes t) [9] = 10"
    using s f all_slashed stake by simp_all
  then show ?thesis using p r c1 c2 unfolding key by blast
qed

theorem gossip_first_blocks_commit_witness:
  "\<exists>s1. append_gossiped demo_committer_env (\<lambda>_. 0) routed_block demo_committer = (Inr [routed_block], s1) \<and>
     fst (check_and_commit_transaction_results demo_committer_env routed_commit [9] s1) \<noteq> Inr ()"
proof -
  obtain r s1 where a: "append_gossiped demo_committer_env (\<lambda>_. 0) routed_block demo_committer = (r, s1)" by fastforce
  have "case append_gossiped demo_committer_env (\<lambda>_. 0) routed_block demo_committer of
      (r, s1) \<Rightarrow> \<not> isl r \<and> projr r = [routed_block] \<and> candidates (co_candidates s1) = []"
    by code_simp
  then have r: "r = Inr [routed_block]" and c: "candidates (co_candidates s1) = []" using a by (cases r; simp)+
  have t: "previous_hash routed_block = []" "current_hash routed_block \<noteq> []" "tc_block routed_commit = routed_block"
      "tc_token_id routed_commit = tx_token (sx_transaction (signed_trans routed_block))"
    using length_hash_facts(1)
    by (simp_all add: routed_block_def routed_commit_def routed_signed_def routed_tx_def demo_block_def demo_tx_def)
  have "fst (check_and_commit_transaction_results demo_committer_env routed_commit [9] s1) \<noteq> Inr ()"
    using a r c t by (intro gossip_first_blocks_commit [of demo_committer_env "\<lambda>_. 0" routed_commit demo_committer s1 s1])
      (simp_all add: get_candidates_def)
  then show ?thesis using a r by blast
qed

definition poisoned_token :: token where
  "poisoned_token = token_new\<lparr>tok_id := [6], tok_blockchain := add_block ((demo_block [])\<lparr>current_hash := [1]\<rparr>) blockchain_new\<rparr>"

definition poisoned_env :: "(demo_data, bytes, bytes) committer_env" where
  "poisoned_env = demo_committer_env\<lparr>ce_un_token := (\<lambda>_. Inr poisoned_token)\<rparr>"

theorem poisoned_token_refuses_commits_witness:
  "\<exists>s1 e. handle_token_distribution poisoned_env commit_message demo_committer = (Inr (), s1) \<and>
     services_commit_block poisoned_env (routed_commit\<lparr>tc_token_id := [6]\<rparr>) None s1 = (Inl e, s1)"
proof -
  obtain s1 where d: "handle_token_distribution poisoned_env commit_message demo_committer = (Inr (), s1)"
    by (simp add: handle_token_distribution_def poisoned_env_def poisoned_token_def demo_committer_def)
  have "create_hash committer_codec length_hash (demo_block []) = Inr (current_hash (demo_block []))"
    using committer_self_hashed [of "[]"] by (simp add: self_hashed_def)
  moreover have "length (current_hash (demo_block [])) = 32" by (simp add: demo_block_def length_hash_def)
  then have "current_hash (demo_block []) \<noteq> [1]" by auto
  ultimately have "\<not> chain_valid (ce_codec poisoned_env) (ce_hash poisoned_env) (tok_blockchain poisoned_token)"
    by (simp add: chain_valid_def poisoned_env_def demo_committer_env_def poisoned_token_def add_block_def blockchain_new_def
        self_hashed_def create_hash_ignores_current)
  then show ?thesis
    using poisoned_token_refuses_commits [OF d, of poisoned_token "routed_commit\<lparr>tc_token_id := [6]\<rparr>"] d
    by (simp add: poisoned_env_def poisoned_token_def)
qed

definition failing_env :: "(demo_data, bytes, bytes) committer_env" where
  "failing_env = demo_committer_env\<lparr>ce_store := demo_ops\<lparr>sto_save_stakes := (\<lambda>_ _ _ d. (Inl StoreNotFound, d))\<rparr>\<rparr>"

theorem failed_snapshot_still_advances_witness:
  "\<exists>s1. advance_epoch_to failing_env demo_committer = (Inl (CeSnapshotPersist 2 ''stake''), s1) \<and> co_epoch s1 = 2"
  using failed_snapshot_still_advances [of demo_committer
      "detector_new \<lparr>start_timestamp = 0, end_timestamp = 300, epoch_number = 1, leader_public_key = [9]\<rparr>" failing_env StoreNotFound]
  by (auto simp: demo_committer_def detector_new_def failing_env_def)

end
