(* ===== verification/Delivery.thy ===== *)
theory Delivery
  imports Committer_Demo
begin

text \<open>
  Out-of-order gossip: whatever the order in which the blocks of a consecutive run arrive, within the
  buffer's lifetime and caps, the committer ends with all of them on the chain.
\<close>

section \<open>A run of blocks on top of a tip\<close>

text \<open>The hash a block of the run has to follow: the tip, then the hash of the block before.\<close>

definition run_hash :: "bytes \<Rightarrow> block list \<Rightarrow> nat \<Rightarrow> bytes" where
  "run_hash tip bs j = (if j = 0 then tip else current_hash (bs ! (j - 1)))"

definition block_run :: "codec \<Rightarrow> (bytes \<Rightarrow> bytes) \<Rightarrow> bytes \<Rightarrow> block list \<Rightarrow> bool" where
  "block_run c hash tip bs \<longleftrightarrow>
     (\<forall>j<length bs. self_hashed c hash (bs ! j) \<and> previous_hash (bs ! j) = run_hash tip bs j) \<and>
     distinct (tip # map current_hash bs)"

lemma run_hash_inj:
  assumes "block_run c hash tip bs" and "i \<le> length bs" and "j \<le> length bs" and "run_hash tip bs i = run_hash tip bs j"
  shows "i = j"
proof -
  have eq: "(tip # map current_hash bs) ! i = run_hash tip bs i" if "i \<le> length bs" for i
    using that by (cases i) (simp_all add: run_hash_def)
  have d: "distinct (tip # map current_hash bs)" using assms(1) by (simp add: block_run_def)
  show ?thesis
    using nth_eq_iff_index_eq [OF d, of i j] assms(2-4) eq [OF assms(2)] eq [OF assms(3)] by simp
qed

lemma run_blocks_inj: "block_run c hash tip bs \<Longrightarrow> inj_on ((!) bs) {..<length bs}"
  by (auto simp: block_run_def inj_on_def distinct_map nth_eq_iff_index_eq)

lemma run_tip: "m \<le> length bs \<Longrightarrow> cached_tip bc = tip \<Longrightarrow> cached_tip (bc\<lparr>chain := chain bc @ take m bs\<rparr>) = run_hash tip bs m"
  by (cases m) (auto simp: cached_tip_def last_block_def run_hash_def last_append take_Suc_conv_app_nth)

lemma run_append:
  assumes run: "block_run c hash tip bs" and j: "j < length bs" and m: "m \<le> length bs" and tip: "cached_tip bc = run_hash tip bs m"
  shows "append_validated_block c hash (bs ! j) bc = (if j = m then (Appended, add_block (bs ! j) bc) else (LinkageMismatch, bc))"
proof -
  have p: "previous_hash (bs ! j) = run_hash tip bs j" and s: "create_hash c hash (bs ! j) = Inr (current_hash (bs ! j))"
    using run j by (simp_all add: block_run_def self_hashed_def)
  have "run_hash tip bs m = run_hash tip bs j \<longleftrightarrow> j = m"
    using run_hash_inj [OF run m, of j] j by auto
  then have "links_to (cached_tip bc) (bs ! j) \<longleftrightarrow> j = m"
    unfolding tip links_to_def p by auto
  then show ?thesis using s by (auto simp: append_validated_block_def Let_def)
qed

section \<open>What the buffer holds\<close>

definition in_window :: "nat \<Rightarrow> nat \<Rightarrow> (nat \<Rightarrow> nat) \<Rightarrow> bool" where
  "in_window lo T clock \<longleftrightarrow> (\<forall>i. lo \<le> clock i \<and> clock i < lo + T)"

definition holds :: "nat \<Rightarrow> nat \<Rightarrow> bytes \<Rightarrow> block list \<Rightarrow> nat set \<Rightarrow> orphan_buffer \<Rightarrow> bool" where
  "holds lo T k bs Q ob \<longleftrightarrow>
     distinct (map bb_block (pending_for ob k)) \<and> set (map bb_block (pending_for ob k)) = (!) bs ` Q \<and>
     list_all (\<lambda>x. lo \<le> bb_inserted_at x \<and> bb_ttl x = T) (pending_for ob k)"

lemma holds_alive:
  "holds lo T k bs Q ob \<Longrightarrow> lo \<le> now \<Longrightarrow> now < lo + T \<Longrightarrow> x \<in> set (pending_for ob k) \<Longrightarrow> \<not> is_expired x now"
  by (auto simp: holds_def list_all_iff is_expired_def)

lemma holds_live: "holds lo T k bs Q ob \<Longrightarrow> lo \<le> now \<Longrightarrow> now < lo + T \<Longrightarrow> live_queue now (pending_for ob k) = pending_for ob k"
  using holds_alive by (fastforce simp: live_queue_def filter_id_conv)

lemma holds_card:
  assumes "holds lo T k bs Q ob" and "block_run c hash tip bs" and "Q \<subseteq> {..<length bs}"
  shows "length (pending_for ob k) = card Q"
proof -
  have "length (pending_for ob k) = card ((!) bs ` Q)"
    using assms(1) distinct_card [of "map bb_block (pending_for ob k)"] by (simp add: holds_def)
  also have "\<dots> = card Q" using inj_on_subset [OF run_blocks_inj [OF assms(2)] assms(3)] by (rule card_image)
  finally show ?thesis .
qed

lemma drop_expired_run: "orphans_run me mp T ob \<Longrightarrow> pending_for (drop_expired now ob) k = live_queue now (pending_for ob k)"
  using pending_drop_expired orphans_run_ok by (simp add: orphans_ok_def)

lemma holds_drop:
  assumes "orphans_run me mp T ob" and "holds lo T k bs Q ob" and "lo \<le> now" and "now < lo + T"
  shows "holds lo T k bs Q (drop_expired now ob)"
  using assms(2) drop_expired_run [OF assms(1), of now k] holds_live [OF assms(2-4)] by (simp add: holds_def)

text \<open>Taking the successor of the tip succeeds exactly when it is held.\<close>

lemma take_successor:
  assumes o: "orphans_run me mp T ob" and h: "holds lo T k bs Q ob" and run: "block_run c hash tip bs"
    and Q: "Q \<subseteq> {..<length bs}" and m: "m \<le> length bs" and now: "lo \<le> now" "now < lo + T"
    and t: "take_matching k (run_hash tip bs m) now ob = (found, ob')"
  shows "if m \<in> Q then found = Some (bs ! m) \<and> holds lo T k bs (Q - {m}) ob' \<and> orphans_len ob = Suc (orphans_len ob')
         else found = None \<and> ob' = ob"
proof (cases found)
  case None
  have e: "ob' = ob" "list_all (\<lambda>x. is_expired x now \<or> previous_hash (bb_block x) \<noteq> run_hash tip bs m) (pending_for ob k)"
    using take_matching_exact [OF o t] None by auto
  have "m \<notin> Q"
  proof
    assume mq: "m \<in> Q"
    then have "bs ! m \<in> bb_block ` set (pending_for ob k)" using h by (auto simp: holds_def)
    then obtain x where "x \<in> set (pending_for ob k)" "bb_block x = bs ! m" by auto
    moreover have "previous_hash (bs ! m) = run_hash tip bs m" using run mq Q by (auto simp: block_run_def)
    ultimately show False using e(2) holds_alive [OF h now] by (auto simp: list_all_iff)
  qed
  then show ?thesis using None e by simp
next
  case (Some blk)
  then obtain as x zs where s: "pending_for ob k = as @ x # zs" "bb_block x = blk" "previous_hash blk = run_hash tip bs m"
      "pending_for ob' k = as @ zs" "orphans_len ob = Suc (orphans_len ob')"
    using take_matching_exact [OF o t] by auto
  have "blk \<in> (!) bs ` Q" using h s by (auto simp: holds_def)
  then obtain j where j: "j \<in> Q" "blk = bs ! j" by auto
  have "run_hash tip bs j = run_hash tip bs m" using run j Q s(3) by (auto simp: block_run_def)
  moreover have "j \<le> length bs" using j(1) Q by auto
  ultimately have jm: "j = m" using run_hash_inj [OF run, of j m] m by simp
  have inj: "inj_on ((!) bs) Q" by (rule inj_on_subset [OF run_blocks_inj [OF run] Q])
  have "distinct (map bb_block (as @ zs)) \<and> set (map bb_block (as @ zs)) = (!) bs ` Q - {bs ! m}"
    using h s(1,2) j jm by (auto simp: holds_def)
  moreover have "(!) bs ` Q - {bs ! m} = (!) bs ` (Q - {m})" using inj j jm by (auto simp: inj_on_def)
  ultimately have "holds lo T k bs (Q - {m}) ob'" using h s by (simp add: holds_def)
  then show ?thesis using Some j jm s by simp
qed

section \<open>Catching up\<close>

text \<open>The state of a delivery: the first \<open>m\<close> blocks of the run are on the chain, the blocks \<open>Q\<close> wait in the
  buffer.\<close>

definition delivered ::
    "nat \<Rightarrow> nat \<Rightarrow> nat \<Rightarrow> nat \<Rightarrow> nat \<Rightarrow> bytes \<Rightarrow> blockchain \<Rightarrow> block list \<Rightarrow> nat \<Rightarrow> nat set \<Rightarrow> token amap \<Rightarrow> orphan_buffer \<Rightarrow> bool" where
  "delivered me mp lo T base k bc bs m Q tokens ob \<longleftrightarrow>
     m \<le> length bs \<and> (\<exists>t. map_of tokens k = Some t \<and> tok_blockchain t = bc\<lparr>chain := chain bc @ take m bs\<rparr>) \<and>
     orphans_run me mp T ob \<and> holds lo T k bs Q ob \<and> Q \<subseteq> {m..<length bs} \<and> ob_count ob \<le> base + card Q"

lemma replay_catches_up:
  assumes run: "block_run c hash (cached_tip bc) bs" and clock: "in_window lo T clock"
    and "delivered me mp lo T base k bc bs m Q tokens ob"
    and "replay_orphan_blocks c hash clock i (run_hash (cached_tip bc) bs m) k tokens ob = (promoted, tokens', ob')"
  shows "\<exists>m'\<ge>m. {m..<m'} \<subseteq> Q \<and> m' \<notin> Q \<and> delivered me mp lo T base k bc bs m' (Q - {m..<m'}) tokens' ob'"
  using assms(3,4)
proof (induction "length bs - m" arbitrary: m Q tokens ob i promoted tokens' ob' rule: less_induct)
  case less
  let ?tip = "cached_tip bc"
  obtain t where m: "m \<le> length bs" and t: "map_of tokens k = Some t" "tok_blockchain t = bc\<lparr>chain := chain bc @ take m bs\<rparr>"
    and o: "orphans_run me mp T ob" and h: "holds lo T k bs Q ob" and Q: "Q \<subseteq> {m..<length bs}" and n: "ob_count ob \<le> base + card Q"
    using less.prems(1) by (auto simp: delivered_def)
  let ?ob = "drop_expired (clock (2 * i)) ob"
  have now: "lo \<le> clock j" "clock j < lo + T" for j using clock by (simp_all add: in_window_def)
  have o1: "orphans_run me mp T ?ob" by (rule orphans_run.run_drop [OF o])
  have h1: "holds lo T k bs Q ?ob" by (rule holds_drop [OF o h now])
  have n1: "ob_count ?ob \<le> base + card Q" using n by (simp add: drop_expired_def Let_def)
  have Q': "Q \<subseteq> {..<length bs}" using Q by auto
  obtain found ob1 where tm: "take_matching k (run_hash ?tip bs m) (clock (2 * i + 1)) ?ob = (found, ob1)" by fastforce
  note suc = take_successor [OF o1 h1 run Q' m now tm]
  show ?case
  proof (cases "m \<in> Q")
    case False
    then have "found = None" "ob1 = ?ob" using suc by simp_all
    then have "tokens' = tokens" "ob' = ?ob"
      using less.prems(2) tm by (auto simp: replay_orphan_blocks.simps [of c hash clock i])
    then have "delivered me mp lo T base k bc bs m (Q - {m..<m}) tokens' ob'"
      using m t o1 h1 Q n1 by (auto simp: delivered_def)
    then show ?thesis using False by (intro exI [of _ m]) simp
  next
    case True
    then have f: "found = Some (bs ! m)" and h2: "holds lo T k bs (Q - {m}) ob1" and n2: "orphans_len ?ob = Suc (orphans_len ob1)"
      using suc by simp_all
    have ml: "m < length bs" using True Q by auto
    have tipm: "cached_tip (tok_blockchain t) = run_hash ?tip bs m" unfolding t(2) by (rule run_tip [OF m refl])
    have app: "append_validated_block c hash (bs ! m) (tok_blockchain t) = (Appended, add_block (bs ! m) (tok_blockchain t))"
      using run_append [OF run ml m tipm] by simp
    let ?tokens = "AList.update k (t\<lparr>tok_blockchain := add_block (bs ! m) (tok_blockchain t)\<rparr>) tokens"
    have "card Q = Suc (card (Q - {m}))"
      using True finite_subset [OF Q'] by (simp add: card_Suc_Diff1 del: card_Diff_insert)
    then have d: "delivered me mp lo T base k bc bs (Suc m) (Q - {m}) ?tokens ob1"
      using ml t h2 Q n1 n2 orphans_run.run_take [OF o1, of k "run_hash ?tip bs m" "clock (2 * i + 1)"] tm
      by (auto simp: delivered_def update_conv' add_block_def take_Suc_conv_app_nth orphans_len_def)
    obtain ps tokens2 ob2 where r: "replay_orphan_blocks c hash clock (Suc i) (run_hash ?tip bs (Suc m)) k ?tokens ob1 = (ps, tokens2, ob2)"
      by (metis prod.exhaust)
    have "tokens' = tokens2" "ob' = ob2"
      using less.prems(2) tm f t(1) app r by (auto simp: replay_orphan_blocks.simps [of c hash clock i] run_hash_def)
    moreover obtain m' where "Suc m \<le> m'" "{Suc m..<m'} \<subseteq> Q - {m}" "m' \<notin> Q - {m}"
        "delivered me mp lo T base k bc bs m' (Q - {m} - {Suc m..<m'}) tokens2 ob2"
      using less.hyps [OF diff_less_mono2 [OF lessI ml] d r] by blast
    moreover have "{m..<m'} = insert m {Suc m..<m'}" using \<open>Suc m \<le> m'\<close> by auto
    moreover from this have "Q - {m} - {Suc m..<m'} = Q - {m..<m'}" by auto
    ultimately show ?thesis using True by (intro exI [of _ m']) auto
  qed
qed

lemma insert_buffered:
  assumes o: "orphans_run me mp T ob" and h: "holds lo T k bs Q ob" and run: "block_run c hash tip bs"
    and Q: "Q \<subseteq> {..<length bs}" and j: "j < length bs" "j \<notin> Q" and clock: "in_window lo T clock"
    and room: "ob_count ob < me" "card Q < mp"
  shows "holds lo T k bs (insert j Q) (buffer_orphan clock k (bs ! j) ob) \<and>
         orphans_run me mp T (buffer_orphan clock k (bs ! j) ob) \<and>
         ob_count (buffer_orphan clock k (bs ! j) ob) \<le> Suc (ob_count ob)"
proof -
  obtain decision ob' where i: "orphans_insert (clock 0) (clock 1) k (bs ! j) ob = (decision, ob')" by fastforce
  have now: "lo \<le> clock j" "clock j < lo + T" for j using clock by (simp_all add: in_window_def)
  have o': "orphans_run me mp T ob'"
    using orphans_run.run_insert [OF o, of "clock 0" "clock 1" k "bs ! j"] i by simp
  have less: "ob_count (drop_expired (clock 0) ob) \<le> ob_count ob" by (simp add: drop_expired_def Let_def)
  have params: "max_entries (drop_expired (clock 0) ob) = me"
    using orphans_run_params [OF o] by (simp add: drop_expired_def Let_def)
  have dec: "decision = Buffered"
    using i less params room(1) by (auto simp: orphans_insert_def Let_def split: if_splits prod.splits)
  have count: "ob_count ob' \<le> Suc (ob_count ob)"
    using i less by (auto simp: orphans_insert_def Let_def evict_oldest_drop split: if_splits)
  let ?x = "\<lparr>bb_block = bs ! j, bb_parent_hash = previous_hash (bs ! j), bb_inserted_at = clock 1, bb_ttl = T\<rparr>"
  have "pending_for ob' k = pending_for ob k @ [?x]"
    using orphans_insert_exact [OF o i] dec holds_live [OF h now] holds_card [OF h run Q] room(2) by simp
  moreover have "bs ! j \<notin> (!) bs ` Q"
    using run_blocks_inj [OF run] j Q by (auto simp: inj_on_def)
  ultimately have "holds lo T k bs (insert j Q) ob'"
    using h now by (auto simp: holds_def)
  then show ?thesis using o' count i by (simp add: buffer_orphan_def)
qed

text \<open>One arrival, of a block that has not arrived before.\<close>

lemma append_gossiped_step:
  assumes run: "block_run (ce_codec E) (ce_hash E) (cached_tip bc) bs" and clock: "in_window lo T clock"
    and d: "delivered me mp lo T base k bc bs m Q (co_tokens s) (co_orphans s)" and mQ: "m \<notin> Q"
    and j: "j < length bs" "j \<notin> Q" "m \<le> j" and tok: "tx_token (sx_transaction (signed_trans (bs ! j))) = k"
    and room: "base + length bs \<le> me" "length bs \<le> mp"
    and s': "s' = snd (append_gossiped E clock (bs ! j) s)"
  shows "\<exists>m' Q'. delivered me mp lo T base k bc bs m' Q' (co_tokens s') (co_orphans s') \<and> m' \<notin> Q' \<and>
           {..<m'} \<union> Q' = insert j ({..<m} \<union> Q)"
proof -
  let ?tip = "cached_tip bc"
  obtain t where m: "m \<le> length bs" and t: "map_of (co_tokens s) k = Some t" "tok_blockchain t = bc\<lparr>chain := chain bc @ take m bs\<rparr>"
    and o: "orphans_run me mp T (co_orphans s)" and h: "holds lo T k bs Q (co_orphans s)"
    and Q: "Q \<subseteq> {m..<length bs}" and n: "ob_count (co_orphans s) \<le> base + card Q"
    using d by (auto simp: delivered_def)
  have tipm: "cached_tip (tok_blockchain t) = run_hash ?tip bs m" unfolding t(2) by (rule run_tip [OF m refl])
  note app = run_append [OF run j(1) m tipm]
  have warm: "warm_token E k s = (Inr t, s)" using t(1) by (simp add: warm_token_def)
  have Q': "Q \<subseteq> {..<length bs}" using Q by auto
  have "Q \<subset> {..<length bs}" using Q' j by auto
  then have small: "card Q < length bs" using psubset_card_mono [of "{..<length bs}" Q] by simp
  show ?thesis
  proof (cases "j = m")
    case False
    have "s' = s\<lparr>co_orphans := buffer_orphan clock k (bs ! j) (co_orphans s)\<rparr>"
      using s' tok warm app False by (simp add: append_gossiped_def)
    moreover have "card (insert j Q) = Suc (card Q)" using j(2) finite_subset [OF Q'] by simp
    moreover note insert_buffered [OF o h run Q' j(1,2) clock]
    ultimately have "delivered me mp lo T base k bc bs m (insert j Q) (co_tokens s') (co_orphans s')"
      using m t Q n j room small by (auto simp: delivered_def)
    then show ?thesis using False mQ by (intro exI [of _ m] exI [of _ "insert j Q"]) auto
  next
    case True
    let ?tokens = "AList.update k (t\<lparr>tok_blockchain := add_block (bs ! m) (tok_blockchain t)\<rparr>) (co_tokens s)"
    have Qm: "Q \<subseteq> {Suc m..<length bs}" using Q mQ by (auto simp: Suc_le_eq nat_less_le)
    have d1: "delivered me mp lo T base k bc bs (Suc m) Q ?tokens (co_orphans s)"
      using True j(1) t o h Qm n by (auto simp: delivered_def update_conv' add_block_def take_Suc_conv_app_nth)
    obtain ps tokens ob where r: "replay_orphan_blocks (ce_codec E) (ce_hash E) clock 0 (run_hash ?tip bs (Suc m)) k ?tokens (co_orphans s) = (ps, tokens, ob)"
      by (metis prod.exhaust)
    have "s' = s\<lparr>co_tokens := tokens, co_orphans := ob\<rparr>"
      using s' tok warm app True r by (simp add: append_gossiped_def run_hash_def)
    moreover obtain m' where "Suc m \<le> m'" "{Suc m..<m'} \<subseteq> Q" "m' \<notin> Q"
        "delivered me mp lo T base k bc bs m' (Q - {Suc m..<m'}) tokens ob"
      using replay_catches_up [OF run clock d1 r] by blast
    moreover have "{..<m'} \<union> (Q - {Suc m..<m'}) = insert j ({..<m} \<union> Q)"
      using \<open>Suc m \<le> m'\<close> \<open>{Suc m..<m'} \<subseteq> Q\<close> Qm True by (auto simp: subset_eq)
    ultimately show ?thesis by (intro exI [of _ m'] exI [of _ "Q - {Suc m..<m'}"]) auto
  qed
qed

definition gossip_all :: "('d, 'f, 'p) committer_env \<Rightarrow> ((nat \<Rightarrow> nat) \<times> block) list \<Rightarrow> ('d, 'f) committer \<Rightarrow> ('d, 'f) committer" where
  "gossip_all E arrivals = fold (\<lambda>(clock, b) s. snd (append_gossiped E clock b s)) arrivals"

lemma gossip_all_steps:
  assumes run: "block_run (ce_codec E) (ce_hash E) (cached_tip bc) bs"
    and room: "base + length bs \<le> me" "length bs \<le> mp"
    and tok: "\<forall>b\<in>set bs. tx_token (sx_transaction (signed_trans b)) = k"
    and "delivered me mp lo T base k bc bs m Q (co_tokens s) (co_orphans s)" and "m \<notin> Q"
    and "map snd arrivals = map ((!) bs) js" and "distinct js" and "set js \<subseteq> {..<length bs} - ({..<m} \<union> Q)"
    and "\<forall>a\<in>set arrivals. in_window lo T (fst a)"
  shows "\<exists>m' Q'. delivered me mp lo T base k bc bs m' Q' (co_tokens (gossip_all E arrivals s)) (co_orphans (gossip_all E arrivals s)) \<and>
           m' \<notin> Q' \<and> {..<m'} \<union> Q' = {..<m} \<union> Q \<union> set js"
  using assms(5-)
proof (induction arrivals arbitrary: js m Q s)
  case Nil
  then show ?case by (auto simp: gossip_all_def)
next
  case (Cons a arrivals)
  obtain clock b where a: "a = (clock, b)" by (cases a)
  obtain j js' where js: "js = j # js'" "b = bs ! j" "map snd arrivals = map ((!) bs) js'"
    using Cons.prems(3) a by (cases js) auto
  let ?s = "snd (append_gossiped E clock (bs ! j) s)"
  have j: "j < length bs" "j \<notin> Q" "m \<le> j" using Cons.prems(5) js(1) by (auto simp: not_less)
  have k: "tx_token (sx_transaction (signed_trans (bs ! j))) = k" using tok j(1) by auto
  have c: "in_window lo T clock" using Cons.prems(6) a by simp
  obtain m' Q' where d: "delivered me mp lo T base k bc bs m' Q' (co_tokens ?s) (co_orphans ?s)" "m' \<notin> Q'"
    and D: "{..<m'} \<union> Q' = insert j ({..<m} \<union> Q)"
    using append_gossiped_step [OF run c Cons.prems(1,2) j k room refl] by blast
  have "set js' \<subseteq> {..<length bs} - ({..<m'} \<union> Q')" unfolding D using Cons.prems(4,5) js(1) by auto
  from Cons.IH [OF d js(3) _ this] Cons.prems(4,6) js(1) obtain m'' Q'' where
    "delivered me mp lo T base k bc bs m'' Q'' (co_tokens (gossip_all E arrivals ?s)) (co_orphans (gossip_all E arrivals ?s))"
    "m'' \<notin> Q''" "{..<m''} \<union> Q'' = {..<m'} \<union> Q' \<union> set js'" by auto
  then show ?case using D js a by (intro exI [of _ m''] exI [of _ Q'']) (simp add: gossip_all_def insert_commute)
qed

lemma permuted_indices:
  assumes "mset xs = mset bs" and "distinct bs"
  obtains js where "xs = map ((!) bs) js" and "distinct js" and "set js = {..<length bs}"
proof -
  let ?f = "the_inv_into {..<length bs} ((!) bs)"
  have inj: "inj_on ((!) bs) {..<length bs}" using assms(2) by (simp add: inj_on_nth)
  have img: "(!) bs ` {..<length bs} = set bs" by (auto simp: set_conv_nth)
  have xs: "set xs = set bs" "distinct xs" using assms mset_eq_setD mset_eq_imp_distinct_iff by blast+
  show thesis
  proof (rule that [of "map ?f xs"])
    have "bs ! ?f x = x" if "x \<in> set xs" for x
      using f_the_inv_into_f [OF inj, of x] img xs(1) that by simp
    then show "xs = map ((!) bs) (map ?f xs)" by (simp add: map_idI)
    show "distinct (map ?f xs)"
      using xs inj_on_the_inv_into [OF inj] img by (simp add: distinct_map)
    show "set (map ?f xs) = {..<length bs}"
      using the_inv_into_onto [OF inj] img xs(1) by simp
  qed
qed

text \<open>C16: no order of delivery loses a block.  A run of consecutive finalized blocks of a token that all
  arrive within the buffer's lifetime, in any order and at any instants, ends on the token's chain
  in the order of the run, and none of them stays behind in the buffer, provided the caps of the
  buffer have room for them.\<close>

theorem delivery_order_irrelevant:
  assumes "block_run (ce_codec E) (ce_hash E) (cached_tip (tok_blockchain t)) bs"
    and "\<forall>b\<in>set bs. tx_token (sx_transaction (signed_trans b)) = k"
    and "map_of (co_tokens s) k = Some t"
    and "orphans_run me mp T (co_orphans s)" and "pending_for (co_orphans s) k = []"
    and "orphans_len (co_orphans s) + length bs \<le> me" and "length bs \<le> mp"
    and "mset (map snd arrivals) = mset bs" and "\<forall>a\<in>set arrivals. in_window lo T (fst a)"
  shows "\<exists>t'. map_of (co_tokens (gossip_all E arrivals s)) k = Some t' \<and>
           chain (tok_blockchain t') = chain (tok_blockchain t) @ bs \<and> pending_for (co_orphans (gossip_all E arrivals s)) k = []"
proof -
  let ?bc = "tok_blockchain t" and ?s = "gossip_all E arrivals s"
  have "distinct bs" using assms(1) by (simp add: block_run_def distinct_map)
  then obtain js where js: "map snd arrivals = map ((!) bs) js" "distinct js" "set js = {..<length bs}"
    using permuted_indices [OF assms(8)] by metis
  have start: "delivered me mp lo T (orphans_len (co_orphans s)) k ?bc bs 0 {} (co_tokens s) (co_orphans s)"
    using assms(3-5) by (simp add: delivered_def holds_def orphans_len_def)
  obtain m Q where d: "delivered me mp lo T (orphans_len (co_orphans s)) k ?bc bs m Q (co_tokens ?s) (co_orphans ?s)"
    and m: "m \<notin> Q" "{..<m} \<union> Q = {..<length bs}"
    using gossip_all_steps [OF assms(1,6,7,2) start _ js(1,2) _ assms(9)] js(3) by auto
  have "m = length bs" using d m by (auto simp: delivered_def)
  then have "Q = {}" using d by (auto simp: delivered_def)
  then show ?thesis
    using d \<open>m = length bs\<close> by (auto simp: delivered_def holds_def)
qed

section \<open>A concrete delivery\<close>

definition demo_pair :: "block list" where
  "demo_pair = [demo_block [], demo_block (current_hash (demo_block []))]"

lemma demo_pair_run: "block_run committer_codec length_hash [] demo_pair"
proof -
  note committer_self_hashed
  moreover have "current_hash (demo_block []) \<noteq> current_hash (demo_block (current_hash (demo_block [])))"
    by (simp add: demo_block_def demo_input_def length_hash_def to_be_bytes_def)
  moreover have "previous_hash (demo_block p) = p" "[] \<noteq> current_hash (demo_block p)" for p
    by (simp_all add: demo_block_def length_hash_def)
  ultimately show ?thesis
    by (auto simp: block_run_def demo_pair_def run_hash_def less_Suc_eq)
qed

text \<open>The second block arrives first.\<close>

theorem delivery_order_irrelevant_witness:
  "\<exists>t. map_of (co_tokens (gossip_all demo_committer_env [(\<lambda>_. 5, demo_pair ! 1), (\<lambda>_. 7, demo_pair ! 0)] demo_committer)) [1] = Some t \<and>
     chain (tok_blockchain t) = demo_pair"
proof -
  have empty: "tok_blockchain (token_new\<lparr>tok_id := [1]\<rparr>) = blockchain_new" by (simp add: token_new_def)
  have "\<forall>b\<in>set demo_pair. tx_token (sx_transaction (signed_trans b)) = [1]"
    by (simp add: demo_pair_def demo_block_def demo_signed_def demo_tx_def)
  then show ?thesis
    using delivery_order_irrelevant [where E = demo_committer_env and t = "token_new\<lparr>tok_id := [1]\<rparr>" and bs = demo_pair and k = "[1]"
        and s = demo_committer and me = 1024 and mp = 256 and T = 30 and lo = 0
        and arrivals = "[(\<lambda>_. 5, demo_pair ! 1), (\<lambda>_. 7, demo_pair ! 0)]"] demo_pair_run orphans_run.start [of 1024 256 30]
    by (auto simp: demo_committer_env_def demo_committer_def empty blockchain_new_def cached_tip_def last_block_def
        orphans_len_def orphans_new_def pending_for_def demo_pair_def in_window_def)
qed

end
