(* ===== verification/Fanout.thy ===== *)
theory Fanout
  imports Gossip Framing
begin

text \<open>
  Broadcast and targeted sends of the node registry (\<^verbatim>\<open>node/registry/fanout.rs\<close>, with
  \<^verbatim>\<open>deliver_self_copy\<close> of \<^verbatim>\<open>self_delivery.rs\<close> and the failure counters of \<^verbatim>\<open>node/registry.rs\<close>).  The
  transport is a parameter: what a send over the network or over a direct connection comes to.  A send
  is recorded in the state.  The sends of one call run concurrently in the source; they only append to
  the counters, so they are taken in the order of the targets.
\<close>

section \<open>The transport and what a send comes to\<close>

text \<open>A worker that sends over the network replies, hangs beyond the bound or dies; a direct send
  returns or runs into the bound.\<close>

datatype worker_outcome = Replied "conn_error + bytes" | WorkerHung | WorkerDied

record fanout_env =
  fo_registry :: registry_env
  fo_rns :: "bytes \<Rightarrow> bytes \<Rightarrow> worker_outcome"
  fo_direct :: "bytes \<Rightarrow> bytes \<Rightarrow> (conn_error + unit) option"
  fo_frame :: "bytes \<Rightarrow> io_error + bytes"

record delivery =
  dl_failures :: "((bytes \<times> node_registry_type) \<times> u64) list"
  dl_self :: "bytes list"
  dl_sent :: "(bytes \<times> bytes) list"

definition delivery_new :: delivery where
  "delivery_new = \<lparr>dl_failures = [], dl_self = [], dl_sent = []\<rparr>"

definition failure_count :: "delivery \<Rightarrow> bytes \<Rightarrow> node_registry_type \<Rightarrow> u64" where
  "failure_count d rhash t = (case map_of (dl_failures d) (rhash, t) of Some c \<Rightarrow> c | None \<Rightarrow> 0)"

definition total_delivery_failures :: "delivery \<Rightarrow> u64" where
  "total_delivery_failures d = sum_list (map snd (dl_failures d))"

definition record_delivery_failure :: "bytes \<Rightarrow> node_registry_type \<Rightarrow> delivery \<Rightarrow> delivery" where
  "record_delivery_failure rhash t d =
     d\<lparr>dl_failures := AList.update (rhash, t) (case map_of (dl_failures d) (rhash, t) of Some c \<Rightarrow> c + 1 | None \<Rightarrow> 1) (dl_failures d)\<rparr>"

text \<open>\<^verbatim>\<open>bounded_send\<close> around the closure that drops the reply of the peer.\<close>

definition bounded_send :: "worker_outcome \<Rightarrow> conn_error option" where
  "bounded_send w = (case w of Replied _ \<Rightarrow> None | WorkerHung \<Rightarrow> Some ConnTimeout | WorkerDied \<Rightarrow> Some ConnIO)"

definition direct_send :: "(conn_error + unit) option \<Rightarrow> conn_error option" where
  "direct_send r = (case r of None \<Rightarrow> Some ConnTimeout | Some (Inl e) \<Rightarrow> Some e | Some (Inr _) \<Rightarrow> None)"

section \<open>The same-host copy\<close>

definition deliver_self_copy ::
    "fanout_env \<Rightarrow> node_registry \<Rightarrow> bytes \<Rightarrow> node_registry_type \<Rightarrow> delivery \<Rightarrow> bool \<times> delivery" where
  "deliver_self_copy F r payload t d =
     (if \<not> serves_locally r t then (False, d)
      else if map_of (get_nodes r t) (rg_public_key (fo_registry F)) \<noteq> None then (False, d)
      else case fo_frame F payload of
             Inl _ \<Rightarrow> (False, record_delivery_failure (rg_rhash (fo_registry F)) t d)
           | Inr fr \<Rightarrow> (True, d\<lparr>dl_self := dl_self d @ [fr]\<rparr>))"

section \<open>Broadcasts\<close>

definition send_over_rns ::
    "fanout_env \<Rightarrow> node_registry_type \<Rightarrow> bytes \<Rightarrow> bytes \<Rightarrow> delivery \<Rightarrow> bool \<times> delivery" where
  "send_over_rns F t payload rhash d =
     (let d' = d\<lparr>dl_sent := dl_sent d @ [(rhash, payload)]\<rparr>
      in case bounded_send (fo_rns F rhash payload) of
           None \<Rightarrow> (True, d')
         | Some e \<Rightarrow> (False, record_delivery_failure rhash t d'))"

definition send_direct ::
    "fanout_env \<Rightarrow> node_registry_type \<Rightarrow> bytes \<Rightarrow> bytes \<Rightarrow> registry_node \<Rightarrow> delivery \<Rightarrow> bool \<times> delivery" where
  "send_direct F t payload key n d =
     (let d' = d\<lparr>dl_sent := dl_sent d @ [(rn_rhash n, payload)]\<rparr>
      in case direct_send (fo_direct F key payload) of
           None \<Rightarrow> (True, d')
         | Some e \<Rightarrow> (False, record_delivery_failure (rn_rhash n) t d'))"

definition send_to_all ::
    "fanout_env \<Rightarrow> node_registry \<Rightarrow> bytes \<Rightarrow> node_registry_type \<Rightarrow> delivery \<Rightarrow> delivery" where
  "send_to_all F r payload t d =
     (let d1 = snd (deliver_self_copy F r payload t d)
      in if rg_network (fo_registry F)
         then fold (\<lambda>(key, n) d. snd (send_over_rns F t payload (rn_rhash n) d)) (get_nodes r t) d1
         else fold (\<lambda>(key, n) d. snd (send_direct F t payload key n d)) (get_nodes r t) d1)"

text \<open>The blocking broadcast: a peer that left the bucket (\<open>later\<close>) before its send is a failure.\<close>

definition direct_send_blocking ::
    "fanout_env \<Rightarrow> node_registry \<Rightarrow> node_registry_type \<Rightarrow> bytes \<Rightarrow> bytes \<Rightarrow> bytes \<Rightarrow> delivery \<Rightarrow> bool \<times> delivery" where
  "direct_send_blocking F later t payload key rhash d =
     (case map_of (get_nodes later t) key of
        None \<Rightarrow> (False, record_delivery_failure rhash t d)
      | Some n \<Rightarrow>
          (let d' = d\<lparr>dl_sent := dl_sent d @ [(rn_rhash n, payload)]\<rparr>
           in case direct_send (fo_direct F key payload) of
                None \<Rightarrow> (True, d')
              | Some e \<Rightarrow> (False, record_delivery_failure rhash t d')))"

definition send_to_all_blocking ::
    "fanout_env \<Rightarrow> node_registry \<Rightarrow> node_registry \<Rightarrow> bytes \<Rightarrow> node_registry_type \<Rightarrow> delivery \<Rightarrow> delivery" where
  "send_to_all_blocking F r later payload t d =
     (let d1 = snd (deliver_self_copy F r payload t d)
      in if rg_network (fo_registry F)
         then fold (\<lambda>(key, n) d. snd (send_over_rns F t payload (rn_rhash n) d)) (get_nodes r t) d1
         else fold (\<lambda>(key, n) d. snd (direct_send_blocking F later t payload key (rn_rhash n) d)) (get_nodes r t) d1)"

section \<open>Targeted sends\<close>

text \<open>The targets with their resolved addresses, without those served on this host.\<close>

fun remote_targets ::
    "fanout_env \<Rightarrow> node_registry \<Rightarrow> node_registry_type \<Rightarrow> bytes \<Rightarrow> bytes list \<Rightarrow> delivery \<Rightarrow> (bytes \<times> bytes option) list \<times> delivery" where
  "remote_targets F r t payload [] d = ([], d)"
| "remote_targets F r t payload (key # keys) d =
     (let rhash = map_option rn_rhash (map_of (get_nodes r t) key)
      in if rhash \<noteq> None \<or> key \<noteq> rg_public_key (fo_registry F)
         then (case remote_targets F r t payload keys d of (ps, d') \<Rightarrow> ((key, rhash) # ps, d'))
         else (case deliver_self_copy F r payload t d of
                 (served, d1) \<Rightarrow>
                   (case remote_targets F r t payload keys d1 of
                      (ps, d') \<Rightarrow> (if served then ps else (key, rhash) # ps, d'))))"

fun send_rns_targets ::
    "fanout_env \<Rightarrow> node_registry_type \<Rightarrow> bytes \<Rightarrow> (bytes \<times> bytes option) list \<Rightarrow> delivery \<Rightarrow> bytes list \<times> delivery" where
  "send_rns_targets F t payload [] d = ([], d)"
| "send_rns_targets F t payload ((key, None) # ps) d =
     (case send_rns_targets F t payload ps d of (missed, d') \<Rightarrow> (key # missed, d'))"
| "send_rns_targets F t payload ((key, Some rhash) # ps) d =
     (case send_over_rns F t payload rhash d of
        (ok, d1) \<Rightarrow>
          (case send_rns_targets F t payload ps d1 of (missed, d') \<Rightarrow> (if ok then missed else key # missed, d')))"

text \<open>The direct branch of the asynchronous variant looks the peer up again; one that left is counted
  under the address that was resolved for it.\<close>

fun send_direct_targets ::
    "fanout_env \<Rightarrow> node_registry \<Rightarrow> node_registry_type \<Rightarrow> bytes \<Rightarrow> (bytes \<times> bytes option) list \<Rightarrow> delivery \<Rightarrow> bytes list \<times> delivery" where
  "send_direct_targets F later t payload [] d = ([], d)"
| "send_direct_targets F later t payload ((key, rhash) # ps) d =
     (case (case map_of (get_nodes later t) key of
              None \<Rightarrow> (False, case rhash of Some h \<Rightarrow> record_delivery_failure h t d | None \<Rightarrow> d)
            | Some n \<Rightarrow> send_direct F t payload key n d) of
        (ok, d1) \<Rightarrow>
          (case send_direct_targets F later t payload ps d1 of (missed, d') \<Rightarrow> (if ok then missed else key # missed, d')))"

definition send_to_peers ::
    "fanout_env \<Rightarrow> node_registry \<Rightarrow> node_registry \<Rightarrow> bytes list \<Rightarrow> node_registry_type \<Rightarrow> bytes \<Rightarrow> delivery \<Rightarrow> bytes list \<times> delivery" where
  "send_to_peers F r later keys t payload d =
     (case remote_targets F r t payload keys d of
        (ps, d1) \<Rightarrow>
          if rg_network (fo_registry F)
          then (case send_rns_targets F t payload (filter (\<lambda>p. snd p \<noteq> None) ps) d1 of
                  (missed, d2) \<Rightarrow> (map fst (filter (\<lambda>p. snd p = None) ps) @ missed, d2))
          else send_direct_targets F later t payload ps d1)"

fun send_blocking_targets ::
    "fanout_env \<Rightarrow> node_registry \<Rightarrow> node_registry_type \<Rightarrow> bytes \<Rightarrow> (bytes \<times> bytes option) list \<Rightarrow> delivery \<Rightarrow> bytes list \<times> delivery" where
  "send_blocking_targets F later t payload [] d = ([], d)"
| "send_blocking_targets F later t payload ((key, None) # ps) d =
     (case send_blocking_targets F later t payload ps d of (missed, d') \<Rightarrow> (key # missed, d'))"
| "send_blocking_targets F later t payload ((key, Some rhash) # ps) d =
     (case direct_send_blocking F later t payload key rhash d of
        (ok, d1) \<Rightarrow>
          (case send_blocking_targets F later t payload ps d1 of (missed, d') \<Rightarrow> (if ok then missed else key # missed, d')))"

definition send_to_peers_blocking ::
    "fanout_env \<Rightarrow> node_registry \<Rightarrow> node_registry \<Rightarrow> bytes list \<Rightarrow> node_registry_type \<Rightarrow> bytes \<Rightarrow> delivery \<Rightarrow> bytes list \<times> delivery" where
  "send_to_peers_blocking F r later keys t payload d =
     (case remote_targets F r t payload keys d of
        (ps, d1) \<Rightarrow>
          if rg_network (fo_registry F) then send_rns_targets F t payload ps d1
          else send_blocking_targets F later t payload ps d1)"

section \<open>Which targets are reported as missed\<close>

text \<open>A target is reached on this host, over the network or over its connection.\<close>

definition reaches :: "fanout_env \<Rightarrow> node_registry \<Rightarrow> node_registry_type \<Rightarrow> bytes \<Rightarrow> bytes \<Rightarrow> bool" where
  "reaches F r t payload key \<longleftrightarrow>
     (case map_of (get_nodes r t) key of
        None \<Rightarrow> key = rg_public_key (fo_registry F) \<and> serves_locally r t \<and> \<not> isl (fo_frame F payload)
      | Some n \<Rightarrow>
          if rg_network (fo_registry F) then bounded_send (fo_rns F (rn_rhash n) payload) = None
          else direct_send (fo_direct F key payload) = None)"

lemma fst_send_over_rns [simp]: "fst (send_over_rns F t payload rhash d) \<longleftrightarrow> bounded_send (fo_rns F rhash payload) = None"
  by (simp add: send_over_rns_def Let_def split: option.splits)

lemma fst_send_direct [simp]: "fst (send_direct F t payload key n d) \<longleftrightarrow> direct_send (fo_direct F key payload) = None"
  by (simp add: send_direct_def Let_def split: option.splits)

lemma fst_direct_send_blocking:
  "fst (direct_send_blocking F later t payload key rhash d) \<longleftrightarrow>
     map_of (get_nodes later t) key \<noteq> None \<and> direct_send (fo_direct F key payload) = None"
  by (simp add: direct_send_blocking_def Let_def split: option.splits)

lemma fst_deliver_self_copy:
  "map_of (get_nodes r t) (rg_public_key (fo_registry F)) = None \<Longrightarrow>
   fst (deliver_self_copy F r payload t d) \<longleftrightarrow> serves_locally r t \<and> \<not> isl (fo_frame F payload)"
  by (simp add: deliver_self_copy_def split: sum.splits)

lemma fst_remote_targets:
  "fst (remote_targets F r t payload keys d) =
     map (\<lambda>key. (key, map_option rn_rhash (map_of (get_nodes r t) key)))
       (filter (\<lambda>key. map_of (get_nodes r t) key \<noteq> None \<or> \<not> reaches F r t payload key) keys)"
proof (induction keys arbitrary: d)
  case Nil
  then show ?case by simp
next
  case (Cons key keys)
  show ?case
  proof (cases "map_of (get_nodes r t) key = None \<and> key = rg_public_key (fo_registry F)")
    case False
    then show ?thesis
      using Cons.IH [of d] by (auto simp: reaches_def split: prod.splits)
  next
    case True
    then have own: "map_of (get_nodes r t) (rg_public_key (fo_registry F)) = None" by blast
    obtain served d1 where s: "deliver_self_copy F r payload t d = (served, d1)" by fastforce
    moreover have "reaches F r t payload key \<longleftrightarrow> serves_locally r t \<and> \<not> isl (fo_frame F payload)"
      using True by (auto simp: reaches_def)
    ultimately have "served \<longleftrightarrow> reaches F r t payload key"
      using fst_deliver_self_copy [OF own, of payload d] by simp
    then show ?thesis
      using Cons.IH [of d1] True s by (auto split: prod.splits)
  qed
qed

definition rns_missed :: "fanout_env \<Rightarrow> bytes \<Rightarrow> bytes \<times> bytes option \<Rightarrow> bool" where
  "rns_missed F payload p \<longleftrightarrow> (case snd p of None \<Rightarrow> True | Some h \<Rightarrow> bounded_send (fo_rns F h payload) \<noteq> None)"

definition direct_missed :: "fanout_env \<Rightarrow> node_registry \<Rightarrow> node_registry_type \<Rightarrow> bytes \<Rightarrow> bytes \<times> bytes option \<Rightarrow> bool" where
  "direct_missed F later t payload p \<longleftrightarrow>
     map_of (get_nodes later t) (fst p) = None \<or> direct_send (fo_direct F (fst p) payload) \<noteq> None"

definition blocking_missed :: "fanout_env \<Rightarrow> node_registry \<Rightarrow> node_registry_type \<Rightarrow> bytes \<Rightarrow> bytes \<times> bytes option \<Rightarrow> bool" where
  "blocking_missed F later t payload p \<longleftrightarrow> snd p = None \<or> direct_missed F later t payload p"

lemma fst_send_rns_targets: "fst (send_rns_targets F t payload ps d) = map fst (filter (rns_missed F payload) ps)"
proof (induction F t payload ps d rule: send_rns_targets.induct)
  case (3 F t payload key rhash ps d)
  have "rns_missed F payload (key, Some rhash) \<longleftrightarrow> \<not> fst (send_over_rns F t payload rhash d)"
    by (simp add: rns_missed_def)
  then show ?case
    using 3 [OF prod.collapse] by (simp add: case_prod_beta)
qed (simp_all add: rns_missed_def case_prod_beta)

lemma fst_send_direct_targets:
  "fst (send_direct_targets F later t payload ps d) = map fst (filter (direct_missed F later t payload) ps)"
proof (induction F later t payload ps d rule: send_direct_targets.induct)
  case (2 F later t payload key rhash ps d)
  have "direct_missed F later t payload (key, rhash) \<longleftrightarrow>
      \<not> fst (case map_of (get_nodes later t) key of
              None \<Rightarrow> (False, case rhash of Some h \<Rightarrow> record_delivery_failure h t d | None \<Rightarrow> d)
            | Some n \<Rightarrow> send_direct F t payload key n d)"
    by (cases "map_of (get_nodes later t) key") (simp_all add: direct_missed_def)
  then show ?case
    using 2 [OF prod.collapse] by (simp add: case_prod_beta)
qed simp

lemma fst_send_blocking_targets:
  "fst (send_blocking_targets F later t payload ps d) = map fst (filter (blocking_missed F later t payload) ps)"
proof (induction F later t payload ps d rule: send_blocking_targets.induct)
  case (3 F later t payload key rhash ps d)
  have "blocking_missed F later t payload (key, Some rhash) \<longleftrightarrow> \<not> fst (direct_send_blocking F later t payload key rhash d)"
    by (auto simp: blocking_missed_def direct_missed_def fst_direct_send_blocking)
  then show ?case
    using 3 [OF prod.collapse] by (simp add: case_prod_beta)
qed (simp_all add: blocking_missed_def case_prod_beta)

lemma mset_filter_split:
  assumes "\<And>x. Q x \<Longrightarrow> P x"
  shows "mset (map f (filter Q xs) @ map f (filter P (filter (\<lambda>x. \<not> Q x) xs))) = mset (map f (filter P xs))"
  using assms by (induction xs) (simp_all del: filter_filter mset_filter)

text \<open>The entries of \<open>remote_targets\<close> that are missed, as keys.\<close>

lemma missed_keys:
  assumes "\<And>key. (map_of (get_nodes r t) key \<noteq> None \<or> \<not> reaches F r t payload key) \<Longrightarrow>
              P (key, map_option rn_rhash (map_of (get_nodes r t) key)) \<longleftrightarrow> \<not> reaches F r t payload key"
  shows "map fst (filter P (fst (remote_targets F r t payload keys d))) = filter (\<lambda>key. \<not> reaches F r t payload key) keys"
  unfolding fst_remote_targets using assms by (induction keys) auto

text \<open>The asynchronous and the blocking targeted send report, for a bucket that does not change
  meanwhile, exactly the targets that were not reached: neither served on this host, nor answered over
  the network, nor over their connection.  The two variants agree up to the order.\<close>

theorem targeted_sends_agree:
  "fst (send_to_peers_blocking F r r keys t payload d) = filter (\<lambda>key. \<not> reaches F r t payload key) keys \<and>
   mset (fst (send_to_peers F r r keys t payload d)) = mset (fst (send_to_peers_blocking F r r keys t payload d))"
proof -
  obtain ps d1 where ps: "remote_targets F r t payload keys d = (ps, d1)" by fastforce
  let ?missed = "filter (\<lambda>key. \<not> reaches F r t payload key) keys"
  show ?thesis
  proof (cases "rg_network (fo_registry F)")
    case True
    have "map fst (filter (rns_missed F payload) ps) = ?missed"
      using True by (subst missed_keys [where P = "rns_missed F payload" and keys = keys and d = d, symmetric])
        (auto simp: rns_missed_def reaches_def ps split: option.splits)
    moreover have "mset (map fst (filter (\<lambda>p. snd p = None) ps) @ map fst (filter (rns_missed F payload) (filter (\<lambda>p. \<not> snd p = None) ps))) =
        mset (map fst (filter (rns_missed F payload) ps))"
      by (rule mset_filter_split) (simp add: rns_missed_def)
    ultimately show ?thesis
      using True by (simp only: send_to_peers_def send_to_peers_blocking_def ps case_prod_beta fst_conv snd_conv if_True
          fst_send_rns_targets simp_thms)
  next
    case False
    have "map fst (filter (blocking_missed F r t payload) ps) = ?missed"
      using False by (subst missed_keys [where P = "blocking_missed F r t payload" and keys = keys and d = d, symmetric])
        (auto simp: blocking_missed_def direct_missed_def reaches_def ps split: option.splits)
    moreover have "map fst (filter (direct_missed F r t payload) ps) = ?missed"
      using False by (subst missed_keys [where P = "direct_missed F r t payload" and keys = keys and d = d, symmetric])
        (auto simp: direct_missed_def reaches_def ps split: option.splits)
    ultimately show ?thesis
      using False by (simp only: send_to_peers_def send_to_peers_blocking_def ps case_prod_beta fst_conv snd_conv if_False
          fst_send_blocking_targets fst_send_direct_targets simp_thms)
  qed
qed

end
