(* ===== verification/Signature_Collector.thy ===== *)
theory Signature_Collector
  imports Quorum Pending_Registry
begin

text \<open>
  The collector of votes behind a finalizer (\<^verbatim>\<open>finalizer/src/signature_collector.rs\<close>): the responsible
  set, admission of a vote, the stake quorum of shielded transfers and the reconciliation of the
  collected votes against the responsible set.  The iteration order of a hash map is the order of its
  association list.
\<close>

section \<open>The responsible set\<close>

type_synonym responsible_set = "u64 amap"

definition from_stake_set :: "stake_set \<Rightarrow> responsible_set" where
  "from_stake_set ss = filter (\<lambda>(key, stake). stake > 0) (stakers ss)"

definition responsible_total :: "responsible_set \<Rightarrow> u64" where
  "responsible_total m = sum_list (map snd m)"

definition stake_of :: "responsible_set \<Rightarrow> bytes \<Rightarrow> u64 option" where
  "stake_of m key = map_of m key"

section \<open>The collector\<close>

record signature_collector =
  col_signatures :: signature_registry
  col_quorum :: f64
  col_shortfalls :: u64
  col_unassigned :: u64

definition collector_new :: "f64 \<Rightarrow> signature_collector" where
  "collector_new percentage = \<lparr>col_signatures = [], col_quorum = percentage, col_shortfalls = 0, col_unassigned = 0\<rparr>"

definition add_signature ::
    "string \<Rightarrow> bytes \<Rightarrow> transaction_signature \<Rightarrow> signature_collector \<Rightarrow> unit res \<times> signature_collector" where
  "add_signature i key sg c =
     (case try_add_signature i key sg (ensure_transaction_registered i (col_signatures c)) of
        (r, g) \<Rightarrow> (r, c\<lparr>col_signatures := g\<rparr>))"

definition signature_count :: "signature_collector \<Rightarrow> string \<Rightarrow> nat" where
  "signature_count c i = (case get_transaction_registry (col_signatures c) i of Some m \<Rightarrow> length m | None \<Rightarrow> 0)"

definition has_signatures :: "signature_collector \<Rightarrow> string \<Rightarrow> bool" where
  "has_signatures c i \<longleftrightarrow> signature_count c i > 0"

definition first_signature :: "signature_collector \<Rightarrow> string \<Rightarrow> (bytes \<times> transaction_signature) option" where
  "first_signature c i =
     (case get_transaction_registry (col_signatures c) i of
        None \<Rightarrow> None
      | Some m \<Rightarrow> (case btree_of m of [] \<Rightarrow> None | v # _ \<Rightarrow> Some v))"

definition check_stake_quorum :: "signature_collector \<Rightarrow> string \<Rightarrow> u64 \<Rightarrow> bool res" where
  "check_stake_quorum c i declared =
     (case get_transaction_registry (col_signatures c) i of
        None \<Rightarrow> Inl (Registry ''not in signature registry'')
      | Some m \<Rightarrow>
          if declared = 0 then Inr False
          else (let admitted = sum_list (map (\<lambda>v. unat (sig_current_stake (snd v))) m)
                in Inr (admitted * 100 \<ge> (unat declared * quorum_pct (col_quorum c)) mod 2 ^ 128)))"

section \<open>Reconciliation\<close>

record executor_signature =
  es_key :: bytes
  es_signature :: bytes
  es_stake :: u64

record reconciled_signatures =
  rs_executor_signatures :: "executor_signature list"
  rs_winning_finalizer :: bytes
  rs_conflict_resolved :: bool

text \<open>The votes of responsible keys, at the declared stake; the others are only counted.\<close>

definition candidates_of :: "responsible_set \<Rightarrow> transaction_signature amap \<Rightarrow> executor_signature list" where
  "candidates_of m votes =
     concat (map (\<lambda>(key, sg). case stake_of m key of
                                 Some stake \<Rightarrow> [\<lparr>es_key = key, es_signature = sig_signature sg, es_stake = stake\<rparr>]
                               | None \<Rightarrow> []) votes)"

fun take_until_quorum :: "nat \<Rightarrow> u64 \<Rightarrow> u64 \<Rightarrow> executor_signature list \<Rightarrow> executor_signature list \<times> bytes" where
  "take_until_quorum pct declared cumulative [] = ([], [])"
| "take_until_quorum pct declared cumulative (e # es) =
     (let cumulative' = cumulative + es_stake e
      in if unat cumulative' * 100 \<ge> (unat declared * pct) mod 2 ^ 128 then ([e], es_key e)
         else case take_until_quorum pct declared cumulative' es of (winning, key) \<Rightarrow> (e # winning, key))"

definition reconcile_signatures ::
    "string \<Rightarrow> responsible_set \<Rightarrow> signature_collector \<Rightarrow> reconciled_signatures res \<times> signature_collector" where
  "reconcile_signatures i m c =
     (if m = [] then (Inl (EpochErr ''the responsible set is empty''), c)
      else case get_transaction_registry (col_signatures c) i of
             None \<Rightarrow> (Inl (Registry ''not in signature registry''), c)
           | Some votes \<Rightarrow>
               (let cands = candidates_of m votes;
                    unassigned = length votes - length cands;
                    c1 = c\<lparr>col_unassigned := col_unassigned c + of_nat unassigned\<rparr>;
                    (winning, key) = take_until_quorum (quorum_pct (col_quorum c)) (responsible_total m) 0
                                       (sort_key (\<lambda>e. - int (unat (es_stake e))) cands)
                in if key = [] then (Inl (EpochErr ''quorum not reached''), c1\<lparr>col_shortfalls := col_shortfalls c1 + 1\<rparr>)
                   else (Inr \<lparr>rs_executor_signatures = winning, rs_winning_finalizer = key, rs_conflict_resolved = True\<rparr>, c1)))"


section \<open>The quorum counts the declared stake of the responsible voters\<close>

definition stakes_of :: "executor_signature list \<Rightarrow> nat" where
  "stakes_of es = sum_list (map (\<lambda>e. unat (es_stake e)) es)"

lemma stakes_of_simps [simp]: "stakes_of [] = 0" "stakes_of (e # es) = unat (es_stake e) + stakes_of es"
  by (simp_all add: stakes_of_def)

text \<open>The declared stake of the voters that are responsible, each once.\<close>

definition eligible_stake :: "responsible_set \<Rightarrow> bytes set \<Rightarrow> nat" where
  "eligible_stake m voters = (\<Sum>key \<in> voters. case map_of m key of Some s \<Rightarrow> unat s | None \<Rightarrow> 0)"

lemma candidates_of_Cons:
  "candidates_of m (v # votes) =
     (case map_of m (fst v) of Some stake \<Rightarrow> [\<lparr>es_key = fst v, es_signature = sig_signature (snd v), es_stake = stake\<rparr>] | None \<Rightarrow> [])
       @ candidates_of m votes"
  by (simp add: candidates_of_def stake_of_def case_prod_beta)

lemma stakes_of_candidates:
  "distinct (map fst votes) \<Longrightarrow> stakes_of (candidates_of m votes) = eligible_stake m (fst ` set votes)"
proof (induction votes)
  case Nil
  then show ?case by (simp add: candidates_of_def eligible_stake_def)
next
  case (Cons v votes)
  then show ?case
    by (auto simp: candidates_of_Cons eligible_stake_def split: option.splits)
qed

lemma eligible_stake_bound:
  assumes "distinct (map fst m)" and "finite voters"
  shows "eligible_stake m voters \<le> sum_list (map (\<lambda>v. unat (snd v)) m)"
proof -
  have "eligible_stake m voters = (\<Sum>key \<in> voters \<inter> fst ` set m. case map_of m key of Some s \<Rightarrow> unat s | None \<Rightarrow> 0)"
    unfolding eligible_stake_def
    by (rule sum.mono_neutral_right) (use assms(2) in \<open>auto dest!: map_of_SomeD intro: rev_image_eqI split: option.splits\<close>)
  also have "\<dots> \<le> (\<Sum>key \<in> fst ` set m. case map_of m key of Some s \<Rightarrow> unat s | None \<Rightarrow> 0)"
    by (rule sum_mono2) auto
  also have "\<dots> = sum_list (map (\<lambda>key. case map_of m key of Some s \<Rightarrow> unat s | None \<Rightarrow> 0) (map fst m))"
    using assms(1) by (subst sum_list_distinct_conv_sum_set) auto
  also have "\<dots> = sum_list (map (\<lambda>v. unat (snd v)) m)"
    using assms(1) by (auto intro!: arg_cong [where f = sum_list])
  finally show ?thesis .
qed

lemma take_until_quorum_reached:
  assumes "unat cumulative + stakes_of es < 2 ^ 64" and "\<forall>e \<in> set es. es_key e \<noteq> []"
  shows "snd (take_until_quorum pct d cumulative es) \<noteq> [] \<longleftrightarrow>
         es \<noteq> [] \<and> (unat d * pct) mod 2 ^ 128 \<le> (unat cumulative + stakes_of es) * 100"
  using assms
proof (induction es arbitrary: cumulative)
  case Nil
  then show ?case by simp
next
  case (Cons e es)
  have "unat cumulative + unat (es_stake e) < 2 ^ LENGTH(64)" using Cons.prems(1) by simp
  then have c: "unat (cumulative + es_stake e) = unat cumulative + unat (es_stake e)" by (rule unat_add_lem [THEN iffD1])
  show ?case
    using Cons.IH [of "cumulative + es_stake e"] Cons.prems by (cases "es = []") (auto simp: c Let_def case_prod_beta)
qed

lemma take_until_quorum_prefix:
  assumes "unat cumulative + stakes_of es < 2 ^ 64" and "snd (take_until_quorum pct d cumulative es) \<noteq> []"
  shows "\<exists>rest. es = fst (take_until_quorum pct d cumulative es) @ rest \<and>
         (unat d * pct) mod 2 ^ 128 \<le> (unat cumulative + stakes_of (fst (take_until_quorum pct d cumulative es))) * 100"
  using assms
proof (induction es arbitrary: cumulative)
  case Nil
  then show ?case by simp
next
  case (Cons e es)
  have "unat cumulative + unat (es_stake e) < 2 ^ LENGTH(64)" using Cons.prems(1) by simp
  then have c: "unat (cumulative + es_stake e) = unat cumulative + unat (es_stake e)" by (rule unat_add_lem [THEN iffD1])
  show ?case
    using Cons.IH [of "cumulative + es_stake e"] Cons.prems by (auto simp: c Let_def case_prod_beta split: if_splits)
qed

lemma stakes_of_mset: "mset es = mset fs \<Longrightarrow> stakes_of es = stakes_of fs"
  unfolding stakes_of_def by (rule sum_list_mset_eq)

lemma stakes_of_sort [simp]: "stakes_of (sort_key f es) = stakes_of es"
  by (rule stakes_of_mset) simp

lemma candidates_of_keys:
  "e \<in> set (candidates_of m votes) \<Longrightarrow> \<exists>sg. (es_key e, sg) \<in> set votes \<and> map_of m (es_key e) = Some (es_stake e) \<and>
     es_signature e = sig_signature sg"
  by (auto simp: candidates_of_def stake_of_def split: option.splits)

lemma candidates_of_distinct: "distinct (map fst votes) \<Longrightarrow> distinct (map es_key (candidates_of m votes))"
proof (induction votes)
  case (Cons v votes)
  have "fst v \<notin> es_key ` set (candidates_of m votes)"
    using Cons.prems candidates_of_keys [of _ m votes] by force
  then show ?case
    using Cons by (auto simp: candidates_of_Cons split: option.splits)
qed (simp add: candidates_of_def)

lemma responsible_total_unat:
  assumes "sum_list (map (\<lambda>v. unat (snd v)) m) < 2 ^ 64"
  shows "unat (responsible_total m) = sum_list (map (\<lambda>v. unat (snd v)) m)"
  using assms
proof (induction m)
  case (Cons v m)
  then have "unat (responsible_total m) = sum_list (map (\<lambda>v. unat (snd v)) m)" by simp
  then have "unat (snd v) + unat (responsible_total m) < 2 ^ LENGTH(64)" using Cons.prems by simp
  then have "unat (snd v + responsible_total m) = unat (snd v) + unat (responsible_total m)" by (rule unat_add_lem [THEN iffD1])
  then show ?case using Cons by (simp add: responsible_total_def)
qed (simp add: responsible_total_def)

lemma take_until_quorum_subset: "set (fst (take_until_quorum pct d cumulative es)) \<subseteq> set es"
  by (induction es arbitrary: cumulative) (auto simp: Let_def case_prod_beta)

lemma reconcile_Inr:
  assumes "fst (reconcile_signatures i m c) = Inr r"
  shows "\<exists>votes. map_of (col_signatures c) i = Some votes \<and>
           snd (take_until_quorum (quorum_pct (col_quorum c)) (responsible_total m) 0
                  (sort_key (\<lambda>e. - int (unat (es_stake e))) (candidates_of m votes))) \<noteq> [] \<and>
           rs_executor_signatures r = fst (take_until_quorum (quorum_pct (col_quorum c)) (responsible_total m) 0
                  (sort_key (\<lambda>e. - int (unat (es_stake e))) (candidates_of m votes)))"
  using assms
  by (auto simp: reconcile_signatures_def get_transaction_registry_def Let_def case_prod_beta split: if_splits option.splits)

text \<open>The winning signatures are collected votes of responsible keys.\<close>

lemma reconcile_winners:
  assumes "fst (reconcile_signatures i m c) = Inr r"
  shows "\<exists>votes. map_of (col_signatures c) i = Some votes \<and>
           (\<forall>e \<in> set (rs_executor_signatures r). \<exists>sg. (es_key e, sg) \<in> set votes \<and> es_signature e = sig_signature sg \<and>
              map_of m (es_key e) = Some (es_stake e))"
proof -
  obtain votes where v: "map_of (col_signatures c) i = Some votes"
    and r: "rs_executor_signatures r = fst (take_until_quorum (quorum_pct (col_quorum c)) (responsible_total m) 0
                  (sort_key (\<lambda>e. - int (unat (es_stake e))) (candidates_of m votes)))"
    using reconcile_Inr [OF assms] by auto
  have "e \<in> set (candidates_of m votes)" if "e \<in> set (rs_executor_signatures r)" for e
    using that take_until_quorum_subset unfolding r by (metis set_sort subsetD)
  then show ?thesis using v candidates_of_keys by blast
qed

lemma reconcile_quorum:
  assumes "fst (reconcile_signatures i m c) = Inr r" and "map_of (col_signatures c) i = Some votes" and "distinct (map fst votes)"
    and "distinct (map fst m)" and "sum_list (map (\<lambda>v. unat (snd v)) m) < 2 ^ 64" and "quorum_pct (col_quorum c) \<le> 100"
  shows "distinct (map es_key (rs_executor_signatures r)) \<and>
         unat (responsible_total m) * quorum_pct (col_quorum c) \<le> stakes_of (rs_executor_signatures r) * 100"
proof -
  define cands where "cands = sort_key (\<lambda>e. - int (unat (es_stake e))) (candidates_of m votes)"
  define res where "res = take_until_quorum (quorum_pct (col_quorum c)) (responsible_total m) 0 cands"
  have won: "snd res \<noteq> []" and r: "rs_executor_signatures r = fst res"
    using reconcile_Inr [OF assms(1)] assms(2) by (auto simp: res_def cands_def)
  have need: "(unat (responsible_total m) * quorum_pct (col_quorum c)) mod 2 ^ 128 = unat (responsible_total m) * quorum_pct (col_quorum c)"
    using assms(6) by (rule quorum_product_fits)
  have "stakes_of cands = eligible_stake m (fst ` set votes)"
    using assms(3) by (simp add: cands_def stakes_of_candidates)
  then have bound: "unat (0 :: u64) + stakes_of cands < 2 ^ 64"
    using eligible_stake_bound [OF assms(4), of "fst ` set votes"] assms(5) by simp
  obtain rest where rest: "cands = fst res @ rest"
    and reach: "unat (responsible_total m) * quorum_pct (col_quorum c) \<le> stakes_of (fst res) * 100"
    using take_until_quorum_prefix [OF bound, of "quorum_pct (col_quorum c)" "responsible_total m", unfolded need] won
    by (auto simp: res_def)
  have "distinct (map es_key cands)"
    using candidates_of_distinct [OF assms(3), of m] unfolding cands_def
    by (metis mset_eq_imp_distinct_iff mset_map mset_sort)
  then show ?thesis using reach unfolding r rest by simp
qed

text \<open>C19: the votes for a transaction reconcile exactly when the declared stake of the distinct responsible
  voters reaches the quorum percentage of the whole responsible set, whatever stake the votes claim and
  however many votes come from outside; the winning signatures are those of distinct responsible voters
  whose declared stake alone reaches the quorum.\<close>

theorem reconcile_exact:
  assumes "map_of (col_signatures c) i = Some votes" and "distinct (map fst votes)" and "\<forall>v \<in> set votes. fst v \<noteq> []"
    and "distinct (map fst m)" and "\<forall>v \<in> set m. 0 < snd v" and "sum_list (map (\<lambda>v. unat (snd v)) m) < 2 ^ 64"
    and "0 < quorum_pct (col_quorum c)" and "quorum_pct (col_quorum c) \<le> 100"
  shows "(case fst (reconcile_signatures i m c) of
            Inl _ \<Rightarrow> m = [] \<or>
              eligible_stake m (fst ` set votes) * 100 < unat (responsible_total m) * quorum_pct (col_quorum c)
          | Inr r \<Rightarrow> m \<noteq> [] \<and>
              unat (responsible_total m) * quorum_pct (col_quorum c) \<le> eligible_stake m (fst ` set votes) * 100 \<and>
              distinct (map es_key (rs_executor_signatures r)) \<and>
              (\<forall>e \<in> set (rs_executor_signatures r). es_key e \<in> fst ` set votes \<and> map_of m (es_key e) = Some (es_stake e)) \<and>
              unat (responsible_total m) * quorum_pct (col_quorum c) \<le> stakes_of (rs_executor_signatures r) * 100)"
proof (cases "m = []")
  case True
  then show ?thesis by (simp add: reconcile_signatures_def)
next
  case False
  define pct where "pct = quorum_pct (col_quorum c)"
  define T where "T = responsible_total m"
  define cands where "cands = sort_key (\<lambda>e. - int (unat (es_stake e))) (candidates_of m votes)"
  define res where "res = take_until_quorum pct T 0 cands"
  have el: "stakes_of cands = eligible_stake m (fst ` set votes)"
    using assms(2) by (simp add: cands_def stakes_of_candidates)
  have Tu: "unat T = sum_list (map (\<lambda>v. unat (snd v)) m)"
    unfolding T_def by (rule responsible_total_unat [OF assms(6)])
  have bound: "unat (0 :: u64) + stakes_of cands < 2 ^ 64"
    using eligible_stake_bound [OF assms(4), of "fst ` set votes"] assms(6) el by simp
  have need: "(unat T * pct) mod 2 ^ 128 = unat T * pct"
    using assms(8) unfolding pct_def by (rule quorum_product_fits)
  obtain v where "v \<in> set m" using False by (meson last_in_set)
  then have "unat (snd v) \<in> set (map (\<lambda>v. unat (snd v)) m)" and "snd v \<noteq> 0"
    using assms(5) by auto
  then have "unat (snd v) \<le> unat T" and "0 < unat (snd v)"
    unfolding Tu by (simp_all add: member_le_sum_list unat_gt_0)
  then have "0 < unat T" by simp
  then have positive: "0 < unat T * pct" using assms(7) by (simp add: pct_def)
  have keys: "\<forall>e \<in> set cands. es_key e \<noteq> []"
    using candidates_of_keys assms(3) unfolding cands_def by fastforce
  have reached: "snd res \<noteq> [] \<longleftrightarrow> unat T * pct \<le> stakes_of cands * 100"
    using take_until_quorum_reached [OF bound keys, of pct T, unfolded need] positive by (auto simp: res_def)
  have eq: "fst (reconcile_signatures i m c) =
      (if snd res = [] then Inl (EpochErr ''quorum not reached'')
       else Inr \<lparr>rs_executor_signatures = fst res, rs_winning_finalizer = snd res, rs_conflict_resolved = True\<rparr>)"
    using False assms(1)
    by (simp add: reconcile_signatures_def get_transaction_registry_def Let_def case_prod_beta res_def cands_def pct_def T_def)
  show ?thesis
  proof (cases "snd res = []")
    case True
    then show ?thesis using reached el by (simp add: eq pct_def T_def)
  next
    case won: False
    have inr: "fst (reconcile_signatures i m c) =
        Inr \<lparr>rs_executor_signatures = fst res, rs_winning_finalizer = snd res, rs_conflict_resolved = True\<rparr>"
      using won by (simp add: eq)
    have "\<forall>e \<in> set (fst res). es_key e \<in> fst ` set votes \<and> map_of m (es_key e) = Some (es_stake e)"
      using reconcile_winners [OF inr] assms(1) by force
    then show ?thesis
      using won reached el reconcile_quorum [OF inr assms(1,2,4,6,8)] False by (simp add: inr pct_def T_def)
  qed
qed

section \<open>A concrete collection\<close>

text \<open>Two of three members vote, one of them with an inflated stake, beside a stranger.\<close>

definition vote_with :: "u64 \<Rightarrow> transaction_signature" where
  "vote_with stake = \<lparr>sig_transaction_id = as_bytes ''t1'', sig_env_id = [], sig_transaction_hash = [7], sig_signature = [8],
                      sig_current_stake = stake\<rparr>"

definition two_voted :: signature_collector where
  "two_voted = (collector_new (Fin 67))\<lparr>col_signatures := [(''t1'', [([1], vote_with 900), ([5], vote_with 10), ([2], vote_with 10)])]\<rparr>"

definition three_members :: responsible_set where
  "three_members = [([1], 30), ([2], 40), ([3], 30)]"

theorem reconcile_exact_witness:
  "\<exists>r. fst (reconcile_signatures ''t1'' three_members two_voted) = Inr r \<and>
       unat (responsible_total three_members) * 67 \<le> stakes_of (rs_executor_signatures r) * 100"
proof -
  have pct: "quorum_pct (col_quorum two_voted) = 67"
    by (simp add: two_voted_def collector_new_def pct67)
  have sigs: "map_of (col_signatures two_voted) ''t1'' = Some [([1], vote_with 900), ([5], vote_with 10), ([2], vote_with 10)]"
    by (simp add: two_voted_def)
  have "fst (reconcile_signatures ''t1'' three_members two_voted) = Inr
      \<lparr>rs_executor_signatures = [\<lparr>es_key = [2], es_signature = [8], es_stake = 40\<rparr>, \<lparr>es_key = [1], es_signature = [8], es_stake = 30\<rparr>],
       rs_winning_finalizer = [1], rs_conflict_resolved = True\<rparr>"
    by (simp add: reconcile_signatures_def get_transaction_registry_def sigs pct candidates_of_def stake_of_def three_members_def
        vote_with_def responsible_total_def Let_def)
  then show ?thesis
    using reconcile_exact [OF sigs, of three_members] pct by (simp add: three_members_def)
qed

end
