(* ===== verification/Finalizer.thy ===== *)
theory Finalizer
  imports Committer Fanout Signature_Collector
begin

text \<open>
  The finalizer (\<^verbatim>\<open>finalizer/src/finalizer.rs\<close> and \<^verbatim>\<open>routing.rs\<close>, \<^verbatim>\<open>signing.rs\<close>, \<^verbatim>\<open>finalizing.rs\<close> and
  \<^verbatim>\<open>shielded.rs\<close> under it) with its block builder and its message dispatcher: preloads and votes, the
  optimistic and the quorum path, shielded votes and their finalization.  What a handler reads from
  outside while it runs (clock, node registry, data provider, pool) is a view given to each call; the
  encoders, the hash and the signature scheme are in the environment.  A message that is broadcast is
  recorded in the state together with what its delivery comes to.
\<close>

section \<open>Environment, view and state\<close>

record ('f, 'p) finalizer_env =
  fe_env_id :: string
  fe_public_key :: bytes
  fe_partition :: string
  fe_identity :: crypto_provider
  fe_signing_key :: crypto_provider
  fe_finalizer_addr :: bytes
  fe_leader_address :: bytes
  fe_leader_stake :: u64
  fe_leader_hash :: bytes
  fe_codec :: codec
  fe_hash :: "bytes \<Rightarrow> bytes"
  fe_shard_count :: u32
  fe_shielded_spec :: bool
  fe_field :: "('f, 'p) field_ops"
  fe_max_risk :: f64
  fe_recency :: nat
  fe_fanout :: fanout_env
  fe_un_tx :: "bytes \<Rightarrow> io_error + transaction"
  fe_un_sig :: "bytes \<Rightarrow> io_error + transaction_signature"
  fe_un_shielded :: "bytes \<Rightarrow> io_error + shielded_transaction"
  fe_rmp_sig :: "transaction_signature \<Rightarrow> io_error + bytes"
  fe_rmp_commit :: "transaction_commit \<Rightarrow> io_error + bytes"
  fe_rmp_block :: "block \<Rightarrow> io_error + bytes"
  fe_rmp_str :: "string \<Rightarrow> io_error + bytes"
  fe_rmp_vote :: "bytes \<times> bytes \<Rightarrow> io_error + bytes"
  fe_rmp_message :: "message \<Rightarrow> io_error + bytes"

record finalizer_view =
  fv_now :: i64
  fv_nodes :: node_registry
  fv_token :: "bytes \<Rightarrow> string \<Rightarrow> data_error + token"
  fv_stakes :: "u64 \<Rightarrow> string \<Rightarrow> data_error + stake_set"
  fv_pool :: pool_view

record finalizer =
  fi_pending :: pending_registry
  fi_collector :: signature_collector
  fi_preloads :: "(string \<times> bytes) list"
  fi_shutdown :: bool
  fi_epoch :: u64
  fi_stake_cache :: "stake_set snapshot_cache"
  fi_stakes :: "stake_set option"
  fi_shielded :: "(string \<times> bytes) list"
  fi_delivery :: delivery
  fi_sent :: "(node_registry_type \<times> message) list"

type_synonym 'a fact = "(pneumatic_error, finalizer, 'a) action"

definition finalizer_new :: "('f, 'p) finalizer_env \<Rightarrow> pending_registry \<Rightarrow> signature_registry \<Rightarrow> f64 \<Rightarrow> u64 \<Rightarrow> finalizer" where
  "finalizer_new E pending signatures percentage epoch =
     \<lparr>fi_pending = pending, fi_collector = (collector_new percentage)\<lparr>col_signatures := signatures\<rparr>, fi_preloads = [],
      fi_shutdown = False, fi_epoch = epoch, fi_stake_cache = cache_new (fe_partition E), fi_stakes = None, fi_shielded = [],
      fi_delivery = delivery_new, fi_sent = []\<rparr>"

definition set_stake_set :: "stake_set \<Rightarrow> finalizer \<Rightarrow> finalizer" where
  "set_stake_set ss s = s\<lparr>fi_stakes := Some ss\<rparr>"

definition finalizer_shutdown :: "finalizer \<Rightarrow> finalizer" where
  "finalizer_shutdown s = s\<lparr>fi_shutdown := True\<rparr>"

definition finalizer_advance_epoch :: "finalizer \<Rightarrow> finalizer" where
  "finalizer_advance_epoch s = s\<lparr>fi_epoch := fi_epoch s + 1, fi_stake_cache := invalidate_all (fi_stake_cache s)\<rparr>"

section \<open>The block builder\<close>

definition voter_entry :: "string \<Rightarrow> bytes \<Rightarrow> executor_signature \<Rightarrow> bytes \<times> transaction_signature" where
  "voter_entry i token es =
     (es_key es, \<lparr>sig_transaction_id = as_bytes i, sig_env_id = token, sig_transaction_hash = es_signature es,
                  sig_signature = es_signature es, sig_current_stake = es_stake es\<rparr>)"

text \<open>Collecting pairs into a hash map: a later pair replaces an earlier one of the same key.\<close>

definition collect_map :: "('k \<times> 'v) list \<Rightarrow> ('k \<times> 'v) list" where
  "collect_map ps = fold (\<lambda>(k, v) m. AList.update k v m) ps []"

definition build_signed_transaction ::
    "('f, 'p) finalizer_env \<Rightarrow> reconciled_signatures \<Rightarrow> transaction \<Rightarrow> u64 \<Rightarrow> u32 \<Rightarrow> signed_transaction" where
  "build_signed_transaction E reconciled tx stake voters =
     \<lparr>sx_transaction_id = tx_id tx, sx_transaction = tx, sx_total_stake = stake, sx_total_voters = voters,
      sx_leader_address = fe_leader_address E, sx_leader_stake = fe_leader_stake E, sx_leader_hash = fe_leader_hash E,
      sx_finalizer_addr = fe_finalizer_addr E,
      sx_finalizer_sig = \<lparr>sig_transaction_id = as_bytes (tx_id tx), sig_env_id = tx_token tx, sig_transaction_hash = [],
                          sig_signature = [], sig_current_stake = 0\<rparr>,
      sx_executor_sigs = collect_map (map (voter_entry (tx_id tx) (tx_token tx)) (rs_executor_signatures reconciled)),
      sx_proposer_key = fe_leader_address E, sx_shielded = None\<rparr>"

definition build_signed_transaction_shielded ::
    "('f, 'p) finalizer_env \<Rightarrow> reconciled_signatures \<Rightarrow> shielded_transaction \<Rightarrow> u64 \<Rightarrow> u32 \<Rightarrow> signed_transaction" where
  "build_signed_transaction_shielded E reconciled stx stake voters =
     \<lparr>sx_transaction_id = sh_id stx, sx_transaction = placeholder_transaction stx, sx_total_stake = stake, sx_total_voters = voters,
      sx_leader_address = fe_leader_address E, sx_leader_stake = fe_leader_stake E, sx_leader_hash = fe_leader_hash E,
      sx_finalizer_addr = fe_finalizer_addr E,
      sx_finalizer_sig = \<lparr>sig_transaction_id = as_bytes (sh_id stx), sig_env_id = sh_token stx, sig_transaction_hash = [],
                          sig_signature = [], sig_current_stake = 0\<rparr>,
      sx_executor_sigs = collect_map (map (voter_entry (sh_id stx) (sh_token stx)) (rs_executor_signatures reconciled)),
      sx_proposer_key = fe_leader_address E, sx_shielded = Some stx\<rparr>"

definition build_signed_transaction_optimistic ::
    "('f, 'p) finalizer_env \<Rightarrow> transaction_signature \<Rightarrow> transaction \<Rightarrow> bytes \<Rightarrow> signed_transaction" where
  "build_signed_transaction_optimistic E sg tx executor_key =
     (let tx' = tx\<lparr>tx_result_hash := sig_transaction_hash sg\<rparr>
      in \<lparr>sx_transaction_id = tx_id tx', sx_transaction = tx', sx_total_stake = sig_current_stake sg, sx_total_voters = 1,
          sx_leader_address = fe_leader_address E, sx_leader_stake = fe_leader_stake E, sx_leader_hash = fe_leader_hash E,
          sx_finalizer_addr = fe_finalizer_addr E,
          sx_finalizer_sig = \<lparr>sig_transaction_id = as_bytes (tx_id tx'), sig_env_id = tx_token tx', sig_transaction_hash = [],
                              sig_signature = [], sig_current_stake = 0\<rparr>,
          sx_executor_sigs = [(executor_key, \<lparr>sig_transaction_id = as_bytes (tx_id tx'), sig_env_id = tx_token tx',
                                              sig_transaction_hash = sig_signature sg, sig_signature = sig_signature sg,
                                              sig_current_stake = sig_current_stake sg\<rparr>)],
          sx_proposer_key = fe_leader_address E, sx_shielded = None\<rparr>)"

definition sign_finalizer_block :: "('f, 'p) finalizer_env \<Rightarrow> signed_transaction \<Rightarrow> transaction_signature res" where
  "sign_finalizer_block E sx =
     (case finalizer_digest (fe_codec E) (fe_hash E) sx of
        Inl e \<Rightarrow> Inl e
      | Inr digest \<Rightarrow>
          (case sign_data (fe_signing_key E) digest of
             Inl _ \<Rightarrow> Inl (CryptoError ''finalizer block signing failed'')
           | Inr signature \<Rightarrow>
               Inr \<lparr>sig_transaction_id = as_bytes (tx_id (sx_transaction sx)), sig_env_id = tx_token (sx_transaction sx),
                    sig_transaction_hash = digest, sig_signature = signature, sig_current_stake = fe_leader_stake E\<rparr>))"

definition builder_create_block :: "('f, 'p) finalizer_env \<Rightarrow> i64 \<Rightarrow> signed_transaction \<Rightarrow> bytes \<Rightarrow> u64 \<Rightarrow> block res" where
  "builder_create_block E now sx prev epoch =
     (let b = \<lparr>signed_trans = sx, token_metadata = [], previous_hash = prev, current_hash = [], blk_timestamp = now,
               blk_finality = Optimistic, blk_proposer_key = sx_proposer_key sx, blk_epoch = epoch\<rparr>
      in case create_hash (fe_codec E) (fe_hash E) b of
           Inl _ \<Rightarrow> Inl (Encoding ''create_hash'')
         | Inr h \<Rightarrow> Inr (b\<lparr>current_hash := h\<rparr>))"

definition create_block_optimistic :: "('f, 'p) finalizer_env \<Rightarrow> i64 \<Rightarrow> signed_transaction \<Rightarrow> bytes \<Rightarrow> u64 \<Rightarrow> block res" where
  "create_block_optimistic E now sx prev epoch = builder_create_block E now sx prev epoch"

section \<open>The message dispatcher\<close>

definition broadcast ::
    "('f, 'p) finalizer_env \<Rightarrow> finalizer_view \<Rightarrow> message \<Rightarrow> bytes \<Rightarrow> node_registry_type \<Rightarrow> finalizer \<Rightarrow> finalizer" where
  "broadcast E V m payload t s =
     s\<lparr>fi_delivery := send_to_all (fe_fanout E) (fv_nodes V) payload t (fi_delivery s), fi_sent := fi_sent s @ [(t, m)]\<rparr>"

text \<open>What the dispatcher's sends share: sign the body, encode the message, broadcast it to each role.\<close>

definition dispatch_signed ::
    "('f, 'p) finalizer_env \<Rightarrow> finalizer_view \<Rightarrow> string \<Rightarrow> io_error + bytes \<Rightarrow> stake_set option \<Rightarrow> node_registry_type list \<Rightarrow> unit fact" where
  "dispatch_signed E V action body stakes ts =
     (case body of
        Inl e \<Rightarrow> raise (Encoding e)
      | Inr b \<Rightarrow>
          (case message_signed (fe_identity E) (fe_env_id E) action b stakes of
             Inl e \<Rightarrow> raise e
           | Inr m \<Rightarrow>
               (case fe_rmp_message E m of
                  Inl e \<Rightarrow> raise (Encoding e)
                | Inr payload \<Rightarrow> alter (fold (broadcast E V m payload) ts))))"

definition send_to_committers :: "('f, 'p) finalizer_env \<Rightarrow> finalizer_view \<Rightarrow> transaction_commit \<Rightarrow> unit fact" where
  "send_to_committers E V commit = dispatch_signed E V ''Commit'' (fe_rmp_commit E commit) None [Committer]"

definition send_shielded_vote_to_finalizers :: "('f, 'p) finalizer_env \<Rightarrow> finalizer_view \<Rightarrow> transaction_signature \<Rightarrow> unit fact" where
  "send_shielded_vote_to_finalizers E V vote = dispatch_signed E V ''ShieldedVote'' (fe_rmp_sig E vote) None [Finalizer]"

definition send_clear_to_sentinels :: "('f, 'p) finalizer_env \<Rightarrow> finalizer_view \<Rightarrow> string \<Rightarrow> unit fact" where
  "send_clear_to_sentinels E V i = dispatch_signed E V ''Clear'' (fe_rmp_str E i) None [Sentinel]"

definition send_block_finalized :: "('f, 'p) finalizer_env \<Rightarrow> finalizer_view \<Rightarrow> block \<Rightarrow> stake_set option \<Rightarrow> unit fact" where
  "send_block_finalized E V b stakes =
     dispatch_signed E V ''BlockFinalized'' (fe_rmp_block E b) stakes [Committer, Archiver, Sentinel]"

definition send_block_confirmed_vote :: "('f, 'p) finalizer_env \<Rightarrow> finalizer_view \<Rightarrow> bytes \<Rightarrow> unit fact" where
  "send_block_confirmed_vote E V block_hash =
     dispatch_signed E V ''BlockConfirmed'' (fe_rmp_vote E (block_hash, fe_public_key E)) None [Committer, Archiver, Executor, Sentinel]"

definition send_block_quorum_reached :: "('f, 'p) finalizer_env \<Rightarrow> finalizer_view \<Rightarrow> bytes \<Rightarrow> unit fact" where
  "send_block_quorum_reached E V block_hash =
     dispatch_signed E V ''BlockQuorumReached'' (rmp_bytes (fe_codec E) block_hash) None [Committer, Archiver, Executor, Sentinel]"

section \<open>Routing\<close>

definition finalize_authority :: "('f, 'p) finalizer_env \<Rightarrow> finalizer_view \<Rightarrow> transaction \<Rightarrow> unit res" where
  "finalize_authority E V tx =
     (case tx_selection tx of
        None \<Rightarrow> Inl (Routing ''no routing decision'')
      | Some record \<Rightarrow>
          (case selection_verify (fe_codec E) (fe_identity E) record (tx_id tx) FINALIZER_DOMAIN of
             Inl e \<Rightarrow> Inl e
           | Inr attested \<Rightarrow>
               if \<not> attested then Inl (Routing ''the decision does not verify'')
               else if Sentinel \<notin> set (find_node_types_by_public_key (fo_registry (fe_fanout E)) (fv_nodes V) (sel_sentinel record))
               then Inl (Routing ''the attester is not a registered Sentinel'')
               else if \<not> selection_names record (fe_public_key E) then Inl (Routing ''assigned to another Finalizer'')
               else Inr ()))"

text \<open>The states the finalizer takes a transaction from.\<close>

definition executable_transaction :: "transaction_state \<Rightarrow> transaction option" where
  "executable_transaction st =
     (case st of
        Preloaded tx \<Rightarrow> Some tx
      | Validated tx _ \<Rightarrow> Some tx
      | Executing tx \<Rightarrow> Some tx
      | Finalizing tx _ \<Rightarrow> Some tx
      | _ \<Rightarrow> None)"

definition finalize_authority_for_id :: "('f, 'p) finalizer_env \<Rightarrow> finalizer_view \<Rightarrow> string \<Rightarrow> pending_registry \<Rightarrow> unit res" where
  "finalize_authority_for_id E V i r =
     (case map_of (transactions r) i of
        None \<Rightarrow> Inr ()
      | Some pt \<Rightarrow> (case executable_transaction (pt_state pt) of None \<Rightarrow> Inr () | Some tx \<Rightarrow> finalize_authority E V tx))"

section \<open>Finalization\<close>

definition get_stake_set_for_epoch :: "finalizer_view \<Rightarrow> stake_set option fact" where
  "get_stake_set_for_epoch V =
     (\<lambda>s. case fi_stakes s of
            Some ss \<Rightarrow> (Inr (Some ss), s)
          | None \<Rightarrow> (case cache_get (fv_stakes V) (fi_epoch s) (fi_stake_cache s) of (r, c) \<Rightarrow> (Inr r, s\<lparr>fi_stake_cache := c\<rparr>)))"

definition resolve_previous_hash :: "('f, 'p) finalizer_env \<Rightarrow> finalizer_view \<Rightarrow> bytes \<Rightarrow> bytes" where
  "resolve_previous_hash E V token_id =
     (case fv_token V token_id (fe_partition E) of
        Inr t \<Rightarrow> last_hash_in (get_current_chain_state (fe_codec E) (fe_hash E) (tok_blockchain t))
      | Inl _ \<Rightarrow> [])"

definition resolve_stake_metrics :: "finalizer_view \<Rightarrow> (u64 \<times> u32) fact" where
  "resolve_stake_metrics V =
     bind_act (get_stake_set_for_epoch V)
       (\<lambda>r. ret (case r of Some ss \<Rightarrow> (total_stake ss, of_nat (length (stakers ss))) | None \<Rightarrow> (0, 0)))"

definition finalizer_responsible_set :: "('f, 'p) finalizer_env \<Rightarrow> finalizer_view \<Rightarrow> responsible_set fact" where
  "finalizer_responsible_set E V =
     (if fe_shard_count E > 1 then raise (EpochErr ''cannot determine the responsible set'')
      else bind_act (get_stake_set_for_epoch V)
             (\<lambda>r. case r of None \<Rightarrow> raise (EpochErr ''no stake snapshot'') | Some ss \<Rightarrow> ret (from_stake_set ss)))"

definition load_executable :: "string \<Rightarrow> transaction fact" where
  "load_executable i =
     (\<lambda>s. case map_of (transactions (fi_pending s)) i of
            None \<Rightarrow> (Inl (Registry ''not found''), s)
          | Some pt \<Rightarrow>
              (case executable_transaction (pt_state pt) of
                 None \<Rightarrow> (Inl (Registry ''not in executable state for finalization''), s)
               | Some tx \<Rightarrow> (Inr tx, s)))"

definition finalizer_key_of :: "string \<Rightarrow> finalizer \<Rightarrow> bytes" where
  "finalizer_key_of i s =
     (case map_of (transactions (fi_pending s)) i of
        None \<Rightarrow> []
      | Some pt \<Rightarrow>
          (case pt_state pt of
             Validated _ v \<Rightarrow> finalizer_public_key v
           | Finalizing _ key \<Rightarrow> key
           | _ \<Rightarrow> []))"

definition transition :: "string \<Rightarrow> (pending_transaction \<Rightarrow> pending_transaction) \<Rightarrow> unit fact" where
  "transition i f = alter (\<lambda>s. s\<lparr>fi_pending := snd (with_transaction_mut i f (fi_pending s))\<rparr>)"

definition forget_transaction :: "string \<Rightarrow> unit fact" where
  "forget_transaction i =
     alter (\<lambda>s. s\<lparr>fi_preloads := AList.delete i (fi_preloads s),
                  fi_collector := (fi_collector s)\<lparr>col_signatures := snd (try_remove_transaction i (col_signatures (fi_collector s)))\<rparr>\<rparr>)"

definition finalizer_reply :: "('f, 'p) finalizer_env \<Rightarrow> string \<Rightarrow> bytes fact" where
  "finalizer_reply E i = lift_res (encoding_err (rmp_bytes (fe_codec E) (as_bytes i)))"

definition commit_of :: "('f, 'p) finalizer_env \<Rightarrow> string \<Rightarrow> bytes \<Rightarrow> block \<Rightarrow> transaction_commit" where
  "commit_of E i token b = \<lparr>tc_trans_id = as_bytes i, tc_token_id = token, tc_env_id = fe_env_id E, tc_block = b\<rparr>"

text \<open>Steps 5 to 9 of the optimistic path, on the signed transaction.\<close>

definition publish_optimistic :: "('f, 'p) finalizer_env \<Rightarrow> finalizer_view \<Rightarrow> string \<Rightarrow> transaction \<Rightarrow> bytes \<Rightarrow> signed_transaction \<Rightarrow> bytes fact" where
  "publish_optimistic E V i tx key sx =
     bind_act (transition i (transition_to_finalizing tx key)) (\<lambda>_.
     bind_act (\<lambda>s. (create_block_optimistic E (fv_now V) sx (resolve_previous_hash E V (tx_token tx)) (fi_epoch s), s)) (\<lambda>b.
     bind_act (send_to_committers E V (commit_of E i (tx_token tx) b)) (\<lambda>_.
     bind_act (get_stake_set_for_epoch V) (\<lambda>stakes.
     bind_act (send_block_finalized E V b stakes) (\<lambda>_.
     bind_act (send_clear_to_sentinels E V i) (\<lambda>_.
     bind_act (transition i (transition_to_committed tx (current_hash b))) (\<lambda>_.
     bind_act (forget_transaction i) (\<lambda>_.
     finalizer_reply E i))))))))"

definition try_finalize_optimistic ::
    "('f, 'p) finalizer_env \<Rightarrow> finalizer_view \<Rightarrow> string \<Rightarrow> transaction_signature \<Rightarrow> bytes \<Rightarrow> bytes fact" where
  "try_finalize_optimistic E V i sg voter =
     bind_act (load_executable i) (\<lambda>loaded.
     bind_act (lift_res (finalize_authority E V loaded)) (\<lambda>_ s.
     let tx = loaded\<lparr>tx_result_hash := sig_transaction_hash sg\<rparr>;
         key = finalizer_key_of i s;
         sx = build_signed_transaction_optimistic E sg tx voter
     in bind_act (lift_res (sign_finalizer_block E sx)) (\<lambda>fsig.
        publish_optimistic E V i tx key (sx\<lparr>sx_finalizer_sig := fsig\<rparr>)) s))"

definition retry_finalize_from_collected :: "('f, 'p) finalizer_env \<Rightarrow> finalizer_view \<Rightarrow> string \<Rightarrow> unit fact" where
  "retry_finalize_from_collected E V i =
     (\<lambda>s. case first_signature (fi_collector s) i of
            None \<Rightarrow> (Inr (), s)
          | Some (voter, sg) \<Rightarrow> ignored (try_finalize_optimistic E V i sg voter) s)"

definition collector_reconcile :: "string \<Rightarrow> responsible_set \<Rightarrow> reconciled_signatures fact" where
  "collector_reconcile i m =
     (\<lambda>s. case reconcile_signatures i m (fi_collector s) of (r, c) \<Rightarrow> (r, s\<lparr>fi_collector := c\<rparr>))"

text \<open>The quorum path, which has no caller.\<close>

definition try_finalize :: "('f, 'p) finalizer_env \<Rightarrow> finalizer_view \<Rightarrow> string \<Rightarrow> bytes fact" where
  "try_finalize E V i =
     bind_act (finalizer_responsible_set E V) (\<lambda>responsible.
     bind_act (collector_reconcile i responsible) (\<lambda>reconciled.
     bind_act (load_executable i) (\<lambda>tx.
     bind_act (\<lambda>s. (Inr (finalizer_key_of i s), s)) (\<lambda>key.
     bind_act (resolve_stake_metrics V) (\<lambda>(stake, voters).
     let sx = build_signed_transaction E reconciled tx stake voters
     in bind_act (lift_res (sign_finalizer_block E sx)) (\<lambda>fsig.
        bind_act (transition i (transition_to_finalizing tx key)) (\<lambda>_.
        bind_act (\<lambda>s. (builder_create_block E (fv_now V) (sx\<lparr>sx_finalizer_sig := fsig\<rparr>)
                          (resolve_previous_hash E V (tx_token tx)) (fi_epoch s), s)) (\<lambda>b.
        bind_act (send_to_committers E V (commit_of E i (tx_token tx) b)) (\<lambda>_.
        bind_act (send_clear_to_sentinels E V i) (\<lambda>_.
        bind_act (transition i (transition_to_committed tx (current_hash b))) (\<lambda>_.
        bind_act (forget_transaction i) (\<lambda>_.
        finalizer_reply E i))))))))))))"

section \<open>Preloads and votes\<close>

definition envelope_failure :: "envelope_auth_error \<Rightarrow> pneumatic_error" where
  "envelope_failure e =
     (case e of
        SignatureError _ _ \<Rightarrow> CryptoError ''envelope signature verification failed''
      | Unregistered _ \<Rightarrow> Registry ''sender is not registered as any node'')"

definition authenticate_as :: "('f, 'p) finalizer_env \<Rightarrow> finalizer_view \<Rightarrow> node_registry_type \<Rightarrow> message \<Rightarrow> bytes res" where
  "authenticate_as E V role m =
     (case authenticate_envelope (fe_identity E) (fo_registry (fe_fanout E)) (fv_nodes V) (msg_signature m) (msg_public_key m) (msg_body m) of
        Inl e \<Rightarrow> Inl (envelope_failure e)
      | Inr roles \<Rightarrow> if role \<in> set roles then Inr (msg_public_key m) else Inl (Registry ''sender does not hold the role''))"

definition authenticate_signature_message :: "('f, 'p) finalizer_env \<Rightarrow> finalizer_view \<Rightarrow> message \<Rightarrow> bytes res" where
  "authenticate_signature_message E V m = authenticate_as E V Executor m"

definition current_stake_for_voter :: "finalizer_view \<Rightarrow> bytes \<Rightarrow> u64 fact" where
  "current_stake_for_voter V voter =
     bind_act (get_stake_set_for_epoch V)
       (\<lambda>r. ret (case r of Some ss \<Rightarrow> (case map_of (stakers ss) voter of Some v \<Rightarrow> v | None \<Rightarrow> 0) | None \<Rightarrow> 0))"

text \<open>A preload refreshes the entry of its transaction, or registers it.\<close>

definition refresh_state :: "transaction \<Rightarrow> transaction_state \<Rightarrow> transaction_state" where
  "refresh_state tx st =
     (case st of
        Pending \<Rightarrow> Preloaded tx
      | Preloaded _ \<Rightarrow> Preloaded tx
      | Validated _ v \<Rightarrow> Validated tx v
      | Executing _ \<Rightarrow> Preloaded tx
      | other \<Rightarrow> other)"

definition adopt_preload :: "transaction \<Rightarrow> pending_registry \<Rightarrow> unit res \<times> pending_registry" where
  "adopt_preload tx r =
     (if contains r (tx_id tx)
      then (Inr (), snd (with_transaction_mut (tx_id tx) (\<lambda>pt. pt\<lparr>pt_state := refresh_state tx (pt_state pt)\<rparr>) r))
      else case register_pending (tx_id tx) r of
             (Inl _, r') \<Rightarrow> (Inl (Registry ''preload register''), r')
           | (Inr _, r') \<Rightarrow> (Inr (), snd (with_transaction_mut (tx_id tx) (transition_to_preloaded tx) r')))"

definition handle_preload :: "('f, 'p) finalizer_env \<Rightarrow> finalizer_view \<Rightarrow> message \<Rightarrow> bytes fact" where
  "handle_preload E V m =
     bind_act (lift_res (encoding_err (fe_un_tx E (msg_body m)))) (\<lambda>tx.
     bind_act (lift_res (finalize_authority E V tx)) (\<lambda>_.
     bind_act (lift_res (encoding_err (rmp_tx (fe_codec E) tx))) (\<lambda>raw.
     bind_act (alter (\<lambda>s. s\<lparr>fi_preloads := AList.update (tx_id tx) raw (fi_preloads s)\<rparr>)) (\<lambda>_.
     bind_act (\<lambda>s. case adopt_preload tx (fi_pending s) of (r, p) \<Rightarrow> (r, s\<lparr>fi_pending := p\<rparr>)) (\<lambda>_.
     bind_act (retry_finalize_from_collected E V (tx_id tx)) (\<lambda>_.
     ret acknowledge))))))"

definition collector_add :: "string \<Rightarrow> bytes \<Rightarrow> transaction_signature \<Rightarrow> unit fact" where
  "collector_add i key sg =
     (\<lambda>s. case add_signature i key sg (fi_collector s) of (r, c) \<Rightarrow> (r, s\<lparr>fi_collector := c\<rparr>))"

definition check_inner_signature :: "('f, 'p) finalizer_env \<Rightarrow> bytes \<Rightarrow> transaction_signature \<Rightarrow> unit res" where
  "check_inner_signature E voter sg =
     (case check_signature (fe_identity E) (sig_signature sg) voter (sig_transaction_hash sg) of
        Inl _ \<Rightarrow> Inl (CryptoError ''signature verification failed'')
      | Inr verified \<Rightarrow> if \<not> verified then Inl (CryptoError ''signature verification failed'') else Inr ())"

definition handle_signature :: "('f, 'p) finalizer_env \<Rightarrow> finalizer_view \<Rightarrow> message \<Rightarrow> bytes fact" where
  "handle_signature E V m =
     bind_act (lift_res (encoding_err (fe_un_sig E (msg_body m)))) (\<lambda>sg0.
     let i = from_utf8_lossy (sig_transaction_id sg0)
     in bind_act (lift_res (authenticate_signature_message E V m)) (\<lambda>voter.
        bind_act (lift_res (check_inner_signature E voter sg0)) (\<lambda>_.
        bind_act (current_stake_for_voter V voter) (\<lambda>stake.
        let sg = sg0\<lparr>sig_current_stake := stake\<rparr>
        in bind_act (\<lambda>s. (finalize_authority_for_id E V i (fi_pending s), s)) (\<lambda>_.
           bind_act (collector_add i voter sg) (\<lambda>_ s.
           if signature_count (fi_collector s) i = 1 then try_finalize_optimistic E V i sg voter s
           else (Inr acknowledge, s)))))))"

section \<open>Shielded transfers\<close>

definition authenticate_shielded_message :: "('f, 'p) finalizer_env \<Rightarrow> finalizer_view \<Rightarrow> message \<Rightarrow> bytes res" where
  "authenticate_shielded_message E V m = authenticate_as E V Finalizer m"

definition validate_shielded_advisory :: "('f, 'p) finalizer_env \<Rightarrow> finalizer_view \<Rightarrow> shielded_transaction \<Rightarrow> unit res" where
  "validate_shielded_advisory E V stx =
     (if \<not> fe_shielded_spec E then Inl (Validation [UnsupportedAction])
      else case validate_shielded (fe_field E) (fe_max_risk E) stx
                  \<lparr>deps_spent = nullifier_contains (pv_nullifiers (fv_pool V)), deps_roots = roots (pv_roots (fv_pool V)),
                   deps_recency_window = fe_recency E\<rparr> of
             Inl e \<Rightarrow> Inl e
           | Inr _ \<Rightarrow> Inr ())"

definition record_shielded :: "string \<Rightarrow> bytes \<Rightarrow> unit fact" where
  "record_shielded i canonical =
     (\<lambda>s. case map_of (fi_shielded s) i of
            Some existing \<Rightarrow>
              if existing \<noteq> canonical then (Inl (Registry ''conflicting shielded tx''), s)
              else (Inr (), s\<lparr>fi_shielded := AList.update i canonical (fi_shielded s)\<rparr>)
          | None \<Rightarrow> (Inr (), s\<lparr>fi_shielded := AList.update i canonical (fi_shielded s)\<rparr>))"

definition handle_sign_shielded :: "('f, 'p) finalizer_env \<Rightarrow> finalizer_view \<Rightarrow> message \<Rightarrow> bytes fact" where
  "handle_sign_shielded E V m =
     bind_act (lift_res (authenticate_shielded_message E V m)) (\<lambda>sender.
     bind_act (lift_res (encoding_err (fe_un_shielded E (msg_body m)))) (\<lambda>stx.
     bind_act (lift_res (shielded_canonical_bytes (fe_codec E) stx)) (\<lambda>canonical.
     bind_act (lift_res (validate_shielded_advisory E V stx)) (\<lambda>_.
     bind_act (record_shielded (sh_id stx) canonical) (\<lambda>_.
     bind_act (lift_res (shielded_hash (fe_codec E) (fe_hash E) stx)) (\<lambda>h.
     bind_act (lift_res (case sign_data (fe_identity E) h of Inl _ \<Rightarrow> Inl (CryptoError ''shielded vote signing failed'') | Inr g \<Rightarrow> Inr g)) (\<lambda>signature.
     bind_act (current_stake_for_voter V sender) (\<lambda>stake.
     bind_act (send_shielded_vote_to_finalizers E V
       \<lparr>sig_transaction_id = as_bytes (sh_id stx), sig_env_id = as_bytes (fe_env_id E), sig_transaction_hash = h,
        sig_signature = signature, sig_current_stake = stake\<rparr>) (\<lambda>_.
     ret acknowledge)))))))))"

definition recorded_transfer :: "('f, 'p) finalizer_env \<Rightarrow> string \<Rightarrow> shielded_transaction fact" where
  "recorded_transfer E i =
     (\<lambda>s. case map_of (fi_shielded s) i of
            None \<Rightarrow> (Inl (Registry ''no recorded shielded tx''), s)
          | Some raw \<Rightarrow> (encoding_err (fe_un_shielded E raw), s))"

text \<open>Every collected vote must carry the hash of the recorded transfer.\<close>

definition votes_bind :: "string \<Rightarrow> bytes \<Rightarrow> unit fact" where
  "votes_bind i h =
     (\<lambda>s. case get_transaction_registry (col_signatures (fi_collector s)) i of
            None \<Rightarrow> (Inr (), s)
          | Some votes \<Rightarrow>
              if list_ex (\<lambda>v. sig_transaction_hash (snd v) \<noteq> h) votes
              then (Inl (CryptoError ''a shielded vote binds a different hash''), s)
              else (Inr (), s))"

definition try_finalize_shielded :: "('f, 'p) finalizer_env \<Rightarrow> finalizer_view \<Rightarrow> string \<Rightarrow> bytes fact" where
  "try_finalize_shielded E V i =
     bind_act (finalizer_responsible_set E V) (\<lambda>responsible.
     bind_act (collector_reconcile i responsible) (\<lambda>reconciled.
     bind_act (recorded_transfer E i) (\<lambda>stx.
     bind_act (lift_res (shielded_hash (fe_codec E) (fe_hash E) stx)) (\<lambda>h.
     bind_act (votes_bind i h) (\<lambda>_.
     bind_act (resolve_stake_metrics V) (\<lambda>(stake, voters).
     let sx = build_signed_transaction_shielded E reconciled stx stake voters
     in bind_act (lift_res (sign_finalizer_block E sx)) (\<lambda>fsig.
        bind_act (\<lambda>s. (builder_create_block E (fv_now V) (sx\<lparr>sx_finalizer_sig := fsig\<rparr>)
                          (resolve_previous_hash E V (sh_token stx)) (fi_epoch s), s)) (\<lambda>b.
        bind_act (send_to_committers E V (commit_of E i (sh_token stx) b)) (\<lambda>_.
        bind_act (get_stake_set_for_epoch V) (\<lambda>stakes.
        bind_act (send_block_finalized E V b stakes) (\<lambda>_.
        bind_act (alter (\<lambda>s. s\<lparr>fi_shielded := AList.delete i (fi_shielded s),
             fi_collector := (fi_collector s)\<lparr>col_signatures := snd (try_remove_transaction i (col_signatures (fi_collector s)))\<rparr>\<rparr>)) (\<lambda>_.
        finalizer_reply E i))))))))))))"

definition handle_shielded_vote :: "('f, 'p) finalizer_env \<Rightarrow> finalizer_view \<Rightarrow> message \<Rightarrow> bytes fact" where
  "handle_shielded_vote E V m =
     bind_act (lift_res (authenticate_shielded_message E V m)) (\<lambda>voter.
     bind_act (lift_res (encoding_err (fe_un_sig E (msg_body m)))) (\<lambda>vote0.
     bind_act (lift_res (check_inner_signature E voter vote0)) (\<lambda>_.
     bind_act (current_stake_for_voter V voter) (\<lambda>stake.
     let vote = vote0\<lparr>sig_current_stake := stake\<rparr>; i = from_utf8_lossy (sig_transaction_id vote)
     in bind_act (collector_add i voter vote) (\<lambda>_.
        bind_act (resolve_stake_metrics V) (\<lambda>(declared, _).
        bind_act (\<lambda>s. (check_stake_quorum (fi_collector s) i declared, s)) (\<lambda>met.
        if met then try_finalize_shielded E V i else ret acknowledge)))))))"

section \<open>The inbound actions\<close>

definition finalizer_handle :: "('f, 'p) finalizer_env \<Rightarrow> finalizer_view \<Rightarrow> message \<Rightarrow> unit fact" where
  "finalizer_handle E V m =
     (let forward = (\<lambda>act. \<lambda>s. case act s of (Inl _, s') \<Rightarrow> (Inl (Network ''finalizer''), s') | (Inr _, s') \<Rightarrow> (Inr (), s'))
      in if msg_action m = ''PreloadForFinalizer'' then forward (handle_preload E V m)
         else if msg_action m = ''Sign'' then forward (handle_signature E V m)
         else if msg_action m = ''SignShielded'' then forward (handle_sign_shielded E V m)
         else if msg_action m = ''ShieldedVote'' then forward (handle_shielded_vote E V m)
         else raise (Network ''unhandled inbound action''))"

end
