(* ===== verification/Finalizer_Safety.thy ===== *)
theory Finalizer_Safety
  imports Finalizer
begin

text \<open>
  What a finalizer sends: every commit it broadcasts is for a transaction that a registered Sentinel
  assigned to this node and whose result hash the named executor signed, or for a shielded transfer
  whose hash was signed by a stake quorum of the responsible set.  The relation \<open>sound\<close> is kept by every
  operation of the finalizer, so that a handler keeps it by construction.
\<close>

section \<open>What is kept\<close>

definition verified_vote :: "('f, 'p) finalizer_env \<Rightarrow> bytes \<times> transaction_signature \<Rightarrow> bool" where
  "verified_vote E v \<longleftrightarrow> check_signature (fe_identity E) (sig_signature (snd v)) (fst v) (sig_transaction_hash (snd v)) = Inr True"

definition votes_ok :: "('f, 'p) finalizer_env \<Rightarrow> signature_collector \<Rightarrow> bool" where
  "votes_ok E c \<longleftrightarrow>
     (\<forall>i votes. map_of (col_signatures c) i = Some votes \<longrightarrow> distinct (map fst votes) \<and> (\<forall>v \<in> set votes. verified_vote E v))"

text \<open>The stake set a handler works with.\<close>

definition stakes_in_force :: "finalizer_view \<Rightarrow> finalizer \<Rightarrow> stake_set option" where
  "stakes_in_force V s = (case fst (get_stake_set_for_epoch V s) of Inr r \<Rightarrow> r | Inl _ \<Rightarrow> None)"

definition stakes_fit :: "stake_set \<Rightarrow> bool" where
  "stakes_fit ss \<longleftrightarrow> distinct (map fst (stakers ss)) \<and> sum_list (map (\<lambda>v. unat (snd v)) (stakers ss)) < 2 ^ 64"

text \<open>The stake the signatures of a block carry.\<close>

definition carried_stake :: "signed_transaction \<Rightarrow> nat" where
  "carried_stake sx = sum_list (map (\<lambda>v. unat (sig_current_stake (snd v))) (sx_executor_sigs sx))"

text \<open>The transaction names this node as its finalizer, in a decision that a registered Sentinel attested for
  its identifier.\<close>

definition assigned_to :: "('f, 'p) finalizer_env \<Rightarrow> finalizer_view \<Rightarrow> transaction \<Rightarrow> bool" where
  "assigned_to E V tx \<longleftrightarrow>
     (\<exists>dec surface. tx_selection tx = Some dec \<and> sel_finalizer dec = fe_public_key E \<and>
        Sentinel \<in> set (find_node_types_by_public_key (fo_registry (fe_fanout E)) (fv_nodes V) (sel_sentinel dec)) \<and>
        attestation_surface (fe_codec E) (tx_id tx) FINALIZER_DOMAIN (sel_finalizer dec) (sel_epoch dec) (sel_salt dec) = Inr surface \<and>
        check_signature (fe_identity E) (sel_attestation dec) (sel_sentinel dec) surface = Inr True)"

lemma finalize_authority_assigned:
  assumes "finalize_authority E V tx = Inr ()"
  shows "assigned_to E V tx"
  using assms
  by (auto simp: finalize_authority_def selection_verify_def selection_names_def assigned_to_def split: option.splits sum.splits if_splits)

definition assigned_and_signed :: "('f, 'p) finalizer_env \<Rightarrow> finalizer_view \<Rightarrow> signed_transaction \<Rightarrow> bool" where
  "assigned_and_signed E V sx \<longleftrightarrow>
     assigned_to E V (sx_transaction sx) \<and>
     (\<exists>key v. sx_executor_sigs sx = [(key, v)] \<and>
        check_signature (fe_identity E) (sig_signature v) key (tx_result_hash (sx_transaction sx)) = Inr True)"

definition voted_by_quorum ::
    "('f, 'p) finalizer_env \<Rightarrow> stake_set \<Rightarrow> f64 \<Rightarrow> signed_transaction \<Rightarrow> shielded_transaction \<Rightarrow> bool" where
  "voted_by_quorum E ss q sx stx \<longleftrightarrow>
     (\<exists>h. shielded_hash (fe_codec E) (fe_hash E) stx = Inr h \<and>
        (\<forall>v \<in> set (sx_executor_sigs sx).
           check_signature (fe_identity E) (sig_signature (snd v)) (fst v) h = Inr True \<and>
           map_of (from_stake_set ss) (fst v) = Some (sig_current_stake (snd v)))) \<and>
     (stakes_fit ss \<and> quorum_pct q \<le> 100 \<longrightarrow>
        distinct (map fst (sx_executor_sigs sx)) \<and>
        unat (responsible_total (from_stake_set ss)) * quorum_pct q \<le> carried_stake sx * 100)"

definition authorized :: "('f, 'p) finalizer_env \<Rightarrow> finalizer_view \<Rightarrow> stake_set option \<Rightarrow> f64 \<Rightarrow> message \<Rightarrow> bool" where
  "authorized E V stakes q m \<longleftrightarrow>
     (msg_action m = ''Commit'' \<longrightarrow>
        (\<exists>c. fe_rmp_commit E c = Inr (msg_body m) \<and> tc_env_id c = fe_env_id E \<and>
           (case sx_shielded (signed_trans (tc_block c)) of
              None \<Rightarrow> assigned_and_signed E V (signed_trans (tc_block c))
            | Some stx \<Rightarrow> (\<exists>ss. stakes = Some ss \<and> voted_by_quorum E ss q (signed_trans (tc_block c)) stx))))"

definition emits :: "(message \<Rightarrow> bool) \<Rightarrow> finalizer \<Rightarrow> finalizer \<Rightarrow> bool" where
  "emits P s t \<longleftrightarrow> (\<exists>new. fi_sent t = fi_sent s @ new \<and> (\<forall>x \<in> set new. P (snd x)))"

lemma emits_refl [simp]: "emits P s s"
  by (simp add: emits_def)

lemma emits_trans: "emits P s t \<Longrightarrow> emits P t u \<Longrightarrow> emits P s u"
  unfolding emits_def by (metis Un_iff append.assoc set_append)

definition sound :: "('f, 'p) finalizer_env \<Rightarrow> finalizer_view \<Rightarrow> finalizer \<Rightarrow> finalizer \<Rightarrow> bool" where
  "sound E V s t \<longleftrightarrow>
     (votes_ok E (fi_collector s) \<longrightarrow>
        votes_ok E (fi_collector t) \<and> stakes_in_force V t = stakes_in_force V s \<and>
        col_quorum (fi_collector t) = col_quorum (fi_collector s) \<and>
        emits (authorized E V (stakes_in_force V s) (col_quorum (fi_collector s))) s t)"

interpretation step: action_order "sound E V" for E V
  by unfold_locales (auto simp: sound_def intro: emits_trans)

lemma sound_if: "(votes_ok E (fi_collector s) \<Longrightarrow> sound E V s t) \<Longrightarrow> sound E V s t"
  by (auto simp: sound_def)

section \<open>Operations that send nothing\<close>

lemma sound_frame:
  assumes "fi_sent t = fi_sent s" and "fi_collector t = fi_collector s" and "fi_stakes t = fi_stakes s"
    and "fi_epoch t = fi_epoch s" and "fi_stake_cache t = fi_stake_cache s"
  shows "sound E V s t"
  using assms by (simp add: sound_def stakes_in_force_def get_stake_set_for_epoch_def emits_def case_prod_beta split: option.splits)

lemma sound_alter:
  assumes "\<And>s. fi_sent (f s) = fi_sent s \<and> fi_collector (f s) = fi_collector s \<and> fi_stakes (f s) = fi_stakes s \<and>
    fi_epoch (f s) = fi_epoch s \<and> fi_stake_cache (f s) = fi_stake_cache s"
  shows "sound E V s (snd (alter f s))"
  using assms by (auto intro!: sound_frame)

lemma cache_get_fst: "fst (cache_get fetch e (snd (cache_get fetch e c))) = fst (cache_get fetch e c)"
  by (auto simp: cache_get_def update_conv' split: option.splits sum.splits)

lemma get_stakes_sound: "sound E V s (snd (get_stake_set_for_epoch V s))"
proof (cases "fi_stakes s")
  case None
  then show ?thesis
    by (simp add: sound_def stakes_in_force_def get_stake_set_for_epoch_def emits_def case_prod_beta cache_get_fst)
next
  case (Some ss)
  then show ?thesis by (simp add: get_stake_set_for_epoch_def step.unchanged)
qed

lemma get_stakes_value: "get_stake_set_for_epoch V s = (Inr r, t) \<Longrightarrow> r = stakes_in_force V s"
  by (simp add: stakes_in_force_def)

lemma metrics_sound: "sound E V s (snd (resolve_stake_metrics V s))"
  unfolding resolve_stake_metrics_def by (rule step.bound) (simp_all add: get_stakes_sound step.unchanged)

lemma voter_stake_sound: "sound E V s (snd (current_stake_for_voter V voter s))"
  unfolding current_stake_for_voter_def by (rule step.bound) (simp_all add: get_stakes_sound step.unchanged)

lemma load_executable_same: "snd (load_executable i s) = s"
  by (simp add: load_executable_def split: option.splits)

lemma transition_sound: "sound E V s (snd (transition i f s))"
  unfolding transition_def by (rule sound_alter) simp

lemma votes_ok_remove:
  "votes_ok E c \<Longrightarrow> votes_ok E (c\<lparr>col_signatures := snd (try_remove_transaction i (col_signatures c))\<rparr>)"
  by (auto simp: votes_ok_def try_remove_transaction_def delete_conv' split: if_splits)

lemma sound_collector:
  assumes "votes_ok E (fi_collector s) \<Longrightarrow> votes_ok E c" and "col_quorum c = col_quorum (fi_collector s)"
    and "fi_sent t = fi_sent s" and "fi_collector t = c" and "fi_stakes t = fi_stakes s"
    and "fi_epoch t = fi_epoch s" and "fi_stake_cache t = fi_stake_cache s"
  shows "sound E V s t"
  using assms by (simp add: sound_def stakes_in_force_def get_stake_set_for_epoch_def emits_def case_prod_beta split: option.splits)

lemma forget_sound: "sound E V s (snd (forget_transaction i s))"
  unfolding forget_transaction_def
  by (rule sound_collector [where c = "(fi_collector s)\<lparr>col_signatures := snd (try_remove_transaction i (col_signatures (fi_collector s)))\<rparr>"])
    (simp_all add: votes_ok_remove)

lemma reply_sound: "sound E V s (snd (finalizer_reply E i s))"
  by (simp add: finalizer_reply_def step.unchanged)

lemmas quiet = get_stakes_sound metrics_sound voter_stake_sound transition_sound forget_sound reply_sound step.unchanged

section \<open>Sends\<close>

lemma fold_broadcast_sent: "fi_sent (fold (broadcast E V m payload) ts s) = fi_sent s @ map (\<lambda>t. (t, m)) ts"
  by (induction ts arbitrary: s) (simp_all add: broadcast_def)

lemma fold_broadcast_frame:
  "fi_collector (fold (broadcast E V m payload) ts s) = fi_collector s \<and> fi_stakes (fold (broadcast E V m payload) ts s) = fi_stakes s \<and>
   fi_epoch (fold (broadcast E V m payload) ts s) = fi_epoch s \<and>
   fi_stake_cache (fold (broadcast E V m payload) ts s) = fi_stake_cache s"
  by (induction ts arbitrary: s) (simp_all add: broadcast_def)

lemma sound_emits:
  assumes "fi_collector t = fi_collector s" and "fi_stakes t = fi_stakes s"
    and "fi_epoch t = fi_epoch s" and "fi_stake_cache t = fi_stake_cache s"
    and "emits (authorized E V (stakes_in_force V s) (col_quorum (fi_collector s))) s t"
  shows "sound E V s t"
  using assms by (simp add: sound_def stakes_in_force_def get_stake_set_for_epoch_def case_prod_beta split: option.splits)

lemma message_signed_fields:
  "message_signed cr chain_id action body stakes = Inr m \<Longrightarrow> msg_action m = action \<and> msg_body m = body"
  by (auto simp: message_signed_def split: sum.splits)

lemma dispatch_sound:
  assumes "\<And>b m. body = Inr b \<Longrightarrow> msg_action m = action \<Longrightarrow> msg_body m = b \<Longrightarrow>
    authorized E V (stakes_in_force V s) (col_quorum (fi_collector s)) m"
  shows "sound E V s (snd (dispatch_signed E V action body stakes ts s))"
proof (cases body)
  case (Inr b)
  note body = this
  show ?thesis
  proof (cases "message_signed (fe_identity E) (fe_env_id E) action b stakes")
    case (Inr m)
    show ?thesis
    proof (cases "fe_rmp_message E m")
      case payload: (Inr payload)
      have "authorized E V (stakes_in_force V s) (col_quorum (fi_collector s)) m"
        using assms [OF body] message_signed_fields [OF Inr] by simp
      then have "emits (authorized E V (stakes_in_force V s) (col_quorum (fi_collector s))) s (fold (broadcast E V m payload) ts s)"
        by (auto simp: emits_def fold_broadcast_sent)
      then show ?thesis
        using body Inr payload by (simp add: dispatch_signed_def sound_emits fold_broadcast_frame)
    qed (use body Inr in \<open>simp add: dispatch_signed_def step.unchanged\<close>)
  qed (use body in \<open>simp add: dispatch_signed_def step.unchanged\<close>)
qed (simp add: dispatch_signed_def step.unchanged)

lemma dispatch_other_sound: "action \<noteq> ''Commit'' \<Longrightarrow> sound E V s (snd (dispatch_signed E V action body stakes ts s))"
  by (rule dispatch_sound) (simp add: authorized_def)

lemma send_other_sound:
  "sound E V s (snd (send_shielded_vote_to_finalizers E V vote s))" "sound E V s (snd (send_clear_to_sentinels E V i s))"
  "sound E V s (snd (send_block_finalized E V b stakes s))"
  by (simp_all add: send_shielded_vote_to_finalizers_def send_clear_to_sentinels_def send_block_finalized_def dispatch_other_sound)

lemma send_commit_sound:
  assumes "case sx_shielded (signed_trans (tc_block c)) of
             None \<Rightarrow> assigned_and_signed E V (signed_trans (tc_block c))
           | Some stx \<Rightarrow> (\<exists>ss. stakes_in_force V s = Some ss \<and> voted_by_quorum E ss (col_quorum (fi_collector s)) (signed_trans (tc_block c)) stx)"
    and "tc_env_id c = fe_env_id E"
  shows "sound E V s (snd (send_to_committers E V c s))"
  unfolding send_to_committers_def using assms by (intro dispatch_sound) (auto simp: authorized_def)

lemma builder_signed_trans: "builder_create_block E now sx prev epoch = Inr b \<Longrightarrow> signed_trans b = sx"
  by (auto simp: builder_create_block_def Let_def split: sum.splits)

section \<open>The optimistic path\<close>

lemma commit_of_fields [simp]: "tc_block (commit_of E i token b) = b" "tc_env_id (commit_of E i token b) = fe_env_id E"
  by (simp_all add: commit_of_def)

lemma publish_optimistic_sound:
  assumes "sx_shielded sx = None" and "assigned_and_signed E V sx"
  shows "sound E V s (snd (publish_optimistic E V i tx key sx s))"
proof -
  have commit: "sound E V t (snd (send_to_committers E V (commit_of E i (tx_token tx) b) t))"
    if "signed_trans b = sx" for b t
    using assms that by (intro send_commit_sound) simp_all
  show ?thesis
    unfolding publish_optimistic_def create_block_optimistic_def
    apply (rule step.bound, rule transition_sound)
    apply (rule step.bound_at, simp add: step.unchanged)
    apply (rule step.bound_at, rule commit, auto dest: builder_signed_trans)
    apply (intro step.bound quiet send_other_sound)
    done
qed

lemma finalize_authority_result [simp]: "finalize_authority E V (tx\<lparr>tx_result_hash := h\<rparr>) = finalize_authority E V tx"
  by (cases "tx_selection tx") (simp_all add: finalize_authority_def)

lemma optimistic_fields:
  "sx_shielded (build_signed_transaction_optimistic E sg tx voter) = None"
  "sx_transaction (build_signed_transaction_optimistic E sg tx voter) = tx\<lparr>tx_result_hash := sig_transaction_hash sg\<rparr>"
  "\<exists>v. sx_executor_sigs (build_signed_transaction_optimistic E sg tx voter) = [(voter, v)] \<and> sig_signature v = sig_signature sg"
  by (simp_all add: build_signed_transaction_optimistic_def Let_def)

lemma try_optimistic_sound:
  assumes "verified_vote E (voter, sg)"
  shows "sound E V s (snd (try_finalize_optimistic E V i sg voter s))"
proof -
  have "assigned_and_signed E V ((build_signed_transaction_optimistic E sg (tx\<lparr>tx_result_hash := sig_transaction_hash sg\<rparr>) voter)\<lparr>sx_finalizer_sig := f\<rparr>)"
    if "finalize_authority E V tx = Inr ()" for tx f
    using assms that optimistic_fields(3) [of E sg "tx\<lparr>tx_result_hash := sig_transaction_hash sg\<rparr>" voter]
    by (auto simp: assigned_and_signed_def verified_vote_def optimistic_fields(2) intro!: finalize_authority_assigned)
  then show ?thesis
    unfolding try_finalize_optimistic_def
    by (intro step.bound_at [OF _ step.bound_lift])
      (auto simp: load_executable_same step.unchanged Let_def optimistic_fields(1) intro!: step.bound_lift publish_optimistic_sound)
qed

lemma btree_of_set: "set (btree_of m) \<subseteq> set m" if "distinct (map fst m)" for m :: "(bytes \<times> 'v) list"
  using that by (auto simp: btree_of_def)

lemma first_signature_verified:
  assumes "votes_ok E c" and "first_signature c i = Some v"
  shows "verified_vote E v"
proof -
  obtain votes where votes: "map_of (col_signatures c) i = Some votes" and "v \<in> set (btree_of votes)"
    using assms(2) by (auto simp: first_signature_def get_transaction_registry_def split: option.splits list.splits)
  moreover have "distinct (map fst votes)" and "\<forall>v \<in> set votes. verified_vote E v"
    using assms(1) votes by (auto simp: votes_ok_def)
  ultimately show ?thesis using btree_of_set by blast
qed

lemma retry_sound: "sound E V s (snd (retry_finalize_from_collected E V i s))"
proof (rule sound_if)
  assume ok: "votes_ok E (fi_collector s)"
  show ?thesis
  proof (cases "first_signature (fi_collector s) i")
    case (Some v)
    then have "verified_vote E (fst v, snd v)" using first_signature_verified [OF ok] by simp
    then show ?thesis
      using Some by (simp add: retry_finalize_from_collected_def case_prod_beta try_optimistic_sound)
  qed (simp add: retry_finalize_from_collected_def step.unchanged)
qed

lemma adopt_sound: "sound E V s (snd ((\<lambda>s. case adopt_preload tx (fi_pending s) of (r, p) \<Rightarrow> (r, s\<lparr>fi_pending := p\<rparr>)) s))"
  by (simp add: case_prod_beta sound_frame)

lemma handle_preload_sound: "sound E V s (snd (handle_preload E V m s))"
  unfolding handle_preload_def
  by (intro step.bound_lift step.bound sound_alter adopt_sound retry_sound) (simp_all add: step.unchanged)

section \<open>Votes\<close>

lemma votes_ok_add:
  assumes ok: "votes_ok E c" and vote: "verified_vote E (key, sg)"
  shows "votes_ok E (snd (add_signature i key sg c))"
proof (cases "map_of (col_signatures c) i")
  case None
  then show ?thesis
    using ok vote
    by (auto simp: votes_ok_def add_signature_def try_add_signature_def ensure_transaction_registered_def update_conv' case_prod_beta
        split: if_splits)
next
  case (Some votes)
  have good: "distinct (map fst votes)" "\<forall>v \<in> set votes. verified_vote E v"
    using ok Some by (auto simp: votes_ok_def)
  show ?thesis
  proof (cases "map_of votes key")
    case fresh: None
    then have "AList.update key sg votes = votes @ [(key, sg)]" and "key \<notin> fst ` set votes"
      by (simp_all add: update_new map_of_eq_None_iff)
    then have "distinct (map fst (AList.update key sg votes)) \<and> (\<forall>v \<in> set (AList.update key sg votes). verified_vote E v)"
      using good vote by auto
    moreover have "map_of (col_signatures (snd (add_signature i key sg c))) = (map_of (col_signatures c))(i \<mapsto> AList.update key sg votes)"
      using Some fresh by (simp add: add_signature_def try_add_signature_def ensure_transaction_registered_def update_conv' case_prod_beta)
    ultimately show ?thesis using ok by (simp add: votes_ok_def)
  next
    case (Some v)
    then show ?thesis
      using ok \<open>map_of (col_signatures c) i = Some votes\<close>
      by (simp add: add_signature_def try_add_signature_def ensure_transaction_registered_def)
  qed
qed

lemma collector_add_sound:
  assumes "verified_vote E (key, sg)"
  shows "sound E V s (snd (collector_add i key sg s))"
proof -
  have q: "col_quorum (snd (add_signature i key sg (fi_collector s))) = col_quorum (fi_collector s)"
    by (simp add: add_signature_def case_prod_beta)
  show ?thesis
    unfolding collector_add_def
    by (rule sound_collector [where c = "snd (add_signature i key sg (fi_collector s))"])
      (use assms q votes_ok_add in \<open>auto simp: case_prod_beta\<close>)
qed

lemma inner_verified: "check_inner_signature E voter sg = Inr u \<Longrightarrow> verified_vote E (voter, sg\<lparr>sig_current_stake := stake\<rparr>)"
  by (auto simp: check_inner_signature_def verified_vote_def split: sum.splits if_splits)

lemma handle_signature_sound: "sound E V s (snd (handle_signature E V m s))"
  unfolding handle_signature_def Let_def
  by (intro step.bound_lift step.bound [OF voter_stake_sound] step.bound [OF _ step.bound] collector_add_sound)
    (auto simp: step.unchanged intro: try_optimistic_sound inner_verified)

section \<open>Shielded transfers\<close>

lemma collect_map_snoc: "collect_map (ps @ [(k, v)]) = AList.update k v (collect_map ps)"
  by (simp add: collect_map_def)

lemma collect_map_subset: "set (collect_map ps) \<subseteq> set ps"
proof (induction ps rule: rev_induct)
  case (snoc p ps)
  then show ?case using set_update_subset [of "fst p" "snd p" "collect_map ps"] collect_map_snoc [of ps "fst p" "snd p"] by auto
qed (simp add: collect_map_def)

lemma collect_map_distinct: "distinct (map fst ps) \<Longrightarrow> collect_map ps = ps"
proof (induction ps rule: rev_induct)
  case (snoc p ps)
  then show ?case using collect_map_snoc [of ps "fst p" "snd p"] by (simp add: update_new)
qed (simp add: collect_map_def)

lemma from_stake_set_fit:
  assumes "stakes_fit ss"
  shows "distinct (map fst (from_stake_set ss))" and "sum_list (map (\<lambda>v. unat (snd v)) (from_stake_set ss)) < 2 ^ 64"
proof -
  have "sum_list (map (\<lambda>v. unat (snd v)) (filter P xs)) \<le> sum_list (map (\<lambda>v. unat (snd v)) xs)" for P and xs :: "(bytes \<times> u64) list"
    by (induction xs) auto
  then show "sum_list (map (\<lambda>v. unat (snd v)) (from_stake_set ss)) < 2 ^ 64"
    using assms unfolding stakes_fit_def from_stake_set_def by (meson le_less_trans)
  show "distinct (map fst (from_stake_set ss))"
    using assms by (simp add: stakes_fit_def from_stake_set_def distinct_map_filter)
qed

lemma shielded_block_voted:
  assumes ok: "votes_ok E c" and won: "fst (reconcile_signatures i (from_stake_set ss) c) = Inr r"
    and h: "shielded_hash (fe_codec E) (fe_hash E) stx = Inr h"
    and bound: "\<And>votes v. map_of (col_signatures c) i = Some votes \<Longrightarrow> v \<in> set votes \<Longrightarrow> sig_transaction_hash (snd v) = h"
  shows "voted_by_quorum E ss (col_quorum c) ((build_signed_transaction_shielded E r stx stake voters)\<lparr>sx_finalizer_sig := f\<rparr>) stx"
proof -
  define entries where "entries = map (voter_entry (sh_id stx) (sh_token stx)) (rs_executor_signatures r)"
  have sigs: "sx_executor_sigs (build_signed_transaction_shielded E r stx stake voters) = collect_map entries"
    by (simp add: build_signed_transaction_shielded_def entries_def)
  obtain votes where votes: "map_of (col_signatures c) i = Some votes"
    and win: "\<forall>e \<in> set (rs_executor_signatures r). \<exists>sg. (es_key e, sg) \<in> set votes \<and> es_signature e = sig_signature sg \<and>
                map_of (from_stake_set ss) (es_key e) = Some (es_stake e)"
    using reconcile_winners [OF won] by blast
  have good: "distinct (map fst votes)" "\<forall>v \<in> set votes. verified_vote E v"
    using ok votes unfolding votes_ok_def by blast+
  have "check_signature (fe_identity E) (es_signature e) (es_key e) h = Inr True" if e: "e \<in> set (rs_executor_signatures r)" for e
  proof -
    obtain sg where sg: "(es_key e, sg) \<in> set votes" "es_signature e = sig_signature sg" using bspec [OF win e] by blast
    show ?thesis using bspec [OF good(2) sg(1)] bound [OF votes sg(1)] sg(2) by (simp add: verified_vote_def)
  qed
  then have "\<forall>v \<in> set entries. check_signature (fe_identity E) (sig_signature (snd v)) (fst v) h = Inr True \<and>
      map_of (from_stake_set ss) (fst v) = Some (sig_current_stake (snd v))"
    using win by (simp add: entries_def voter_entry_def) blast
  then have each: "\<forall>v \<in> set (collect_map entries). check_signature (fe_identity E) (sig_signature (snd v)) (fst v) h = Inr True \<and>
      map_of (from_stake_set ss) (fst v) = Some (sig_current_stake (snd v))"
    using collect_map_subset [of entries] by blast
  have "distinct (map fst (collect_map entries)) \<and>
      unat (responsible_total (from_stake_set ss)) * quorum_pct (col_quorum c) \<le>
      sum_list (map (\<lambda>v. unat (sig_current_stake (snd v))) (collect_map entries)) * 100"
    if fit: "stakes_fit ss" "quorum_pct (col_quorum c) \<le> 100"
  proof -
    have q: "distinct (map es_key (rs_executor_signatures r))"
      "unat (responsible_total (from_stake_set ss)) * quorum_pct (col_quorum c) \<le> stakes_of (rs_executor_signatures r) * 100"
      using reconcile_quorum [OF won votes good(1) from_stake_set_fit [OF fit(1)] fit(2)] by auto
    then have "distinct (map fst entries)" by (simp add: entries_def voter_entry_def comp_def)
    then show ?thesis
      using q(2) collect_map_distinct [of entries] by (simp add: entries_def voter_entry_def comp_def stakes_of_def)
  qed
  then show ?thesis
    unfolding voted_by_quorum_def carried_stake_def by (simp add: sigs h each)
qed

lemma responsible_sound: "sound E V s (snd (finalizer_responsible_set E V s))"
  unfolding finalizer_responsible_set_def
  by (auto simp: step.unchanged split: option.splits intro!: step.bound get_stakes_sound)

lemma responsible_value:
  "finalizer_responsible_set E V s = (Inr m, t) \<Longrightarrow> \<exists>ss. stakes_in_force V s = Some ss \<and> m = from_stake_set ss"
  by (auto simp: finalizer_responsible_set_def dest!: bind_act_Inr get_stakes_value split: if_splits option.splits)

lemma reconcile_signatures_frame:
  "col_signatures (snd (reconcile_signatures i m c)) = col_signatures c \<and> col_quorum (snd (reconcile_signatures i m c)) = col_quorum c"
  by (simp add: reconcile_signatures_def Let_def case_prod_beta split: option.splits)

lemma reconcile_sound: "sound E V s (snd (collector_reconcile i m s))"
  unfolding collector_reconcile_def
  by (rule sound_collector [where c = "snd (reconcile_signatures i m (fi_collector s))"])
    (simp_all add: case_prod_beta reconcile_signatures_frame votes_ok_def)

lemma sound_facts:
  assumes "sound E V s t" and "votes_ok E (fi_collector s)"
  shows "votes_ok E (fi_collector t)" "stakes_in_force V t = stakes_in_force V s"
    "col_quorum (fi_collector t) = col_quorum (fi_collector s)"
  using assms by (simp_all add: sound_def)

lemma metrics_frame: "resolve_stake_metrics V s = (r, t) \<Longrightarrow> sound E V s t"
  using metrics_sound [of E V s] by simp

lemma votes_bind_Inr:
  assumes "votes_bind i h s = (Inr u, t)"
  shows "t = s" and "map_of (col_signatures (fi_collector s)) i = Some votes \<Longrightarrow> v \<in> set votes \<Longrightarrow> sig_transaction_hash (snd v) = h"
  using assms by (auto simp: votes_bind_def get_transaction_registry_def list_ex_iff split: option.splits if_splits)

text \<open>The part of the shielded finalization that sends, given what was checked before.\<close>

lemma shielded_tail_sound:
  assumes "stakes_in_force V s = Some ss" and "voted_by_quorum E ss (col_quorum (fi_collector s)) sx stx" and "sx_shielded sx = Some stx"
  shows "sound E V s (snd (bind_act (\<lambda>s. (builder_create_block E now sx prev (fi_epoch s), s)) (\<lambda>b.
        bind_act (send_to_committers E V (commit_of E i token b)) (\<lambda>_.
        bind_act (get_stake_set_for_epoch V) (\<lambda>stakes.
        bind_act (send_block_finalized E V b stakes) (\<lambda>_.
        bind_act (alter (\<lambda>s. s\<lparr>fi_shielded := AList.delete i (fi_shielded s),
             fi_collector := (fi_collector s)\<lparr>col_signatures := snd (try_remove_transaction i (col_signatures (fi_collector s)))\<rparr>\<rparr>)) (\<lambda>_.
        finalizer_reply E i))))) s))"
proof -
  have clean: "sound E V t (snd (alter (\<lambda>s. s\<lparr>fi_shielded := AList.delete i (fi_shielded s),
      fi_collector := (fi_collector s)\<lparr>col_signatures := snd (try_remove_transaction i (col_signatures (fi_collector s)))\<rparr>\<rparr>) t))" for t
    by (rule sound_collector [where c = "(fi_collector t)\<lparr>col_signatures := snd (try_remove_transaction i (col_signatures (fi_collector t)))\<rparr>"])
      (simp_all add: votes_ok_remove)
  have commit: "sound E V s (snd (send_to_committers E V (commit_of E i token b) s))" if "signed_trans b = sx" for b
    using assms that by (intro send_commit_sound) auto
  show ?thesis
  proof (rule step.bound_at, goal_cases)
    case 1
    show ?case by (simp add: step.unchanged)
  next
    case (2 b t)
    then have "t = s" and sx: "signed_trans b = sx" by (auto dest: builder_signed_trans)
    show ?case
      unfolding \<open>t = s\<close>
      by (rule step.bound_at, rule commit [OF sx]) (intro step.bound quiet send_other_sound clean)
  qed
qed

lemma try_finalize_shielded_sound: "sound E V s (snd (try_finalize_shielded E V i s))"
proof (rule sound_if)
  assume ok: "votes_ok E (fi_collector s)"
  show ?thesis
    unfolding try_finalize_shielded_def Let_def case_prod_beta
  proof (rule step.bound_at [OF responsible_sound], goal_cases)
    case (1 m s1)
    obtain ss where ss: "stakes_in_force V s = Some ss" "m = from_stake_set ss" using responsible_value [OF 1] by auto
    have r1: "sound E V s s1" using responsible_sound [of E V s] 1 by simp
    show ?case
    proof (rule step.bound_at [OF reconcile_sound], goal_cases)
      case (1 r s2)
      have r2: "sound E V s s2" using reconcile_sound [of E V s1 i m] 1 step.chained [OF r1] by simp
      have won: "fst (reconcile_signatures i (from_stake_set ss) (fi_collector s2)) = Inr r"
        using 1 by (auto simp: collector_reconcile_def case_prod_beta ss(2) reconcile_signatures_def Let_def get_transaction_registry_def split: option.splits if_splits)
      show ?case
      proof (rule step.bound_at, goal_cases)
        case 1
        show ?case by (simp add: recorded_transfer_def step.unchanged split: option.splits)
      next
        case (2 stx s3)
        then have "s3 = s2" by (auto simp: recorded_transfer_def split: option.splits)
        show ?case
          unfolding \<open>s3 = s2\<close>
        proof (rule step.bound_lift, rule step.bound_at, goal_cases)
          case (1 h)
          show ?case by (simp add: votes_bind_def step.unchanged split: option.splits)
        next
          case (2 h u s4)
          have "s4 = s2" using votes_bind_Inr(1) [OF 2(2)] .
          have voted: "voted_by_quorum E ss (col_quorum (fi_collector s2))
              ((build_signed_transaction_shielded E r stx stake voters)\<lparr>sx_finalizer_sig := f\<rparr>) stx" for stake voters f
            using sound_facts(1) [OF r2 ok] won 2(1) votes_bind_Inr(2) [OF 2(2)] by (rule shielded_block_voted)
          show ?case
            unfolding \<open>s4 = s2\<close>
          proof (rule step.bound_at [OF metrics_sound], rule step.bound_lift, goal_cases)
            case (1 x s5 f)
            have r5: "sound E V s s5" using metrics_frame [OF 1(1)] step.chained [OF r2] by blast
            show ?case
              using voted sound_facts [OF r5 ok] sound_facts [OF r2 ok] ss(1)
              by (intro shielded_tail_sound) (simp_all add: build_signed_transaction_shielded_def)
          qed
        qed
      qed
    qed
  qed
qed

lemma record_shielded_sound: "sound E V s (snd (record_shielded i canonical s))"
  by (auto simp: record_shielded_def step.unchanged sound_frame split: option.splits)

lemma handle_sign_shielded_sound: "sound E V s (snd (handle_sign_shielded E V m s))"
  unfolding handle_sign_shielded_def
  by (intro step.bound_lift step.bound record_shielded_sound send_other_sound voter_stake_sound) (simp_all add: step.unchanged step.lifted)

lemma handle_shielded_vote_sound: "sound E V s (snd (handle_shielded_vote E V m s))"
  unfolding handle_shielded_vote_def Let_def case_prod_beta
  by (intro step.bound_lift step.bound [OF voter_stake_sound] step.bound [OF collector_add_sound] step.bound [OF metrics_sound] step.bound)
    (auto simp: step.unchanged intro: try_finalize_shielded_sound inner_verified)

lemma finalizer_handle_sound: "sound E V s (snd (finalizer_handle E V m s))"
proof -
  have forward: "snd (case r of (Inl _, s') \<Rightarrow> (Inl e, s') | (Inr _, s') \<Rightarrow> (Inr (), s')) = snd r"
    for r :: "(pneumatic_error + bytes) \<times> finalizer" and e :: pneumatic_error
    by (cases r; cases "fst r") auto
  show ?thesis
    by (simp add: finalizer_handle_def Let_def forward handle_preload_sound handle_signature_sound handle_sign_shielded_sound
        handle_shielded_vote_sound step.unchanged)
qed

section \<open>Runs\<close>

text \<open>A run handles messages in views that may differ; between them the epoch advances, the stake set is
  set, a shutdown is asked for, and the other roles of the host change the shared pending registry.\<close>

inductive finalizer_step :: "('f, 'p) finalizer_env \<Rightarrow> finalizer \<Rightarrow> finalizer \<Rightarrow> bool" for E where
  handled: "finalizer_step E s (snd (finalizer_handle E V m s))"
| epoch: "finalizer_step E s (finalizer_advance_epoch s)"
| stakes: "finalizer_step E s (set_stake_set ss s)"
| shutdown: "finalizer_step E s (finalizer_shutdown s)"
| shared: "finalizer_step E s (s\<lparr>fi_pending := r\<rparr>)"

lemma finalizer_run_votes:
  assumes "(finalizer_step E)\<^sup>*\<^sup>* (finalizer_new E r [] q epoch) s"
  shows "votes_ok E (fi_collector s)"
  using assms
proof (induction rule: rtranclp_induct)
  case base
  show ?case by (simp add: votes_ok_def finalizer_new_def)
next
  case (step t u)
  from step(2,3) show ?case
    by cases (auto simp: finalizer_advance_epoch_def set_stake_set_def finalizer_shutdown_def dest: sound_facts(1) [OF finalizer_handle_sound])
qed

end
