(* ===== verification/Finalizer_Properties.thy ===== *)
theory Finalizer_Properties
  imports Finalizer_Safety Committer_Demo
begin

text \<open>
  What the finalizer guarantees and how it meets the committer: the commits it sends are authorized, a
  preload and the vote for it may come in either order, and a vote on a preloaded transaction yields a
  block that the committers accept.
\<close>

section \<open>A concrete finalizer\<close>

definition demo_fanout :: fanout_env where
  "demo_fanout = \<lparr>fo_registry = demo_env, fo_rns = (\<lambda>_ _. Replied (Inr [])), fo_direct = (\<lambda>_ _. Some (Inr ())), fo_frame = Inr\<rparr>"

definition vote_signature :: transaction_signature where
  "vote_signature = \<lparr>sig_transaction_id = as_bytes ''t1'', sig_env_id = [], sig_transaction_hash = [8], sig_signature = [5, 8],
                     sig_current_stake = 99\<rparr>"

definition demo_finalizer_env :: "(bytes, bytes) finalizer_env" where
  "demo_finalizer_env =
     \<lparr>fe_env_id = ''env'', fe_public_key = [9], fe_partition = ''env'', fe_identity = demo_crypto, fe_signing_key = demo_crypto,
      fe_finalizer_addr = [9], fe_leader_address = [6], fe_leader_stake = 1, fe_leader_hash = [], fe_codec = committer_codec,
      fe_hash = length_hash, fe_shard_count = 1, fe_shielded_spec = True, fe_field = demo_field, fe_max_risk = Fin 1, fe_recency = 10,
      fe_fanout = demo_fanout, fe_un_tx = (\<lambda>bs. if bs = [1] then Inr routed_tx else Inl ''bad''),
      fe_un_sig = (\<lambda>bs. if bs = [2] then Inr vote_signature else Inl ''bad''),
      fe_un_shielded = (\<lambda>_. Inr demo_transfer), fe_rmp_sig = (\<lambda>_. Inr [3]), fe_rmp_commit = (\<lambda>_. Inr [1]),
      fe_rmp_block = (\<lambda>_. Inr [2]), fe_rmp_str = (\<lambda>i. Inr (as_bytes i)), fe_rmp_vote = (\<lambda>_. Inr []), fe_rmp_message = (\<lambda>m. Inr (msg_body m))\<rparr>"

definition demo_peer :: registry_node where
  "demo_peer = node_new 0 [80]"

text \<open>A Sentinel with key 7, an Executor with key 5 and a Finalizer with key 8; the Executor has stake 10.\<close>

definition demo_view :: finalizer_view where
  "demo_view =
     \<lparr>fv_now = 100, fv_nodes = (registry_init [])\<lparr>sentinels := [([7], demo_peer)], executors_of := [([5], demo_peer)], finalizers := [([8], demo_peer)]\<rparr>,
      fv_token = (\<lambda>_ _. Inl DataNotFound), fv_stakes = (\<lambda>_ _. Inr \<lparr>stakers = [([5], 10)]\<rparr>), fv_pool = view_new [] 10\<rparr>"

definition preload_message :: message where
  "preload_message = \<lparr>msg_chain_id = ''env'', msg_action = ''PreloadForFinalizer'', msg_body = [1], msg_signature = [], msg_public_key = [],
                      msg_stake_set = None\<rparr>"

definition vote_message :: message where
  "vote_message = \<lparr>msg_chain_id = ''env'', msg_action = ''Sign'', msg_body = [2], msg_signature = [5, 2], msg_public_key = [5],
                   msg_stake_set = None\<rparr>"

definition fresh_finalizer :: finalizer where
  "fresh_finalizer = finalizer_new demo_finalizer_env registry_new [] (Fin 67) 1"

definition preloaded_finalizer :: finalizer where
  "preloaded_finalizer = snd (finalizer_handle demo_finalizer_env demo_view preload_message fresh_finalizer)"

section \<open>Commits\<close>

text \<open>C4: whatever messages a finalizer has handled before, in whatever order, and however the host's other
  roles have changed the shared registry, every commit it broadcasts while it handles a message is authorized:
  a standard block is for a transaction whose routing decision a registered Sentinel signed and which names this
  node, and its single executor entry is a valid signature of its result hash; a shielded block carries valid
  signatures of the transfer's hash by responsible keys, each once, whose declared stake reaches the quorum.\<close>

theorem finalizer_commits_authorized:
  assumes "(finalizer_step E)\<^sup>*\<^sup>* (finalizer_new E r [] q epoch) s"
  shows "\<exists>new. fi_sent (snd (finalizer_handle E V m s)) = fi_sent s @ new \<and>
           (\<forall>x \<in> set new. authorized E V (stakes_in_force V s) (col_quorum (fi_collector s)) (snd x))"
  using finalizer_handle_sound [of E V s m] finalizer_run_votes [OF assms] by (simp add: sound_def emits_def)

section \<open>A preload and its vote in either order\<close>

text \<open>What a preload does before it looks for votes.\<close>

definition preloaded :: "transaction \<Rightarrow> bytes \<Rightarrow> finalizer \<Rightarrow> finalizer" where
  "preloaded tx raw s =
     s\<lparr>fi_preloads := AList.update (tx_id tx) raw (fi_preloads s), fi_pending := snd (adopt_preload tx (fi_pending s))\<rparr>"

lemma adopt_preload_ok: "fst (adopt_preload tx r) = Inr ()"
  by (simp add: adopt_preload_def register_pending_def add_transaction_def contains_def Let_def)

lemma handle_preload_state:
  "snd (handle_preload E V m s) =
     (case fe_un_tx E (msg_body m) of
        Inl _ \<Rightarrow> s
      | Inr tx \<Rightarrow>
          (case finalize_authority E V tx of
             Inl _ \<Rightarrow> s
           | Inr _ \<Rightarrow>
               (case rmp_tx (fe_codec E) tx of
                  Inl _ \<Rightarrow> s
                | Inr raw \<Rightarrow> snd (retry_finalize_from_collected E V (tx_id tx) (preloaded tx raw s)))))"
proof -
  have adopt: "(case adopt_preload tx (fi_pending u) of (r, p) \<Rightarrow> (r, u\<lparr>fi_pending := p\<rparr>)) = (Inr (), u\<lparr>fi_pending := snd (adopt_preload tx (fi_pending u))\<rparr>)"
    for tx u
    using adopt_preload_ok [of tx "fi_pending u"] by (cases "adopt_preload tx (fi_pending u)") simp
  have retry: "snd (bind_act (retry_finalize_from_collected E V i) (\<lambda>_. ret acknowledge) u) = snd (retry_finalize_from_collected E V i u)" for i u
    by (cases "retry_finalize_from_collected E V i u"; cases "fst (retry_finalize_from_collected E V i u)") (auto simp: bind_act_def)
  have bind: "bind_act (\<lambda>s. case adopt_preload tx (fi_pending s) of (r, p) \<Rightarrow> (r, s\<lparr>fi_pending := p\<rparr>)) k u =
      k () (u\<lparr>fi_pending := snd (adopt_preload tx (fi_pending u))\<rparr>)" for tx k u
    by (rule bind_ok) (rule adopt)
  show ?thesis
    by (simp add: handle_preload_def bind_lift bind_alter bind retry encoding_err_def preloaded_def split: sum.split)
qed

text \<open>What a vote does before it tries to finalize.\<close>

definition stamped :: "finalizer_view \<Rightarrow> bytes \<Rightarrow> transaction_signature \<Rightarrow> finalizer \<Rightarrow> transaction_signature" where
  "stamped V voter sg s =
     sg\<lparr>sig_current_stake := (case stakes_in_force V s of Some ss \<Rightarrow> (case map_of (stakers ss) voter of Some v \<Rightarrow> v | None \<Rightarrow> 0) | None \<Rightarrow> 0)\<rparr>"

definition voted :: "finalizer_view \<Rightarrow> string \<Rightarrow> bytes \<Rightarrow> transaction_signature \<Rightarrow> finalizer \<Rightarrow> finalizer" where
  "voted V i voter sg s =
     (let t = snd (get_stake_set_for_epoch V s)
      in t\<lparr>fi_collector := snd (add_signature i voter (stamped V voter sg s) (fi_collector t))\<rparr>)"

lemma get_stakes_state:
  "get_stake_set_for_epoch V s = (Inr (stakes_in_force V s), snd (get_stake_set_for_epoch V s))"
  "fi_pending (snd (get_stake_set_for_epoch V s)) = fi_pending s" "fi_collector (snd (get_stake_set_for_epoch V s)) = fi_collector s"
  by (auto simp: stakes_in_force_def get_stake_set_for_epoch_def case_prod_beta split: option.splits)

lemma voter_stake_state:
  "current_stake_for_voter V voter s =
     (Inr (case stakes_in_force V s of Some ss \<Rightarrow> (case map_of (stakers ss) voter of Some v \<Rightarrow> v | None \<Rightarrow> 0) | None \<Rightarrow> 0),
      snd (get_stake_set_for_epoch V s))"
  unfolding current_stake_for_voter_def bind_act_def by (subst get_stakes_state(1)) simp

lemma first_vote:
  assumes "map_of (col_signatures c) i = None"
  shows "fst (add_signature i voter sg c) = Inr ()" "signature_count (snd (add_signature i voter sg c)) i = 1"
    "first_signature (snd (add_signature i voter sg c)) i = Some (voter, sg)"
  using assms
  by (simp_all add: add_signature_def ensure_transaction_registered_def try_add_signature_def update_conv' signature_count_def
      get_transaction_registry_def first_signature_def btree_of_def)

lemma handle_signature_first:
  assumes "fe_un_sig E (msg_body m) = Inr sg" and "i = from_utf8_lossy (sig_transaction_id sg)"
    and "map_of (col_signatures (fi_collector s)) i = None" and "finalize_authority_for_id E V i (fi_pending s) = Inr ()"
  shows "handle_signature E V m s =
     (case authenticate_signature_message E V m of
        Inl e \<Rightarrow> (Inl e, s)
      | Inr voter \<Rightarrow>
          (case check_inner_signature E voter sg of
             Inl e \<Rightarrow> (Inl e, s)
           | Inr _ \<Rightarrow> try_finalize_optimistic E V i (stamped V voter sg s) voter (voted V i voter sg s)))"
proof -
  have add: "collector_add i voter (stamped V voter sg s) (snd (get_stake_set_for_epoch V s)) = (Inr (), voted V i voter sg s)" for voter
    using first_vote(1) [OF assms(3), of voter "stamped V voter sg s"]
    by (simp add: collector_add_def voted_def get_stakes_state(3) Let_def prod.case_eq_if)
  have count: "signature_count (fi_collector (voted V i voter sg s)) i = 1" for voter
    using first_vote(2) [OF assms(3), of voter "stamped V voter sg s"] by (simp add: voted_def get_stakes_state(3) Let_def)
  have authority: "bind_act (\<lambda>s. (finalize_authority_for_id E V i (fi_pending s), s)) k (snd (get_stake_set_for_epoch V s)) =
      k () (snd (get_stake_set_for_epoch V s))" for k
    by (rule bind_ok) (simp add: get_stakes_state(2) assms(4))
  have bind_add: "bind_act (collector_add i voter (stamped V voter sg s)) k (snd (get_stake_set_for_epoch V s)) = k () (voted V i voter sg s)" for voter k
    by (rule bind_ok) (rule add)
  have rest: "bind_act (current_stake_for_voter V voter) (\<lambda>stake.
      bind_act (\<lambda>s. (finalize_authority_for_id E V i (fi_pending s), s)) (\<lambda>_.
      bind_act (collector_add i voter (sg\<lparr>sig_current_stake := stake\<rparr>)) (\<lambda>_ s.
      if signature_count (fi_collector s) i = 1 then try_finalize_optimistic E V i (sg\<lparr>sig_current_stake := stake\<rparr>) voter s
      else (Inr acknowledge, s)))) s =
      try_finalize_optimistic E V i (stamped V voter sg s) voter (voted V i voter sg s)" for voter
    by (subst bind_ok, rule voter_stake_state) (simp only: authority stamped_def [symmetric] bind_add count if_True refl)
  show ?thesis
    unfolding handle_signature_def bind_lift encoding_err_def assms(1) sum.case Let_def assms(2) [symmetric] rest by (rule refl)
qed

lemma handle_signature_blocked:
  assumes "fe_un_sig E (msg_body m) = Inr sg" and "authenticate_signature_message E V m = Inr voter" and "check_inner_signature E voter sg = Inr u"
    and "map_of (col_signatures (fi_collector s)) (from_utf8_lossy (sig_transaction_id sg)) = None"
    and "map_of (transactions (fi_pending s)) (from_utf8_lossy (sig_transaction_id sg)) = None"
  shows "snd (handle_signature E V m s) = voted V (from_utf8_lossy (sig_transaction_id sg)) voter sg s"
proof -
  let ?i = "from_utf8_lossy (sig_transaction_id sg)"
  have "fi_pending (voted V ?i voter sg s) = fi_pending s" by (simp add: voted_def Let_def get_stakes_state(2))
  then have "load_executable ?i (voted V ?i voter sg s) = (Inl (Registry ''not found''), voted V ?i voter sg s)"
    using assms(5) by (simp add: load_executable_def)
  then have "snd (try_finalize_optimistic E V ?i (stamped V voter sg s) voter (voted V ?i voter sg s)) = voted V ?i voter sg s"
    unfolding try_finalize_optimistic_def by (subst bind_err) simp_all
  then show ?thesis
    using assms by (subst handle_signature_first [OF assms(1) refl]) (simp_all add: finalize_authority_for_id_def)
qed

lemma preloaded_voted: "voted V i voter sg (preloaded tx raw s) = preloaded tx raw (voted V i voter sg s)"
  "stamped V voter sg (preloaded tx raw s) = stamped V voter sg s"
  by (simp_all add: voted_def preloaded_def stamped_def stakes_in_force_def get_stake_set_for_epoch_def Let_def case_prod_beta split: option.split)

lemma preloaded_fields: "fi_collector (preloaded tx raw s) = fi_collector s"
  by (simp add: preloaded_def)

lemma adopted_entry:
  assumes "map_of (transactions r) (tx_id tx) = None"
  shows "map_of (transactions (snd (adopt_preload tx r))) (tx_id tx) = Some \<lparr>pt_id = tx_id tx, pt_state = Preloaded tx, lock_count = 0\<rparr>"
  using assms
  by (simp add: adopt_preload_def contains_def register_pending_def add_transaction_def put_transaction_def with_transaction_mut_def
      pending_new_def transition_to_preloaded_def update_conv' Let_def)

text \<open>C14: a preload and the executor's vote for the same transaction may be handled in either order: when the
  finalizer holds neither an entry nor a vote for the transaction yet, both orders leave the same state, and
  with it the same broadcasts, whether or not each of the two messages is accepted.\<close>

theorem preload_vote_order:
  assumes "fe_un_tx E (msg_body p) = Inr tx" and "fe_un_sig E (msg_body v) = Inr sg"
    and "tx_id tx = from_utf8_lossy (sig_transaction_id sg)"
    and "map_of (transactions (fi_pending s)) (tx_id tx) = None" and "map_of (col_signatures (fi_collector s)) (tx_id tx) = None"
  shows "snd (handle_signature E V v (snd (handle_preload E V p s))) = snd (handle_preload E V p (snd (handle_signature E V v s)))"
proof (cases "finalize_authority E V tx = Inr () \<and> (\<exists>raw. rmp_tx (fe_codec E) tx = Inr raw)")
  case False
  then have "snd (handle_preload E V p u) = u" for u
    unfolding handle_preload_state assms(1) by (auto split: sum.splits)
  then show ?thesis by simp
next
  case True
  then obtain raw where raw: "rmp_tx (fe_codec E) tx = Inr raw" and auth: "finalize_authority E V tx = Inr ()" by auto
  have P: "snd (handle_preload E V p u) = snd (retry_finalize_from_collected E V (tx_id tx) (preloaded tx raw u))" for u
    using raw auth by (simp add: handle_preload_state assms(1))
  have first: "snd (handle_preload E V p s) = preloaded tx raw s"
    unfolding P retry_finalize_from_collected_def
    using assms(5) by (simp add: preloaded_fields first_signature_def get_transaction_registry_def)
  show ?thesis
  proof (cases "\<exists>voter. authenticate_signature_message E V v = Inr voter \<and> check_inner_signature E voter sg = Inr ()")
    case False
    then have "snd (handle_signature E V v u) = u" if "map_of (col_signatures (fi_collector u)) (tx_id tx) = None"
        and "finalize_authority_for_id E V (tx_id tx) (fi_pending u) = Inr ()" for u
      using handle_signature_first [OF assms(2,3), of u V] that by (auto split: sum.split)
    moreover have "finalize_authority_for_id E V (tx_id tx) (fi_pending (preloaded tx raw s)) = Inr ()"
      using adopted_entry [OF assms(4)] auth by (simp add: finalize_authority_for_id_def preloaded_def executable_transaction_def)
    ultimately show ?thesis
      using assms(4,5) by (simp add: first preloaded_fields finalize_authority_for_id_def)
  next
    case True
    then obtain voter where voter: "authenticate_signature_message E V v = Inr voter" "check_inner_signature E voter sg = Inr ()" by auto
    have entry: "finalize_authority_for_id E V (tx_id tx) (fi_pending (preloaded tx raw s)) = Inr ()"
      using adopted_entry [OF assms(4)] auth by (simp add: finalize_authority_for_id_def preloaded_def executable_transaction_def)
    have "snd (handle_signature E V v (preloaded tx raw s)) =
        snd (try_finalize_optimistic E V (tx_id tx) (stamped V voter sg s) voter (preloaded tx raw (voted V (tx_id tx) voter sg s)))"
      using assms(5) entry voter
      by (subst handle_signature_first [OF assms(2,3)]) (simp_all add: preloaded_fields preloaded_voted)
    moreover have "snd (handle_signature E V v s) = voted V (tx_id tx) voter sg s"
      using handle_signature_blocked [OF assms(2) voter] assms(3,4,5) by simp
    moreover have "first_signature (fi_collector (voted V (tx_id tx) voter sg s)) (tx_id tx) = Some (voter, stamped V voter sg s)"
      using first_vote(3) [OF assms(5)] by (simp add: voted_def get_stakes_state(3) Let_def)
    ultimately show ?thesis
      by (simp add: first P [of "voted V (tx_id tx) voter sg s"] retry_finalize_from_collected_def preloaded_fields)
  qed
qed

section \<open>From a vote to a commit\<close>

text \<open>The encoders and the signer return a value for every argument.\<close>

definition encoders_total :: "('f, 'p) finalizer_env \<Rightarrow> bool" where
  "encoders_total E \<longleftrightarrow>
     (\<forall>x. \<exists>b. fe_rmp_commit E x = Inr b) \<and> (\<forall>x. \<exists>b. fe_rmp_block E x = Inr b) \<and> (\<forall>x. \<exists>b. fe_rmp_str E x = Inr b) \<and>
     (\<forall>x. \<exists>b. fe_rmp_message E x = Inr b) \<and> (\<forall>x. \<exists>b. rmp_bytes (fe_codec E) x = Inr b) \<and> (\<forall>x. \<exists>b. rmp_carrier (fe_codec E) x = Inr b) \<and>
     (\<forall>x. \<exists>h. create_hash (fe_codec E) (fe_hash E) x = Inr h) \<and> (\<forall>d. \<exists>g. sign_data (fe_identity E) d = Inr g)"

definition own_message :: "('f, 'p) finalizer_env \<Rightarrow> string \<Rightarrow> bytes \<Rightarrow> message \<Rightarrow> bool" where
  "own_message E action body m \<longleftrightarrow>
     msg_action m = action \<and> msg_body m = body \<and> msg_public_key m = fe_public_key E \<and> sign_data (fe_identity E) body = Inr (msg_signature m)"

lemma bind_dispatch:
  assumes "encoders_total E" and "public_key (fe_identity E) = Inr (fe_public_key E)" and "body = Inr b"
  obtains m payload where "own_message E action b m"
    and "\<And>k s. bind_act (dispatch_signed E V action body stakes ts) k s = k () (fold (broadcast E V m payload) ts s)"
proof -
  obtain g where g: "sign_data (fe_identity E) b = Inr g" using assms(1) unfolding encoders_total_def by blast
  define m where "m = \<lparr>msg_chain_id = fe_env_id E, msg_action = action, msg_body = b, msg_signature = g,
                       msg_public_key = fe_public_key E, msg_stake_set = stakes\<rparr>"
  have m: "message_signed (fe_identity E) (fe_env_id E) action b stakes = Inr m"
    using g assms(2) by (simp add: message_signed_def m_def)
  obtain payload where payload: "fe_rmp_message E m = Inr payload" using assms(1) unfolding encoders_total_def by blast
  have "own_message E action b m" using g by (simp add: own_message_def m_def)
  moreover have "bind_act (dispatch_signed E V action body stakes ts) k s = k () (fold (broadcast E V m payload) ts s)" for k s
    by (simp add: dispatch_signed_def assms(3) m payload bind_alter)
  ultimately show thesis by (rule that)
qed

lemma bind_stakes: "bind_act (get_stake_set_for_epoch V) k s = k (stakes_in_force V s) (snd (get_stake_set_for_epoch V s))"
  by (rule bind_ok) (rule get_stakes_state(1))

lemma get_stakes_sent: "fi_sent (snd (get_stake_set_for_epoch V s)) = fi_sent s"
  by (simp add: get_stake_set_for_epoch_def case_prod_beta split: option.split)

lemma with_transaction_entry:
  "map_of (transactions (snd (with_transaction_mut i f r))) i = map_option f (map_of (transactions r) i)"
  by (simp add: with_transaction_mut_def put_transaction_def update_conv' split: option.split)

lemma publish_ok:
  assumes total: "encoders_total E" and key: "public_key (fe_identity E) = Inr (fe_public_key E)"
    and entry: "map_of (transactions (fi_pending s)) i = Some pt"
  shows "\<exists>reply t b body cm rest. publish_optimistic E V i tx fkey sx s = (Inr reply, t) \<and>
           builder_create_block E (fv_now V) sx (resolve_previous_hash E V (tx_token tx)) (fi_epoch s) = Inr b \<and>
           fe_rmp_commit E (commit_of E i (tx_token tx) b) = Inr body \<and> own_message E ''Commit'' body cm \<and>
           fi_sent t = fi_sent s @ (Committer, cm) # rest \<and>
           map (\<lambda>x. (fst x, msg_action (snd x))) rest =
             [(Committer, ''BlockFinalized''), (Archiver, ''BlockFinalized''), (Sentinel, ''BlockFinalized''), (Sentinel, ''Clear'')] \<and>
           map_option pt_state (map_of (transactions (fi_pending t)) i) = Some (Committed tx (current_hash b))"
proof -
  define s1 where "s1 = s\<lparr>fi_pending := snd (with_transaction_mut i (transition_to_finalizing tx fkey) (fi_pending s))\<rparr>"
  obtain b where b: "builder_create_block E (fv_now V) sx (resolve_previous_hash E V (tx_token tx)) (fi_epoch s) = Inr b"
    using total unfolding encoders_total_def builder_create_block_def Let_def by (metis (mono_tags, lifting) sum.case(2))
  have create: "bind_act (\<lambda>s. (create_block_optimistic E (fv_now V) sx (resolve_previous_hash E V (tx_token tx)) (fi_epoch s), s)) k s1 = k b s1" for k :: "block \<Rightarrow> bytes fact"
    by (rule bind_ok) (simp add: create_block_optimistic_def s1_def b)
  obtain body where body: "fe_rmp_commit E (commit_of E i (tx_token tx) b) = Inr body" using total unfolding encoders_total_def by blast
  obtain cm p1 where cm: "own_message E ''Commit'' body cm"
    and send1: "\<And>(k :: unit \<Rightarrow> bytes fact) u. bind_act (send_to_committers E V (commit_of E i (tx_token tx) b)) k u = k () (fold (broadcast E V cm p1) [Committer] u)"
    using bind_dispatch [OF total key body] unfolding send_to_committers_def by metis
  define s2 where "s2 = snd (get_stake_set_for_epoch V (fold (broadcast E V cm p1) [Committer] s1))"
  define stakes where "stakes = stakes_in_force V (fold (broadcast E V cm p1) [Committer] s1)"
  have stakes: "bind_act (get_stake_set_for_epoch V) k (fold (broadcast E V cm p1) [Committer] s1) = k stakes s2" for k :: "stake_set option \<Rightarrow> bytes fact"
    unfolding s2_def stakes_def by (rule bind_stakes)
  obtain bb where bb: "fe_rmp_block E b = Inr bb" using total unfolding encoders_total_def by blast
  obtain fm p2 where fm: "own_message E ''BlockFinalized'' bb fm"
    and send2: "\<And>(k :: unit \<Rightarrow> bytes fact) u. bind_act (send_block_finalized E V b stakes) k u = k () (fold (broadcast E V fm p2) [Committer, Archiver, Sentinel] u)"
    using bind_dispatch [OF total key bb] unfolding send_block_finalized_def by metis
  obtain ib where ib: "fe_rmp_str E i = Inr ib" using total unfolding encoders_total_def by blast
  obtain km p3 where km: "own_message E ''Clear'' ib km"
    and send3: "\<And>(k :: unit \<Rightarrow> bytes fact) u. bind_act (send_clear_to_sentinels E V i) k u = k () (fold (broadcast E V km p3) [Sentinel] u)"
    using bind_dispatch [OF total key ib] unfolding send_clear_to_sentinels_def by metis
  obtain reply where reply: "rmp_bytes (fe_codec E) (as_bytes i) = Inr reply" using total unfolding encoders_total_def by blast
  define s3 where "s3 = fold (broadcast E V km p3) [Sentinel] (fold (broadcast E V fm p2) [Committer, Archiver, Sentinel] s2)"
  define s4 where "s4 = s3\<lparr>fi_pending := snd (with_transaction_mut i (transition_to_committed tx (current_hash b)) (fi_pending s3))\<rparr>"
  define t where "t = snd (forget_transaction i s4)"
  have "publish_optimistic E V i tx fkey sx s = (Inr reply, t)"
    unfolding publish_optimistic_def transition_def forget_transaction_def bind_alter s1_def [symmetric] create send1 stakes send2 send3
      s3_def [symmetric] s4_def [symmetric]
    by (simp add: finalizer_reply_def encoding_err_def reply t_def forget_transaction_def)
  moreover have "fi_sent t = fi_sent s @ (Committer, cm) # [(Committer, fm), (Archiver, fm), (Sentinel, fm), (Sentinel, km)]"
    by (simp add: t_def s4_def s3_def s2_def s1_def forget_transaction_def broadcast_def get_stakes_sent)
  moreover have "fi_pending t = snd (with_transaction_mut i (transition_to_committed tx (current_hash b)) (snd (with_transaction_mut i (transition_to_finalizing tx fkey) (fi_pending s))))"
    by (simp add: t_def s4_def s3_def s2_def s1_def forget_transaction_def broadcast_def get_stakes_state(2))
  then have "map_option pt_state (map_of (transactions (fi_pending t)) i) = Some (Committed tx (current_hash b))"
    using entry by (simp add: with_transaction_entry transition_to_committed_def)
  ultimately show ?thesis
    using b body cm fm km by (intro exI [of _ "[(Committer, fm), (Archiver, fm), (Sentinel, fm), (Sentinel, km)]"] exI conjI) (auto simp: own_message_def)
qed

text \<open>A committer that shares the encodings and the signature scheme, knows the finalizer and the attesting
  Sentinel by their roles and holds no other routing decision for the transaction.\<close>

definition committer_agrees ::
    "('f, 'p) finalizer_env \<Rightarrow> ('d, 'g, 'q) committer_env \<Rightarrow> ('d, 'g) committer \<Rightarrow> string \<Rightarrow> transaction \<Rightarrow> bool" where
  "committer_agrees E C cs i tx \<longleftrightarrow>
     ce_codec C = fe_codec E \<and> ce_hash C = fe_hash E \<and> check_signature (ce_crypto C) = check_signature (fe_identity E) \<and>
     Finalizer \<in> set (find_node_types_by_public_key (ce_registry C) (co_nodes cs) (fe_public_key E)) \<and>
     (case tx_selection tx of
        None \<Rightarrow> True
      | Some record \<Rightarrow>
          Sentinel \<in> set (find_node_types_by_public_key (ce_registry C) (co_nodes cs) (sel_sentinel record)) \<and>
          (\<forall>held. held_decision (co_pending cs) (from_utf8_lossy (as_bytes i)) = Some held \<longrightarrow> same_decision_as held record))"

lemma own_message_accepted:
  assumes "signs_correctly (fe_identity E)" and "public_key (fe_identity E) = Inr (fe_public_key E)"
    and "committer_agrees E C cs i tx" and "own_message E ''Commit'' body m"
  shows "authenticate_message C m cs = Inr ()"
proof -
  have "check_signature (ce_crypto C) (msg_signature m) (msg_public_key m) (msg_body m) = Inr True"
    using assms by (simp add: signs_correctly_def committer_agrees_def own_message_def)
  moreover have "Finalizer \<in> set (find_node_types_by_public_key (ce_registry C) (co_nodes cs) (msg_public_key m))"
    using assms(3,4) by (simp add: committer_agrees_def own_message_def)
  ultimately show ?thesis
    using assms(4)
    by (auto simp: authenticate_message_def authenticate_envelope_def own_message_def allowed_senders_for_def
        node_may_send_action_def Let_def list_ex_iff)
qed

lemma builder_block:
  assumes "builder_create_block E now sx prev epoch = Inr b"
  shows "signed_trans b = sx" "previous_hash b = prev" "create_hash (fe_codec E) (fe_hash E) b = Inr (current_hash b)"
  using assms by (auto simp: builder_create_block_def Let_def create_hash_def hash_input_def split: sum.splits)

lemma sign_finalizer_ok:
  assumes "encoders_total E" and "fe_signing_key E = fe_identity E"
  obtains f where "sign_finalizer_block E sx = Inr f"
proof -
  obtain d where d: "finalizer_digest (fe_codec E) (fe_hash E) sx = Inr d"
    using assms(1) unfolding encoders_total_def finalizer_digest_def by (metis (mono_tags, lifting) sum.case(2))
  obtain g where "sign_data (fe_identity E) d = Inr g" using assms(1) unfolding encoders_total_def by blast
  then show thesis using that d assms(2) by (simp add: sign_finalizer_block_def)
qed

lemma signed_block_verifies:
  assumes "signs_correctly (fe_identity E)" and "public_key (fe_identity E) = Inr (fe_public_key E)" and "fe_signing_key E = fe_identity E"
    and "sign_finalizer_block E sx = Inr f" and "committer_agrees E C cs i tx"
  shows "verify_finalizer_signature (ce_codec C) (ce_hash C) (ce_crypto C) (sx\<lparr>sx_finalizer_sig := f\<rparr>) (fe_public_key E) = Inr ()"
proof -
  obtain d g where "finalizer_digest (fe_codec E) (fe_hash E) sx = Inr d" and g: "sign_data (fe_identity E) d = Inr g"
    and f: "sig_transaction_hash f = d" "sig_signature f = g"
    using assms(3,4) by (auto simp: sign_finalizer_block_def split: sum.splits)
  then have "finalizer_digest (ce_codec C) (ce_hash C) (sx\<lparr>sx_finalizer_sig := f\<rparr>) = Inr d"
    using assms(5) by (simp add: committer_agrees_def finalizer_digest_ignores_sig)
  moreover have "g \<noteq> []" "check_signature (ce_crypto C) g (fe_public_key E) d = Inr True"
    using assms(1,2,5) g by (auto simp: signs_correctly_def committer_agrees_def)
  ultimately show ?thesis using f by (simp add: verify_finalizer_signature_def)
qed

lemma routed_block_accepted:
  assumes auth: "finalize_authority E V tx = Inr ()" and agrees: "committer_agrees E C cs i tx"
    and block: "signed_trans b = sx" "sx_transaction sx = tx\<lparr>tx_result_hash := h\<rparr>"
    and sig: "verify_finalizer_signature (ce_codec C) (ce_hash C) (ce_crypto C) sx (fe_public_key E) = Inr ()"
  shows "block_authority C cs b (fe_public_key E) (from_utf8_lossy (as_bytes i)) = Inr ()"
proof -
  obtain dec where r: "tx_selection tx = Some dec" using auth by (auto simp: finalize_authority_def split: option.splits)
  have verified: "selection_verify (fe_codec E) (fe_identity E) dec (tx_id tx) FINALIZER_DOMAIN = Inr True"
    and names: "selection_names dec (fe_public_key E)"
    using auth r by (auto simp: finalize_authority_def split: sum.splits if_splits)
  have "selection_verify (ce_codec C) (ce_crypto C) dec (tx_id tx) FINALIZER_DOMAIN = Inr True"
    using verified agrees unfolding selection_verify_def committer_agrees_def by (auto split: sum.splits if_splits)
  moreover have "Sentinel \<in> set (find_node_types_by_public_key (ce_registry C) (co_nodes cs) (sel_sentinel dec))"
    and "(case held_decision (co_pending cs) (from_utf8_lossy (as_bytes i)) of Some held \<Rightarrow> \<not> same_decision_as held dec | None \<Rightarrow> False) = False"
    using agrees r by (auto simp: committer_agrees_def split: option.splits)
  moreover have "sel_finalizer dec = fe_public_key E" using names by (simp add: selection_names_def)
  ultimately show ?thesis
    using r names sig block by (simp add: block_authority_def Let_def verify_finalizer_sig_under_def)
qed

lemma try_optimistic_ok:
  assumes "map_of (transactions (fi_pending s)) i = Some pt" and "executable_transaction (pt_state pt) = Some tx"
    and "finalize_authority E V tx = Inr ()"
    and "sign_finalizer_block E (build_signed_transaction_optimistic E sg (tx\<lparr>tx_result_hash := sig_transaction_hash sg\<rparr>) voter) = Inr f"
  shows "try_finalize_optimistic E V i sg voter s =
     publish_optimistic E V i (tx\<lparr>tx_result_hash := sig_transaction_hash sg\<rparr>) (finalizer_key_of i s)
       ((build_signed_transaction_optimistic E sg (tx\<lparr>tx_result_hash := sig_transaction_hash sg\<rparr>) voter)\<lparr>sx_finalizer_sig := f\<rparr>) s"
proof -
  have load: "bind_act (load_executable i) k s = k tx s" for k :: "transaction \<Rightarrow> bytes fact"
    by (rule bind_ok) (simp add: load_executable_def assms(1,2))
  show ?thesis
    by (simp add: try_finalize_optimistic_def load bind_lift assms(3,4) Let_def)
qed

lemma vote_publishes:
  assumes "encoders_total E" and "fe_signing_key E = fe_identity E" and "public_key (fe_identity E) = Inr (fe_public_key E)"
    and "fe_un_sig E (msg_body m) = Inr sg" and "i = from_utf8_lossy (sig_transaction_id sg)"
    and "authenticate_signature_message E V m = Inr voter" and "check_inner_signature E voter sg = Inr ()"
    and "map_of (transactions (fi_pending s)) i = Some pt" and "executable_transaction (pt_state pt) = Some tx"
    and "finalize_authority E V tx = Inr ()" and "map_of (col_signatures (fi_collector s)) i = None"
  obtains reply t b cm rest sx f where "handle_signature E V m s = (Inr reply, t)"
    and "fe_rmp_commit E (commit_of E i (tx_token tx) b) = Inr (msg_body cm)" and "own_message E ''Commit'' (msg_body cm) cm"
    and "fi_sent t = fi_sent s @ (Committer, cm) # rest"
    and "map (\<lambda>x. (fst x, msg_action (snd x))) rest =
        [(Committer, ''BlockFinalized''), (Archiver, ''BlockFinalized''), (Sentinel, ''BlockFinalized''), (Sentinel, ''Clear'')]"
    and "map_option pt_state (map_of (transactions (fi_pending t)) i) =
        Some (Committed (tx\<lparr>tx_result_hash := sig_transaction_hash sg\<rparr>) (current_hash b))"
    and "sign_finalizer_block E sx = Inr f" and "sx_transaction sx = tx\<lparr>tx_result_hash := sig_transaction_hash sg\<rparr>"
    and "builder_create_block E (fv_now V) (sx\<lparr>sx_finalizer_sig := f\<rparr>) (resolve_previous_hash E V (tx_token tx)) (fi_epoch (voted V i voter sg s)) = Inr b"
proof -
  define sg' where "sg' = stamped V voter sg s"
  define u where "u = voted V i voter sg s"
  define tx' where "tx' = tx\<lparr>tx_result_hash := sig_transaction_hash sg\<rparr>"
  define sx where "sx = build_signed_transaction_optimistic E sg' tx' voter"
  have hash: "sig_transaction_hash sg' = sig_transaction_hash sg" by (simp add: sg'_def stamped_def)
  have u: "fi_pending u = fi_pending s" "fi_sent u = fi_sent s"
    by (simp_all add: u_def voted_def Let_def get_stakes_state(2) get_stakes_sent)
  obtain f where f: "sign_finalizer_block E sx = Inr f" using sign_finalizer_ok [OF assms(1,2)] by blast
  have authority: "finalize_authority_for_id E V i (fi_pending s) = Inr ()"
    using assms(8-10) by (simp add: finalize_authority_for_id_def)
  have e: "map_of (transactions (fi_pending u)) i = Some pt" using assms(8) u(1) by simp
  have f': "sign_finalizer_block E (build_signed_transaction_optimistic E sg' (tx\<lparr>tx_result_hash := sig_transaction_hash sg'\<rparr>) voter) = Inr f"
    using f unfolding sx_def tx'_def hash .
  have "handle_signature E V m s = try_finalize_optimistic E V i sg' voter u"
    unfolding sg'_def u_def handle_signature_first [OF assms(4,5,11) authority] assms(6,7) sum.case by (rule refl)
  moreover have "try_finalize_optimistic E V i sg' voter u = publish_optimistic E V i tx' (finalizer_key_of i u) (sx\<lparr>sx_finalizer_sig := f\<rparr>) u"
    using try_optimistic_ok [OF e assms(9,10) f'] unfolding hash tx'_def [symmetric] sx_def [symmetric] .
  ultimately have handle: "handle_signature E V m s = publish_optimistic E V i tx' (finalizer_key_of i u) (sx\<lparr>sx_finalizer_sig := f\<rparr>) u"
    by (rule trans)
  have sxt: "sx_transaction sx = tx'" and tok: "tx_token tx' = tx_token tx"
    by (simp_all add: sx_def optimistic_fields(2) hash tx'_def)
  obtain reply t b body cm rest where p: "publish_optimistic E V i tx' (finalizer_key_of i u) (sx\<lparr>sx_finalizer_sig := f\<rparr>) u = (Inr reply, t)"
    and b: "builder_create_block E (fv_now V) (sx\<lparr>sx_finalizer_sig := f\<rparr>) (resolve_previous_hash E V (tx_token tx')) (fi_epoch u) = Inr b"
    and body: "fe_rmp_commit E (commit_of E i (tx_token tx') b) = Inr body" and cm: "own_message E ''Commit'' body cm"
    and sent: "fi_sent t = fi_sent u @ (Committer, cm) # rest"
    and rest: "map (\<lambda>x. (fst x, msg_action (snd x))) rest =
        [(Committer, ''BlockFinalized''), (Archiver, ''BlockFinalized''), (Sentinel, ''BlockFinalized''), (Sentinel, ''Clear'')]"
    and state: "map_option pt_state (map_of (transactions (fi_pending t)) i) = Some (Committed tx' (current_hash b))"
    using publish_ok [OF assms(1,3) e, of V tx' "finalizer_key_of i u" "sx\<lparr>sx_finalizer_sig := f\<rparr>"] by (elim exE conjE) (rule that)
  have "body = msg_body cm" using cm by (simp add: own_message_def)
  then show thesis
    using that [of reply t b cm rest sx f] handle p b body cm sent rest state f sxt
    unfolding tok u(2) tx'_def [symmetric] u_def [symmetric] by simp
qed

text \<open>C5: the first vote of a registered executor on a preloaded transaction that is assigned to this finalizer
  yields a block, when the encoders and the signer do not fail: the handler returns, the entry is committed,
  and the first broadcast is a commit that every agreeing committer authenticates and accepts as routed to
  the sender and signed by it; the block carries the executed transaction with the hash the executor signed,
  links to the tip the finalizer read and carries its own hash.\<close>

theorem vote_yields_accepted_block:
  assumes "encoders_total E" and "fe_signing_key E = fe_identity E" and "public_key (fe_identity E) = Inr (fe_public_key E)"
    and "fe_un_sig E (msg_body m) = Inr sg" and "i = from_utf8_lossy (sig_transaction_id sg)"
    and "authenticate_signature_message E V m = Inr voter" and "check_inner_signature E voter sg = Inr ()"
    and "map_of (transactions (fi_pending s)) i = Some pt" and "executable_transaction (pt_state pt) = Some tx"
    and "finalize_authority E V tx = Inr ()" and "map_of (col_signatures (fi_collector s)) i = None"
    and "signs_correctly (fe_identity E)" and "committer_agrees E C cs i tx"
  shows "\<exists>reply t cm rest c. handle_signature E V m s = (Inr reply, t) \<and> fi_sent t = fi_sent s @ (Committer, cm) # rest \<and>
           map (\<lambda>x. (fst x, msg_action (snd x))) rest =
             [(Committer, ''BlockFinalized''), (Archiver, ''BlockFinalized''), (Sentinel, ''BlockFinalized''), (Sentinel, ''Clear'')] \<and>
           authenticate_message C cm cs = Inr () \<and> fe_rmp_commit E c = Inr (msg_body cm) \<and>
           commit_authority C cs c (msg_public_key cm) = Inr () \<and>
           sx_transaction (signed_trans (tc_block c)) = tx\<lparr>tx_result_hash := sig_transaction_hash sg\<rparr> \<and>
           previous_hash (tc_block c) = resolve_previous_hash E V (tx_token tx) \<and>
           create_hash (ce_codec C) (ce_hash C) (tc_block c) = Inr (current_hash (tc_block c)) \<and>
           map_option pt_state (map_of (transactions (fi_pending t)) i) =
             Some (Committed (tx\<lparr>tx_result_hash := sig_transaction_hash sg\<rparr>) (current_hash (tc_block c)))"
proof -
  obtain reply t b cm rest sx f where p: "handle_signature E V m s = (Inr reply, t)"
    and encoded: "fe_rmp_commit E (commit_of E i (tx_token tx) b) = Inr (msg_body cm)" and cm: "own_message E ''Commit'' (msg_body cm) cm"
    and sent: "fi_sent t = fi_sent s @ (Committer, cm) # rest"
    and rest: "map (\<lambda>x. (fst x, msg_action (snd x))) rest =
        [(Committer, ''BlockFinalized''), (Archiver, ''BlockFinalized''), (Sentinel, ''BlockFinalized''), (Sentinel, ''Clear'')]"
    and state: "map_option pt_state (map_of (transactions (fi_pending t)) i) =
        Some (Committed (tx\<lparr>tx_result_hash := sig_transaction_hash sg\<rparr>) (current_hash b))"
    and f: "sign_finalizer_block E sx = Inr f" and sxt: "sx_transaction sx = tx\<lparr>tx_result_hash := sig_transaction_hash sg\<rparr>"
    and b: "builder_create_block E (fv_now V) (sx\<lparr>sx_finalizer_sig := f\<rparr>) (resolve_previous_hash E V (tx_token tx)) (fi_epoch (voted V i voter sg s)) = Inr b"
    using vote_publishes [OF assms(1-11)] by blast
  note block = builder_block [OF b]
  have sxt': "sx_transaction (sx\<lparr>sx_finalizer_sig := f\<rparr>) = tx\<lparr>tx_result_hash := sig_transaction_hash sg\<rparr>" using sxt by simp
  have "block_authority C cs b (fe_public_key E) (from_utf8_lossy (as_bytes i)) = Inr ()"
    by (rule routed_block_accepted [OF assms(10,13) block(1) sxt' signed_block_verifies [OF assms(12,3,2) f assms(13)]])
  then have "commit_authority C cs (commit_of E i (tx_token tx) b) (msg_public_key cm) = Inr ()"
    using cm by (simp add: commit_authority_def own_message_def) (simp add: commit_of_def)
  moreover have "create_hash (ce_codec C) (ce_hash C) b = Inr (current_hash b)"
    using block(3) assms(13) by (simp add: committer_agrees_def)
  ultimately show ?thesis
    using p sent rest state encoded own_message_accepted [OF assms(12,3,13) cm] block sxt'
    by (intro exI [of _ reply] exI [of _ t] exI [of _ cm] exI [of _ rest] exI [of _ "commit_of E i (tx_token tx) b"]) simp
qed

section \<open>The concrete finalizer at work\<close>

lemma demo_authority: "finalize_authority demo_finalizer_env demo_view routed_tx = Inr ()"
  by code_simp

lemma demo_id: "from_utf8_lossy (as_bytes ''t1'') = ''t1''"
  by code_simp

lemma demo_voter:
  "authenticate_signature_message demo_finalizer_env demo_view vote_message = Inr [5]"
  "check_inner_signature demo_finalizer_env [5] vote_signature = Inr ()"
  by code_simp+

lemma demo_encoders: "encoders_total demo_finalizer_env"
  by (simp add: encoders_total_def demo_finalizer_env_def committer_codec_def demo_codec_def demo_crypto_def create_hash_def hash_input_def
      append_part_def canonical_signed_trans_bytes_def canonical_map_bytes_def shielded_canonical_bytes_def encoding_err_def split: option.split)

lemma fresh_preload:
  "preloaded_finalizer = fresh_finalizer\<lparr>fi_preloads := [(''t1'', [6])],
     fi_pending := registry_new\<lparr>transactions := [(''t1'', \<lparr>pt_id = ''t1'', pt_state = Preloaded routed_tx, lock_count = 0\<rparr>)]\<rparr>\<rparr>"
  by code_simp

lemma preloaded_entry:
  "map_of (transactions (fi_pending preloaded_finalizer)) ''t1'' = Some \<lparr>pt_id = ''t1'', pt_state = Preloaded routed_tx, lock_count = 0\<rparr>"
  "map_of (col_signatures (fi_collector preloaded_finalizer)) ''t1'' = None" "fi_sent preloaded_finalizer = []"
  by (simp_all add: fresh_preload fresh_finalizer_def finalizer_new_def collector_new_def)

lemma demo_messages:
  "fe_un_sig demo_finalizer_env (msg_body vote_message) = Inr vote_signature"
  "''t1'' = from_utf8_lossy (sig_transaction_id vote_signature)"
  "fe_un_tx demo_finalizer_env (msg_body preload_message) = Inr routed_tx"
  using demo_id by (simp_all add: demo_finalizer_env_def vote_message_def preload_message_def vote_signature_def)

lemma demo_keys:
  "fe_signing_key demo_finalizer_env = fe_identity demo_finalizer_env"
  "public_key (fe_identity demo_finalizer_env) = Inr (fe_public_key demo_finalizer_env)" "signs_correctly (fe_identity demo_finalizer_env)"
  using demo_crypto_signs by (simp_all add: demo_finalizer_env_def demo_crypto_def)

definition aware_committer :: "(demo_data, bytes) committer" where
  "aware_committer = demo_committer\<lparr>co_nodes := (co_nodes demo_committer)\<lparr>finalizers := [([9], demo_peer)]\<rparr>\<rparr>"

lemma demo_agrees: "committer_agrees demo_finalizer_env demo_committer_env aware_committer ''t1'' routed_tx"
proof -
  have "Finalizer \<in> set (find_node_types_by_public_key (ce_registry demo_committer_env) (co_nodes aware_committer) [9])"
    "Sentinel \<in> set (find_node_types_by_public_key (ce_registry demo_committer_env) (co_nodes aware_committer) [7])"
    by code_simp+
  moreover have "held_decision (co_pending aware_committer) j = None" for j
    by (simp add: aware_committer_def demo_committer_def held_decision_def registry_new_def)
  ultimately show ?thesis
    by (simp add: committer_agrees_def routed_tx_def) (simp add: demo_finalizer_env_def demo_committer_env_def)
qed

theorem vote_yields_accepted_block_witness:
  "\<exists>reply t cm rest c. handle_signature demo_finalizer_env demo_view vote_message preloaded_finalizer = (Inr reply, t) \<and>
     fi_sent t = (Committer, cm) # rest \<and> authenticate_message demo_committer_env cm aware_committer = Inr () \<and>
     commit_authority demo_committer_env aware_committer c (msg_public_key cm) = Inr () \<and>
     tx_result_hash (sx_transaction (signed_trans (tc_block c))) = [8]"
proof -
  have x: "executable_transaction (pt_state \<lparr>pt_id = ''t1'', pt_state = Preloaded routed_tx, lock_count = 0\<rparr>) = Some routed_tx"
    by (simp add: executable_transaction_def)
  have h: "sig_transaction_hash vote_signature = [8]" by (simp add: vote_signature_def)
  show ?thesis
    using vote_yields_accepted_block [OF demo_encoders demo_keys(1,2) demo_messages(1,2) demo_voter preloaded_entry(1) x
        demo_authority preloaded_entry(2) demo_keys(3) demo_agrees]
    unfolding preloaded_entry(3) append_Nil by (elim exE conjE) (intro exI conjI, assumption, assumption, assumption, assumption, simp add: h)
qed

theorem preload_vote_order_witness:
  "snd (handle_signature demo_finalizer_env demo_view vote_message (snd (handle_preload demo_finalizer_env demo_view preload_message fresh_finalizer))) =
   snd (handle_preload demo_finalizer_env demo_view preload_message (snd (handle_signature demo_finalizer_env demo_view vote_message fresh_finalizer)))"
  by (rule preload_vote_order [OF demo_messages(3,1)])
    (simp_all add: demo_messages(2) [symmetric], simp_all add: routed_tx_def demo_tx_def fresh_finalizer_def finalizer_new_def registry_new_def collector_new_def)

lemma preloaded_reachable:
  "(finalizer_step demo_finalizer_env)\<^sup>*\<^sup>* (finalizer_new demo_finalizer_env registry_new [] (Fin 67) 1) preloaded_finalizer"
  unfolding preloaded_finalizer_def fresh_finalizer_def by (rule r_into_rtranclp) (rule handled)

lemma vote_commits: "\<exists>x \<in> set (fi_sent (snd (finalizer_handle demo_finalizer_env demo_view vote_message preloaded_finalizer))). msg_action (snd x) = ''Commit''"
proof -
  have x: "executable_transaction (pt_state \<lparr>pt_id = ''t1'', pt_state = Preloaded routed_tx, lock_count = 0\<rparr>) = Some routed_tx"
    by (simp add: executable_transaction_def)
  obtain reply t cm rest where "handle_signature demo_finalizer_env demo_view vote_message preloaded_finalizer = (Inr reply, t)"
    and "own_message demo_finalizer_env ''Commit'' (msg_body cm) cm" and "fi_sent t = fi_sent preloaded_finalizer @ (Committer, cm) # rest"
    by (rule vote_publishes [OF demo_encoders demo_keys(1,2) demo_messages(1,2) demo_voter preloaded_entry(1) x demo_authority preloaded_entry(2)])
      (rule that; assumption)
  moreover have "msg_action vote_message = ''Sign''" by (simp add: vote_message_def)
  ultimately show ?thesis
    by (simp add: finalizer_handle_def own_message_def)
qed

theorem finalizer_commits_authorized_witness:
  "\<exists>x \<in> set (fi_sent (snd (finalizer_handle demo_finalizer_env demo_view vote_message preloaded_finalizer))).
     msg_action (snd x) = ''Commit'' \<and>
     authorized demo_finalizer_env demo_view (stakes_in_force demo_view preloaded_finalizer) (col_quorum (fi_collector preloaded_finalizer)) (snd x)"
  using finalizer_commits_authorized [OF preloaded_reachable, of demo_view vote_message] vote_commits
  unfolding preloaded_entry(3) by auto

end
