(* ===== verification/Finalizer_Shielded.thy ===== *)
theory Finalizer_Shielded
  imports Finalizer_Properties
begin

text \<open>
  A limit of the shielded path: finalization requires every collected vote to carry the hash of the
  recorded transfer, but a vote is admitted with any hash its sender signed, and only once per sender.
  One vote of a registered finalizer for another hash, whatever its stake, therefore keeps a transfer
  from ever being finalized.
\<close>

text \<open>The transfer of an identifier is recorded, and a collected vote carries another hash.\<close>

definition blocked_by :: "('f, 'p) finalizer_env \<Rightarrow> string \<Rightarrow> bytes \<times> transaction_signature \<Rightarrow> bytes \<Rightarrow> finalizer \<Rightarrow> bool" where
  "blocked_by E i v raw s \<longleftrightarrow>
     (\<exists>votes. map_of (col_signatures (fi_collector s)) i = Some votes \<and> v \<in> set votes) \<and> map_of (fi_shielded s) i = Some raw \<and>
     (\<exists>stx h. fe_un_shielded E raw = Inr stx \<and> shielded_hash (fe_codec E) (fe_hash E) stx = Inr h \<and> sig_transaction_hash (snd v) \<noteq> h)"

definition blocked_stays :: "('f, 'p) finalizer_env \<Rightarrow> string \<Rightarrow> bytes \<times> transaction_signature \<Rightarrow> bytes \<Rightarrow> finalizer \<Rightarrow> finalizer \<Rightarrow> bool" where
  "blocked_stays E i v raw s t \<longleftrightarrow> (blocked_by E i v raw s \<longrightarrow> blocked_by E i v raw t)"

interpretation stuck: action_order "blocked_stays E i v raw" for E i v raw
  by unfold_locales (auto simp: blocked_stays_def)

lemma blocked_frame:
  assumes "col_signatures (fi_collector t) = col_signatures (fi_collector s)" and "fi_shielded t = fi_shielded s"
  shows "blocked_stays E i v raw s t"
  using assms by (simp add: blocked_stays_def blocked_by_def)

lemma get_stakes_blocked: "blocked_stays E i v raw s (snd (get_stake_set_for_epoch V s))"
  by (rule blocked_frame) (simp_all add: get_stake_set_for_epoch_def case_prod_beta split: option.split)

lemma metrics_blocked: "blocked_stays E i v raw s (snd (resolve_stake_metrics V s))"
  unfolding resolve_stake_metrics_def by (rule stuck.bound) (simp_all add: get_stakes_blocked stuck.unchanged)

lemma voter_stake_blocked: "blocked_stays E i v raw s (snd (current_stake_for_voter V voter s))"
  unfolding current_stake_for_voter_def by (rule stuck.bound) (simp_all add: get_stakes_blocked stuck.unchanged)

lemma responsible_blocked: "blocked_stays E i v raw s (snd (finalizer_responsible_set F V s))"
  unfolding finalizer_responsible_set_def
  by (auto simp: stuck.unchanged split: option.splits intro!: stuck.bound get_stakes_blocked)

lemma reconcile_blocked: "blocked_stays E i v raw s (snd (collector_reconcile j m s))"
  by (rule blocked_frame) (simp_all add: collector_reconcile_def case_prod_beta reconcile_signatures_frame)

lemma fold_broadcast_shielded: "fi_shielded (fold (broadcast E V m payload) ts s) = fi_shielded s"
  by (induction ts arbitrary: s) (simp_all add: broadcast_def)

lemma dispatch_blocked: "blocked_stays E i v raw s (snd (dispatch_signed F V action body stakes ts s))"
  by (auto simp: dispatch_signed_def stuck.unchanged fold_broadcast_frame fold_broadcast_shielded intro!: blocked_frame split: sum.split)

lemma send_blocked:
  "blocked_stays E i v raw s (snd (send_to_committers F V c s))" "blocked_stays E i v raw s (snd (send_block_finalized F V b stakes s))"
  "blocked_stays E i v raw s (snd (send_shielded_vote_to_finalizers F V vote s))"
  by (simp_all add: send_to_committers_def send_block_finalized_def send_shielded_vote_to_finalizers_def dispatch_blocked)

lemma recorded_blocked: "blocked_stays E i v raw s (snd (recorded_transfer F j s))"
  by (simp add: recorded_transfer_def stuck.unchanged split: option.split)

lemma votes_bind_blocked: "blocked_stays E i v raw s (snd (votes_bind j h s))"
  by (simp add: votes_bind_def stuck.unchanged split: option.split)

lemma cleanup_blocked:
  assumes "j \<noteq> i"
  shows "blocked_stays E i v raw s (snd (alter (\<lambda>s. s\<lparr>fi_shielded := AList.delete j (fi_shielded s),
      fi_collector := (fi_collector s)\<lparr>col_signatures := snd (try_remove_transaction j (col_signatures (fi_collector s)))\<rparr>\<rparr>) s))"
  using assms by (auto simp: blocked_stays_def blocked_by_def try_remove_transaction_def delete_conv')

lemmas blocked_ops = get_stakes_blocked metrics_blocked responsible_blocked reconcile_blocked send_blocked recorded_blocked
  votes_bind_blocked stuck.unchanged

lemma try_other_blocked:
  assumes "j \<noteq> i"
  shows "blocked_stays E i v raw s (snd (try_finalize_shielded F V j s))"
  unfolding try_finalize_shielded_def Let_def case_prod_beta finalizer_reply_def
  by (intro stuck.bound_lift stuck.bound blocked_ops cleanup_blocked [OF assms] stuck.lifted) (simp_all add: stuck.unchanged)

text \<open>The finalization of the blocked transfer fails, whatever quorum its votes reach.\<close>

lemma try_same_blocked:
  assumes "blocked_by E i v raw s"
  shows "\<exists>e t. try_finalize_shielded E V i s = (Inl e, t) \<and> blocked_by E i v raw t"
proof -
  obtain r1 s1 where 1: "finalizer_responsible_set E V s = (r1, s1)" by fastforce
  have b1: "blocked_by E i v raw s1" using responsible_blocked [of E i v raw s E V] assms 1 by (simp add: blocked_stays_def)
  show ?thesis
  proof (cases r1)
    case (Inl e)
    then show ?thesis using 1 b1 by (simp add: try_finalize_shielded_def bind_err)
  next
    case (Inr m)
    obtain r2 s2 where 2: "collector_reconcile i m s1 = (r2, s2)" by fastforce
    have b2: "blocked_by E i v raw s2" using reconcile_blocked [of E i v raw s1 i m] b1 2 by (simp add: blocked_stays_def)
    show ?thesis
    proof (cases r2)
      case err: (Inl e)
      have "try_finalize_shielded E V i s = (Inl e, s2)"
        unfolding try_finalize_shielded_def bind_ok [of "finalizer_responsible_set E V", OF 1 [unfolded Inr]]
        by (rule bind_err) (simp add: 2 err)
      then show ?thesis using b2 by blast
    next
      case rec: (Inr r)
      obtain stx h votes where raw: "map_of (fi_shielded s2) i = Some raw" "fe_un_shielded E raw = Inr stx"
        and h: "shielded_hash (fe_codec E) (fe_hash E) stx = Inr h" "sig_transaction_hash (snd v) \<noteq> h"
        and votes: "map_of (col_signatures (fi_collector s2)) i = Some votes" "v \<in> set votes"
        using b2 by (auto simp: blocked_by_def)
      have "recorded_transfer E i s2 = (Inr stx, s2)" using raw by (simp add: recorded_transfer_def encoding_err_def)
      moreover have "votes_bind i h s2 = (Inl (CryptoError ''a shielded vote binds a different hash''), s2)"
        using votes h(2) by (auto simp: votes_bind_def get_transaction_registry_def list_ex_iff)
      ultimately have "try_finalize_shielded E V i s = (Inl (CryptoError ''a shielded vote binds a different hash''), s2)"
        unfolding try_finalize_shielded_def using 1 2 Inr rec h(1) by (simp add: bind_act_def)
      then show ?thesis using b2 by blast
    qed
  qed
qed

lemma try_blocked: "blocked_stays E i v raw s (snd (try_finalize_shielded E V j s))"
proof (cases "j = i")
  case True
  then show ?thesis using try_same_blocked [of E i v raw s V] by (auto simp: blocked_stays_def)
qed (rule try_other_blocked)

lemma add_blocked: "blocked_stays E i v raw s (snd (collector_add j key sg s))"
proof -
  have "\<exists>votes'. map_of (col_signatures (snd (add_signature j key sg c))) i = Some votes' \<and> set votes \<subseteq> set votes'"
    if "map_of (col_signatures c) i = Some votes" for c votes
    using that
    by (auto simp: add_signature_def ensure_transaction_registered_def try_add_signature_def update_conv' update_new map_of_eq_None_iff
        case_prod_beta split: option.splits)
  then show ?thesis
    by (auto simp: blocked_stays_def blocked_by_def collector_add_def case_prod_beta) blast
qed

lemma record_blocked: "blocked_stays E i v raw s (snd (record_shielded j canonical s))"
  by (auto simp: blocked_stays_def blocked_by_def record_shielded_def update_conv' split: option.splits)

lemma handle_shielded_vote_blocked: "blocked_stays E i v raw s (snd (handle_shielded_vote E V m s))"
  unfolding handle_shielded_vote_def Let_def case_prod_beta
  by (intro stuck.bound_lift stuck.bound voter_stake_blocked add_blocked metrics_blocked) (auto simp: stuck.unchanged intro: try_blocked)

lemma handle_sign_shielded_blocked: "blocked_stays E i v raw s (snd (handle_sign_shielded E V m s))"
  unfolding handle_sign_shielded_def
  by (intro stuck.bound_lift stuck.bound record_blocked voter_stake_blocked send_blocked) (simp_all add: stuck.unchanged)

text \<open>Any number of shielded messages, in whatever views.\<close>

inductive shielded_step :: "('f, 'p) finalizer_env \<Rightarrow> finalizer \<Rightarrow> finalizer \<Rightarrow> bool" for E where
  vote_request: "shielded_step E s (snd (handle_sign_shielded E V m s))"
| vote: "shielded_step E s (snd (handle_shielded_vote E V m s))"

lemma shielded_run_blocked: "(shielded_step E)\<^sup>*\<^sup>* s t \<Longrightarrow> blocked_stays E i v raw s t"
  by (rule stuck.iterated [of "shielded_step E"])
    (auto elim!: shielded_step.cases intro: handle_sign_shielded_blocked handle_shielded_vote_blocked)

lemma update_member: "(k, x) \<in> set (AList.update k x m)"
  by (rule map_of_SomeD) (simp add: update_conv')

lemma new_vote:
  assumes new: "\<And>votes. map_of (col_signatures c) i = Some votes \<Longrightarrow> map_of votes voter = None"
  shows "fst (add_signature i voter sg c) = Inr ()"
    and "\<exists>votes. map_of (col_signatures (snd (add_signature i voter sg c))) i = Some votes \<and> (voter, sg) \<in> set votes"
proof -
  obtain votes where g: "map_of (ensure_transaction_registered i (col_signatures c)) i = Some votes" and v: "map_of votes voter = None"
    using new by (cases "map_of (col_signatures c) i") (auto simp: ensure_transaction_registered_def update_conv')
  show "fst (add_signature i voter sg c) = Inr ()"
    using g v by (simp add: add_signature_def try_add_signature_def)
  show "\<exists>votes. map_of (col_signatures (snd (add_signature i voter sg c))) i = Some votes \<and> (voter, sg) \<in> set votes"
    using g v by (simp add: add_signature_def try_add_signature_def update_conv' update_member)
qed

lemma first_wrong_vote:
  assumes rec: "map_of (fi_shielded s) i = Some raw" "fe_un_shielded E raw = Inr stx" "shielded_hash (fe_codec E) (fe_hash E) stx = Inr h"
    and vote: "fe_un_sig E (msg_body m) = Inr sg" "i = from_utf8_lossy (sig_transaction_id sg)" "sig_transaction_hash sg \<noteq> h"
    and auth: "authenticate_shielded_message E V m = Inr voter" "check_inner_signature E voter sg = Inr ()"
    and new: "\<And>votes. map_of (col_signatures (fi_collector s)) i = Some votes \<Longrightarrow> map_of votes voter = None"
  shows "blocked_by E i (voter, stamped V voter sg s) raw (snd (handle_shielded_vote E V m s))"
proof -
  let ?sg = "stamped V voter sg s"
  have added: "collector_add i voter ?sg (snd (get_stake_set_for_epoch V s)) = (Inr (), voted V i voter sg s)"
    and cast: "\<exists>votes. map_of (col_signatures (fi_collector (voted V i voter sg s))) i = Some votes \<and> (voter, ?sg) \<in> set votes"
    using new_vote [of "fi_collector s" i voter ?sg, OF new] by (simp_all add: collector_add_def voted_def Let_def get_stakes_state(3) prod.case_eq_if)
  have "fi_shielded (voted V i voter sg s) = fi_shielded s"
    by (simp add: voted_def Let_def get_stake_set_for_epoch_def case_prod_beta split: option.split)
  then have blocked: "blocked_by E i (voter, ?sg) raw (voted V i voter sg s)"
    using cast rec vote(3) by (auto simp: blocked_by_def stamped_def)
  have "blocked_stays E i (voter, ?sg) raw (voted V i voter sg s) (snd (bind_act (resolve_stake_metrics V) (\<lambda>(declared, _).
      bind_act (\<lambda>s. (check_stake_quorum (fi_collector s) i declared, s)) (\<lambda>met.
      if met then try_finalize_shielded E V i else ret acknowledge)) (voted V i voter sg s)))"
    unfolding case_prod_beta by (intro stuck.bound metrics_blocked) (auto simp: stuck.unchanged intro: try_blocked)
  moreover have "bind_act (current_stake_for_voter V voter) k s = k (sig_current_stake ?sg) (snd (get_stake_set_for_epoch V s))" for k :: "u64 \<Rightarrow> bytes fact"
    by (rule bind_ok) (simp add: voter_stake_state stamped_def)
  moreover have "sg\<lparr>sig_current_stake := sig_current_stake ?sg\<rparr> = ?sg" by (simp add: stamped_def)
  moreover have "bind_act (collector_add i voter ?sg) k (snd (get_stake_set_for_epoch V s)) = k () (voted V i voter sg s)" for k :: "unit \<Rightarrow> bytes fact"
    by (rule bind_ok) (rule added)
  moreover have "from_utf8_lossy (sig_transaction_id ?sg) = i" by (simp add: stamped_def vote(2))
  ultimately have "blocked_stays E i (voter, ?sg) raw (voted V i voter sg s) (snd (handle_shielded_vote E V m s))"
    by (simp add: handle_shielded_vote_def bind_lift encoding_err_def auth vote(1) vote(2) [symmetric] Let_def cong: if_cong)
  then show ?thesis using blocked by (simp add: blocked_stays_def)
qed

text \<open>C32: once the transfer of an identifier is recorded, a single vote of a registered finalizer that carries
  another hash, signed by its sender and whatever its stake, blocks the transfer: after any further vote
  requests and votes, finalizing it fails, so that no quorum of correct votes can commit it.\<close>

theorem wrong_vote_blocks_transfer:
  assumes "map_of (fi_shielded s) i = Some raw" and "fe_un_shielded E raw = Inr stx" and "shielded_hash (fe_codec E) (fe_hash E) stx = Inr h"
    and "fe_un_sig E (msg_body m) = Inr sg" and "i = from_utf8_lossy (sig_transaction_id sg)" and "sig_transaction_hash sg \<noteq> h"
    and "authenticate_shielded_message E V m = Inr voter" and "check_inner_signature E voter sg = Inr ()"
    and "\<And>votes. map_of (col_signatures (fi_collector s)) i = Some votes \<Longrightarrow> map_of votes voter = None"
    and "(shielded_step E)\<^sup>*\<^sup>* (snd (handle_shielded_vote E V m s)) t"
  shows "\<exists>e u. try_finalize_shielded E W i t = (Inl e, u)"
  using first_wrong_vote [OF assms(1-9)] shielded_run_blocked [OF assms(10)] try_same_blocked
  unfolding blocked_stays_def by blast

text \<open>Finalizer 8, which holds no stake, votes for the hash 3 instead of the transfer's.\<close>

definition bad_vote :: transaction_signature where
  "bad_vote = \<lparr>sig_transaction_id = as_bytes ''t1'', sig_env_id = [], sig_transaction_hash = [3], sig_signature = [8, 3], sig_current_stake = 0\<rparr>"

definition bad_vote_env :: "(bytes, bytes) finalizer_env" where
  "bad_vote_env = demo_finalizer_env\<lparr>fe_un_sig := (\<lambda>_. Inr bad_vote)\<rparr>"

definition bad_vote_message :: message where
  "bad_vote_message = \<lparr>msg_chain_id = ''env'', msg_action = ''ShieldedVote'', msg_body = [4], msg_signature = [8, 4], msg_public_key = [8],
                       msg_stake_set = None\<rparr>"

theorem wrong_vote_blocks_transfer_witness:
  "\<exists>e u. try_finalize_shielded bad_vote_env demo_view ''t1''
     (snd (handle_shielded_vote bad_vote_env demo_view bad_vote_message (fresh_finalizer\<lparr>fi_shielded := [(''t1'', [2])]\<rparr>))) = (Inl e, u)"
proof -
  have h: "shielded_hash (fe_codec bad_vote_env) (fe_hash bad_vote_env) demo_transfer = Inr (length_hash [2])"
    by (simp add: bad_vote_env_def demo_finalizer_env_def committer_codec_def demo_codec_def shielded_hash_def shielded_canonical_bytes_def encoding_err_def)
  have other: "sig_transaction_hash bad_vote \<noteq> length_hash [2]"
    by (rule notI, drule arg_cong [where f = length]) (simp add: bad_vote_def length_hash_def)
  have voter: "authenticate_shielded_message bad_vote_env demo_view bad_vote_message = Inr [8]"
    "check_inner_signature bad_vote_env [8] bad_vote = Inr ()"
    by code_simp+
  show ?thesis
    by (rule wrong_vote_blocks_transfer [OF _ _ h _ _ other voter _ rtranclp.rtrancl_refl, where raw = "[2]"])
      (simp_all add: demo_id bad_vote_env_def demo_finalizer_env_def bad_vote_def fresh_finalizer_def finalizer_new_def collector_new_def)
qed

end
