(* ===== verification/Executor.thy ===== *)
theory Executor
  imports Finalizer
begin

text \<open>
  The executor (\<^verbatim>\<open>executor/src/executor.rs\<close>): intake of a preload under backpressure, the execution
  pipeline of a transaction with its two protocol operations, the send to the assigned finalizer and the
  spawned task around it.  What a run reads from outside (node registry, data provider) is a view given
  to the call; the engines, the encoders, the hash and the signature scheme are in the environment,
  together with whether an engine panics on an input.  A task is spawned: between its spawning, its
  tracking and its end other calls may run, so these are separate steps.
\<close>

section \<open>Errors, environment and state\<close>

datatype executor_error =
    ExData data_error | ExEncoding io_error | ExRegistry string | ExInvalidState string
  | ExValidation "validation_failure_reason list" | ExNoFinalizers string | ExNoRoutingDecision string
  | ExCrypto pneumatic_error | ExAtCapacity nat nat | ExTimeout

record execution_result =
  xr_transaction_id :: string
  xr_result_data :: bytes
  xr_result_hash :: bytes
  xr_gas_used :: u64

record executor_env =
  xe_env_id :: string
  xe_public_key :: bytes
  xe_identity :: crypto_provider
  xe_crypto :: crypto_provider
  xe_partition :: string
  xe_hash :: "bytes \<Rightarrow> bytes"
  xe_max_in_flight :: nat
  xe_fanout :: fanout_env
  xe_governance :: governance_codec
  xe_engines :: "(string \<times> engine) list"
  xe_host :: "string \<Rightarrow> call_fn option \<Rightarrow> exec_input \<Rightarrow> contract_error + exec_output"
  xe_panics :: "engine \<Rightarrow> exec_input \<Rightarrow> bool"
  xe_program :: "bytes \<Rightarrow> io_error + instruction_program"
  xe_transfer :: "transfer_delta \<Rightarrow> io_error + bytes"
  xe_un_transfer :: "bytes \<Rightarrow> io_error + transfer_delta"
  xe_rmp_tx :: "transaction \<Rightarrow> io_error + bytes"
  xe_un_tx :: "bytes \<Rightarrow> io_error + transaction"
  xe_rmp_sig :: "transaction_signature \<Rightarrow> io_error + bytes"
  xe_rmp_message :: "message \<Rightarrow> io_error + bytes"

text \<open>\<open>xv_later\<close> is the registry at the moment of a direct send.\<close>

record executor_view =
  xv_nodes :: node_registry
  xv_later :: node_registry
  xv_token :: "bytes \<Rightarrow> string \<Rightarrow> data_error + token"
  xv_user :: "bytes \<Rightarrow> string \<Rightarrow> data_error + user"

text \<open>A results store is shared by the task and the table of tasks: the table holds its number.  A task
  between its spawning and its tracking is in \<open>ex_starting\<close>, one that has not settled in \<open>ex_spawned\<close>.\<close>

record executor =
  ex_pending :: pending_registry
  ex_preload_tasks :: "(string \<times> nat) list"
  ex_stores :: "(nat \<times> (string \<times> (executor_error + execution_result)) list) list"
  ex_active :: "string list"
  ex_starting :: "(string \<times> nat) list"
  ex_spawned :: "(string \<times> nat) list"
  ex_delivery :: delivery
  ex_sent :: "(bytes \<times> message) list"

type_synonym 'a xact = "(executor_error, executor, 'a) action"

definition executor_new :: "pending_registry \<Rightarrow> executor" where
  "executor_new r =
     \<lparr>ex_pending = r, ex_preload_tasks = [], ex_stores = [], ex_active = [], ex_starting = [], ex_spawned = [],
      ex_delivery = delivery_new, ex_sent = []\<rparr>"

text \<open>The conversions of \<^verbatim>\<open>?\<close>.\<close>

definition from_contract_error :: "contract_error + 'a \<Rightarrow> executor_error + 'a" where
  "from_contract_error r = (case r of Inl e \<Rightarrow> Inl (ExValidation (to_failure_reasons e)) | Inr x \<Rightarrow> Inr x)"

definition from_pneumatic_error :: "'a res \<Rightarrow> executor_error + 'a" where
  "from_pneumatic_error r = (case r of Inl e \<Rightarrow> Inl (ExData (DataCryptoError ''error'')) | Inr x \<Rightarrow> Inr x)"

definition from_io_error :: "io_error + 'a \<Rightarrow> executor_error + 'a" where
  "from_io_error r = (case r of Inl e \<Rightarrow> Inl (ExEncoding e) | Inr x \<Rightarrow> Inr x)"

definition or_failed :: "validation_failure_reason \<Rightarrow> 'e + 'a \<Rightarrow> executor_error + 'a" where
  "or_failed why r = (case r of Inl _ \<Rightarrow> Inl (ExValidation [why]) | Inr x \<Rightarrow> Inr x)"

section \<open>Pinned targets of calls\<close>

definition target_resolve :: "executor_env \<Rightarrow> executor_view \<Rightarrow> bytes \<Rightarrow> snapshot_ref \<Rightarrow> bytes \<Rightarrow> contract_error + pinned_target" where
  "target_resolve X V target r sender =
     (case xv_token V target (xe_partition X) of
        Inl _ \<Rightarrow> Inl (InvalidInput ''target token fetch failed'')
      | Inr t \<Rightarrow>
          (case validate_snapshot_ref (tok_blockchain t) r of
             Inl e \<Rightarrow> Inl (InvalidInput e)
           | Inr _ \<Rightarrow>
               (case get_asset (gc_un_contract (xe_governance X)) t of
                  None \<Rightarrow> Inl (InvalidInput ''target token has no contract asset'')
                | Some sc \<Rightarrow>
                    (case xv_user V sender (xe_partition X) of
                       Inl _ \<Rightarrow> Inl (InvalidInput ''target sender fetch failed'')
                     | Inr u \<Rightarrow> Inr \<lparr>pin_token = t, pin_contract = sc, pin_sender = u, pin_ref = r\<rparr>))))"

definition executor_world :: "executor_env \<Rightarrow> executor_view \<Rightarrow> world" where
  "executor_world X V =
     \<lparr>cw_registry = xe_engines X, cw_resolve = target_resolve X V, cw_host = xe_host X, cw_program = xe_program X, cw_transfer = xe_transfer X\<rparr>"

section \<open>Execution of a transaction\<close>

definition execute_contract :: "executor_env \<Rightarrow> executor_view \<Rightarrow> transaction \<Rightarrow> token \<Rightarrow> user \<Rightarrow> executor_error + exec_output" where
  "execute_contract X V tx t u =
     (case get_asset (gc_un_contract (xe_governance X)) t of
        None \<Rightarrow> Inl (ExValidation [ContractNotFound])
      | Some sc \<Rightarrow>
          (case from_contract_error (select_engine (xe_engines X) t) of
             Inl e \<Rightarrow> Inl e
           | Inr engine \<Rightarrow>
               (let inp = \<lparr>ei_tx = tx\<lparr>tx_selection := None\<rparr>, ei_contract = sc, ei_sender = u, ei_token = t,
                           ei_gas_limit = tx_gas_limit tx, ei_storage = sc_storage sc, ei_depth = Some 0\<rparr>
                in if xe_panics X engine inp then Inl (ExValidation [ContractExecutionFailed])
                   else from_contract_error (engine_execute (executor_world X V) engine inp))))"

definition execute_deploy :: "executor_env \<Rightarrow> transaction \<Rightarrow> executor_error + exec_output" where
  "execute_deploy X tx =
     (case or_failed ContractDeployFailed (gc_un_deploy (xe_governance X) (tx_payload tx)) of
        Inl e \<Rightarrow> Inl e
      | Inr params \<Rightarrow>
          (let gas = deploy_gas (length (dpl_bytecode params))
           in if tx_gas_limit tx > 0 \<and> gas > tx_gas_limit tx then Inl (ExValidation [GasLimitExceeded])
              else case from_contract_error (deploy_contract (xe_governance X) (xe_hash X) (tx_sender tx) (of_nat (tx_seq tx)) params) of
                     Inl e \<Rightarrow> Inl e
                   | Inr delta \<Rightarrow>
                       (case or_failed ContractDeployFailed (gc_create (xe_governance X) delta) of
                          Inl e \<Rightarrow> Inl e
                        | Inr raw \<Rightarrow> Inr \<lparr>eo_result = raw, eo_gas = gas\<rparr>)))"

definition execute_upgrade :: "executor_env \<Rightarrow> transaction \<Rightarrow> token \<Rightarrow> executor_error + exec_output" where
  "execute_upgrade X tx t =
     (case or_failed ContractUpgradeFailed (gc_un_upgrade (xe_governance X) (tx_payload tx)) of
        Inl e \<Rightarrow> Inl e
      | Inr params \<Rightarrow>
          (let gas = upgrade_gas (length (up_new_bytecode params))
           in if tx_gas_limit tx > 0 \<and> gas > tx_gas_limit tx then Inl (ExValidation [GasLimitExceeded])
              else case get_asset (gc_un_contract (xe_governance X)) t of
                     None \<Rightarrow> Inl (ExValidation [ContractUpgradeFailed])
                   | Some current \<Rightarrow>
                       if sc_threshold current = 0 then Inl (ExValidation [ContractUpgradeFailed])
                       else case from_contract_error (verify_quorum (xe_governance X) (xe_hash X) (xe_crypto X) (tx_token tx) params
                                                        (sc_owners current) (sc_threshold current)) of
                              Inl e \<Rightarrow> Inl e
                            | Inr quorum \<Rightarrow>
                                if \<not> quorum then Inl (ExValidation [ContractUpgradeFailed])
                                else (case or_failed ContractUpgradeFailed (gc_replace (xe_governance X)
                                             \<lparr>rad_token_id = tx_token tx, rad_new_bytecode = up_new_bytecode params,
                                              rad_new_owners = up_new_owners params, rad_new_threshold = up_new_threshold params,
                                              rad_proposal_epoch = up_proposal_epoch params\<rparr>) of
                                        Inl e \<Rightarrow> Inl e
                                      | Inr raw \<Rightarrow> Inr \<lparr>eo_result = raw, eo_gas = gas\<rparr>)))"

definition validate_execution_result :: "executor_env \<Rightarrow> transaction \<Rightarrow> execution_result \<Rightarrow> validation_failure_reason list + unit" where
  "validate_execution_result X tx r =
     (let reasons =
        (if xr_result_data r = [] then [ContractExecutionFailed] else []) @
        (if xr_result_hash r = [] then [MissingResultHash] else []) @
        (if tx_gas_limit tx > 0 \<and> xr_gas_used r > tx_gas_limit tx then [GasLimitExceeded] else []) @
        (case xe_un_transfer X (xr_result_data r) of
           Inl _ \<Rightarrow> []
         | Inr delta \<Rightarrow>
             if td_amount delta \<noteq> (case tx_amount tx of Some a \<Rightarrow> a | None \<Rightarrow> 0) \<or> td_sender delta \<noteq> tx_sender tx \<or>
                td_receiver delta \<noteq> tx_receiver tx \<or> td_token delta \<noteq> tx_token tx
             then [InvalidAmount] else [])
      in if reasons = [] then Inr () else Inl reasons)"

section \<open>The assigned finalizer\<close>

definition get_finalizer_key :: "transaction \<Rightarrow> pending_registry \<Rightarrow> bytes" where
  "get_finalizer_key tx r =
     (let registered =
        (case map_of (transactions r) (tx_id tx) of
           None \<Rightarrow> []
         | Some pt \<Rightarrow> (case pt_state pt of Validated _ v \<Rightarrow> finalizer_public_key v | Finalizing _ key \<Rightarrow> key | _ \<Rightarrow> []))
      in case tx_selection tx of
           Some dec \<Rightarrow> if sel_finalizer dec \<noteq> [] then sel_finalizer dec else registered
         | None \<Rightarrow> registered)"

text \<open>One signed frame to one finalizer; the reply says whether it was reached.\<close>

definition send_frame :: "executor_env \<Rightarrow> executor_view \<Rightarrow> bytes \<Rightarrow> string \<Rightarrow> bytes \<Rightarrow> bool xact" where
  "send_frame X V target action body =
     bind_act (lift_res (from_pneumatic_error (message_signed (xe_identity X) (xe_env_id X) action body None))) (\<lambda>m.
     bind_act (lift_res (from_io_error (xe_rmp_message X m))) (\<lambda>payload s.
     case send_to_peers (xe_fanout X) (xv_nodes V) (xv_later V) [target] Finalizer payload (ex_delivery s) of
       (missed, d) \<Rightarrow> (Inr (missed = []), s\<lparr>ex_delivery := d, ex_sent := ex_sent s @ [(target, m)]\<rparr>)))"

definition send_to_finalizer :: "executor_env \<Rightarrow> executor_view \<Rightarrow> string \<Rightarrow> bytes \<Rightarrow> bytes \<Rightarrow> bytes \<Rightarrow> unit xact" where
  "send_to_finalizer X V i tx_bytes result_hash finalizer_key =
     (if finalizer_key = [] then raise (ExNoRoutingDecision i)
      else bind_act (send_frame X V finalizer_key ''PreloadForFinalizer'' tx_bytes) (\<lambda>reached.
           if \<not> reached then raise (ExNoFinalizers ''the assigned Finalizer is not reachable'')
           else bind_act (lift_res (case sign_data (xe_identity X) result_hash of Inl e \<Rightarrow> Inl (ExCrypto e) | Inr g \<Rightarrow> Inr g)) (\<lambda>signature.
                bind_act (lift_res (from_io_error (xe_rmp_sig X
                    \<lparr>sig_transaction_id = as_bytes i, sig_env_id = as_bytes (xe_env_id X), sig_transaction_hash = result_hash,
                     sig_signature = signature, sig_current_stake = 0\<rparr>))) (\<lambda>body.
                bind_act (send_frame X V finalizer_key ''Sign'' body) (\<lambda>reached.
                if \<not> reached then raise (ExNoFinalizers ''the vote did not reach its assigned Finalizer'') else ret ())))))"

section \<open>The pipeline\<close>

definition executor_transition :: "string \<Rightarrow> (pending_transaction \<Rightarrow> pending_transaction) \<Rightarrow> unit xact" where
  "executor_transition i f = alter (\<lambda>s. s\<lparr>ex_pending := snd (with_transaction_mut i f (ex_pending s))\<rparr>)"

text \<open>The states an execution starts from, and a timeout fails from.\<close>

definition runnable_transaction :: "transaction_state \<Rightarrow> transaction option" where
  "runnable_transaction st =
     (case st of Preloaded tx \<Rightarrow> Some tx | Validated tx _ \<Rightarrow> Some tx | Executing tx \<Rightarrow> Some tx | _ \<Rightarrow> None)"

definition load_runnable :: "string \<Rightarrow> transaction xact" where
  "load_runnable i =
     (\<lambda>s. case map_of (transactions (ex_pending s)) i of
            None \<Rightarrow> (Inl (ExRegistry ''not found''), s)
          | Some pt \<Rightarrow>
              (case runnable_transaction (pt_state pt) of
                 None \<Rightarrow> (Inl (ExInvalidState ''terminal state''), s)
               | Some tx \<Rightarrow> (Inr tx, s)))"

text \<open>Steps 3 to 5: the first result is a failure to fetch, which does not fail the transaction.\<close>

definition execute_transaction :: "executor_env \<Rightarrow> executor_view \<Rightarrow> transaction \<Rightarrow> executor_error + executor_error + exec_output" where
  "execute_transaction X V tx =
     (if tx_action tx = ''DeployContract'' then Inr (execute_deploy X tx)
      else case xv_token V (tx_token tx) (xe_partition X) of
             Inl e \<Rightarrow> Inl (ExData e)
           | Inr t \<Rightarrow>
               (case xv_user V (tx_sender tx) (xe_partition X) of
                  Inl e \<Rightarrow> Inl (ExData e)
                | Inr u \<Rightarrow>
                    Inr (if tx_action tx = ''UpgradeContract'' then execute_upgrade X tx t else execute_contract X V tx t u)))"

definition fail_and_raise :: "string \<Rightarrow> transaction \<Rightarrow> validation_failure_reason list \<Rightarrow> executor_error \<Rightarrow> 'a xact" where
  "fail_and_raise i tx reasons e = bind_act (executor_transition i (transition_to_failed tx reasons)) (\<lambda>_. raise e)"

text \<open>Steps 9 to 11: the assigned finalizer and the send to it.\<close>

definition deliver_result :: "executor_env \<Rightarrow> executor_view \<Rightarrow> string \<Rightarrow> transaction \<Rightarrow> execution_result \<Rightarrow> execution_result xact" where
  "deliver_result X V i tx r =
     bind_act (\<lambda>s. (Inr (get_finalizer_key tx (ex_pending s)), s)) (\<lambda>key.
     bind_act (executor_transition i (transition_to_finalizing tx key)) (\<lambda>_.
     bind_act (lift_res (from_io_error (xe_rmp_tx X tx))) (\<lambda>tx_bytes s.
     case send_to_finalizer X V i tx_bytes (xr_result_hash r) key s of
       (Inl e, s') \<Rightarrow> fail_and_raise i tx [ContractNotFound] e s'
     | (Inr _, s') \<Rightarrow> (Inr r, s'))))"

definition result_of :: "executor_env \<Rightarrow> string \<Rightarrow> exec_output \<Rightarrow> execution_result" where
  "result_of X i out =
     \<lparr>xr_transaction_id = i, xr_result_data = eo_result out, xr_result_hash = xe_hash X (eo_result out), xr_gas_used = eo_gas out\<rparr>"

definition run_execution :: "executor_env \<Rightarrow> executor_view \<Rightarrow> string \<Rightarrow> execution_result xact" where
  "run_execution X V i =
     bind_act (load_runnable i) (\<lambda>tx.
     bind_act (executor_transition i (transition_to_executing tx)) (\<lambda>_.
     bind_act (lift_res (execute_transaction X V tx)) (\<lambda>outcome.
     case outcome of
       Inl (ExValidation reasons) \<Rightarrow> fail_and_raise i tx reasons (ExValidation reasons)
     | Inl e \<Rightarrow> raise e
     | Inr out \<Rightarrow>
         (case validate_execution_result X tx (result_of X i out) of
            Inl reasons \<Rightarrow> fail_and_raise i tx reasons (ExValidation reasons)
          | Inr _ \<Rightarrow> deliver_result X V i (tx\<lparr>tx_result_data := eo_result out\<rparr>) (result_of X i out)))))"

section \<open>Tasks and backpressure\<close>

definition is_at_capacity :: "executor_env \<Rightarrow> executor \<Rightarrow> bool" where
  "is_at_capacity X s \<longleftrightarrow> length (ex_active s) \<ge> xe_max_in_flight X"

definition executor_in_flight :: "executor \<Rightarrow> nat" where
  "executor_in_flight s = length (ex_active s)"

definition insert_id :: "string \<Rightarrow> string list \<Rightarrow> string list" where
  "insert_id i xs = (if i \<in> set xs then xs else xs @ [i])"

text \<open>Steps 1 to 3 of \<^verbatim>\<open>preload_for_transaction\<close>: the lock, the capacity check and the spawn.\<close>

definition preload_spawn :: "executor_env \<Rightarrow> string \<Rightarrow> nat xact" where
  "preload_spawn X i =
     (\<lambda>s. case acquire_transaction i (ex_pending s) of
            (Inl _, r) \<Rightarrow> (Inl (ExRegistry ''not found or in terminal state''), s\<lparr>ex_pending := r\<rparr>)
          | (Inr _, r) \<Rightarrow>
              (let s1 = s\<lparr>ex_pending := r\<rparr>
               in if is_at_capacity X s1 then (Inl (ExAtCapacity (xe_max_in_flight X) (length (ex_active s1))), s1)
                  else (let h = length (ex_stores s1)
                        in (Inr h, s1\<lparr>ex_stores := ex_stores s1 @ [(h, [])], ex_spawned := ex_spawned s1 @ [(i, h)],
                                      ex_starting := ex_starting s1 @ [(i, h)]\<rparr>))))"

text \<open>Step 4: the results store and the slot are entered.\<close>

definition preload_track :: "string \<Rightarrow> nat \<Rightarrow> executor \<Rightarrow> executor" where
  "preload_track i h s =
     s\<lparr>ex_preload_tasks := AList.update i h (ex_preload_tasks s), ex_active := insert_id i (ex_active s),
       ex_starting := remove1 (i, h) (ex_starting s)\<rparr>"

definition preload_for_transaction :: "executor_env \<Rightarrow> string \<Rightarrow> unit xact" where
  "preload_for_transaction X i = bind_act (preload_spawn X i) (\<lambda>h. alter (preload_track i h))"

definition preload_cleanup :: "string \<Rightarrow> executor \<Rightarrow> executor" where
  "preload_cleanup i s =
     s\<lparr>ex_preload_tasks := AList.delete i (ex_preload_tasks s), ex_active := removeAll i (ex_active s)\<rparr>"

definition register_preload :: "transaction \<Rightarrow> pending_registry \<Rightarrow> unit res \<times> pending_registry" where
  "register_preload tx r =
     (if contains r (tx_id tx)
      then (Inr (), snd (with_transaction_mut (tx_id tx)
              (\<lambda>pt. if pt_state pt = Pending then transition_to_preloaded tx pt else pt) r))
      else case register_pending (tx_id tx) r of
             (Inl e, r') \<Rightarrow> (Inl e, r')
           | (Inr _, r') \<Rightarrow> (Inr (), snd (with_transaction_mut (tx_id tx) (transition_to_preloaded tx) r')))"

definition ingest_preload :: "executor_env \<Rightarrow> bytes \<Rightarrow> unit xact" where
  "ingest_preload X body =
     bind_act (lift_res (from_io_error (xe_un_tx X body))) (\<lambda>tx.
     bind_act (\<lambda>s. case register_preload tx (ex_pending s) of
                     (Inl _, r) \<Rightarrow> (Inl (ExRegistry ''register''), s\<lparr>ex_pending := r\<rparr>)
                   | (Inr _, r) \<Rightarrow> (Inr (), s\<lparr>ex_pending := r\<rparr>)) (\<lambda>_.
     preload_for_transaction X (tx_id tx)))"

text \<open>The end of a task: its run completes, or the wall-clock bound cuts it after a part of it.\<close>

definition time_out :: "string \<Rightarrow> executor \<Rightarrow> executor" where
  "time_out i s =
     (case map_of (transactions (ex_pending s)) i of
        None \<Rightarrow> s
      | Some pt \<Rightarrow>
          (case runnable_transaction (pt_state pt) of
             None \<Rightarrow> s
           | Some tx \<Rightarrow> snd (executor_transition i (transition_to_failed tx [ExecutionTimeout]) s)))"

definition record_outcome :: "string \<Rightarrow> nat \<Rightarrow> executor_error + execution_result \<Rightarrow> executor \<Rightarrow> executor" where
  "record_outcome i h r s =
     s\<lparr>ex_stores := AList.update h (AList.update i r (case map_of (ex_stores s) h of Some m \<Rightarrow> m | None \<Rightarrow> [])) (ex_stores s),
       ex_active := removeAll i (ex_active s), ex_spawned := remove1 (i, h) (ex_spawned s)\<rparr>"

definition task_completes :: "executor_env \<Rightarrow> executor_view \<Rightarrow> string \<Rightarrow> nat \<Rightarrow> executor \<Rightarrow> executor" where
  "task_completes X V i h s = (case run_execution X V i s of (r, s') \<Rightarrow> record_outcome i h r s')"

text \<open>The engine runs on its own thread, so that the bound fires while the task waits for it, after step 2.
  (It can also fire while a frame is on its way to the finalizer; that case is left out.)\<close>

definition task_times_out :: "executor_env \<Rightarrow> string \<Rightarrow> nat \<Rightarrow> executor \<Rightarrow> executor" where
  "task_times_out X i h s =
     record_outcome i h (Inl ExTimeout)
       (time_out i (snd (bind_act (load_runnable i) (\<lambda>tx. executor_transition i (transition_to_executing tx)) s)))"

end
