(* ===== verification/Executor_Properties.thy ===== *)
theory Executor_Properties
  imports Executor Finalizer_Properties
begin

text \<open>
  What the executor guarantees: how a run ends on each of its branches, that the routing decision has no
  influence on the result, the bound of the running tasks and where it fails, and that a successful run
  leads to a block at the assigned finalizer.
\<close>

section \<open>How a run ends\<close>

lemma executor_transition_state:
  "ex_sent (snd (executor_transition i f s)) = ex_sent s"
  "map_of (transactions (ex_pending (snd (executor_transition i f s)))) i = map_option f (map_of (transactions (ex_pending s)) i)"
  by (simp_all add: executor_transition_def with_transaction_entry)

lemma bind_executor_transition: "bind_act (executor_transition i f) k s = k () (snd (executor_transition i f s))"
  by (rule bind_ok) (simp add: executor_transition_def)

lemma fail_and_raise_run: "fail_and_raise i tx rs e s = (Inl e, snd (executor_transition i (transition_to_failed tx rs) s))"
  by (simp add: fail_and_raise_def bind_executor_transition)

text \<open>A frame that was handed to the transport is recorded; nothing else of the state but the delivery changes.\<close>

lemma send_frame_run:
  assumes "send_frame X V target action body s = (r, t)"
  shows "ex_pending t = ex_pending s \<and>
         (\<forall>reached. r = Inr reached \<longrightarrow>
            (\<exists>m. ex_sent t = ex_sent s @ [(target, m)] \<and> message_signed (xe_identity X) (xe_env_id X) action body None = Inr m))"
  using assms by (auto simp: send_frame_def bind_lift from_pneumatic_error_def split: sum.splits prod.splits)

lemma send_to_finalizer_run:
  assumes "send_to_finalizer X V i tx_bytes h key s = (r, t)"
  shows "ex_pending t = ex_pending s \<and>
         (\<forall>u. r = Inr u \<longrightarrow> key \<noteq> [] \<and> (\<exists>m1 m2 g body. ex_sent t = ex_sent s @ [(key, m1), (key, m2)] \<and>
            message_signed (xe_identity X) (xe_env_id X) ''PreloadForFinalizer'' tx_bytes None = Inr m1 \<and>
            sign_data (xe_identity X) h = Inr g \<and>
            xe_rmp_sig X \<lparr>sig_transaction_id = as_bytes i, sig_env_id = as_bytes (xe_env_id X), sig_transaction_hash = h,
                          sig_signature = g, sig_current_stake = 0\<rparr> = Inr body \<and>
            message_signed (xe_identity X) (xe_env_id X) ''Sign'' body None = Inr m2))"
proof (cases "key = []")
  case True
  then show ?thesis using assms by (auto simp: send_to_finalizer_def)
next
  case False
  obtain r1 s1 where 1: "send_frame X V key ''PreloadForFinalizer'' tx_bytes s = (r1, s1)" by fastforce
  note f1 = send_frame_run [OF 1]
  show ?thesis
  proof (cases "r1 = Inr True \<and> (\<exists>g. sign_data (xe_identity X) h = Inr g)")
    case no: False
    then show ?thesis
      using assms False 1 f1 unfolding send_to_finalizer_def
      by (cases r1) (auto simp: bind_act_def split: sum.splits if_splits)
  next
    case True
    then obtain g where r1: "r1 = Inr True" and g: "sign_data (xe_identity X) h = Inr g" by auto
    let ?vote = "\<lparr>sig_transaction_id = as_bytes i, sig_env_id = as_bytes (xe_env_id X), sig_transaction_hash = h, sig_signature = g, sig_current_stake = 0\<rparr>"
    show ?thesis
    proof (cases "xe_rmp_sig X ?vote")
      case (Inl e)
      then show ?thesis
        using assms False 1 f1 r1 g by (auto simp: send_to_finalizer_def bind_act_def from_io_error_def)
    next
      case (Inr body)
      obtain r2 s2 where 2: "send_frame X V key ''Sign'' body s1 = (r2, s2)" by fastforce
      show ?thesis
        using assms False 1 f1 r1 g Inr 2 send_frame_run [OF 2]
        by (cases r2) (auto simp: send_to_finalizer_def bind_act_def from_io_error_def split: if_splits)
    qed
  qed
qed

text \<open>The state of an entry after a run.\<close>

definition entry_state :: "executor \<Rightarrow> string \<Rightarrow> transaction_state option" where
  "entry_state s i = map_option pt_state (map_of (transactions (ex_pending s)) i)"

lemma entry_transition:
  "entry_state s i \<noteq> None \<Longrightarrow> entry_state (snd (executor_transition i (transition_to_failed tx rs) s)) i = Some (Failed tx rs)"
  "entry_state s i \<noteq> None \<Longrightarrow> entry_state (snd (executor_transition i (transition_to_executing tx) s)) i = Some (Executing tx)"
  "entry_state s i \<noteq> None \<Longrightarrow> entry_state (snd (executor_transition i (transition_to_finalizing tx key) s)) i = Some (Finalizing tx key)"
  by (auto simp: entry_state_def executor_transition_state transition_to_failed_def transition_to_executing_def transition_to_finalizing_def)

lemma run_execution_eq:
  assumes "map_of (transactions (ex_pending s)) i = Some pt" and "runnable_transaction (pt_state pt) = Some tx"
  shows "run_execution X V i s =
     (let s1 = snd (executor_transition i (transition_to_executing tx) s)
      in case execute_transaction X V tx of
           Inl e \<Rightarrow> (Inl e, s1)
         | Inr (Inl (ExValidation rs)) \<Rightarrow> (Inl (ExValidation rs), snd (executor_transition i (transition_to_failed tx rs) s1))
         | Inr (Inl e) \<Rightarrow> (Inl e, s1)
         | Inr (Inr out) \<Rightarrow>
             (case validate_execution_result X tx (result_of X i out) of
                Inl rs \<Rightarrow> (Inl (ExValidation rs), snd (executor_transition i (transition_to_failed tx rs) s1))
              | Inr _ \<Rightarrow> deliver_result X V i (tx\<lparr>tx_result_data := eo_result out\<rparr>) (result_of X i out) s1))"
proof -
  have load: "bind_act (load_runnable i) k s = k tx s" for k :: "transaction \<Rightarrow> execution_result xact"
    by (rule bind_ok) (simp add: load_runnable_def assms)
  show ?thesis
    unfolding run_execution_def load bind_executor_transition bind_lift
    by (simp add: Let_def fail_and_raise_run split: sum.split executor_error.split)
qed

lemma deliver_result_run:
  assumes "deliver_result X V i tx r s = (res, t)" and "entry_state s i \<noteq> None"
  shows "case res of
      Inr r' \<Rightarrow> r' = r \<and> (\<exists>key raw m1 m2 g body. key = get_finalizer_key tx (ex_pending s) \<and> key \<noteq> [] \<and> xe_rmp_tx X tx = Inr raw \<and>
         ex_sent t = ex_sent s @ [(key, m1), (key, m2)] \<and>
         message_signed (xe_identity X) (xe_env_id X) ''PreloadForFinalizer'' raw None = Inr m1 \<and>
         sign_data (xe_identity X) (xr_result_hash r) = Inr g \<and>
         xe_rmp_sig X \<lparr>sig_transaction_id = as_bytes i, sig_env_id = as_bytes (xe_env_id X), sig_transaction_hash = xr_result_hash r,
                       sig_signature = g, sig_current_stake = 0\<rparr> = Inr body \<and>
         message_signed (xe_identity X) (xe_env_id X) ''Sign'' body None = Inr m2 \<and> entry_state t i = Some (Finalizing tx key))
    | Inl e \<Rightarrow> entry_state t i = Some (Failed tx [ContractNotFound]) \<or>
        (entry_state t i = Some (Finalizing tx (get_finalizer_key tx (ex_pending s))) \<and> ex_sent t = ex_sent s \<and> (\<exists>io. e = ExEncoding io))"
proof -
  let ?key = "get_finalizer_key tx (ex_pending s)"
  define s1 where "s1 = snd (executor_transition i (transition_to_finalizing tx ?key) s)"
  have s1: "ex_sent s1 = ex_sent s" "entry_state s1 i = Some (Finalizing tx ?key)"
    unfolding s1_def by (rule executor_transition_state(1)) (rule entry_transition(3) [OF assms(2)])
  have key: "bind_act (\<lambda>s. (Inr (get_finalizer_key tx (ex_pending s)), s)) k s = k ?key s" for k :: "bytes \<Rightarrow> execution_result xact"
    by (rule bind_ok) simp
  show ?thesis
  proof (cases "xe_rmp_tx X tx")
    case (Inl e)
    then show ?thesis
      using assms(1) s1 unfolding deliver_result_def key bind_executor_transition s1_def [symmetric] bind_lift by (auto simp: from_io_error_def)
  next
    case (Inr raw)
    obtain r2 s2 where 2: "send_to_finalizer X V i raw (xr_result_hash r) ?key s1 = (r2, s2)" by fastforce
    note f = send_to_finalizer_run [OF 2]
    have res: "(res, t) = (case r2 of Inl e \<Rightarrow> (Inl e, snd (executor_transition i (transition_to_failed tx [ContractNotFound]) s2)) | Inr _ \<Rightarrow> (Inr r, s2))"
      using assms(1) Inr 2 unfolding deliver_result_def key bind_executor_transition s1_def [symmetric] bind_lift
      by (simp add: from_io_error_def fail_and_raise_run split: sum.splits)
    have s2: "entry_state s2 i = Some (Finalizing tx ?key)" using f s1(2) by (simp add: entry_state_def)
    show ?thesis
    proof (cases r2)
      case (Inl e)
      then show ?thesis using res s2 entry_transition(1) [of s2 i tx "[ContractNotFound]"] by simp
    next
      case ok: (Inr u)
      then show ?thesis using res f s1(1) s2 Inr by auto
    qed
  qed
qed

lemma get_finalizer_key_result [simp]: "get_finalizer_key (tx\<lparr>tx_result_data := d\<rparr>) r = get_finalizer_key tx r"
  by (simp add: get_finalizer_key_def split: option.split)

text \<open>The operations fail only with validation reasons.\<close>

lemma converted_errors:
  "or_failed why r = Inl e \<Longrightarrow> \<exists>rs. e = ExValidation rs" "from_contract_error r' = Inl e \<Longrightarrow> \<exists>rs. e = ExValidation rs"
  by (auto simp: or_failed_def from_contract_error_def split: sum.splits)

lemma engine_errors:
  "execute_deploy X tx = Inl e \<Longrightarrow> \<exists>rs. e = ExValidation rs" "execute_upgrade X tx tok = Inl e \<Longrightarrow> \<exists>rs. e = ExValidation rs"
  "execute_contract X V tx tok u = Inl e \<Longrightarrow> \<exists>rs. e = ExValidation rs"
  by (auto simp: execute_deploy_def execute_upgrade_def execute_contract_def Let_def dest: converted_errors split: if_splits sum.splits option.splits)

text \<open>C13: how the run of a transaction that can be executed ends.  On success the result hash is the hash of the
  result data, exactly two frames were sent, both to the one finalizer the transaction is assigned to and
  first the preload, then the vote on that hash, and the entry awaits that finalizer with the result on it.
  On failure the entry is failed, except that it stays in execution when the data provider did not answer
  and keeps awaiting a finalizer that was told nothing when the transaction could not be encoded.\<close>

theorem execution_outcome:
  assumes "map_of (transactions (ex_pending s)) i = Some pt" and "runnable_transaction (pt_state pt) = Some tx"
    and "run_execution X V i s = (res, t)"
  shows "case res of
      Inr r \<Rightarrow> xr_result_hash r = xe_hash X (xr_result_data r) \<and>
        (\<exists>key m1 m2. key \<noteq> [] \<and> (\<forall>dec. tx_selection tx = Some dec \<and> sel_finalizer dec \<noteq> [] \<longrightarrow> key = sel_finalizer dec) \<and>
           ex_sent t = ex_sent s @ [(key, m1), (key, m2)] \<and> msg_action m1 = ''PreloadForFinalizer'' \<and>
           xe_rmp_tx X (tx\<lparr>tx_result_data := xr_result_data r\<rparr>) = Inr (msg_body m1) \<and> msg_action m2 = ''Sign'' \<and>
           (\<exists>g. sign_data (xe_identity X) (xr_result_hash r) = Inr g \<and>
              xe_rmp_sig X \<lparr>sig_transaction_id = as_bytes i, sig_env_id = as_bytes (xe_env_id X), sig_transaction_hash = xr_result_hash r,
                            sig_signature = g, sig_current_stake = 0\<rparr> = Inr (msg_body m2)) \<and>
           entry_state t i = Some (Finalizing (tx\<lparr>tx_result_data := xr_result_data r\<rparr>) key))
    | Inl e \<Rightarrow>
        (\<exists>tx' rs. entry_state t i = Some (Failed tx' rs)) \<or>
        (entry_state t i = Some (Executing tx) \<and> ex_sent t = ex_sent s \<and> tx_action tx \<noteq> ''DeployContract'' \<and>
         (\<exists>d. e = ExData d \<and> (xv_token V (tx_token tx) (xe_partition X) = Inl d \<or> xv_user V (tx_sender tx) (xe_partition X) = Inl d))) \<or>
        (\<exists>d key io. entry_state t i = Some (Finalizing (tx\<lparr>tx_result_data := d\<rparr>) key) \<and> ex_sent t = ex_sent s \<and> e = ExEncoding io)"
proof -
  define s1 where "s1 = snd (executor_transition i (transition_to_executing tx) s)"
  have old: "entry_state s i \<noteq> None" using assms(1) by (simp add: entry_state_def)
  have s1: "ex_sent s1 = ex_sent s" "entry_state s1 i = Some (Executing tx)"
    unfolding s1_def by (rule executor_transition_state(1)) (rule entry_transition(2) [OF old])
  note failed = entry_transition(1) [of s1 i tx]
  note run = run_execution_eq [OF assms(1,2), of X V, unfolded Let_def s1_def [symmetric] assms(3)]
  show ?thesis
  proof (cases "execute_transaction X V tx")
    case (Inl e)
    then have "\<exists>d. e = ExData d \<and> (xv_token V (tx_token tx) (xe_partition X) = Inl d \<or> xv_user V (tx_sender tx) (xe_partition X) = Inl d)"
      and "tx_action tx \<noteq> ''DeployContract''"
      by (auto simp: execute_transaction_def split: if_splits sum.splits)
    then show ?thesis using run Inl s1 by simp
  next
    case (Inr outcome)
    show ?thesis
    proof (cases outcome)
      case err: (Inl e)
      have "\<exists>rs. e = ExValidation rs"
        using Inr err by (auto simp: execute_transaction_def dest: engine_errors split: if_splits sum.splits)
      then show ?thesis using run Inr err failed s1 by auto
    next
      case out: (Inr out)
      show ?thesis
      proof (cases "validate_execution_result X tx (result_of X i out)")
        case bad: (Inl rs)
        then show ?thesis using run Inr out failed s1 by auto
      next
        case (Inr u)
        have d: "deliver_result X V i (tx\<lparr>tx_result_data := eo_result out\<rparr>) (result_of X i out) s1 = (res, t)"
          using run \<open>execute_transaction X V tx = Inr outcome\<close> out Inr by simp
        have some: "entry_state s1 i \<noteq> None" using s1(2) by simp
        have key: "get_finalizer_key tx (ex_pending s1) = sel_finalizer dec" if "tx_selection tx = Some dec" "sel_finalizer dec \<noteq> []" for dec
          using that by (simp add: get_finalizer_key_def)
        note sent = deliver_result_run [OF d some]
        show ?thesis
        proof (cases res)
          case (Inl e)
          show ?thesis
            using sent unfolding Inl sum.case get_finalizer_key_result s1(1) by blast
        next
          case ok: (Inr r)
          then obtain m1 m2 raw g body where r: "r = result_of X i out" and k: "get_finalizer_key tx (ex_pending s1) \<noteq> []"
            and raw: "xe_rmp_tx X (tx\<lparr>tx_result_data := eo_result out\<rparr>) = Inr raw"
            and s: "ex_sent t = ex_sent s1 @ [(get_finalizer_key tx (ex_pending s1), m1), (get_finalizer_key tx (ex_pending s1), m2)]"
            and m1: "message_signed (xe_identity X) (xe_env_id X) ''PreloadForFinalizer'' raw None = Inr m1"
            and g: "sign_data (xe_identity X) (xr_result_hash r) = Inr g"
            and body: "xe_rmp_sig X \<lparr>sig_transaction_id = as_bytes i, sig_env_id = as_bytes (xe_env_id X), sig_transaction_hash = xr_result_hash r,
                       sig_signature = g, sig_current_stake = 0\<rparr> = Inr body"
            and m2: "message_signed (xe_identity X) (xe_env_id X) ''Sign'' body None = Inr m2"
            and e: "entry_state t i = Some (Finalizing (tx\<lparr>tx_result_data := eo_result out\<rparr>) (get_finalizer_key tx (ex_pending s1)))"
            using sent by auto
          have data: "xr_result_data r = eo_result out" "xr_result_hash r = xe_hash X (eo_result out)" by (simp_all add: r result_of_def)
          show ?thesis
            unfolding ok sum.case
            using k s s1(1) raw g body e key data message_signed_fields [OF m1] message_signed_fields [OF m2]
            by (intro conjI, simp) (rule exI [of _ "get_finalizer_key tx (ex_pending s1)"], rule exI [of _ m1], rule exI [of _ m2], auto)
        qed
      qed
    qed
  qed
qed

text \<open>The routing decision does not reach the engine.\<close>

lemma execute_transaction_routing: "execute_transaction X V (tx\<lparr>tx_selection := sel\<rparr>) = execute_transaction X V tx"
proof -
  have "execute_deploy X (tx\<lparr>tx_selection := sel\<rparr>) = execute_deploy X tx"
    by (simp add: execute_deploy_def Let_def cong: sum.case_cong if_cong)
  moreover have "execute_upgrade X (tx\<lparr>tx_selection := sel\<rparr>) t = execute_upgrade X tx t" for t
    by (simp add: execute_upgrade_def Let_def cong: sum.case_cong option.case_cong if_cong)
  moreover have "execute_contract X V (tx\<lparr>tx_selection := sel\<rparr>) t u = execute_contract X V tx t u" for t u
    by (simp add: execute_contract_def Let_def cong: sum.case_cong option.case_cong if_cong)
  ultimately show ?thesis
    by (simp add: execute_transaction_def cong: sum.case_cong if_cong)
qed

lemma run_success:
  assumes "map_of (transactions (ex_pending s)) i = Some pt" and "runnable_transaction (pt_state pt) = Some tx"
    and "run_execution X V i s = (Inr r, t)"
  shows "\<exists>out. execute_transaction X V tx = Inr (Inr out) \<and> r = result_of X i out"
proof -
  have "fst (deliver_result X V i tx' r' u) = Inr r \<Longrightarrow> r = r'" for tx' r' u
    by (simp add: deliver_result_def bind_act_def fail_and_raise_run lift_res_def split: prod.splits sum.splits)
  then show ?thesis
    using assms(3) unfolding run_execution_eq [OF assms(1,2)] Let_def
    by (auto split: sum.splits executor_error.splits) (metis fst_conv)
qed

text \<open>C23: the routing decision, which the sender never signed, has no influence on what is computed: two
  executions of transactions that differ only in it, in whatever states, yield the same result data,
  result hash and gas.\<close>

theorem result_independent_of_routing:
  assumes "map_of (transactions (ex_pending s)) i = Some pt" and "runnable_transaction (pt_state pt) = Some tx"
    and "run_execution X V i s = (Inr r, t)"
    and "map_of (transactions (ex_pending s')) i = Some pt'" and "runnable_transaction (pt_state pt') = Some (tx\<lparr>tx_selection := sel\<rparr>)"
    and "run_execution X V i s' = (Inr r', t')"
  shows "r' = r"
  using run_success [OF assms(1-3)] run_success [OF assms(4-6)] by (auto simp: execute_transaction_routing)

section \<open>Backpressure\<close>

text \<open>The steps of the executor.  Ingestion is serialized when a preload is spawned only while no other
  waits to be tracked; the other roles of the host change the shared registry.\<close>

inductive executor_step :: "executor_env \<Rightarrow> bool \<Rightarrow> executor \<Rightarrow> executor \<Rightarrow> bool" for X serialized where
  spawn: "(serialized \<longrightarrow> ex_starting s = []) \<Longrightarrow> executor_step X serialized s (snd (preload_spawn X i s))"
| track: "(i, h) \<in> set (ex_starting s) \<Longrightarrow> executor_step X serialized s (preload_track i h s)"
| complete: "(i, h) \<in> set (ex_spawned s) \<Longrightarrow> executor_step X serialized s (task_completes X V i h s)"
| cut: "(i, h) \<in> set (ex_spawned s) \<Longrightarrow> executor_step X serialized s (task_times_out X i h s)"
| cleanup: "executor_step X serialized s (preload_cleanup i s)"
| registry: "executor_step X serialized s (s\<lparr>ex_pending := r\<rparr>)"

definition same_slots :: "executor \<Rightarrow> executor \<Rightarrow> bool" where
  "same_slots s t \<longleftrightarrow> ex_active t = ex_active s \<and> ex_starting t = ex_starting s \<and> ex_spawned t = ex_spawned s"

interpretation slots: action_order same_slots
  by unfold_locales (auto simp: same_slots_def)

lemma transition_slots: "same_slots s (snd (executor_transition i f s))"
  by (simp add: same_slots_def executor_transition_def)

lemma send_frame_slots: "same_slots s (snd (send_frame X V target action body s))"
  unfolding send_frame_def by (intro slots.bound_lift) (simp add: same_slots_def case_prod_beta)

lemma send_to_finalizer_slots: "same_slots s (snd (send_to_finalizer X V i raw h key s))"
proof (cases "key = []")
  case True
  then show ?thesis by (simp add: send_to_finalizer_def slots.unchanged)
next
  case False
  show ?thesis
    unfolding send_to_finalizer_def if_not_P [OF False]
    by (rule slots.bound [OF send_frame_slots]) (auto simp: slots.unchanged intro!: slots.bound_lift slots.bound [OF send_frame_slots])
qed

lemma fail_slots: "same_slots s (snd (fail_and_raise i tx rs e s))"
  unfolding fail_and_raise_run snd_conv by (rule transition_slots)

lemma deliver_slots: "same_slots s (snd (deliver_result X V i tx r s))"
proof -
  have "same_slots s (snd (case send_to_finalizer X V i raw h key s of
      (Inl e, s') \<Rightarrow> fail_and_raise i tx rs e s' | (Inr u, s') \<Rightarrow> (Inr r, s')))" for raw h key rs s
    using send_to_finalizer_slots [of s X V i raw h key] fail_slots slots.chained
    by (fastforce split: prod.split sum.split)
  then show ?thesis
    unfolding deliver_result_def
    by (intro slots.bound [OF _ slots.bound [OF transition_slots]] slots.bound_lift) (simp_all add: slots.unchanged)
qed

lemma run_slots: "same_slots s (snd (run_execution X V i s))"
  unfolding run_execution_def
  by (intro slots.bound [OF _ slots.bound [OF transition_slots]] slots.bound_lift)
    (auto simp: load_runnable_def slots.unchanged fail_slots deliver_slots split: option.split sum.split executor_error.split)

lemma settled_slots:
  "ex_active (task_completes X V i h s) = removeAll i (ex_active s)" "ex_starting (task_completes X V i h s) = ex_starting s"
  "ex_spawned (task_completes X V i h s) = remove1 (i, h) (ex_spawned s)"
  using run_slots [of s X V i] by (auto simp: task_completes_def record_outcome_def same_slots_def case_prod_beta)

lemma cut_slots:
  "ex_active (task_times_out X i h s) = removeAll i (ex_active s)" "ex_starting (task_times_out X i h s) = ex_starting s"
  "ex_spawned (task_times_out X i h s) = remove1 (i, h) (ex_spawned s)"
proof -
  have "same_slots s (snd (bind_act (load_runnable i) (\<lambda>tx. executor_transition i (transition_to_executing tx)) s))"
    by (intro slots.bound [OF _ transition_slots]) (simp add: load_runnable_def slots.unchanged split: option.split)
  moreover have "same_slots u (time_out i u)" for u
    by (auto simp: time_out_def slots.unchanged transition_slots split: option.split)
  ultimately have "same_slots s (time_out i (snd (bind_act (load_runnable i) (\<lambda>tx. executor_transition i (transition_to_executing tx)) s)))"
    using slots.chained by blast
  then show "ex_active (task_times_out X i h s) = removeAll i (ex_active s)" "ex_starting (task_times_out X i h s) = ex_starting s"
    "ex_spawned (task_times_out X i h s) = remove1 (i, h) (ex_spawned s)"
    by (simp_all add: task_times_out_def record_outcome_def same_slots_def)
qed


lemma spawn_slots:
  "ex_active (snd (preload_spawn X i s)) = ex_active s"
  "(ex_starting (snd (preload_spawn X i s)), ex_spawned (snd (preload_spawn X i s))) = (ex_starting s, ex_spawned s) \<or>
   (length (ex_active s) < xe_max_in_flight X \<and> (\<exists>h. fst (preload_spawn X i s) = Inr h \<and>
      (ex_starting (snd (preload_spawn X i s)), ex_spawned (snd (preload_spawn X i s))) = (ex_starting s @ [(i, h)], ex_spawned s @ [(i, h)])))"
  by (auto simp: preload_spawn_def is_at_capacity_def Let_def split: prod.split sum.split)

lemma track_slots:
  "length (ex_active (preload_track i h s)) \<le> Suc (length (ex_active s))" "i \<in> set (ex_active (preload_track i h s))"
  "set (ex_active s) \<subseteq> set (ex_active (preload_track i h s))" "ex_spawned (preload_track i h s) = ex_spawned s"
  "ex_starting (preload_track i h s) = remove1 (i, h) (ex_starting s)"
  by (auto simp: preload_track_def insert_id_def)

lemma fewer_slots: "length xs + n \<le> m \<Longrightarrow> length (removeAll i xs) + n \<le> m"
  unfolding removeAll_filter_not_eq using length_filter_le [of "\<lambda>x. i \<noteq> x" xs] by linarith

lemma step_within_capacity:
  assumes "executor_step X True s t" and "executor_in_flight s + length (ex_starting s) \<le> xe_max_in_flight X"
  shows "executor_in_flight t + length (ex_starting t) \<le> xe_max_in_flight X"
  using assms
proof (cases rule: executor_step.cases)
  case (spawn i)
  then show ?thesis using assms(2) spawn_slots [of X i s] by (auto simp: executor_in_flight_def)
next
  case (track i h)
  then have "length (ex_starting s) = Suc (length (remove1 (i, h) (ex_starting s)))"
    by (simp add: length_remove1) (metis Suc_pred length_pos_if_in_set)
  then show ?thesis using track assms(2) track_slots(1,5) [of i h s] by (simp add: executor_in_flight_def)
next
  case (complete i h V)
  then show ?thesis using assms(2) by (simp add: fewer_slots executor_in_flight_def settled_slots)
next
  case (cut i h)
  then show ?thesis using assms(2) by (simp add: fewer_slots executor_in_flight_def cut_slots)
next
  case (cleanup i)
  then show ?thesis using assms(2) by (simp add: fewer_slots executor_in_flight_def preload_cleanup_def)
qed (simp add: executor_in_flight_def)

text \<open>C21: as long as preloads are taken in one after the other, the executor never holds more slots than
  its limit, in every state it reaches, whatever the tasks do.\<close>

theorem slots_within_limit:
  assumes "(executor_step X True)\<^sup>*\<^sup>* (executor_new r) s"
  shows "executor_in_flight s \<le> xe_max_in_flight X"
proof -
  have "executor_in_flight s + length (ex_starting s) \<le> xe_max_in_flight X"
    using assms by (induction rule: rtranclp_induct) (simp_all add: executor_in_flight_def executor_new_def step_within_capacity [unfolded executor_in_flight_def])
  then show ?thesis by simp
qed

text \<open>A slot that no task will free: the task of its transaction has settled.\<close>

definition leaked :: "string \<Rightarrow> executor \<Rightarrow> bool" where
  "leaked i s \<longleftrightarrow> i \<in> set (ex_active s) \<and> i \<notin> fst ` set (ex_spawned s)"

text \<open>The steps the node takes by itself (nothing outside the tests calls \<^verbatim>\<open>preload_cleanup\<close>), other than
  another preload of transaction \<open>i\<close>.\<close>

inductive other_step :: "executor_env \<Rightarrow> string \<Rightarrow> executor \<Rightarrow> executor \<Rightarrow> bool" for X i where
  spawn: "j \<noteq> i \<Longrightarrow> other_step X i s (snd (preload_spawn X j s))"
| track: "(j, h) \<in> set (ex_starting s) \<Longrightarrow> other_step X i s (preload_track j h s)"
| complete: "(j, h) \<in> set (ex_spawned s) \<Longrightarrow> other_step X i s (task_completes X V j h s)"
| cut: "(j, h) \<in> set (ex_spawned s) \<Longrightarrow> other_step X i s (task_times_out X j h s)"
| registry: "other_step X i s (s\<lparr>ex_pending := r\<rparr>)"

lemma leaked_stays:
  assumes "other_step X i s t" and "leaked i s"
  shows "leaked i t"
  using assms(1)
proof (cases rule: other_step.cases)
  case (spawn j)
  then show ?thesis using assms(2) spawn_slots [of X j s] by (auto simp: leaked_def)
next
  case (track j h)
  then show ?thesis using assms(2) track_slots(3,4) by (auto simp: leaked_def)
next
  case (complete j h V)
  then have "j \<noteq> i" using assms(2) by (force simp: leaked_def)
  then show ?thesis using complete assms(2) notin_set_remove1 by (fastforce simp: leaked_def settled_slots)
next
  case (cut j h)
  then have "j \<noteq> i" using assms(2) by (force simp: leaked_def)
  then show ?thesis using cut assms(2) notin_set_remove1 by (fastforce simp: leaked_def cut_slots)
next
  case (registry r)
  then show ?thesis using assms(2) by (simp add: leaked_def)
qed

lemma leak_arises:
  assumes "preload_spawn X i s = (Inr h, s1)" and "i \<notin> fst ` set (ex_spawned s)"
  shows "leaked i (preload_track i h (task_completes X V i h s1))"
proof -
  have "ex_spawned s1 = ex_spawned s @ [(i, h)]" using assms(1) by (auto simp: preload_spawn_def Let_def split: prod.splits sum.splits if_splits)
  moreover from this assms(2) have "remove1 (i, h) (ex_spawned s1) = ex_spawned s" by (force simp: remove1_append)
  ultimately show ?thesis using assms(2) track_slots(2,4) [of i h "task_completes X V i h s1"] by (simp add: leaked_def settled_slots)
qed

text \<open>When the task of a transaction settles before the intake has entered its slot, the slot is never
  freed: the transaction stays among the running ones through every further step of the node, and an
  executor with a limit of one refuses every transaction from then on.\<close>

theorem settled_task_leaks_slot:
  assumes "preload_spawn X i s = (Inr h, s1)" and "i \<notin> fst ` set (ex_spawned s)"
    and "(other_step X i)\<^sup>*\<^sup>* (preload_track i h (task_completes X V i h s1)) t"
  shows "i \<in> set (ex_active t) \<and> (xe_max_in_flight X = 1 \<longrightarrow> (\<forall>j. \<exists>e. fst (preload_spawn X j t) = Inl e))"
proof -
  have "leaked i t"
    using assms(3) by (induction rule: rtranclp_induct) (simp_all add: leak_arises [OF assms(1,2)] leaked_stays)
  then have i: "i \<in> set (ex_active t)" by (simp add: leaked_def)
  then have "0 < length (ex_active t)" by (rule length_pos_if_in_set)
  then show ?thesis using i by (auto simp: preload_spawn_def is_at_capacity_def Let_def Suc_le_eq split: prod.split sum.split)
qed


section \<open>A concrete executor\<close>

definition executor_crypto :: crypto_provider where
  "executor_crypto = demo_crypto\<lparr>sign_data := (\<lambda>d. Inr ([5] @ d)), public_key := Inr [5]\<rparr>"

lemma executor_crypto_signs: "signs_correctly executor_crypto"
  by (simp add: signs_correctly_def executor_crypto_def demo_crypto_def)

text \<open>It deploys a contract: the codecs know the one deployment, and the hash is a constant.\<close>

definition deploying_tx :: transaction where
  "deploying_tx = routed_tx\<lparr>tx_action := ''DeployContract''\<rparr>"

definition demo_executor_of :: executor_env where
  "demo_executor_of =
     \<lparr>xe_env_id = ''env'', xe_public_key = [5], xe_identity = executor_crypto, xe_crypto = demo_crypto, xe_partition = ''env'',
      xe_hash = (\<lambda>_. [8]), xe_max_in_flight = 1, xe_fanout = demo_fanout,
      xe_governance = demo_governance\<lparr>gc_un_deploy := (\<lambda>_. Inr demo_deploy), gc_create := (\<lambda>_. Inr [4])\<rparr>,
      xe_engines = [], xe_host = (\<lambda>_ _ _. Inl (InvalidInput [])), xe_panics = (\<lambda>_ _. False), xe_program = (\<lambda>_. Inl []),
      xe_transfer = (\<lambda>_. Inl []), xe_un_transfer = (\<lambda>_. Inl []), xe_rmp_tx = (\<lambda>_. Inr [1]), xe_un_tx = (\<lambda>_. Inr deploying_tx),
      xe_rmp_sig = (\<lambda>_. Inr [2]), xe_rmp_message = (\<lambda>m. Inr (msg_body m))\<rparr>"

definition executor_sees :: executor_view where
  "executor_sees =
     \<lparr>xv_nodes = (registry_init [])\<lparr>finalizers := [([9], demo_peer), ([8], demo_peer)]\<rparr>,
      xv_later = (registry_init [])\<lparr>finalizers := [([9], demo_peer), ([8], demo_peer)]\<rparr>,
      xv_token = (\<lambda>_ _. Inl DataNotFound), xv_user = (\<lambda>_ _. Inl DataNotFound)\<rparr>"

definition holding :: "transaction \<Rightarrow> executor" where
  "holding tx = executor_new (registry_new\<lparr>transactions := [(''t1'', \<lparr>pt_id = ''t1'', pt_state = Preloaded tx, lock_count = 0\<rparr>)]\<rparr>)"

lemma holding_entry:
  "map_of (transactions (ex_pending (holding tx))) ''t1'' = Some \<lparr>pt_id = ''t1'', pt_state = Preloaded tx, lock_count = 0\<rparr>"
  "ex_sent (holding tx) = []" "ex_spawned (holding tx) = []"
  by (simp_all add: holding_def executor_new_def)

lemma preloaded_runnable: "runnable_transaction (pt_state \<lparr>pt_id = i, pt_state = Preloaded tx, lock_count = n\<rparr>) = Some tx"
  by (simp add: runnable_transaction_def)

definition deployment_result :: execution_result where
  "deployment_result = \<lparr>xr_transaction_id = ''t1'', xr_result_data = [4], xr_result_hash = [8], xr_gas_used = deploy_gas 1\<rparr>"

lemma deployment_runs:
  "fst (run_execution demo_executor_of executor_sees ''t1'' (holding deploying_tx)) = Inr deployment_result"
  by code_simp


lemma deployment_returns:
  obtains t where "run_execution demo_executor_of executor_sees ''t1'' (holding deploying_tx) = (Inr deployment_result, t)"
  using deployment_runs by (cases "run_execution demo_executor_of executor_sees ''t1'' (holding deploying_tx)") auto

theorem execution_outcome_witness:
  "\<exists>t m1 m2. run_execution demo_executor_of executor_sees ''t1'' (holding deploying_tx) = (Inr deployment_result, t) \<and>
     ex_sent t = [([9], m1), ([9], m2)] \<and> msg_action m1 = ''PreloadForFinalizer'' \<and> msg_action m2 = ''Sign'' \<and>
     entry_state t ''t1'' = Some (Finalizing (deploying_tx\<lparr>tx_result_data := [4]\<rparr>) [9])"
proof -
  obtain t where run: "run_execution demo_executor_of executor_sees ''t1'' (holding deploying_tx) = (Inr deployment_result, t)"
    by (rule deployment_returns)
  have dec: "tx_selection deploying_tx = tx_selection routed_tx" "xr_result_data deployment_result = [4]"
    by (simp_all add: deploying_tx_def deployment_result_def)
  then obtain dec where sel: "tx_selection deploying_tx = Some dec" "sel_finalizer dec = [9]" by (simp add: routed_tx_def)
  show ?thesis
    using execution_outcome [OF holding_entry(1) preloaded_runnable run] run unfolding sum.case holding_entry(2) append_Nil dec(2)
    by (elim exE conjE) (use sel in auto)
qed

definition rerouted_tx :: transaction where
  "rerouted_tx = deploying_tx\<lparr>tx_selection :=
     Some \<lparr>sel_finalizer = [8], sel_epoch = 3, sel_salt = [1], sel_sentinel = [7], sel_attestation = []\<rparr>\<rparr>"

lemma rerouted_runs: "isl (fst (run_execution demo_executor_of executor_sees ''t1'' (holding rerouted_tx))) = False"
  by code_simp

theorem result_independent_of_routing_witness:
  "fst (run_execution demo_executor_of executor_sees ''t1'' (holding rerouted_tx)) = Inr deployment_result"
proof -
  obtain t where run: "run_execution demo_executor_of executor_sees ''t1'' (holding deploying_tx) = (Inr deployment_result, t)"
    by (rule deployment_returns)
  obtain r' t' where run': "run_execution demo_executor_of executor_sees ''t1'' (holding rerouted_tx) = (Inr r', t')"
    using rerouted_runs
    by (cases "run_execution demo_executor_of executor_sees ''t1'' (holding rerouted_tx)"; cases "fst (run_execution demo_executor_of executor_sees ''t1'' (holding rerouted_tx))") auto
  have "r' = deployment_result"
    by (rule result_independent_of_routing [OF holding_entry(1) preloaded_runnable run holding_entry(1) _ run'])
      (simp add: runnable_transaction_def rerouted_tx_def)
  then show ?thesis using run' by simp
qed

text \<open>The executor whose only slot is taken.\<close>

definition spawned_executor :: executor where
  "spawned_executor = snd (preload_spawn demo_executor_of ''t1'' (holding deploying_tx))"

lemma spawn_runs: "preload_spawn demo_executor_of ''t1'' (holding deploying_tx) = (Inr 0, spawned_executor)"
proof -
  have "fst (preload_spawn demo_executor_of ''t1'' (holding deploying_tx)) = Inr 0" by code_simp
  then show ?thesis by (simp add: spawned_executor_def prod_eq_iff)
qed

theorem slots_within_limit_witness:
  "executor_in_flight (preload_track ''t1'' 0 spawned_executor) = 1 \<and>
   executor_in_flight (preload_track ''t1'' 0 spawned_executor) \<le> xe_max_in_flight demo_executor_of"
proof -
  let ?r = "ex_pending (holding deploying_tx)"
  have start: "holding deploying_tx = executor_new ?r" "ex_starting (holding deploying_tx) = []" by (simp_all add: holding_def executor_new_def)
  have "(''t1'', 0) \<in> set (ex_starting spawned_executor)" by code_simp
  then have "(executor_step demo_executor_of True)\<^sup>*\<^sup>* (executor_new ?r) (preload_track ''t1'' 0 spawned_executor)"
    using executor_step.spawn [of True "holding deploying_tx" demo_executor_of "''t1''"] executor_step.track [of "''t1''" 0 spawned_executor demo_executor_of True]
    unfolding start(1) [symmetric] by (simp add: start(2) spawned_executor_def)
  then have "executor_in_flight (preload_track ''t1'' 0 spawned_executor) \<le> xe_max_in_flight demo_executor_of"
    by (rule slots_within_limit)
  moreover have "executor_in_flight (preload_track ''t1'' 0 spawned_executor) = 1" by code_simp
  ultimately show ?thesis by blast
qed

theorem settled_task_leaks_slot_witness:
  "\<exists>e. fst (preload_spawn demo_executor_of ''t2''
     (preload_track ''t1'' 0 (task_completes demo_executor_of executor_sees ''t1'' 0 spawned_executor))) = Inl e"
proof -
  have "xe_max_in_flight demo_executor_of = 1" by (simp add: demo_executor_of_def)
  then show ?thesis
    using settled_task_leaks_slot [OF spawn_runs _ rtranclp.rtrancl_refl, of executor_sees] by (simp add: holding_entry(3))
qed

end
