(* ===== verification/Pipeline.thy ===== *)
theory Pipeline
  imports Executor_Properties
begin

text \<open>
  The executor and the finalizer together: what a successful execution sends leads to a commit at the
  finalizer it is sent to.  A concrete executor shows that the properties of the executor apply.
\<close>

section \<open>The frames of a successful run\<close>

definition vote_of :: "executor_env \<Rightarrow> string \<Rightarrow> bytes \<Rightarrow> bytes \<Rightarrow> transaction_signature" where
  "vote_of X i h g =
     \<lparr>sig_transaction_id = as_bytes i, sig_env_id = as_bytes (xe_env_id X), sig_transaction_hash = h, sig_signature = g, sig_current_stake = 0\<rparr>"

lemma run_delivers:
  assumes "map_of (transactions (ex_pending s)) i = Some pt" and "runnable_transaction (pt_state pt) = Some tx"
    and "run_execution X V i s = (Inr r, t)"
  obtains key raw m1 m2 g body where "key \<noteq> []" and "xe_rmp_tx X (tx\<lparr>tx_result_data := xr_result_data r\<rparr>) = Inr raw"
    and "ex_sent t = ex_sent s @ [(key, m1), (key, m2)]"
    and "message_signed (xe_identity X) (xe_env_id X) ''PreloadForFinalizer'' raw None = Inr m1"
    and "sign_data (xe_identity X) (xr_result_hash r) = Inr g" and "xe_rmp_sig X (vote_of X i (xr_result_hash r) g) = Inr body"
    and "message_signed (xe_identity X) (xe_env_id X) ''Sign'' body None = Inr m2"
proof -
  define s1 where "s1 = snd (executor_transition i (transition_to_executing tx) s)"
  have s1: "ex_sent s1 = ex_sent s" "entry_state s1 i \<noteq> None"
    using assms(1) by (simp_all add: s1_def executor_transition_state entry_state_def)
  obtain out where out: "execute_transaction X V tx = Inr (Inr out)" and r: "r = result_of X i out"
    using run_success [OF assms] by blast
  have "deliver_result X V i (tx\<lparr>tx_result_data := eo_result out\<rparr>) (result_of X i out) s1 = (Inr r, t)"
    using assms(3) run_execution_eq [OF assms(1,2), of X V] out by (simp add: Let_def s1_def split: sum.splits)
  note d = deliver_result_run [OF this s1(2), unfolded sum.case, THEN conjunct2]
  have data: "eo_result out = xr_result_data r" by (simp add: r result_of_def)
  show thesis
    using d unfolding data s1(1) vote_of_def [symmetric] r [symmetric] by (elim exE conjE) (rule that; assumption)
qed

section \<open>From an execution to a commit\<close>

text \<open>The finalizer decodes what the executor encodes, checks the executor's signatures with the same scheme
  and knows its key as that of an Executor.\<close>

definition finalizer_understands ::
    "executor_env \<Rightarrow> ('f, 'p) finalizer_env \<Rightarrow> finalizer_view \<Rightarrow> transaction \<Rightarrow> transaction_signature \<Rightarrow> bool" where
  "finalizer_understands X E W tx vote \<longleftrightarrow>
     (\<forall>raw. xe_rmp_tx X tx = Inr raw \<longrightarrow> fe_un_tx E raw = Inr tx) \<and> (\<forall>raw. xe_rmp_sig X vote = Inr raw \<longrightarrow> fe_un_sig E raw = Inr vote) \<and>
     (\<exists>raw. rmp_tx (fe_codec E) tx = Inr raw) \<and> check_signature (fe_identity E) = check_signature (xe_identity X) \<and>
     (\<forall>key. public_key (xe_identity X) = Inr key \<longrightarrow> Executor \<in> set (find_node_types_by_public_key (fo_registry (fe_fanout E)) (fv_nodes W) key))"

lemma executor_authenticated:
  assumes "signs_correctly (xe_identity X)" and "finalizer_understands X E W tx vote"
    and "message_signed (xe_identity X) (xe_env_id X) action body None = Inr m"
  shows "authenticate_signature_message E W m = Inr (msg_public_key m)" and "public_key (xe_identity X) = Inr (msg_public_key m)"
proof -
  obtain g where m: "sign_data (xe_identity X) body = Inr g" "m = \<lparr>msg_chain_id = xe_env_id X, msg_action = action, msg_body = body,
      msg_signature = g, msg_public_key = msg_public_key m, msg_stake_set = None\<rparr>" and key: "public_key (xe_identity X) = Inr (msg_public_key m)"
    using assms(3) by (auto simp: message_signed_def split: sum.splits)
  then have "msg_signature m = g" "msg_body m = body" by (metis message.select_convs(3,4))+
  moreover have "check_signature (fe_identity E) g (msg_public_key m) body = Inr True"
    using assms(1,2) m(1) key by (simp add: signs_correctly_def finalizer_understands_def)
  moreover have "Executor \<in> set (find_node_types_by_public_key (fo_registry (fe_fanout E)) (fv_nodes W) (msg_public_key m))"
    using assms(2) key by (simp add: finalizer_understands_def)
  ultimately show "authenticate_signature_message E W m = Inr (msg_public_key m)"
    by (auto simp: authenticate_signature_message_def authenticate_as_def authenticate_envelope_def Let_def)
  show "public_key (xe_identity X) = Inr (msg_public_key m)" by (rule key)
qed

text \<open>The preload of a successful run registers the executed transaction.\<close>

lemma preload_registers:
  assumes "fe_un_tx E (msg_body m) = Inr tx" and "finalize_authority E W tx = Inr ()" and "rmp_tx (fe_codec E) tx = Inr raw"
    and "map_of (transactions (fi_pending f)) (tx_id tx) = None" and "map_of (col_signatures (fi_collector f)) (tx_id tx) = None"
    and "msg_action m = ''PreloadForFinalizer''"
  shows "snd (finalizer_handle E W m f) = preloaded tx raw f"
    and "map_of (transactions (fi_pending (preloaded tx raw f))) (tx_id tx) = Some \<lparr>pt_id = tx_id tx, pt_state = Preloaded tx, lock_count = 0\<rparr>"
proof -
  have "snd (handle_preload E W m f) = preloaded tx raw f"
    using assms by (simp add: handle_preload_state retry_finalize_from_collected_def preloaded_fields first_signature_def get_transaction_registry_def)
  then show "snd (finalizer_handle E W m f) = preloaded tx raw f"
    using assms(6) by (auto simp: finalizer_handle_def Let_def split: prod.split sum.split)
  show "map_of (transactions (fi_pending (preloaded tx raw f))) (tx_id tx) = Some \<lparr>pt_id = tx_id tx, pt_state = Preloaded tx, lock_count = 0\<rparr>"
    using adopted_entry [OF assms(4)] by (simp add: preloaded_def)
qed

text \<open>C3: a successful execution leads to a commit.  The two frames it sent, handled in their order by the
  assigned finalizer, which had not heard of the transaction, make that finalizer publish a block for the
  executed transaction with the result data and the result hash of this very execution, signed by the
  finalizer's key and chained to the tip it read; the finalizer's entry is committed with that block.\<close>

theorem execution_yields_commit:
  assumes "map_of (transactions (ex_pending s)) i = Some pt" and "runnable_transaction (pt_state pt) = Some tx"
    and "run_execution X V i s = (Inr r, t)" and "tx_id tx = i" and "from_utf8_lossy (as_bytes i) = i"
    and "signs_correctly (xe_identity X)"
    and "\<forall>g. sign_data (xe_identity X) (xr_result_hash r) = Inr g \<longrightarrow>
           finalizer_understands X E W (tx\<lparr>tx_result_data := xr_result_data r\<rparr>) (vote_of X i (xr_result_hash r) g)"
    and "encoders_total E" and "fe_signing_key E = fe_identity E" and "public_key (fe_identity E) = Inr (fe_public_key E)"
    and "finalize_authority E W (tx\<lparr>tx_result_data := xr_result_data r\<rparr>) = Inr ()"
    and "map_of (transactions (fi_pending f)) i = None" and "map_of (col_signatures (fi_collector f)) i = None"
  shows "\<exists>key m1 m2 u b cm rest. ex_sent t = ex_sent s @ [(key, m1), (key, m2)] \<and>
           finalizer_handle E W m2 (snd (finalizer_handle E W m1 f)) = (Inr (), u) \<and>
           fi_sent u = fi_sent f @ (Committer, cm) # rest \<and> own_message E ''Commit'' (msg_body cm) cm \<and>
           fe_rmp_commit E (commit_of E i (tx_token tx) b) = Inr (msg_body cm) \<and>
           sx_transaction (signed_trans b) = tx\<lparr>tx_result_data := xr_result_data r, tx_result_hash := xr_result_hash r\<rparr> \<and>
           previous_hash b = resolve_previous_hash E W (tx_token tx) \<and>
           map_option pt_state (map_of (transactions (fi_pending u)) i) =
             Some (Committed (tx\<lparr>tx_result_data := xr_result_data r, tx_result_hash := xr_result_hash r\<rparr>) (current_hash b))"
proof -
  define tx' where "tx' = tx\<lparr>tx_result_data := xr_result_data r\<rparr>"
  obtain key raw m1 m2 g body where raw: "xe_rmp_tx X tx' = Inr raw" and sent: "ex_sent t = ex_sent s @ [(key, m1), (key, m2)]"
    and m1: "message_signed (xe_identity X) (xe_env_id X) ''PreloadForFinalizer'' raw None = Inr m1"
    and g: "sign_data (xe_identity X) (xr_result_hash r) = Inr g" and body: "xe_rmp_sig X (vote_of X i (xr_result_hash r) g) = Inr body"
    and m2: "message_signed (xe_identity X) (xe_env_id X) ''Sign'' body None = Inr m2"
    by (rule run_delivers [OF assms(1-3), folded tx'_def]) (rule that; assumption)
  note fields = message_signed_fields [OF m1] message_signed_fields [OF m2]
  have und: "finalizer_understands X E W tx' (vote_of X i (xr_result_hash r) g)" using assms(7) g unfolding tx'_def by blast
  then obtain enc where enc: "rmp_tx (fe_codec E) tx' = Inr enc" by (auto simp: finalizer_understands_def)
  have id: "tx_id tx' = i" using assms(4) by (simp add: tx'_def)
  have un: "fe_un_tx E (msg_body m1) = Inr tx'" "fe_un_sig E (msg_body m2) = Inr (vote_of X i (xr_result_hash r) g)"
    using und raw body fields by (simp_all add: finalizer_understands_def)
  note pre = preload_registers [OF un(1) assms(11) [folded tx'_def] enc, of f, unfolded id, OF assms(12,13) conjunct1 [OF fields(1)]]
  note voter = executor_authenticated [OF assms(6) und m2]
  have inner: "check_inner_signature E (msg_public_key m2) (vote_of X i (xr_result_hash r) g) = Inr ()"
    using assms(6) und g voter(2) by (simp add: check_inner_signature_def vote_of_def signs_correctly_def finalizer_understands_def)
  have vid: "i = from_utf8_lossy (sig_transaction_id (vote_of X i (xr_result_hash r) g))" using assms(5) by (simp add: vote_of_def)
  have vh: "sig_transaction_hash (vote_of X i (xr_result_hash r) g) = xr_result_hash r" by (simp add: vote_of_def)
  have ex: "executable_transaction (pt_state \<lparr>pt_id = i, pt_state = Preloaded tx', lock_count = 0\<rparr>) = Some tx'"
    by (simp add: executable_transaction_def)
  have none: "map_of (col_signatures (fi_collector (preloaded tx' enc f))) i = None" using assms(13) by (simp add: preloaded_fields)
  obtain reply u b cm rest sx fs where h: "handle_signature E W m2 (preloaded tx' enc f) = (Inr reply, u)"
    and commit: "fe_rmp_commit E (commit_of E i (tx_token tx') b) = Inr (msg_body cm)" "own_message E ''Commit'' (msg_body cm) cm"
    and out: "fi_sent u = fi_sent (preloaded tx' enc f) @ (Committer, cm) # rest"
    and state: "map_option pt_state (map_of (transactions (fi_pending u)) i) = Some (Committed (tx'\<lparr>tx_result_hash := xr_result_hash r\<rparr>) (current_hash b))"
    and sx: "sx_transaction sx = tx'\<lparr>tx_result_hash := xr_result_hash r\<rparr>"
    and b: "builder_create_block E (fv_now W) (sx\<lparr>sx_finalizer_sig := fs\<rparr>) (resolve_previous_hash E W (tx_token tx'))
        (fi_epoch (voted W i (msg_public_key m2) (vote_of X i (xr_result_hash r) g) (preloaded tx' enc f))) = Inr b"
    by (rule vote_publishes [OF assms(8-10) un(2) vid voter(1) inner pre(2) ex assms(11) [folded tx'_def] none, unfolded vh]) (rule that; assumption)
  have "finalizer_handle E W m2 (snd (finalizer_handle E W m1 f)) = (Inr (), u)"
    using h fields unfolding pre(1) by (simp add: finalizer_handle_def)
  moreover have "fi_sent (preloaded tx' enc f) = fi_sent f" by (simp add: preloaded_def)
  moreover have "tx_token tx' = tx_token tx" by (simp add: tx'_def)
  moreover note builder_block [OF b]
  ultimately show ?thesis
    using sent out commit state sx unfolding tx'_def [symmetric]
    by (intro exI [of _ key] exI [of _ m1] exI [of _ m2] exI [of _ u] exI [of _ b] exI [of _ cm] exI [of _ rest])
      (simp add: tx'_def)
qed


section \<open>A concrete pipeline\<close>

text \<open>A finalizer whose decoders know the two frames of the concrete executor.\<close>

definition receiving_env :: "(bytes, bytes) finalizer_env" where
  "receiving_env = demo_finalizer_env\<lparr>fe_un_tx := (\<lambda>_. Inr (deploying_tx\<lparr>tx_result_data := [4]\<rparr>)),
     fe_un_sig := (\<lambda>_. Inr (vote_of demo_executor_of ''t1'' [8] [5, 8]))\<rparr>"

lemma receiving_understands:
  "finalizer_understands demo_executor_of receiving_env demo_view (deploying_tx\<lparr>tx_result_data := [4]\<rparr>) (vote_of demo_executor_of ''t1'' [8] [5, 8])"
proof -
  have "Executor \<in> set (find_node_types_by_public_key demo_env (fv_nodes demo_view) [5])" by code_simp
  then show ?thesis
    by (simp add: finalizer_understands_def receiving_env_def demo_finalizer_env_def demo_executor_of_def executor_crypto_def demo_crypto_def
        demo_fanout_def committer_codec_def demo_codec_def)
qed

lemma receiving_authority: "finalize_authority receiving_env demo_view (deploying_tx\<lparr>tx_result_data := [4]\<rparr>) = Inr ()"
  by code_simp

lemma receiving_encoders: "encoders_total receiving_env"
  using demo_encoders by (simp add: encoders_total_def receiving_env_def)

lemma receiving_keys:
  "fe_signing_key receiving_env = fe_identity receiving_env" "public_key (fe_identity receiving_env) = Inr (fe_public_key receiving_env)"
  using demo_keys by (simp_all add: receiving_env_def)

lemma fresh_knows_nothing: "map_of (transactions (fi_pending fresh_finalizer)) i = None" "map_of (col_signatures (fi_collector fresh_finalizer)) i = None"
  "fi_sent fresh_finalizer = []"
  by (simp_all add: fresh_finalizer_def finalizer_new_def registry_new_def collector_new_def)

theorem execution_yields_commit_witness:
  "\<exists>t key m1 m2 u cm rest. run_execution demo_executor_of executor_sees ''t1'' (holding deploying_tx) = (Inr deployment_result, t) \<and>
     ex_sent t = [(key, m1), (key, m2)] \<and>
     finalizer_handle receiving_env demo_view m2 (snd (finalizer_handle receiving_env demo_view m1 fresh_finalizer)) = (Inr (), u) \<and>
     fi_sent u = (Committer, cm) # rest \<and> msg_action cm = ''Commit''"
proof -
  obtain t where run: "run_execution demo_executor_of executor_sees ''t1'' (holding deploying_tx) = (Inr deployment_result, t)"
    by (rule deployment_returns)
  have id: "tx_id deploying_tx = ''t1''" by (simp add: deploying_tx_def routed_tx_def demo_tx_def)
  have signs: "signs_correctly (xe_identity demo_executor_of)" using executor_crypto_signs by (simp add: demo_executor_of_def)
  have res: "xr_result_data deployment_result = [4]" "xr_result_hash deployment_result = [8]" by (simp_all add: deployment_result_def)
  have und: "\<forall>g. sign_data (xe_identity demo_executor_of) (xr_result_hash deployment_result) = Inr g \<longrightarrow>
      finalizer_understands demo_executor_of receiving_env demo_view (deploying_tx\<lparr>tx_result_data := xr_result_data deployment_result\<rparr>)
        (vote_of demo_executor_of ''t1'' (xr_result_hash deployment_result) g)"
    using receiving_understands unfolding res by (simp add: demo_executor_of_def executor_crypto_def)
  note commit = execution_yields_commit [OF holding_entry(1) preloaded_runnable run id demo_id signs und receiving_encoders receiving_keys
      receiving_authority [folded res(1)] fresh_knows_nothing(1,2)]
  show ?thesis
    using commit run unfolding holding_entry(2) fresh_knows_nothing(3) append_Nil own_message_def
    by (elim exE conjE) (intro exI conjI; assumption)
qed

end
