(* ===== verification/Sentinel.thy ===== *)
theory Sentinel
  imports Finalizer
begin

text \<open>
  The sentinel (\<^verbatim>\<open>sentinel/src/sentinel.rs\<close> with \<^verbatim>\<open>processing.rs\<close>, \<^verbatim>\<open>finalizing.rs\<close>, \<^verbatim>\<open>registering.rs\<close>,
  \<^verbatim>\<open>epoching.rs\<close> and \<^verbatim>\<open>shielded.rs\<close>, the rest of \<^verbatim>\<open>transaction_validator.rs\<close> and
  \<^verbatim>\<open>transaction_notifier.rs\<close>): admission of a transaction, the choice and attestation of its one finalizer,
  confirmation and rejection, registration of nodes and the epoch.  A broadcast runs on a thread of its
  own in the source; here it is delivered at once.  The configuration, the codecs, the hash, the generator
  and the signature scheme are in the environment, what a call reads from outside is its view.
\<close>

section \<open>Errors, environment and state\<close>

text \<open>The last two values are no errors of the source: a call that panics on an index, and a call that
  waits for a lock it holds itself.\<close>

datatype sentinel_error =
    SeEncoding io_error | SeConnection conn_error | SeData data_error | SeRegistry string
  | SeTransactionAlreadyExists string | SeTransactionInTerminalState string
  | SeTransactionNotAwaitingFinalizer string | SeNoTarget node_registry_type | SeUnknownAction string
  | SeRouting string | SeUnauthenticatedSubmitter string | SeInvalidSenderSignature string
  | SeValidation pneumatic_error | SePanics | SeHangs

datatype notify_error = NoEncoding io_error | NoConnection conn_error | NoData data_error | NoNoTarget node_registry_type

definition from_notify_error :: "notify_error \<Rightarrow> sentinel_error" where
  "from_notify_error e =
     (case e of
        NoEncoding x \<Rightarrow> SeEncoding x | NoConnection x \<Rightarrow> SeConnection x | NoData x \<Rightarrow> SeData x | NoNoTarget t \<Rightarrow> SeNoTarget t)"

definition notify_pneumatic :: "'a res \<Rightarrow> notify_error + 'a" where
  "notify_pneumatic r = (case r of Inl e \<Rightarrow> Inl (NoData (DataCryptoError ''error'')) | Inr x \<Rightarrow> Inr x)"

definition notify_io :: "io_error + 'a \<Rightarrow> notify_error + 'a" where
  "notify_io r = (case r of Inl e \<Rightarrow> Inl (NoEncoding e) | Inr x \<Rightarrow> Inr x)"

definition sentinel_io :: "io_error + 'a \<Rightarrow> sentinel_error + 'a" where
  "sentinel_io r = (case r of Inl e \<Rightarrow> Inl (SeEncoding e) | Inr x \<Rightarrow> Inr x)"

record register_request =
  rr_requester_key :: bytes
  rr_rhash :: bytes
  rr_requester_types :: "node_registry_type list"
  rr_requested_type :: node_registry_type
  rr_binding_signature :: bytes

record ('f, 'p, 'r) sentinel_env =
  se_environment_id :: string
  se_partition :: string
  se_identity :: crypto_provider
  se_crypto :: crypto_provider
  se_codec :: codec
  se_hash :: "bytes \<Rightarrow> bytes"
  se_sha :: "bytes \<Rightarrow> bytes"
  se_rng :: "'r rng"
  se_shard_count :: u32
  se_cost_model :: cost_model
  se_specs :: tx_specs
  se_shielded_spec :: bool
  se_field :: "('f, 'p) field_ops"
  se_max_risk :: f64
  se_recency :: nat
  se_fanout :: fanout_env
  se_global_min_stake :: u64
  se_min_type_stake :: "node_registry_type \<Rightarrow> u64"
  se_un_message :: "bytes \<Rightarrow> io_error + message"
  se_un_tx :: "bytes \<Rightarrow> io_error + transaction"
  se_un_str :: "bytes \<Rightarrow> io_error + string"
  se_un_register :: "bytes \<Rightarrow> io_error + register_request"
  se_un_block :: "bytes \<Rightarrow> io_error + block"
  se_un_shielded :: "bytes \<Rightarrow> io_error + shielded_transaction"
  se_rmp_str :: "string \<Rightarrow> io_error + bytes"
  se_rmp_message :: "message \<Rightarrow> io_error + bytes"

record sentinel_view =
  sv_now :: nat
  sv_later :: node_registry
  sv_token :: "bytes \<Rightarrow> string \<Rightarrow> data_error + token"
  sv_user :: "bytes \<Rightarrow> string \<Rightarrow> data_error + user"
  sv_stakes :: "u64 \<Rightarrow> string \<Rightarrow> data_error + stake_set"
  sv_executors :: "u64 \<Rightarrow> string \<Rightarrow> data_error + executor_set"
  sv_pool :: pool_view

text \<open>A message sent is recorded with the role it goes to and the keys it is meant for, none for a broadcast.\<close>

record sentinel =
  sn_pending :: pending_registry
  sn_nodes :: node_registry
  sn_stake_cache :: "stake_set snapshot_cache"
  sn_executor_cache :: "executor_set snapshot_cache"
  sn_epoch :: u64
  sn_delivery :: delivery
  sn_sent :: "(node_registry_type \<times> bytes list \<times> message) list"

type_synonym 'a sact = "(sentinel_error, sentinel, 'a) action"

type_synonym 'a nact = "(notify_error, sentinel, 'a) action"

definition sentinel_new :: "('f, 'p, 'r) sentinel_env \<Rightarrow> pending_registry \<Rightarrow> node_registry \<Rightarrow> sentinel" where
  "sentinel_new E pending nodes =
     \<lparr>sn_pending = pending, sn_nodes = nodes, sn_stake_cache = cache_new (se_partition E), sn_executor_cache = cache_new (se_partition E),
      sn_epoch = 1, sn_delivery = delivery_new, sn_sent = []\<rparr>"

text \<open>The conversion of \<^verbatim>\<open>?\<close> around a call of the notifier, and a change of the pending registry.\<close>

definition notifying :: "'a nact \<Rightarrow> 'a sact" where
  "notifying m = (\<lambda>s. case m s of (Inl e, s') \<Rightarrow> (Inl (from_notify_error e), s') | (Inr x, s') \<Rightarrow> (Inr x, s'))"

definition on_registry :: "(pending_registry \<Rightarrow> 'a res \<times> pending_registry) \<Rightarrow> (sentinel \<Rightarrow> 'a res \<times> sentinel)" where
  "on_registry f = (\<lambda>s. case f (sn_pending s) of (r, p) \<Rightarrow> (r, s\<lparr>sn_pending := p\<rparr>))"

definition or_raise :: "(sentinel \<Rightarrow> 'a res \<times> sentinel) \<Rightarrow> sentinel_error \<Rightarrow> 'a sact" where
  "or_raise m e = (\<lambda>s. case m s of (Inl _, s') \<Rightarrow> (Inl e, s') | (Inr x, s') \<Rightarrow> (Inr x, s'))"

definition release_lock :: "string \<Rightarrow> sentinel \<Rightarrow> sentinel" where
  "release_lock i s = snd (on_registry (release_transaction i) s)"

section \<open>The notifier\<close>

definition signed_frame :: "('f, 'p, 'r) sentinel_env \<Rightarrow> string \<Rightarrow> bytes \<Rightarrow> (message \<times> bytes) nact" where
  "signed_frame E action body =
     bind_act (lift_res (notify_pneumatic (message_signed (se_identity E) (se_partition E) action body None))) (\<lambda>m.
     bind_act (lift_res (notify_io (se_rmp_message E m))) (\<lambda>payload.
     ret (m, payload)))"

definition send_to_nodes :: "('f, 'p, 'r) sentinel_env \<Rightarrow> node_registry_type \<Rightarrow> message \<times> bytes \<Rightarrow> unit nact" where
  "send_to_nodes E t mp =
     alter (\<lambda>s. s\<lparr>sn_delivery := send_to_all (se_fanout E) (sn_nodes s) (snd mp) t (sn_delivery s),
                  sn_sent := sn_sent s @ [(t, [], fst mp)]\<rparr>)"

definition send_to_keys ::
    "('f, 'p, 'r) sentinel_env \<Rightarrow> sentinel_view \<Rightarrow> node_registry_type \<Rightarrow> bytes list \<Rightarrow> message \<times> bytes \<Rightarrow> bytes list nact" where
  "send_to_keys E V t keys mp =
     (\<lambda>s. case send_to_peers_blocking (se_fanout E) (sn_nodes s) (sv_later V) keys t (snd mp) (sn_delivery s) of
            (missed, d) \<Rightarrow> (Inr missed, s\<lparr>sn_delivery := d, sn_sent := sn_sent s @ [(t, keys, fst mp)]\<rparr>))"

definition send_to_executors_for_preload :: "('f, 'p, 'r) sentinel_env \<Rightarrow> transaction \<Rightarrow> unit nact" where
  "send_to_executors_for_preload E tx =
     bind_act (lift_res (notify_io (rmp_tx (se_codec E) tx))) (\<lambda>body.
     bind_act (signed_frame E ''Preload'' body) (send_to_nodes E Executor))"

definition send_to_shard_executors_for_preload ::
    "('f, 'p, 'r) sentinel_env \<Rightarrow> sentinel_view \<Rightarrow> transaction \<Rightarrow> bytes list \<Rightarrow> unit nact" where
  "send_to_shard_executors_for_preload E V tx keys =
     bind_act (lift_res (notify_io (rmp_tx (se_codec E) tx))) (\<lambda>body.
     bind_act (signed_frame E ''Preload'' body) (\<lambda>mp.
     bind_act (send_to_keys E V Executor keys mp) (\<lambda>undelivered.
     if keys \<noteq> [] \<and> length undelivered = length keys then raise (NoNoTarget Executor) else ret ())))"

definition attest_selection :: "('f, 'p, 'r) sentinel_env \<Rightarrow> string \<Rightarrow> bytes \<Rightarrow> u64 \<Rightarrow> bytes \<Rightarrow> notify_error + selection_record" where
  "attest_selection E i key epoch salt = notify_pneumatic (attest (se_codec E) (se_identity E) i FINALIZER_DOMAIN key epoch salt)"

definition deliver_to_finalizer :: "('f, 'p, 'r) sentinel_env \<Rightarrow> sentinel_view \<Rightarrow> bytes \<Rightarrow> message \<times> bytes \<Rightarrow> unit nact" where
  "deliver_to_finalizer E V key mp =
     (if key = [] then raise (NoNoTarget Finalizer)
      else bind_act (send_to_keys E V Finalizer [key] mp) (\<lambda>undelivered.
           if undelivered \<noteq> [] then raise (NoNoTarget Finalizer) else ret ()))"

definition send_to_finalizer_for_preload :: "('f, 'p, 'r) sentinel_env \<Rightarrow> sentinel_view \<Rightarrow> transaction \<Rightarrow> bytes \<Rightarrow> unit nact" where
  "send_to_finalizer_for_preload E V tx key =
     bind_act (lift_res (notify_io (rmp_tx (se_codec E) tx))) (\<lambda>body.
     bind_act (signed_frame E ''PreloadForFinalizer'' body) (deliver_to_finalizer E V key))"

definition send_sign_shielded :: "('f, 'p, 'r) sentinel_env \<Rightarrow> sentinel_view \<Rightarrow> shielded_transaction \<Rightarrow> bytes \<Rightarrow> unit nact" where
  "send_sign_shielded E V stx key =
     bind_act (lift_res (notify_pneumatic (shielded_canonical_bytes (se_codec E) stx))) (\<lambda>body.
     bind_act (signed_frame E ''SignShielded'' body) (deliver_to_finalizer E V key))"

definition notify_clear_to_process :: "('f, 'p, 'r) sentinel_env \<Rightarrow> string \<Rightarrow> unit nact" where
  "notify_clear_to_process E i =
     bind_act (lift_res (notify_io (se_rmp_str E i))) (\<lambda>body.
     bind_act (signed_frame E ''Clear'' body) (send_to_nodes E Sentinel))"

definition notify_delete :: "('f, 'p, 'r) sentinel_env \<Rightarrow> string \<Rightarrow> unit nact" where
  "notify_delete E i =
     bind_act (lift_res (notify_io (se_rmp_str E i))) (\<lambda>body.
     bind_act (signed_frame E ''Delete'' body) (send_to_nodes E Sentinel))"

definition request_finalizer :: "('f, 'p, 'r) sentinel_env \<Rightarrow> transaction \<Rightarrow> bytes nact" where
  "request_finalizer E tx =
     bind_act (lift_res (notify_io (rmp_tx (se_codec E) tx))) (\<lambda>body.
     bind_act (signed_frame E ''FinalizerRequest'' body) (\<lambda>mp.
     bind_act (send_to_nodes E Finalizer mp) (\<lambda>_. ret [])))"

definition request_single_finalizer :: "('f, 'p, 'r) sentinel_env \<Rightarrow> sentinel_view \<Rightarrow> transaction \<Rightarrow> bytes \<Rightarrow> unit nact" where
  "request_single_finalizer E V tx key =
     bind_act (lift_res (notify_io (rmp_tx (se_codec E) tx))) (\<lambda>body.
     bind_act (signed_frame E ''PreloadForFinalizer'' body) (deliver_to_finalizer E V key))"

section \<open>The assigned finalizer\<close>

definition chain_tip_of :: "('f, 'p, 'r) sentinel_env \<Rightarrow> token \<Rightarrow> bytes" where
  "chain_tip_of E t = last_hash_in (get_current_chain_state (se_codec E) (se_hash E) (tok_blockchain t))"

definition selection_tip :: "('f, 'p, 'r) sentinel_env \<Rightarrow> sentinel_view \<Rightarrow> bytes \<Rightarrow> sentinel_error + bytes" where
  "selection_tip E V token_id =
     (case sv_token V token_id (se_partition E) of
        Inl _ \<Rightarrow> Inl (SeRegistry ''cannot read token for selection salt'')
      | Inr t \<Rightarrow> Inr (chain_tip_of E t))"

definition staked_finalizers :: "('f, 'p, 'r) sentinel_env \<Rightarrow> node_registry \<Rightarrow> stake_set \<Rightarrow> stake_set" where
  "staked_finalizers E r snapshot =
     \<lparr>stakers = filter (\<lambda>(key, stake). stake > 0 \<and>
        (map_of (get_nodes r Finalizer) key \<noteq> None \<or>
         (Finalizer \<in> set (self_delivery_roles r) \<and> key = rg_public_key (fo_registry (se_fanout E))))) (stakers snapshot)\<rparr>"

definition assign_finalizer_deterministic ::
    "('f, 'p, 'r) sentinel_env \<Rightarrow> sentinel_view \<Rightarrow> string \<Rightarrow> u64 \<Rightarrow> bytes \<Rightarrow> bytes sact" where
  "assign_finalizer_deterministic E V i epoch tip =
     bind_act (\<lambda>s. case cache_get (sv_stakes V) epoch (sn_stake_cache s) of
                     (None, c) \<Rightarrow> (Inl (SeRouting ''no snapshot''), s\<lparr>sn_stake_cache := c\<rparr>)
                   | (Some ss, c) \<Rightarrow> (Inr ss, s\<lparr>sn_stake_cache := c\<rparr>)) (\<lambda>snapshot.
     if total_stake snapshot = 0 then raise (SeRouting ''stake set is empty'')
     else (\<lambda>s. let candidates = staked_finalizers E (sn_nodes s) snapshot
               in if total_stake candidates = 0 then (Inl (SeRouting ''no staked key is a registered Finalizer''), s)
                  else case deterministic_select (se_sha E) (se_rng E) candidates FINALIZER_DOMAIN (as_bytes i) epoch tip of
                         None \<Rightarrow> (Inl (SeRouting ''selection returned none''), s)
                       | Some key \<Rightarrow>
                           if get_stake snapshot key = 0 then (Inl (SeRouting ''assigned finalizer has zero stake''), s)
                           else (Inr key, s)))"

definition assign_finalizer_deterministic_retry ::
    "('f, 'p, 'r) sentinel_env \<Rightarrow> sentinel_view \<Rightarrow> string \<Rightarrow> u64 \<Rightarrow> bytes \<Rightarrow> bytes \<Rightarrow> bytes sact" where
  "assign_finalizer_deterministic_retry E V i epoch rejected tip =
     bind_act (assign_finalizer_deterministic E V i epoch tip) (\<lambda>key.
     if key = rejected then assign_finalizer_deterministic E V (i @ ''_retry'') epoch tip else ret key)"

definition routing_decision_for :: "('f, 'p, 'r) sentinel_env \<Rightarrow> sentinel_view \<Rightarrow> transaction \<Rightarrow> token \<Rightarrow> (bytes \<times> selection_record) sact" where
  "routing_decision_for E V tx t =
     (case tx_selection tx of
        Some carried \<Rightarrow> ret (sel_finalizer carried, carried)
      | None \<Rightarrow>
          (\<lambda>s. let epoch = sn_epoch s; salt = chain_tip_of E t
               in bind_act (assign_finalizer_deterministic E V (tx_id tx) epoch salt) (\<lambda>key.
                  bind_act (notifying (lift_res (attest_selection E (tx_id tx) key epoch salt))) (\<lambda>selection.
                  ret (key, selection))) s))"

section \<open>Sending to executors\<close>

definition get_shard_executors :: "('f, 'p, 'r) sentinel_env \<Rightarrow> sentinel_view \<Rightarrow> string \<Rightarrow> u64 \<Rightarrow> bytes \<Rightarrow> bytes list sact" where
  "get_shard_executors E V i epoch tip =
     bind_act (\<lambda>s. case cache_get (sv_executors V) epoch (sn_executor_cache s) of
                     (None, c) \<Rightarrow> (Inl (SeRouting ''no executor set''), s\<lparr>sn_executor_cache := c\<rparr>)
                   | (Some es, c) \<Rightarrow> (Inr es, s\<lparr>sn_executor_cache := c\<rparr>)) (\<lambda>es.
     if ex_is_empty es then raise (SeRouting ''executor set is empty'')
     else case deterministic_select_shard (se_sha E) (se_rng E) es (se_shard_count E) i epoch tip of
            None \<Rightarrow> raise SePanics
          | Some None \<Rightarrow> raise (SeRouting ''selected shard has no executors'')
          | Some (Some keys) \<Rightarrow> if keys = [] then raise (SeRouting ''selected shard has no executors'') else ret keys)"

definition send_to_executor_for_preload :: "('f, 'p, 'r) sentinel_env \<Rightarrow> sentinel_view \<Rightarrow> transaction \<Rightarrow> unit sact" where
  "send_to_executor_for_preload E V tx =
     (if se_shard_count E > 1
      then bind_act (lift_res (selection_tip E V (tx_token tx))) (\<lambda>tip.
           bind_act (\<lambda>s. get_shard_executors E V (tx_id tx) (sn_epoch s) tip s) (\<lambda>keys.
           notifying (send_to_shard_executors_for_preload E V tx keys)))
      else notifying (send_to_executors_for_preload E tx))"

section \<open>Intake\<close>

definition contains_word :: "string \<Rightarrow> string \<Rightarrow> bool" where
  "contains_word w xs \<longleftrightarrow> list_ex (\<lambda>n. take (length w) (drop n xs) = w) [0..<Suc (length xs)]"

definition calculate_risk :: "transaction \<Rightarrow> transaction_risk_factor" where
  "calculate_risk tx =
     \<lparr>affected_parties = (if tx_receiver tx \<noteq> [] then 2 else 1), risk_amount = (case tx_amount tx of Some a \<Rightarrow> a | None \<Rightarrow> 0),
      is_contract = contains_word ''Contract'' (tx_action tx), is_multi_party = False\<rparr>"

definition compute_gas_used :: "('f, 'p, 'r) sentinel_env \<Rightarrow> transaction \<Rightarrow> u64" where
  "compute_gas_used E tx =
     compute_gas (se_cost_model E) (case tx_amount tx of Some a \<Rightarrow> a | None \<Rightarrow> 0)
       (case map_of (amount_multiplier (se_cost_model E)) (tx_action tx) of Some m \<Rightarrow> m | None \<Rightarrow> Fin 1)"

definition sentinel_token :: "('f, 'p, 'r) sentinel_env \<Rightarrow> sentinel_view \<Rightarrow> bytes \<Rightarrow> token res" where
  "sentinel_token E V token_id = (case sv_token V token_id (se_partition E) of Inl e \<Rightarrow> Inl (DataErr e) | Inr t \<Rightarrow> Inr t)"

text \<open>The checks on the sender that precede any change of state.\<close>

definition authenticate_sender :: "('f, 'p, 'r) sentinel_env \<Rightarrow> message \<Rightarrow> transaction \<Rightarrow> sentinel_error + unit" where
  "authenticate_sender E m tx =
     (if tx_sender tx = [] then Inl (SeUnauthenticatedSubmitter ''empty sender'')
      else case verify_sender_signature (se_codec E) (se_crypto E) tx of
             Inl _ \<Rightarrow> Inl (SeInvalidSenderSignature ''check error'')
           | Inr authorized \<Rightarrow>
               if \<not> authorized then Inl (SeInvalidSenderSignature ''not authorized'')
               else if msg_public_key m \<noteq> tx_sender tx then Inl (SeUnauthenticatedSubmitter ''envelope sender differs'')
               else Inr ())"

definition sentinel_failed :: "string \<Rightarrow> transaction \<Rightarrow> pneumatic_error \<Rightarrow> sentinel \<Rightarrow> sentinel" where
  "sentinel_failed i tx e s =
     snd (on_registry (with_transaction_mut i (transition_to_failed tx (case e of Validation rs \<Rightarrow> rs | _ \<Rightarrow> []))) s)"

definition admit :: "transaction \<Rightarrow> bytes \<Rightarrow> sentinel \<Rightarrow> unit res \<times> sentinel" where
  "admit tx key =
     on_registry (transition_to_validated_and_enqueue (tx_id tx) tx
       \<lparr>is_valid = True, risk = calculate_risk tx, failure_reasons = [], finalizer_public_key = key\<rparr>)"

definition handle_self_signed :: "transaction \<Rightarrow> u64 \<Rightarrow> unit sact" where
  "handle_self_signed tx gas =
     bind_act (or_raise (admit tx []) (SeRegistry ''enqueue'')) (\<lambda>_.
     bind_act (alter (\<lambda>s. s\<lparr>sn_pending := record_gas_used (tx_id tx) gas (sn_pending s)\<rparr>)) (\<lambda>_.
     alter (release_lock (tx_id tx))))"

text \<open>Steps 6 to 8: the decision, the admission and the send.\<close>

definition route_and_send :: "('f, 'p, 'r) sentinel_env \<Rightarrow> sentinel_view \<Rightarrow> transaction \<Rightarrow> token \<Rightarrow> unit sact" where
  "route_and_send E V tx t =
     (\<lambda>s. case routing_decision_for E V tx t s of
            (Inl e, s1) \<Rightarrow> (Inl e, release_lock (tx_id tx) s1)
          | (Inr (key, selection), s1) \<Rightarrow>
              (let tx1 = tx\<lparr>tx_selection := Some selection\<rparr>
               in case admit tx1 key s1 of
                    (Inl _, s2) \<Rightarrow> (Inl (SeRegistry ''enqueue''), release_lock (tx_id tx) s2)
                  | (Inr _, s2) \<Rightarrow> send_to_executor_for_preload E V tx1 s2))"

definition handle_process_request :: "('f, 'p, 'r) sentinel_env \<Rightarrow> sentinel_view \<Rightarrow> message \<Rightarrow> unit sact" where
  "handle_process_request E V m =
     bind_act (lift_res (sentinel_io (se_un_tx E (msg_body m)))) (\<lambda>tx.
     bind_act (lift_res (authenticate_sender E m tx)) (\<lambda>_.
     case validate_transaction (se_specs E) (sentinel_token E V) tx of
       Inl e \<Rightarrow> alter (sentinel_failed (tx_id tx) tx e)
     | Inr _ \<Rightarrow>
         bind_act (alter (\<lambda>s. s\<lparr>sn_pending := record_gas_used (tx_id tx) (compute_gas_used E tx) (sn_pending s)\<rparr>)) (\<lambda>_.
         bind_act (or_raise (on_registry (register_pending (tx_id tx))) (SeTransactionAlreadyExists (tx_id tx))) (\<lambda>_.
         bind_act (or_raise (on_registry (acquire_transaction (tx_id tx))) (SeTransactionInTerminalState (tx_id tx))) (\<lambda>_.
         case sv_token V (tx_token tx) (se_partition E) of
           Inl e \<Rightarrow> raise (SeData e)
         | Inr t \<Rightarrow>
             if is_self_verified t then handle_self_signed tx (compute_gas_used E tx) else route_and_send E V tx t)))))"

definition handle_clear_request :: "('f, 'p, 'r) sentinel_env \<Rightarrow> message \<Rightarrow> unit sact" where
  "handle_clear_request E m =
     bind_act (lift_res (sentinel_io (se_un_str E (msg_body m)))) (\<lambda>i.
     alter (\<lambda>s. snd (on_registry (remove_transaction i) s)))"

section \<open>Confirmation and rejection\<close>

definition handle_confirmation :: "('f, 'p, 'r) sentinel_env \<Rightarrow> message \<Rightarrow> unit sact" where
  "handle_confirmation E m =
     bind_act (lift_res (sentinel_io (se_un_str E (msg_body m)))) (\<lambda>i.
     bind_act (or_raise (on_registry (acquire_transaction i)) (SeTransactionInTerminalState i)) (\<lambda>_ s.
     if \<not> is_requested_finalizer (sn_pending s) i (msg_public_key m) then (Inl (SeRegistry ''unassigned finalizer''), s)
     else bind_act (\<lambda>s. case map_of (transactions (sn_pending s)) i of
                          None \<Rightarrow> (Inr (), s)
                        | Some pt \<Rightarrow>
                            (case pt_state pt of
                               Finalizing tx _ \<Rightarrow> (Inr (), snd (on_registry (with_transaction_mut i (transition_to_committed tx [])) s))
                             | _ \<Rightarrow> (Inl (SeRegistry ''not in Finalizing state''), s))) (\<lambda>_.
          bind_act (ignored (notify_delete E i)) (\<lambda>_.
          alter (release_lock i))) s))"

definition reassignable_token :: "transaction_state \<Rightarrow> bytes option" where
  "reassignable_token st = map_option tx_token (executable_transaction st)"

definition reassign_finalizer_deterministically :: "('f, 'p, 'r) sentinel_env \<Rightarrow> sentinel_view \<Rightarrow> string \<Rightarrow> bytes \<Rightarrow> bytes sact" where
  "reassign_finalizer_deterministically E V i rejected =
     (\<lambda>s. case map_of (transactions (sn_pending s)) i of
            None \<Rightarrow> (Inl (SeRegistry ''cannot read transaction''), s)
          | Some pt \<Rightarrow>
              (case reassignable_token (pt_state pt) of
                 None \<Rightarrow> (Inl (SeRegistry ''no transaction in state''), s)
               | Some token_id \<Rightarrow>
                   bind_act (lift_res (selection_tip E V token_id)) (\<lambda>tip.
                   assign_finalizer_deterministic_retry E V i (sn_epoch s) rejected tip) s))"

text \<open>The first other key of the bucket, when no deterministic choice is possible.\<close>

definition fallback_finalizer :: "string \<Rightarrow> bytes \<Rightarrow> bytes sact" where
  "fallback_finalizer i rejected =
     (\<lambda>s. case filter (\<lambda>key. key \<noteq> rejected) (map fst (get_nodes (sn_nodes s) Finalizer)) of
            [] \<Rightarrow> (Inl (SeRegistry ''no alternative finalizer''), release_lock i s)
          | key # _ \<Rightarrow> (Inr key, s))"

definition choose_new_finalizer :: "('f, 'p, 'r) sentinel_env \<Rightarrow> sentinel_view \<Rightarrow> string \<Rightarrow> bytes \<Rightarrow> bytes sact" where
  "choose_new_finalizer E V i rejected =
     (\<lambda>s. case reassign_finalizer_deterministically E V i rejected s of
            (Inr key, s1) \<Rightarrow> (Inr key, s1)
          | (Inl _, s1) \<Rightarrow> fallback_finalizer i rejected s1)"

text \<open>The entry is moved to the new finalizer.  An entry that is not with a finalizer yet is released
  while it is held, which never returns.\<close>

definition move_to_finalizer :: "string \<Rightarrow> bytes \<Rightarrow> transaction sact" where
  "move_to_finalizer i key =
     (\<lambda>s. case map_of (transactions (sn_pending s)) i of
            None \<Rightarrow> (Inl (SeRegistry ''cannot read transaction''), release_lock i s)
          | Some pt \<Rightarrow>
              (case pt_state pt of
                 Finalizing tx _ \<Rightarrow> (Inr tx, snd (on_registry (with_transaction_mut i (transition_to_finalizing tx key)) s))
               | _ \<Rightarrow> (Inl SeHangs, s)))"

definition restamp :: "('f, 'p, 'r) sentinel_env \<Rightarrow> sentinel_view \<Rightarrow> string \<Rightarrow> bytes \<Rightarrow> transaction \<Rightarrow> transaction sact" where
  "restamp E V i key tx =
     bind_act (case tx_selection tx of
                 Some record \<Rightarrow> ret (sel_epoch record, sel_salt record)
               | None \<Rightarrow> bind_act (lift_res (selection_tip E V (tx_token tx))) (\<lambda>tip s. (Inr (sn_epoch s, tip), s))) (\<lambda>(epoch, salt) s.
     case attest_selection E i key epoch salt of
       Inl e \<Rightarrow> (Inl (from_notify_error e), release_lock i s)
     | Inr record \<Rightarrow> (Inr (tx\<lparr>tx_selection := Some record\<rparr>), s))"

definition handle_rejection :: "('f, 'p, 'r) sentinel_env \<Rightarrow> sentinel_view \<Rightarrow> message \<Rightarrow> unit sact" where
  "handle_rejection E V m =
     bind_act (lift_res (sentinel_io (se_un_str E (msg_body m)))) (\<lambda>i.
     bind_act (or_raise (on_registry (acquire_transaction i)) (SeTransactionInTerminalState i)) (\<lambda>_ s.
     if \<not> is_requested_finalizer (sn_pending s) i (msg_public_key m) then (Inl (SeRegistry ''non-assigned finalizer''), s)
     else bind_act (choose_new_finalizer E V i (msg_public_key m)) (\<lambda>key.
          bind_act (move_to_finalizer i key) (\<lambda>tx.
          bind_act (restamp E V i key tx) (\<lambda>tx1 s.
          case notifying (request_single_finalizer E V tx1 key) s of
            (sent, s1) \<Rightarrow> (sent, release_lock i (snd (notify_delete E i s1)))))) s))"

section \<open>Registration and epochs\<close>

definition meets_minimum_stake :: "u64 \<Rightarrow> u64 \<Rightarrow> u64 \<Rightarrow> bool" where
  "meets_minimum_stake stake global_min type_min \<longleftrightarrow> stake \<ge> global_min \<and> stake \<ge> type_min"

definition check_stake_for_type :: "('f, 'p, 'r) sentinel_env \<Rightarrow> sentinel_view \<Rightarrow> bytes \<Rightarrow> node_registry_type \<Rightarrow> sentinel_error + bool" where
  "check_stake_for_type E V key t =
     (case sv_user V key (se_environment_id E) of
        Inl e \<Rightarrow> Inl (SeData e)
      | Inr u \<Rightarrow> Inr (meets_minimum_stake (user_stake u) (se_global_min_stake E) (se_min_type_stake E t)))"

definition handle_register_request :: "('f, 'p, 'r) sentinel_env \<Rightarrow> sentinel_view \<Rightarrow> message \<Rightarrow> unit sact" where
  "handle_register_request E V m =
     bind_act (lift_res (sentinel_io (se_un_register E (msg_body m)))) (\<lambda>req s.
     if \<not> verify_binding (fo_registry (se_fanout E)) (rr_requester_key req) (rr_rhash req) (rr_requested_type req) (rr_requester_types req)
           (rr_binding_signature req)
     then (Inl (SeRegistry ''invalid binding signature''), s)
     else if node_is_already_registered (sn_nodes s) (rr_requester_key req) (rr_requested_type req)
     then (Inl (SeRegistry ''already registered''), s)
     else case check_stake_for_type E V (rr_requester_key req) (rr_requested_type req) of
            Inl e \<Rightarrow> (Inl e, s)
          | Inr enough \<Rightarrow>
              if \<not> enough then (Inl (SeRegistry ''insufficient stake''), s)
              else (Inr (), s\<lparr>sn_nodes := fold (\<lambda>t r. put_nodes t (AList.update (rr_requester_key req) (node_new (sv_now V) (rr_rhash req)) (get_nodes r t)) r)
                                          (rr_requester_types req) (sn_nodes s)\<rparr>))"

definition sentinel_advance_epoch :: "u64 \<Rightarrow> sentinel \<Rightarrow> sentinel" where
  "sentinel_advance_epoch epoch s =
     (if epoch \<le> sn_epoch s then s
      else s\<lparr>sn_epoch := epoch, sn_executor_cache := invalidate_all (sn_executor_cache s), sn_stake_cache := invalidate_all (sn_stake_cache s)\<rparr>)"

definition handle_block_finalized_for_epoch :: "('f, 'p, 'r) sentinel_env \<Rightarrow> message \<Rightarrow> unit sact" where
  "handle_block_finalized_for_epoch E m =
     bind_act (lift_res (sentinel_io (se_un_block E (msg_body m)))) (\<lambda>b s.
     if map_of (get_nodes (sn_nodes s) Finalizer) (msg_public_key m) = None then (Inl (SeRegistry ''non-finalizer''), s)
     else (Inr (), sentinel_advance_epoch (blk_epoch b) s))"

section \<open>Shielded transfers and dispatch\<close>

definition sentinel_validate_shielded :: "('f, 'p, 'r) sentinel_env \<Rightarrow> sentinel_view \<Rightarrow> shielded_transaction \<Rightarrow> sentinel_error + unit" where
  "sentinel_validate_shielded E V stx =
     (if \<not> se_shielded_spec E then Inl (SeValidation (Validation [UnsupportedAction]))
      else case validate_shielded (se_field E) (se_max_risk E) stx
                  \<lparr>deps_spent = nullifier_contains (pv_nullifiers (sv_pool V)), deps_roots = roots (pv_roots (sv_pool V)),
                   deps_recency_window = se_recency E\<rparr> of
             Inl e \<Rightarrow> Inl (SeValidation e)
           | Inr _ \<Rightarrow> Inr ())"

definition shielded_token :: "('f, 'p, 'r) sentinel_env \<Rightarrow> sentinel_view \<Rightarrow> bytes \<Rightarrow> sentinel_error + token" where
  "shielded_token E V token_id =
     (case sv_token V token_id (se_partition E) of
        Inl _ \<Rightarrow> Inl (SeValidation (Validation [TokenNotFound]))
      | Inr t \<Rightarrow>
          if \<not> is_self_verified t then Inl (SeValidation (Validation [NotSelfVerified]))
          else if \<not> is_shielded_opt_in t then Inl (SeValidation (Validation [NotShieldedOptIn]))
          else Inr t)"

definition handle_shielded_transfer :: "('f, 'p, 'r) sentinel_env \<Rightarrow> sentinel_view \<Rightarrow> message \<Rightarrow> unit sact" where
  "handle_shielded_transfer E V m =
     bind_act (lift_res (sentinel_io (se_un_shielded E (msg_body m)))) (\<lambda>stx.
     bind_act (lift_res (sentinel_validate_shielded E V stx)) (\<lambda>_.
     bind_act (lift_res (shielded_token E V (sh_token stx))) (\<lambda>t.
     bind_act (or_raise (on_registry (register_shielded stx)) (SeTransactionAlreadyExists (sh_id stx))) (\<lambda>_.
     bind_act (\<lambda>s. assign_finalizer_deterministic E V (sh_id stx) (sn_epoch s) (chain_tip_of E t) s) (\<lambda>key.
     notifying (send_sign_shielded E V stx key))))))"

definition on_data_received :: "('f, 'p, 'r) sentinel_env \<Rightarrow> sentinel_view \<Rightarrow> bytes \<Rightarrow> unit sact" where
  "on_data_received E V raw =
     bind_act (lift_res (sentinel_io (se_un_message E raw))) (\<lambda>m.
     if msg_action m = ''Process'' then handle_process_request E V m
     else if msg_action m = ''Confirm'' then handle_confirmation E m
     else if msg_action m = ''Reject'' then handle_rejection E V m
     else if msg_action m = ''Register'' then handle_register_request E V m
     else if msg_action m = ''Clear'' \<or> msg_action m = ''Delete'' then handle_clear_request E m
     else if msg_action m = ''BlockFinalized'' then handle_block_finalized_for_epoch E m
     else if msg_action m = ''ShieldedTransfer'' then handle_shielded_transfer E V m
     else raise (SeUnknownAction (msg_action m)))"

end
