(* ===== verification/Sentinel_Properties.thy ===== *)
theory Sentinel_Properties
  imports Sentinel Finalizer_Properties
begin

text \<open>
  What the sentinel guarantees: a transaction it sends on was authorised by its sender, passed its spec,
  used a fresh nonce and carries a decision for one staked and reachable finalizer, which is the only
  finalizer that accepts it; and its epoch only moves forward, on the word of a registered finalizer.  Two
  theorems show how a second transaction or an early rejection stops one that is in flight.
\<close>

section \<open>The chosen finalizer\<close>

text \<open>A key the sentinel can name: registered as a Finalizer, or its own on a host that runs one.\<close>

definition reachable_finalizer :: "('f, 'p, 'r) sentinel_env \<Rightarrow> node_registry \<Rightarrow> bytes \<Rightarrow> bool" where
  "reachable_finalizer E r key \<longleftrightarrow>
     map_of (get_nodes r Finalizer) key \<noteq> None \<or> (Finalizer \<in> set (self_delivery_roles r) \<and> key = rg_public_key (fo_registry (se_fanout E)))"

lemma assign_finalizer_result:
  assumes "assign_finalizer_deterministic E V i epoch tip s = (Inr key, t)"
  shows "\<exists>ss. fst (cache_get (sv_stakes V) epoch (sn_stake_cache s)) = Some ss \<and> 0 < get_stake ss key \<and>
           reachable_finalizer E (sn_nodes s) key \<and> t = s\<lparr>sn_stake_cache := snd (cache_get (sv_stakes V) epoch (sn_stake_cache s))\<rparr>"
proof -
  obtain o1 c where get: "cache_get (sv_stakes V) epoch (sn_stake_cache s) = (o1, c)" by fastforce
  then obtain ss where ss: "o1 = Some ss"
    and sel: "deterministic_select (se_sha E) (se_rng E) (staked_finalizers E (sn_nodes s) ss) FINALIZER_DOMAIN (as_bytes i) epoch tip = Some key"
    and stake: "get_stake ss key \<noteq> 0" and t: "t = s\<lparr>sn_stake_cache := c\<rparr>"
    using assms by (auto simp: assign_finalizer_deterministic_def bind_act_def Let_def split: option.splits if_splits)
  have "key \<in> set (positive_keys (stakers (staked_finalizers E (sn_nodes s) ss)))"
    using sel by (auto simp: deterministic_select_def Let_def dest: walk_or_first_mem split: if_splits)
  then have "reachable_finalizer E (sn_nodes s) key"
    by (auto simp: positive_keys_def staked_finalizers_def reachable_finalizer_def)
  then show ?thesis using get ss stake t by (auto simp: word_gt_0)
qed

lemma routing_decision_result:
  assumes "routing_decision_for E V tx t s = (Inr (key, dec), u)"
  shows "key = sel_finalizer dec \<and> sn_nodes u = sn_nodes s \<and> sn_pending u = sn_pending s \<and> sn_sent u = sn_sent s \<and> sn_epoch u = sn_epoch s \<and>
         (case tx_selection tx of
            Some carried \<Rightarrow> dec = carried
          | None \<Rightarrow> attest (se_codec E) (se_identity E) (tx_id tx) FINALIZER_DOMAIN key (sn_epoch s) (chain_tip_of E t) = Inr dec \<and>
              reachable_finalizer E (sn_nodes s) key \<and>
              (\<exists>ss. fst (cache_get (sv_stakes V) (sn_epoch s) (sn_stake_cache s)) = Some ss \<and> 0 < get_stake ss key))"
proof (cases "tx_selection tx")
  case None
  obtain r1 s1 where a: "assign_finalizer_deterministic E V (tx_id tx) (sn_epoch s) (chain_tip_of E t) s = (r1, s1)" by fastforce
  have r1: "r1 = Inr key" and u: "u = s1" and att: "attest (se_codec E) (se_identity E) (tx_id tx) FINALIZER_DOMAIN key (sn_epoch s) (chain_tip_of E t) = Inr dec"
    using assms None a
    by (auto simp: routing_decision_for_def bind_act_def Let_def notifying_def attest_selection_def notify_pneumatic_def split: sum.splits prod.splits)
  have "key = sel_finalizer dec" using att by (auto simp: attest_def split: sum.splits)
  then show ?thesis using assign_finalizer_result [OF a [unfolded r1]] att None u by auto
next
  case (Some carried)
  then show ?thesis using assms by (auto simp: routing_decision_for_def)
qed


section \<open>Admission\<close>

lemma on_registry_fields [simp]:
  "sn_sent (snd (on_registry f s)) = sn_sent s" "sn_nodes (snd (on_registry f s)) = sn_nodes s" "sn_epoch (snd (on_registry f s)) = sn_epoch s"
  "sn_stake_cache (snd (on_registry f s)) = sn_stake_cache s" "fst (on_registry f s) = fst (f (sn_pending s))"
  "sn_pending (snd (on_registry f s)) = snd (f (sn_pending s))"
  by (simp_all add: on_registry_def case_prod_beta)

lemma release_lock_fields [simp]:
  "sn_sent (release_lock i s) = sn_sent s" "sn_nodes (release_lock i s) = sn_nodes s" "sn_epoch (release_lock i s) = sn_epoch s"
  by (simp_all add: release_lock_def)

lemma send_to_executor_sent:
  assumes "send_to_executor_for_preload E V tx s = (r, t)" and "sn_sent t \<noteq> sn_sent s"
  shows "\<exists>keys pm. sn_sent t = sn_sent s @ [(Executor, keys, pm)] \<and> sn_pending t = sn_pending s \<and> msg_action pm = ''Preload'' \<and>
           rmp_tx (se_codec E) tx = Inr (msg_body pm) \<and> message_signed (se_identity E) (se_partition E) ''Preload'' (msg_body pm) None = Inr pm"
proof -
  have frame: "\<exists>keys pm. sn_sent t' = sn_sent s' @ [(Executor, keys, pm)] \<and> sn_pending t' = sn_pending s' \<and> msg_action pm = ''Preload'' \<and>
      rmp_tx (se_codec E) tx = Inr (msg_body pm) \<and> message_signed (se_identity E) (se_partition E) ''Preload'' (msg_body pm) None = Inr pm"
    if "notifying (send_to_shard_executors_for_preload E V tx keys) s' = (r, t')" and "sn_sent t' \<noteq> sn_sent s'" for keys s' t'
    using that
    by (auto simp: notifying_def send_to_shard_executors_for_preload_def signed_frame_def send_to_keys_def notify_io_def notify_pneumatic_def bind_act_def
        split: sum.splits prod.splits if_splits) (metis message_signed_fields)+
  have shard: "sn_sent u = sn_sent s \<and> sn_pending u = sn_pending s" if "get_shard_executors E V i e tip s = (r', u)" for i e tip r' u
    using that by (auto simp: get_shard_executors_def bind_act_def split: option.splits if_splits prod.splits)
  show ?thesis
  proof (cases "se_shard_count E > 1")
    case False
    then show ?thesis
      using assms
      by (auto simp: send_to_executor_for_preload_def notifying_def send_to_executors_for_preload_def signed_frame_def send_to_nodes_def notify_io_def
          notify_pneumatic_def bind_act_def split: sum.splits prod.splits) (metis message_signed_fields)+
  next
    case True
    then obtain tip keys u where "get_shard_executors E V (tx_id tx) (sn_epoch s) tip s = (Inr keys, u)"
      and "notifying (send_to_shard_executors_for_preload E V tx keys) u = (r, t)"
      using assms shard
      by (auto simp: send_to_executor_for_preload_def bind_act_def split: sum.splits prod.splits)
    then show ?thesis using frame [of keys u t] shard assms(2) by auto
  qed
qed


lemma admit_result:
  assumes "admit tx key s = (Inr (), t)"
  shows "(tx_token tx, tx_sender tx, tx_seq tx) \<notin> set (used_nonces (sn_pending s)) \<and> (tx_token tx, tx_sender tx, tx_seq tx) \<in> set (used_nonces (sn_pending t)) \<and>
         (\<exists>pt v. map_of (transactions (sn_pending t)) (tx_id tx) = Some pt \<and> pt_state pt = Validated tx v \<and> finalizer_public_key v = key) \<and>
         sn_sent t = sn_sent s"
  using assms
  by (auto simp: admit_def on_registry_def transition_to_validated_and_enqueue_def with_transaction_mut_def enqueue_to_pool_def put_transaction_def
      transition_to_validated_def update_conv' split: prod.splits option.splits if_splits)

text \<open>What holds of a transaction that the sentinel sent on, in terms of the state it was received in.\<close>

definition sent_on ::
    "('f, 'p, 'r) sentinel_env \<Rightarrow> sentinel_view \<Rightarrow> transaction \<Rightarrow> token \<Rightarrow> selection_record \<Rightarrow> sentinel \<Rightarrow> sentinel \<Rightarrow> bool" where
  "sent_on E V tx t dec s u \<longleftrightarrow>
     (\<exists>keys pm. sn_sent u = sn_sent s @ [(Executor, keys, pm)] \<and> msg_action pm = ''Preload'' \<and>
        rmp_tx (se_codec E) (tx\<lparr>tx_selection := Some dec\<rparr>) = Inr (msg_body pm)) \<and>
     (tx_token tx, tx_sender tx, tx_seq tx) \<notin> set (used_nonces (sn_pending s)) \<and>
     (tx_token tx, tx_sender tx, tx_seq tx) \<in> set (used_nonces (sn_pending u)) \<and>
     (\<exists>pt v. map_of (transactions (sn_pending u)) (tx_id tx) = Some pt \<and> pt_state pt = Validated (tx\<lparr>tx_selection := Some dec\<rparr>) v \<and>
        finalizer_public_key v = sel_finalizer dec) \<and>
     (case tx_selection tx of
        Some carried \<Rightarrow> dec = carried
      | None \<Rightarrow> attest (se_codec E) (se_identity E) (tx_id tx) FINALIZER_DOMAIN (sel_finalizer dec) (sn_epoch s) (chain_tip_of E t) = Inr dec \<and>
          reachable_finalizer E (sn_nodes s) (sel_finalizer dec) \<and>
          (\<exists>ss. fst (cache_get (sv_stakes V) (sn_epoch s) (sn_stake_cache s)) = Some ss \<and> 0 < get_stake ss (sel_finalizer dec)))"

lemma route_and_send_sent:
  assumes "route_and_send E V tx t s = (r, u)" and "sn_sent u \<noteq> sn_sent s"
  shows "\<exists>dec. sent_on E V tx t dec s u"
proof -
  obtain r1 s1 where d: "routing_decision_for E V tx t s = (r1, s1)" by fastforce
  have kept: "sn_sent s1 = sn_sent s" if "r1 = Inl e" for e
    using d that
    by (auto simp: routing_decision_for_def assign_finalizer_deterministic_def bind_act_def Let_def notifying_def
        split: option.splits sum.splits prod.splits if_splits)
  obtain key dec where r1: "r1 = Inr (key, dec)"
    using assms d kept by (cases r1) (auto simp: route_and_send_def)
  note dec = routing_decision_result [OF d [unfolded r1]]
  define tx1 where "tx1 = tx\<lparr>tx_selection := Some dec\<rparr>"
  obtain r2 s2 where a: "admit tx1 key s1 = (r2, s2)" by fastforce
  have sent2: "sn_sent s2 = sn_sent s1" using a by (auto simp: admit_def on_registry_def split: prod.splits)
  have ok: "r2 = Inr ()" and send: "send_to_executor_for_preload E V tx1 s2 = (r, u)"
    using assms d r1 a dec sent2 by (auto simp: route_and_send_def Let_def tx1_def [symmetric] split: sum.splits)
  note adm = admit_result [OF a [unfolded ok]]
  have "sn_sent u \<noteq> sn_sent s2" using assms(2) sent2 dec by simp
  then obtain keys pm where "sn_sent u = sn_sent s2 @ [(Executor, keys, pm)]" "sn_pending u = sn_pending s2" "msg_action pm = ''Preload''"
    "rmp_tx (se_codec E) tx1 = Inr (msg_body pm)"
    using send_to_executor_sent [OF send] by blast
  moreover have "tx_token tx1 = tx_token tx" "tx_sender tx1 = tx_sender tx" "tx_seq tx1 = tx_seq tx" "tx_id tx1 = tx_id tx" by (simp_all add: tx1_def)
  ultimately have "sent_on E V tx t dec s u"
    unfolding sent_on_def tx1_def [symmetric] using adm dec sent2 by (auto split: option.splits)
  then show ?thesis ..
qed

text \<open>An authentic and valid request is registered and locked before it is routed.\<close>

lemma process_run:
  fixes E :: "('f, 'p, 'r) sentinel_env"
  assumes "se_un_tx E (msg_body m) = Inr tx" and "authenticate_sender E m tx = Inr ()"
    and "validate_transaction (se_specs E) (sentinel_token E V) tx = Inr ()"
    and "s1 = s\<lparr>sn_pending := record_gas_used (tx_id tx) (compute_gas_used E tx) (sn_pending s)\<rparr>"
    and "s2 = snd (on_registry (register_pending (tx_id tx)) s1)" and "s3 = snd (on_registry (acquire_transaction (tx_id tx)) s2)"
  shows "handle_process_request E V m s = (case fst (register_pending (tx_id tx) (sn_pending s1)) of
      Inl _ \<Rightarrow> (Inl (SeTransactionAlreadyExists (tx_id tx)), s2)
    | Inr _ \<Rightarrow> (case fst (acquire_transaction (tx_id tx) (sn_pending s2)) of
        Inl _ \<Rightarrow> (Inl (SeTransactionInTerminalState (tx_id tx)), s3)
      | Inr _ \<Rightarrow> (case sv_token V (tx_token tx) (se_partition E) of
          Inl e \<Rightarrow> (Inl (SeData e), s3)
        | Inr t \<Rightarrow> if is_self_verified t then handle_self_signed tx (compute_gas_used E tx) s3 else route_and_send E V tx t s3)))"
proof -
  have reg: "bind_act (or_raise (on_registry f) e) k w =
      (case fst (f (sn_pending w)) of Inl _ \<Rightarrow> (Inl e, snd (on_registry f w)) | Inr x \<Rightarrow> k x (snd (on_registry f w)))" for f e k w
    by (simp add: bind_act_def or_raise_def on_registry_def split: prod.split sum.split)
  show ?thesis
    using assms(1-3) unfolding handle_process_request_def bind_lift sentinel_io_def
    by (cases "sv_token V (tx_token tx) (se_partition E)")
      (simp_all add: bind_alter reg assms(4-6) [symmetric] cong: sum.case_cong if_cong split: if_splits)
qed

lemma sent_transaction_routed:
  assumes "se_un_tx E (msg_body m) = Inr tx" and "handle_process_request E V m s = (r, u)" and "sn_sent u \<noteq> sn_sent s"
  shows "tx_sender tx \<noteq> [] \<and> msg_public_key m = tx_sender tx \<and> verify_sender_signature (se_codec E) (se_crypto E) tx = Inr True \<and>
         validate_transaction (se_specs E) (sentinel_token E V) tx = Inr () \<and>
         (\<exists>t dec. sv_token V (tx_token tx) (se_partition E) = Inr t \<and> \<not> is_self_verified t \<and> sent_on E V tx t dec s u)"
proof -
  define s1 where "s1 = s\<lparr>sn_pending := record_gas_used (tx_id tx) (compute_gas_used E tx) (sn_pending s)\<rparr>"
  define s2 where "s2 = snd (on_registry (register_pending (tx_id tx)) s1)"
  define s3 where "s3 = snd (on_registry (acquire_transaction (tx_id tx)) s2)"
  have keep: "sn_sent s3 = sn_sent s" "sn_nodes s3 = sn_nodes s" "sn_epoch s3 = sn_epoch s" "sn_stake_cache s3 = sn_stake_cache s"
    "used_nonces (sn_pending s3) = used_nonces (sn_pending s)"
    by (simp_all add: s3_def s2_def s1_def)
      (simp add: register_pending_def add_transaction_def acquire_transaction_def put_transaction_def record_gas_used_def Let_def
        split: option.split)
  have auth: "authenticate_sender E m tx = Inr ()"
    using assms by (auto simp: handle_process_request_def sentinel_io_def bind_lift split: sum.splits)
  have val: "validate_transaction (se_specs E) (sentinel_token E V) tx = Inr ()"
    using assms auth by (auto simp: handle_process_request_def sentinel_io_def bind_lift sentinel_failed_def split: sum.splits)
  note run = process_run [OF assms(1) auth val s1_def s2_def s3_def, unfolded assms(2)]
  have self: "sn_sent (snd (handle_self_signed tx gas w)) = sn_sent w" for gas w
    by (auto simp: handle_self_signed_def bind_act_def or_raise_def admit_def on_registry_def split: prod.splits sum.splits)
  have "sn_sent s2 = sn_sent s" by (simp add: s2_def s1_def)
  then obtain t where t: "sv_token V (tx_token tx) (se_partition E) = Inr t" "\<not> is_self_verified t" and send: "route_and_send E V tx t s3 = (r, u)"
    using run assms(3) keep(1) self [of "compute_gas_used E tx" s3] by (auto split: sum.splits if_splits dest: arg_cong [of _ _ snd])
  then obtain dec where "sent_on E V tx t dec s3 u" using route_and_send_sent assms(3) keep(1) by fastforce
  then have "sent_on E V tx t dec s u" unfolding sent_on_def keep .
  then show ?thesis using auth val t by (auto simp: authenticate_sender_def split: if_splits sum.splits)
qed



section \<open>One finalizer for a transaction\<close>

text \<open>A finalizer that shares the encoding and the signature scheme and knows the sentinel as such.\<close>

definition knows_sentinel :: "('f, 'p, 'r) sentinel_env \<Rightarrow> ('g, 'q) finalizer_env \<Rightarrow> finalizer_view \<Rightarrow> bool" where
  "knows_sentinel E F W \<longleftrightarrow>
     fe_codec F = se_codec E \<and> check_signature (fe_identity F) = check_signature (se_identity E) \<and>
     (\<forall>key. public_key (se_identity E) = Inr key \<longrightarrow>
        key \<noteq> [] \<and> Sentinel \<in> set (find_node_types_by_public_key (fo_registry (fe_fanout F)) (fv_nodes W) key))"

lemma attested_accepted:
  assumes "attest (se_codec E) (se_identity E) (tx_id tx) FINALIZER_DOMAIN key epoch salt = Inr dec" and "signs_correctly (se_identity E)"
    and "knows_sentinel E F W" and "key \<noteq> []"
  shows "finalize_authority F W (tx\<lparr>tx_selection := Some dec\<rparr>) = Inr () \<longleftrightarrow> fe_public_key F = key"
proof -
  obtain surface g pk where att: "attestation_surface (se_codec E) (tx_id tx) FINALIZER_DOMAIN key epoch salt = Inr surface"
    "sign_data (se_identity E) surface = Inr g" "public_key (se_identity E) = Inr pk"
    and dec: "dec = \<lparr>sel_finalizer = key, sel_epoch = epoch, sel_salt = salt, sel_sentinel = pk, sel_attestation = g\<rparr>"
    using assms(1) by (auto simp: attest_def split: sum.splits)
  have "g \<noteq> [] \<and> check_signature (se_identity E) g pk surface = Inr True" using assms(2) att by (auto simp: signs_correctly_def)
  then have "selection_verify (fe_codec F) (fe_identity F) dec (tx_id tx) FINALIZER_DOMAIN = Inr True"
    using assms(3) att dec by (simp add: selection_verify_def knows_sentinel_def)
  then show ?thesis
    using assms(3,4) att(3) dec by (auto simp: finalize_authority_def selection_names_def knows_sentinel_def)
qed

text \<open>C7: a transaction that arrived without a decision leaves the sentinel for exactly one finalizer: of all the
  finalizers that know the sentinel, the one whose key was chosen accepts the transaction that was sent
  on, and no other does.  The chosen key has stake in the epoch's snapshot.\<close>

theorem routed_to_one_finalizer:
  assumes "se_un_tx E (msg_body m) = Inr tx" and "handle_process_request E V m s = (r, u)" and "sn_sent u \<noteq> sn_sent s"
    and "tx_selection tx = None" and "signs_correctly (se_identity E)" and "map_of (get_nodes (sn_nodes s) Finalizer) [] = None"
    and "rg_public_key (fo_registry (se_fanout E)) \<noteq> []"
  shows "\<exists>tx1 keys pm ss key. sn_sent u = sn_sent s @ [(Executor, keys, pm)] \<and> rmp_tx (se_codec E) tx1 = Inr (msg_body pm) \<and>
           tx1\<lparr>tx_selection := None\<rparr> = tx \<and> fst (cache_get (sv_stakes V) (sn_epoch s) (sn_stake_cache s)) = Some ss \<and> 0 < get_stake ss key \<and>
           (\<forall>(F :: ('g, 'q) finalizer_env) W. knows_sentinel E F W \<longrightarrow> (finalize_authority F W tx1 = Inr () \<longleftrightarrow> fe_public_key F = key))"
proof -
  obtain t dec where on: "sent_on E V tx t dec s u" using sent_transaction_routed [OF assms(1-3)] by blast
  have att: "attest (se_codec E) (se_identity E) (tx_id tx) FINALIZER_DOMAIN (sel_finalizer dec) (sn_epoch s) (chain_tip_of E t) = Inr dec"
    and reach: "reachable_finalizer E (sn_nodes s) (sel_finalizer dec)"
    using on assms(4) by (simp_all add: sent_on_def)
  obtain ss where ss: "fst (cache_get (sv_stakes V) (sn_epoch s) (sn_stake_cache s)) = Some ss" "0 < get_stake ss (sel_finalizer dec)"
    using on assms(4) by (auto simp: sent_on_def)
  obtain keys pm where sent: "sn_sent u = sn_sent s @ [(Executor, keys, pm)]" "rmp_tx (se_codec E) (tx\<lparr>tx_selection := Some dec\<rparr>) = Inr (msg_body pm)"
    using on by (auto simp: sent_on_def)
  have key: "sel_finalizer dec \<noteq> []" using reach assms(6,7) by (auto simp: reachable_finalizer_def)
  have "finalize_authority F W (tx\<lparr>tx_selection := Some dec\<rparr>) = Inr () \<longleftrightarrow> fe_public_key F = sel_finalizer dec"
    if "knows_sentinel E F W" for F :: "('g, 'q) finalizer_env" and W
    using attested_accepted [OF att assms(5) that key] .
  moreover have "tx\<lparr>tx_selection := Some dec, tx_selection := None\<rparr> = tx" using assms(4) by simp
  ultimately show ?thesis
    using sent ss
    by (intro exI [of _ "tx\<lparr>tx_selection := Some dec\<rparr>"] exI [of _ keys] exI [of _ pm] exI [of _ ss] exI [of _ "sel_finalizer dec"]) simp
qed


section \<open>The epoch\<close>

definition epoch_kept :: "sentinel \<Rightarrow> sentinel \<Rightarrow> bool" where
  "epoch_kept s t \<longleftrightarrow> sn_epoch t = sn_epoch s"

interpretation still: action_order epoch_kept
  by unfold_locales (simp_all add: epoch_kept_def)

lemma notifying_state: "snd (notifying m s) = snd (m s)"
  by (simp add: notifying_def split: prod.split sum.split)

lemma or_raise_state: "snd (or_raise m e s) = snd (m s)"
  by (simp add: or_raise_def split: prod.split sum.split)

lemma frame_kept: "epoch_kept s (snd (signed_frame E action body s))"
  unfolding signed_frame_def by (intro still.bound_lift) (simp add: still.unchanged)

lemma sends_kept:
  "epoch_kept s (snd (send_to_nodes E t mp s))" "epoch_kept s (snd (send_to_keys E V t keys mp s))"
  by (simp_all add: send_to_nodes_def send_to_keys_def epoch_kept_def split: prod.split)

lemma notices_kept:
  "epoch_kept s (snd (send_to_executors_for_preload E tx s))" "epoch_kept s (snd (send_to_shard_executors_for_preload E V tx keys s))"
  "epoch_kept s (snd (request_single_finalizer E V tx key s))" "epoch_kept s (snd (send_sign_shielded E V stx key s))"
  "epoch_kept s (snd (notify_delete E i s))"
  unfolding send_to_executors_for_preload_def send_to_shard_executors_for_preload_def request_single_finalizer_def send_sign_shielded_def
    notify_delete_def deliver_to_finalizer_def
  by (intro still.bound_lift still.bound_at [OF frame_kept] still.bound_at [OF sends_kept(2)]; auto simp: sends_kept still.unchanged
      intro!: still.bound_at [OF sends_kept(2)])+

lemma assign_kept: "epoch_kept s (snd (assign_finalizer_deterministic E V i e tip s))"
  by (simp add: assign_finalizer_deterministic_def bind_act_def epoch_kept_def Let_def split: prod.split option.split)

lemma preload_kept: "epoch_kept s (snd (send_to_executor_for_preload E V tx s))"
proof -
  have "epoch_kept s (snd (get_shard_executors E V i e tip s))" for i e tip s
    by (simp add: get_shard_executors_def bind_act_def epoch_kept_def split: prod.split option.split)
  then show ?thesis
    unfolding send_to_executor_for_preload_def by (auto simp: notifying_state notices_kept intro!: still.bound_lift still.bound_at)
qed

lemma registry_kept: "epoch_kept s (snd (on_registry f s))" "epoch_kept s (release_lock i s)" "epoch_kept s (sentinel_failed i tx e s)"
  "epoch_kept s (snd (admit tx key s))" "epoch_kept s (s\<lparr>sn_pending := p\<rparr>)"
  by (simp_all add: epoch_kept_def sentinel_failed_def admit_def)

lemma self_signed_kept: "epoch_kept s (snd (handle_self_signed tx gas s))"
  unfolding handle_self_signed_def
  by (intro still.bound_at) (simp_all add: or_raise_state registry_kept)

lemma routing_kept: "epoch_kept s (snd (routing_decision_for E V tx t s))"
  by (auto simp: routing_decision_for_def Let_def notifying_state still.unchanged intro!: still.bound_at [OF assign_kept] still.bound_at split: option.split)

lemma route_kept: "epoch_kept s (snd (route_and_send E V tx t s))"
proof -
  obtain r1 s1 where d: "routing_decision_for E V tx t s = (r1, s1)" by fastforce
  have s1: "epoch_kept s s1" using routing_kept [of s E V tx t] d by simp
  have tail: "epoch_kept w (snd (case admit tx1 key w of (Inl e, s2) \<Rightarrow> (Inl (SeRegistry ''enqueue''), release_lock (tx_id tx) s2)
      | (Inr x, s2) \<Rightarrow> send_to_executor_for_preload E V tx1 s2))" for tx1 key w
    using registry_kept(4) [of w tx1 key] registry_kept(2) preload_kept by (fastforce split: prod.split sum.split intro: still.chained)
  show ?thesis
    using still.chained [OF s1 tail] still.chained [OF s1 registry_kept(2)]
    by (simp add: route_and_send_def d Let_def split: sum.split prod.split)
qed

lemma process_kept: "epoch_kept s (snd (handle_process_request E V m s))"
  unfolding handle_process_request_def
  by (intro still.bound_lift)
    (auto simp: registry_kept or_raise_state self_signed_kept route_kept still.unchanged intro!: still.bound_at split: sum.split)

lemma clear_kept: "epoch_kept s (snd (handle_clear_request E m s))"
  unfolding handle_clear_request_def by (intro still.bound_lift) (simp add: registry_kept)

lemma confirmation_kept: "epoch_kept s (snd (handle_confirmation E m s))"
  unfolding handle_confirmation_def
  by (intro still.bound_lift still.bound_at)
    (auto simp: registry_kept or_raise_state notices_kept still.unchanged intro!: still.bound_at split: option.split transaction_state.split)

lemma choice_kept: "epoch_kept s (snd (choose_new_finalizer E V i key s))"
proof -
  have re: "epoch_kept s (snd (reassign_finalizer_deterministically E V i key s))"
    unfolding reassign_finalizer_deterministically_def assign_finalizer_deterministic_retry_def
    by (auto simp: still.unchanged assign_kept intro!: still.bound_lift still.bound_at [OF assign_kept] split: option.split)
  have fall: "epoch_kept w (snd (fallback_finalizer i key w))" for w
    by (simp add: fallback_finalizer_def registry_kept still.unchanged split: list.split)
  obtain r1 s1 where "reassign_finalizer_deterministically E V i key s = (r1, s1)" by fastforce
  then show ?thesis
    using re still.chained [OF _ fall, of s s1] by (simp add: choose_new_finalizer_def split: sum.split)
qed

lemma rejection_kept: "epoch_kept s (snd (handle_rejection E V m s))"
proof -
  have move: "epoch_kept w (snd (move_to_finalizer i key w))" for i key w
    by (auto simp: move_to_finalizer_def registry_kept still.unchanged split: option.split transaction_state.split)
  have stamp: "epoch_kept w (snd (restamp E V i key tx w))" for i key tx w
    unfolding restamp_def
    by (intro still.bound_at) (auto simp: registry_kept still.unchanged intro!: still.bound_lift split: option.split sum.split)
  have last: "epoch_kept w (snd (case notifying (request_single_finalizer E V tx key) w of
      (sent, s1) \<Rightarrow> (sent, release_lock i (snd (notify_delete E i s1)))))" for i key tx w
    unfolding case_prod_beta snd_conv notifying_state
    by (rule still.chained [OF notices_kept(3)], rule still.chained [OF notices_kept(5)], rule registry_kept(2))
  show ?thesis
    unfolding handle_rejection_def
    by (intro still.bound_lift still.bound_at)
      (auto simp: or_raise_state registry_kept still.unchanged last intro!: still.bound_at [OF choice_kept] still.bound_at [OF move] still.bound_at [OF stamp])
qed

lemma register_kept: "epoch_kept s (snd (handle_register_request E V m s))"
  unfolding handle_register_request_def
  by (intro still.bound_lift) (simp add: epoch_kept_def split: sum.split)

lemma shielded_kept: "epoch_kept s (snd (handle_shielded_transfer E V m s))"
  unfolding handle_shielded_transfer_def
  by (intro still.bound_lift still.bound_at) (simp_all add: or_raise_state registry_kept notifying_state notices_kept assign_kept)


text \<open>C22: the epoch of a sentinel never goes back, whatever message it receives; it changes only to the epoch of a
  block whose message carries the key of a registered Finalizer, and then no snapshot of an earlier
  epoch stays cached.\<close>

theorem epoch_only_advances:
  assumes "on_data_received E V raw s = (r, t)"
  shows "sn_epoch s \<le> sn_epoch t \<and>
         (sn_epoch t \<noteq> sn_epoch s \<longrightarrow>
            (\<exists>m b. se_un_message E raw = Inr m \<and> msg_action m = ''BlockFinalized'' \<and> se_un_block E (msg_body m) = Inr b \<and>
               map_of (get_nodes (sn_nodes s) Finalizer) (msg_public_key m) \<noteq> None \<and> sn_epoch t = blk_epoch b \<and>
               local_tier (sn_stake_cache t) = [] \<and> local_tier (sn_executor_cache t) = []))"
proof (cases "se_un_message E raw")
  case (Inl e)
  then show ?thesis using assms by (auto simp: on_data_received_def sentinel_io_def bind_lift)
next
  case (Inr m)
  show ?thesis
  proof (cases "msg_action m = ''BlockFinalized''")
    case True
    then show ?thesis
      using assms Inr
      by (auto simp: on_data_received_def sentinel_io_def bind_lift handle_block_finalized_for_epoch_def sentinel_advance_epoch_def invalidate_all_def
          split: sum.splits if_splits)
  next
    case False
    then have "epoch_kept s (snd (on_data_received E V raw s))"
      using Inr
      by (simp add: on_data_received_def sentinel_io_def bind_lift process_kept confirmation_kept rejection_kept register_kept clear_kept
          shielded_kept still.unchanged)
    then show ?thesis using assms by (simp add: epoch_kept_def)
  qed
qed

section \<open>How a transaction in flight is stopped\<close>

text \<open>Any account can stop a transaction in flight: a valid transaction of its own that carries the
  identifier of the other one is refused as a duplicate, but the entry of the other one is gone by then,
  whatever its state and whoever sent it.\<close>

theorem duplicate_id_resets_entry:
  assumes "se_un_tx E (msg_body m) = Inr tx" and "authenticate_sender E m tx = Inr ()"
    and "validate_transaction (se_specs E) (sentinel_token E V) tx = Inr ()"
    and "map_of (transactions (sn_pending s)) (tx_id tx) = Some pt"
  shows "fst (handle_process_request E V m s) = Inl (SeTransactionAlreadyExists (tx_id tx)) \<and>
         map_of (transactions (sn_pending (snd (handle_process_request E V m s)))) (tx_id tx) = Some (pending_new (tx_id tx) Pending)"
  using assms
  by (simp add: handle_process_request_def sentinel_io_def bind_lift bind_alter)
    (simp add: bind_act_def or_raise_def on_registry_def register_pending_def add_transaction_def put_transaction_def record_gas_used_def Let_def update_conv')

text \<open>A finalizer that rejects the transaction assigned to it before the transaction has reached it stops the
  sentinel: when another finalizer is registered, the handler asks for the entry it holds and never
  returns.\<close>

theorem early_rejection_hangs:
  assumes "se_un_str E (msg_body m) = Inr i" and "map_of (transactions (sn_pending s)) i = Some pt" and "pt_state pt = Validated tx v"
    and "finalizer_public_key v = msg_public_key m" and "msg_public_key m \<noteq> []"
    and "\<exists>key \<in> fst ` set (get_nodes (sn_nodes s) Finalizer). key \<noteq> msg_public_key m"
  shows "fst (handle_rejection E V m s) = Inl SeHangs"
proof -
  define pt' where "pt' = pt\<lparr>lock_count := lock_count pt + 1\<rparr>"
  define s1 where "s1 = snd (on_registry (acquire_transaction i) s)"
  have acq: "or_raise (on_registry (acquire_transaction i)) (SeTransactionInTerminalState i) s = (Inr (), s1)"
    and entry: "map_of (transactions (sn_pending s1)) i = Some pt'"
    using assms(2,3)
    by (auto simp: s1_def or_raise_def on_registry_def acquire_transaction_def acquire_def pt'_def put_transaction_def update_conv' is_terminal_def
        split: prod.splits)
  have nodes: "sn_nodes s1 = sn_nodes s" by (simp add: s1_def)
  have asked: "is_requested_finalizer (sn_pending s1) i (msg_public_key m)"
    using entry assms(3-5) by (simp add: is_requested_finalizer_def pt'_def)
  obtain r2 s2 where re: "reassign_finalizer_deterministically E V i (msg_public_key m) s1 = (r2, s2)" by fastforce
  have s2: "sn_pending s2 = sn_pending s1" "sn_nodes s2 = sn_nodes s1"
    using re by (auto simp: reassign_finalizer_deterministically_def assign_finalizer_deterministic_retry_def assign_finalizer_deterministic_def
        bind_act_def Let_def split: option.splits sum.splits prod.splits if_splits)
  obtain key0 where "key0 \<in> set (filter (\<lambda>key. key \<noteq> msg_public_key m) (map fst (get_nodes (sn_nodes s2) Finalizer)))"
    using assms(6) s2(2) nodes by auto
  then obtain key where "choose_new_finalizer E V i (msg_public_key m) s1 = (Inr key, s2)"
    by (cases r2; cases "filter (\<lambda>key. key \<noteq> msg_public_key m) (map fst (get_nodes (sn_nodes s2) Finalizer))")
      (auto simp: choose_new_finalizer_def re fallback_finalizer_def)
  moreover have "move_to_finalizer i key s2 = (Inl SeHangs, s2)" for key
    using entry s2(1) assms(3) by (simp add: move_to_finalizer_def pt'_def)
  ultimately show ?thesis
    using assms(1) acq asked by (simp add: handle_rejection_def sentinel_io_def bind_lift) (simp add: bind_act_def acq)
qed


section \<open>A concrete sentinel\<close>

definition sentinel_crypto :: crypto_provider where
  "sentinel_crypto = demo_crypto\<lparr>sign_data := (\<lambda>d. Inr ([7] @ d)), public_key := Inr [7]\<rparr>"

lemma sentinel_crypto_signs: "signs_correctly sentinel_crypto"
  by (simp add: signs_correctly_def sentinel_crypto_def demo_crypto_def)

text \<open>Its decoders know the transfer \<open>demo_tx\<close>, its identifier and a block of epoch 4; every sender signature verifies.\<close>

definition demo_sentinel_env :: "(bytes, bytes, unit) sentinel_env" where
  "demo_sentinel_env =
     \<lparr>se_environment_id = ''env'', se_partition = ''env'', se_identity = sentinel_crypto,
      se_crypto = demo_crypto\<lparr>check_signature := (\<lambda>_ _ _. Inr True)\<rparr>, se_codec = committer_codec, se_hash = length_hash, se_sha = length_hash,
      se_rng = zero_rng, se_shard_count = 1, se_cost_model = cost_model_default,
      se_specs = [(''Transfer'', \<lambda>tx t. Inr (validation_valid [] (calculate_risk tx)))], se_shielded_spec = True, se_field = demo_field,
      se_max_risk = Fin 1, se_recency = 10, se_fanout = demo_fanout, se_global_min_stake = 10, se_min_type_stake = (\<lambda>_. 10),
      se_un_message = (\<lambda>raw. Inr \<lparr>msg_chain_id = ''env'', msg_action = ''BlockFinalized'', msg_body = raw, msg_signature = [], msg_public_key = [9],
                                  msg_stake_set = None\<rparr>),
      se_un_tx = (\<lambda>_. Inr demo_tx), se_un_str = (\<lambda>_. Inr ''t1''), se_un_register = (\<lambda>_. Inl []),
      se_un_block = (\<lambda>_. Inr ((demo_block [])\<lparr>blk_epoch := 4\<rparr>)), se_un_shielded = (\<lambda>_. Inl []),
      se_rmp_str = (\<lambda>i. Inr (as_bytes i)), se_rmp_message = (\<lambda>m. Inr (msg_body m))\<rparr>"

definition sentinel_sees :: sentinel_view where
  "sentinel_sees =
     \<lparr>sv_now = 0, sv_later = registry_init [], sv_token = (\<lambda>_ _. Inr (demo_token\<lparr>is_self_verified := False\<rparr>)), sv_user = (\<lambda>_ _. Inl DataNotFound),
      sv_stakes = (\<lambda>_ _. Inr \<lparr>stakers = [([9], 10)]\<rparr>), sv_executors = (\<lambda>_ _. Inl DataNotFound), sv_pool = view_new [] 10\<rparr>"

definition sentinel_nodes :: node_registry where
  "sentinel_nodes = (registry_init [])\<lparr>executors_of := [([5], demo_peer)], finalizers := [([9], demo_peer), ([8], demo_peer)]\<rparr>"

definition demo_sentinel :: "pending_registry \<Rightarrow> sentinel" where
  "demo_sentinel r = sentinel_new demo_sentinel_env r sentinel_nodes"

definition process_message :: message where
  "process_message = \<lparr>msg_chain_id = ''env'', msg_action = ''Process'', msg_body = [1], msg_signature = [], msg_public_key = [2],
                      msg_stake_set = None\<rparr>"

definition locked_sentinel :: "u64 \<Rightarrow> sentinel" where
  "locked_sentinel gas = demo_sentinel (registry_new\<lparr>transactions := [(''t1'', \<lparr>pt_id = ''t1'', pt_state = Pending, lock_count = 1\<rparr>)],
     gas_tracker := [(''t1'', gas)]\<rparr>)"

lemma locked_routes:
  "sn_sent (snd (route_and_send demo_sentinel_env sentinel_sees demo_tx (demo_token\<lparr>is_self_verified := False\<rparr>) (locked_sentinel gas))) \<noteq> []"
  by code_simp

lemma demo_admits:
  "se_un_tx demo_sentinel_env (msg_body process_message) = Inr demo_tx" "authenticate_sender demo_sentinel_env process_message demo_tx = Inr ()"
  "validate_transaction (se_specs demo_sentinel_env) (sentinel_token demo_sentinel_env sentinel_sees) demo_tx = Inr ()"
proof -
  show "se_un_tx demo_sentinel_env (msg_body process_message) = Inr demo_tx" by (simp add: demo_sentinel_env_def)
  show "authenticate_sender demo_sentinel_env process_message demo_tx = Inr ()" by code_simp
  show "validate_transaction (se_specs demo_sentinel_env) (sentinel_token demo_sentinel_env sentinel_sees) demo_tx = Inr ()" by code_simp
qed


lemma demo_sends: "sn_sent (snd (handle_process_request demo_sentinel_env sentinel_sees process_message (demo_sentinel registry_new))) \<noteq> []"
proof -
  define g where "g = compute_gas_used demo_sentinel_env demo_tx"
  define s1 where "s1 = demo_sentinel registry_new\<lparr>sn_pending := record_gas_used (tx_id demo_tx) (compute_gas_used demo_sentinel_env demo_tx)
      (sn_pending (demo_sentinel registry_new))\<rparr>"
  define s2 where "s2 = snd (on_registry (register_pending (tx_id demo_tx)) s1)"
  have i: "tx_id demo_tx = ''t1''" by (simp add: demo_tx_def)
  have s1: "s1 = demo_sentinel (registry_new\<lparr>gas_tracker := [(''t1'', g)]\<rparr>)"
    by (simp add: s1_def g_def [symmetric] demo_sentinel_def sentinel_new_def record_gas_used_def i registry_new_def)
  then have pending: "sn_pending s1 = registry_new\<lparr>gas_tracker := [(''t1'', g)]\<rparr>" by (simp add: demo_sentinel_def sentinel_new_def)
  have reg: "register_pending ''t1'' (sn_pending s1) = (Inr (), registry_new\<lparr>gas_tracker := [(''t1'', g)],
      transactions := [(''t1'', \<lparr>pt_id = ''t1'', pt_state = Pending, lock_count = 0\<rparr>)]\<rparr>)"
    unfolding pending by (simp add: register_pending_def add_transaction_def put_transaction_def pending_new_def registry_new_def)
  have pending2: "sn_pending s2 = registry_new\<lparr>gas_tracker := [(''t1'', g)],
      transactions := [(''t1'', \<lparr>pt_id = ''t1'', pt_state = Pending, lock_count = 0\<rparr>)]\<rparr>"
    by (simp add: s2_def i reg)
  have acq: "acquire_transaction ''t1'' (sn_pending s2) = (Inr (), sn_pending (locked_sentinel g))"
    unfolding pending2
    by (simp add: acquire_transaction_def acquire_def is_terminal_def put_transaction_def locked_sentinel_def demo_sentinel_def sentinel_new_def registry_new_def)
  have s3: "locked_sentinel g = snd (on_registry (acquire_transaction (tx_id demo_tx)) s2)"
  proof -
    have "s2\<lparr>sn_pending := p\<rparr> = s1\<lparr>sn_pending := p\<rparr>" for p by (simp add: s2_def on_registry_def case_prod_beta)
    moreover have "snd (on_registry (acquire_transaction (tx_id demo_tx)) s2) = s2\<lparr>sn_pending := sn_pending (locked_sentinel g)\<rparr>"
      by (simp add: on_registry_def i acq)
    ultimately show ?thesis by (simp add: s1 locked_sentinel_def demo_sentinel_def sentinel_new_def)
  qed
  have tok: "sv_token sentinel_sees (tx_token demo_tx) (se_partition demo_sentinel_env) = Inr (demo_token\<lparr>is_self_verified := False\<rparr>)"
    by (simp add: sentinel_sees_def)
  show ?thesis
    using locked_routes [of g] process_run [OF demo_admits s1_def s2_def s3] reg acq tok by (simp add: i)
qed

lemma demo_sent_none: "sn_sent (demo_sentinel r) = []"
  by (simp add: demo_sentinel_def sentinel_new_def)


lemma demo_knows: "knows_sentinel demo_sentinel_env demo_finalizer_env demo_view"
proof -
  have "Sentinel \<in> set (find_node_types_by_public_key demo_env (fv_nodes demo_view) [7])" by code_simp
  then show ?thesis
    by (simp add: knows_sentinel_def demo_sentinel_env_def demo_finalizer_env_def sentinel_crypto_def demo_crypto_def demo_fanout_def)
qed

theorem routed_to_one_finalizer_witness:
  "\<exists>tx1. tx1\<lparr>tx_selection := None\<rparr> = demo_tx \<and> finalize_authority demo_finalizer_env demo_view tx1 = Inr ()"
proof -
  have hyps: "tx_selection demo_tx = None" "signs_correctly (se_identity demo_sentinel_env)"
    "map_of (get_nodes (sn_nodes (demo_sentinel registry_new)) Finalizer) [] = None" "rg_public_key (fo_registry (se_fanout demo_sentinel_env)) \<noteq> []"
    using sentinel_crypto_signs
    by (simp_all add: demo_tx_def demo_sentinel_env_def demo_sentinel_def sentinel_new_def sentinel_nodes_def get_nodes_def demo_fanout_def demo_env_def)
  have sent: "sn_sent (snd (handle_process_request demo_sentinel_env sentinel_sees process_message (demo_sentinel registry_new))) \<noteq> sn_sent (demo_sentinel registry_new)"
    using demo_sends demo_sent_none by simp
  obtain tx1 ss key where tx1: "tx1\<lparr>tx_selection := None\<rparr> = demo_tx"
    and ss: "fst (cache_get (sv_stakes sentinel_sees) (sn_epoch (demo_sentinel registry_new)) (sn_stake_cache (demo_sentinel registry_new))) = Some ss"
      "0 < get_stake ss key"
    and one: "\<forall>(F :: (bytes, bytes) finalizer_env) W. knows_sentinel demo_sentinel_env F W \<longrightarrow> (finalize_authority F W tx1 = Inr () \<longleftrightarrow> fe_public_key F = key)"
    using routed_to_one_finalizer [OF demo_admits(1) prod.collapse [symmetric] sent hyps] by (elim exE conjE) (rule that)
  have "ss = \<lparr>stakers = [([9], 10)]\<rparr>"
    using ss(1) by (simp add: cache_get_def sentinel_sees_def demo_sentinel_def sentinel_new_def cache_new_def)
  then have "key = [9]" using ss(2) by (simp add: get_stake_def split: if_splits)
  moreover have "fe_public_key demo_finalizer_env = [9]" by (simp add: demo_finalizer_env_def)
  ultimately show ?thesis using one demo_knows tx1 by blast
qed

theorem epoch_only_advances_witness:
  "sn_epoch (demo_sentinel registry_new) \<le> sn_epoch (snd (on_data_received demo_sentinel_env sentinel_sees [1] (demo_sentinel registry_new))) \<and>
   sn_epoch (snd (on_data_received demo_sentinel_env sentinel_sees [1] (demo_sentinel registry_new))) = 4"
proof -
  obtain r t where run: "on_data_received demo_sentinel_env sentinel_sees [1] (demo_sentinel registry_new) = (r, t)" by fastforce
  have "sn_epoch (snd (on_data_received demo_sentinel_env sentinel_sees [1] (demo_sentinel registry_new))) = 4" by code_simp
  then show ?thesis using epoch_only_advances [OF run] run by simp
qed

text \<open>The transaction of another sender, assigned to finalizer 9, is in flight under the same identifier.\<close>

definition busy_sentinel :: sentinel where
  "busy_sentinel = demo_sentinel (registry_new\<lparr>transactions := [(''t1'', \<lparr>pt_id = ''t1'',
     pt_state = Validated (demo_tx\<lparr>tx_sender := [6]\<rparr>) (validation_valid [9] (calculate_risk demo_tx)), lock_count = 1\<rparr>)]\<rparr>)"

lemma busy_entry:
  "map_of (transactions (sn_pending busy_sentinel)) ''t1'' =
     Some \<lparr>pt_id = ''t1'', pt_state = Validated (demo_tx\<lparr>tx_sender := [6]\<rparr>) (validation_valid [9] (calculate_risk demo_tx)), lock_count = 1\<rparr>"
  by (simp add: busy_sentinel_def demo_sentinel_def sentinel_new_def)

theorem duplicate_id_resets_entry_witness:
  "map_of (transactions (sn_pending (snd (handle_process_request demo_sentinel_env sentinel_sees process_message busy_sentinel)))) ''t1'' =
     Some (pending_new ''t1'' Pending)"
  using duplicate_id_resets_entry [OF demo_admits, of busy_sentinel] busy_entry by (simp add: demo_tx_def)

theorem early_rejection_hangs_witness:
  "fst (handle_rejection demo_sentinel_env sentinel_sees (process_message\<lparr>msg_public_key := [9]\<rparr>) busy_sentinel) = Inl SeHangs"
  by (rule early_rejection_hangs [OF _ busy_entry, where tx = "demo_tx\<lparr>tx_sender := [6]\<rparr>" and v = "validation_valid [9] (calculate_risk demo_tx)"])
    (simp_all add: demo_sentinel_env_def validation_valid_def busy_sentinel_def demo_sentinel_def sentinel_new_def sentinel_nodes_def get_nodes_def)

end
