(* ===== verification/Spec2Isabelle.thy ===== *)
theory Spec2Isabelle
  imports Leader_Selection Epoch Transaction_Binding Pending_Registry Shielded_Pool Orphan_Buffer Staking Data_Service Quorum
    Node_Registry Validation_Specs Committer_Properties Delivery Gossip Fanout Finalizer_Shielded Pipeline Sentinel_Properties
begin

text \<open>
  A model of the core of Pneumatic, a sharded ledger with stake-weighted leaders, per-token
  chains and a shielded pool.  Nodes of four roles (sentinel, executor, finalizer, committer)
  pass a transaction through admission, execution, finalization and commit; the crate under
  \<^verbatim>\<open>src/src\<close> holds the shared data structures and \<^verbatim>\<open>src/committer\<close> the role that owns the
  committed state.
\<close>

end
